(* ===== verification/Prelude.thy ===== *)
theory Prelude
  imports "HOL-Library.Word"
begin

text \<open>
  What every component of the development shares: the names of Rust's machine integers, the
  bounds-checked reads and writes of slices, little-endian bytes, and the collections of rewrite
  rules the component proofs use.

  Integers keep their width: a Rust \<open>u8\<close>, \<open>u16\<close>, \<open>u32\<close> or \<open>u64\<close> is a word of that
  length, a signed integer is the word of the same length read with \<^verbatim>\<open>sint\<close> (so an \<open>as\<close>
  cast between signed and unsigned of one width is the identity), and \<open>+\<close>, \<open>-\<close> and \<open>*\<close> wrap,
  as they do in the release profile the repository ships (\<^verbatim>\<open>Cargo.toml\<close> sets no
  \<^verbatim>\<open>overflow-checks\<close>). \<open>usize\<close> is \<open>nat\<close>: it only counts bytes and slots held in memory.
\<close>

type_synonym u8 = "8 word"
type_synonym u16 = "16 word"
type_synonym u32 = "32 word"
type_synonym u64 = "64 word"
type_synonym i8 = "8 word"
type_synonym i16 = "16 word"
type_synonym i32 = "32 word"
type_synonym i64 = "64 word"

type_synonym bytes = "u8 list"

text \<open>Collections: unfolding rules of the model's small operations, and frame rules.\<close>

named_theorems model_defs \<open>definitions of small operations, to unfold\<close>
named_theorems frame_simps \<open>what an operation leaves unchanged\<close>

subsection \<open>Slices\<close>

definition slice_get :: "'a list \<Rightarrow> nat \<Rightarrow> 'a option" where
  \<comment> \<open>Rust's \<open>slice.get(i)\<close>\<close>
  "slice_get xs i = (if i < length xs then Some (xs ! i) else None)"

lemma slice_get_Some_iff [simp]: "slice_get xs i = Some x \<longleftrightarrow> i < length xs \<and> xs ! i = x"
  by (auto simp: slice_get_def)

lemma slice_get_None_iff [simp]: "slice_get xs i = None \<longleftrightarrow> length xs \<le> i"
  by (auto simp: slice_get_def)

lemma slice_get_update:
  "slice_get (xs[i := x]) j = (if i = j \<and> i < length xs then Some x else slice_get xs j)"
  by (auto simp: slice_get_def)

lemma slice_get_in_set: "slice_get xs i = Some x \<Longrightarrow> x \<in> set xs"
  by auto

subsection \<open>Little-endian bytes\<close>

text \<open>
  \<open>nat_le n x\<close> writes the low \<open>n\<close> bytes of \<open>x\<close>, least significant first; \<open>le_nat\<close> reads
  such bytes back. \<open>to_le\<close> is \<open>to_le_bytes\<close> of a word with \<open>n\<close> bytes, \<open>from_le\<close> is
  \<open>from_le_bytes\<close>.
\<close>

primrec nat_le :: "nat \<Rightarrow> nat \<Rightarrow> bytes" where
  "nat_le 0 x = []"
| "nat_le (Suc n) x = word_of_nat x # nat_le n (x div 256)"

primrec le_nat :: "bytes \<Rightarrow> nat" where
  "le_nat [] = 0"
| "le_nat (b # bs) = unat b + 256 * le_nat bs"

definition to_le :: "nat \<Rightarrow> 'a::len word \<Rightarrow> bytes" where
  "to_le n w = nat_le n (unat w)"

definition from_le :: "bytes \<Rightarrow> 'a::len word" where
  "from_le bs = word_of_nat (le_nat bs)"

lemma length_nat_le [simp]: "length (nat_le n x) = n"
  by (induction n arbitrary: x) auto

lemma length_to_le [simp]: "length (to_le n w) = n"
  by (simp add: to_le_def)

lemma to_le_neq_Nil [simp]: "0 < n \<Longrightarrow> to_le n w \<noteq> []"
  by (metis length_to_le length_greater_0_conv)

lemma unat_u8_less [simp]: "unat (b :: u8) < 256"
  using unsigned_less [of b] by simp

lemma le_nat_bound: "le_nat bs < 256 ^ length bs"
proof (induction bs)
  case (Cons b bs)
  have "unat b + 256 * le_nat bs < 256 * (le_nat bs + 1)"
    using unat_u8_less [of b] by simp
  also have "\<dots> \<le> 256 * 256 ^ length bs"
    using Cons by simp
  finally show ?case by simp
qed simp

lemma le_nat_nat_le: "le_nat (nat_le n x) = x mod 256 ^ n"
proof (induction n arbitrary: x)
  case (Suc n)
  have "le_nat (nat_le (Suc n) x) = x mod 256 + 256 * (x div 256 mod 256 ^ n)"
    using Suc by (simp add: unat_of_nat)
  also have "\<dots> = x mod 256 ^ Suc n"
    by (simp add: mod_mult2_eq)
  finally show ?case .
qed simp

lemma nat_le_le_nat: "nat_le (length bs) (le_nat bs) = bs"
proof (induction bs)
  case (Cons b bs)
  have "(word_of_nat (unat b + 256 * le_nat bs) :: u8) = b"
    by (simp add: word_unat_eq_iff unat_of_nat del: of_nat_add of_nat_mult)
  then show ?case using Cons by simp
qed simp

lemma from_le_to_le:
  fixes w :: "'a::len word"
  assumes "8 * n = LENGTH('a)"
  shows "from_le (to_le n w) = w"
proof -
  have "(256::nat) ^ n = 2 ^ LENGTH('a)"
    using assms by (simp add: power_mult [symmetric] flip: assms) (simp add: power_mult)
  then show ?thesis
    by (simp add: from_le_def to_le_def le_nat_nat_le word_unat_eq_iff unat_of_nat)
qed

lemma to_le_from_le:
  assumes "8 * length bs = LENGTH('a)"
  shows "to_le (length bs) (from_le bs :: 'a::len word) = bs"
proof -
  have "(256::nat) ^ length bs = 2 ^ LENGTH('a)"
    using assms by (simp flip: assms) (simp add: power_mult)
  then have "unat (from_le bs :: 'a word) = le_nat bs"
    using le_nat_bound [of bs] by (simp add: from_le_def unat_of_nat)
  then show ?thesis by (simp add: to_le_def nat_le_le_nat)
qed

lemma from_le_inject:
  assumes "8 * length bs = LENGTH('a)" "length cs = length bs"
    and "(from_le bs :: 'a::len word) = from_le cs"
  shows "bs = cs"
  by (metis assms to_le_from_le)

lemmas from_le_to_le_widths [simp] =
  from_le_to_le [where 'a = 16 and n = 2, simplified]
  from_le_to_le [where 'a = 32 and n = 4, simplified]
  from_le_to_le [where 'a = 64 and n = 8, simplified]

subsection \<open>Options and saturating arithmetic\<close>

definition unwrap_or :: "'a \<Rightarrow> 'a option \<Rightarrow> 'a" where
  "unwrap_or d x = (case x of None \<Rightarrow> d | Some y \<Rightarrow> y)"

lemma unwrap_or_simps [simp]: "unwrap_or d None = d" "unwrap_or d (Some x) = x"
  by (simp_all add: unwrap_or_def)

definition saturating_add :: "'a::len word \<Rightarrow> 'a word \<Rightarrow> 'a word" where
  "saturating_add a b = (if unat a + unat b < 2 ^ LENGTH('a) then a + b else - 1)"

definition saturating_sub :: "'a::len word \<Rightarrow> 'a word \<Rightarrow> 'a word" where
  "saturating_sub a b = (if b \<le> a then a - b else 0)"

definition saturating_mul :: "'a::len word \<Rightarrow> 'a word \<Rightarrow> 'a word" where
  "saturating_mul a b = (if unat a * unat b < 2 ^ LENGTH('a) then a * b else - 1)"

lemma unat_saturating_mul:
  "unat (saturating_mul a b) = min (unat a * unat b) (2 ^ LENGTH('a) - 1)" for a b :: "'a::len word"
  by (auto simp: saturating_mul_def unat_word_ariths(2) unsigned_minus_1_eq_mask mask_eq_exp_minus_1)

definition saturating_add_i32 :: "i32 \<Rightarrow> i32 \<Rightarrow> i32" where
  "saturating_add_i32 a b = word_of_int (max (- (2 ^ 31)) (min (2 ^ 31 - 1) (sint a + sint b)))"

lemma unat_saturating_add:
  "unat (saturating_add a b) = min (unat a + unat b) (2 ^ LENGTH('a) - 1)" for a b :: "'a::len word"
  by (auto simp: saturating_add_def unat_word_ariths(1) unsigned_minus_1_eq_mask mask_eq_exp_minus_1)

lemma unat_saturating_sub: "unat (saturating_sub a b) = unat a - unat b"
  by (auto simp: saturating_sub_def unat_sub word_le_nat_alt)

lemma unat_less_wider: "LENGTH('b::len) \<le> n \<Longrightarrow> unat (w :: 'b word) < 2 ^ n"
  using unsigned_less [of w, where 'a = nat] power_increasing [of "LENGTH('b)" n "2 :: nat"]
  by linarith

lemma unat_widen [simp]:
  "unat (ucast (x :: u8) :: u16) = unat x" "unat (ucast (x :: u8) :: u32) = unat x"
  "unat (ucast (y :: u16) :: u32) = unat y" "unat (ucast (z :: u32) :: u64) = unat z"
  by (simp_all only: unsigned_ucast_eq) (rule take_bit_nat_eq_self, rule unat_less_wider, simp)+

lemma unat_sum_list:
  "sum_list (map unat ws) < 2 ^ LENGTH('a) \<Longrightarrow> unat (sum_list ws) = sum_list (map unat ws)"
  for ws :: "'a::len word list"
  by (induction ws) (simp_all add: unat_word_ariths(1))

end
