(* ===== verification/Rust_Str.thy ===== *)
theory Rust_Str
  imports Prelude
begin

text \<open>
  Strings on the wire (\<^verbatim>\<open>crates/ko-protocol/src/packet.rs\<close>, lines 37 to 183). A Rust \<open>char\<close> is
  its code point, a \<open>String\<close> the list of its code points; the UTF-8 validation, decoding and
  encoding of the standard library (\<open>str::from_utf8\<close>, \<open>as_bytes\<close>) are written out, and
  the two conversion functions between Windows-1254 bytes and code points keep the source's tables
  and the order of its match arms.
\<close>

type_synonym rchar = nat
type_synonym rstr = "rchar list"

definition is_scalar :: "rchar \<Rightarrow> bool" where
  \<comment> \<open>what a Rust \<open>char\<close> can be: a Unicode scalar value\<close>
  "is_scalar c \<longleftrightarrow> c < 0xD800 \<or> 0xE000 \<le> c \<and> c < 0x110000"

definition valid_str :: "rstr \<Rightarrow> bool" where
  "valid_str s \<longleftrightarrow> list_all is_scalar s"

definition is_ascii_str :: "rstr \<Rightarrow> bool" where
  "is_ascii_str s \<longleftrightarrow> list_all (\<lambda>c. c \<le> 0x7F) s"

subsection \<open>UTF-8\<close>

definition utf8_char :: "rchar \<Rightarrow> bytes" where
  "utf8_char c =
     (if c < 0x80 then [word_of_nat c]
      else if c < 0x800 then [word_of_nat (0xC0 + c div 64), word_of_nat (0x80 + c mod 64)]
      else if c < 0x10000 then
        [word_of_nat (0xE0 + c div 4096), word_of_nat (0x80 + c div 64 mod 64),
         word_of_nat (0x80 + c mod 64)]
      else
        [word_of_nat (0xF0 + c div 262144), word_of_nat (0x80 + c div 4096 mod 64),
         word_of_nat (0x80 + c div 64 mod 64), word_of_nat (0x80 + c mod 64)])"

definition utf8_bytes :: "rstr \<Rightarrow> bytes" where
  \<comment> \<open>\<open>as_bytes\<close>\<close>
  "utf8_bytes s = concat (map utf8_char s)"

definition is_cont :: "u8 \<Rightarrow> bool" where
  "is_cont b \<longleftrightarrow> 0x80 \<le> unat b \<and> unat b < 0xC0"

definition cont_bits :: "u8 \<Rightarrow> nat" where
  "cont_bits b = unat b - 0x80"

fun utf8_decode :: "bytes \<Rightarrow> rstr option" where
  \<comment> \<open>\<open>str::from_utf8\<close>: rejects stray and missing continuation bytes, overlong forms,
    surrogates and code points above \<open>0x10FFFF\<close>\<close>
  "utf8_decode [] = Some []"
| "utf8_decode (b # bs) =
     (let n = unat b in
      if n < 0x80 then map_option ((#) n) (utf8_decode bs)
      else if n < 0xC2 then None
      else if n < 0xE0 then
        (case bs of
           b1 # r \<Rightarrow>
             if is_cont b1
             then map_option ((#) ((n - 0xC0) * 64 + cont_bits b1)) (utf8_decode r) else None
         | _ \<Rightarrow> None)
      else if n < 0xF0 then
        (case bs of
           b1 # b2 # r \<Rightarrow>
             let c = (n - 0xE0) * 4096 + cont_bits b1 * 64 + cont_bits b2 in
             if is_cont b1 \<and> is_cont b2 \<and> 0x800 \<le> c \<and> is_scalar c
             then map_option ((#) c) (utf8_decode r) else None
         | _ \<Rightarrow> None)
      else if n < 0xF5 then
        (case bs of
           b1 # b2 # b3 # r \<Rightarrow>
             let c = (n - 0xF0) * 262144 + cont_bits b1 * 4096 + cont_bits b2 * 64 + cont_bits b3 in
             if is_cont b1 \<and> is_cont b2 \<and> is_cont b3 \<and> 0x10000 \<le> c \<and> is_scalar c
             then map_option ((#) c) (utf8_decode r) else None
         | _ \<Rightarrow> None)
      else None)"

subsection \<open>Windows-1254\<close>

definition win1254_decode_table :: "(u8 \<times> rchar) list" where
  "win1254_decode_table =
     [(0x80, 0x20AC), (0x82, 0x201A), (0x83, 0x0192), (0x84, 0x201E), (0x85, 0x2026),
     (0x86, 0x2020), (0x87, 0x2021), (0x88, 0x02C6), (0x89, 0x2030), (0x8A, 0x0160),
     (0x8B, 0x2039), (0x8C, 0x0152), (0x91, 0x2018), (0x92, 0x2019), (0x93, 0x201C),
     (0x94, 0x201D), (0x95, 0x2022), (0x96, 0x2013), (0x97, 0x2014), (0x98, 0x02DC),
     (0x99, 0x2122), (0x9A, 0x0161), (0x9B, 0x203A), (0x9C, 0x0153), (0x9F, 0x0178),
     (0xD0, 0x011E), (0xDD, 0x0130), (0xDE, 0x015E), (0xF0, 0x011F), (0xFD, 0x0131),
     (0xFE, 0x015F)]"

definition win1254_undefined :: "u8 list" where
  "win1254_undefined = [0x81, 0x8D, 0x8E, 0x8F, 0x90, 0x9D, 0x9E]"

definition win1254_to_unicode :: "u8 \<Rightarrow> rchar" where
  "win1254_to_unicode b =
     (if b \<le> 0x7F then unat b
      else case map_of win1254_decode_table b of
             Some c \<Rightarrow> c
           | None \<Rightarrow> if b \<in> set win1254_undefined then 0xFFFD else unat b)"

definition win1254_encode_table :: "(rchar \<times> u8) list" where
  "win1254_encode_table =
     [(0x011E, 0xD0), (0x011F, 0xF0), (0x0130, 0xDD), (0x0131, 0xFD), (0x015E, 0xDE),
     (0x015F, 0xFE), (0x20AC, 0x80), (0x201A, 0x82), (0x0192, 0x83), (0x201E, 0x84),
     (0x2026, 0x85), (0x2020, 0x86), (0x2021, 0x87), (0x02C6, 0x88), (0x2030, 0x89),
     (0x0160, 0x8A), (0x2039, 0x8B), (0x0152, 0x8C), (0x2018, 0x91), (0x2019, 0x92),
     (0x201C, 0x93), (0x201D, 0x94), (0x2022, 0x95), (0x2013, 0x96), (0x2014, 0x97),
     (0x02DC, 0x98), (0x2122, 0x99), (0x0161, 0x9A), (0x203A, 0x9B), (0x0153, 0x9C),
     (0x0178, 0x9F)]"

definition latin1_replaced :: "rchar list" where
  \<comment> \<open>the six Icelandic letters whose bytes Windows-1254 gives to Turkish ones\<close>
  "latin1_replaced = [0xD0, 0xDD, 0xDE, 0xF0, 0xFD, 0xFE]"

definition unicode_to_win1254 :: "rchar \<Rightarrow> u8 option" where
  "unicode_to_win1254 c =
     (if c \<le> 0x7F then Some (word_of_nat c)
      else case map_of win1254_encode_table c of
             Some b \<Rightarrow> Some b
           | None \<Rightarrow>
               if c \<in> set latin1_replaced then None
               else if 0xA0 \<le> c \<and> c \<le> 0xFF then Some (word_of_nat c)
               else None)"

definition decode_win1254 :: "bytes \<Rightarrow> rstr" where
  "decode_win1254 bs =
     (case utf8_decode bs of Some s \<Rightarrow> s | None \<Rightarrow> map win1254_to_unicode bs)"

primrec encode_chars :: "rstr \<Rightarrow> bytes option" where
  \<comment> \<open>the loop over \<open>s.chars()\<close>; \<open>None\<close> is \<open>all_ok = false\<close>\<close>
  "encode_chars [] = Some []"
| "encode_chars (c # cs) =
     (case unicode_to_win1254 c of
        None \<Rightarrow> None
      | Some b \<Rightarrow> map_option ((#) b) (encode_chars cs))"

definition encode_string_bytes :: "rstr \<Rightarrow> bytes" where
  "encode_string_bytes s =
     (if is_ascii_str s then utf8_bytes s
      else case encode_chars s of Some bs \<Rightarrow> bs | None \<Rightarrow> utf8_bytes s)"

subsection \<open>UTF-8 decodes what it encodes\<close>

lemma unat_u8_of_nat [simp]: "n < 256 \<Longrightarrow> unat (word_of_nat n :: u8) = n"
  by (simp add: unat_of_nat)

lemma cont_byte [simp]:
  "is_cont (word_of_nat (0x80 + n mod 64))" "cont_bits (word_of_nat (0x80 + n mod 64)) = n mod 64"
proof -
  have "n mod 64 < 64" by simp
  then have "0x80 + n mod 64 < 256" by linarith
  then show "is_cont (word_of_nat (0x80 + n mod 64))"
    and "cont_bits (word_of_nat (0x80 + n mod 64)) = n mod 64"
    by (simp_all add: is_cont_def cont_bits_def del: of_nat_add)
qed

lemma div_mod_split3: "(c::nat) div 4096 * 4096 + c div 64 mod 64 * 64 + c mod 64 = c"
proof -
  have "c div 4096 = c div 64 div 64" by (simp add: div_mult2_eq [symmetric])
  then show ?thesis
    using div_mult_mod_eq [of c 64] div_mult_mod_eq [of "c div 64" 64] by linarith
qed

lemma div_mod_split4:
  "(c::nat) div 262144 * 262144 + c div 4096 mod 64 * 4096 + c div 64 mod 64 * 64 + c mod 64 = c"
proof -
  have "c div 262144 = c div 4096 div 64" by (simp add: div_mult2_eq [symmetric])
  then show ?thesis
    using div_mod_split3 [of c] div_mult_mod_eq [of "c div 4096" 64] by linarith
qed

lemma utf8_decode_char:
  assumes "is_scalar c"
  shows "utf8_decode (utf8_char c @ bs) = map_option ((#) c) (utf8_decode bs)"
proof -
  consider "c < 0x80" | "0x80 \<le> c" "c < 0x800" | "0x800 \<le> c" "c < 0x10000"
    | "0x10000 \<le> c" "c < 0x110000"
    using assms by (force simp: is_scalar_def)
  then show ?thesis
  proof cases
    case 1
    then show ?thesis by (simp add: utf8_char_def)
  next
    case 2
    then have d: "c div 64 < 32" "\<not> c div 64 < 2" by auto
    show ?thesis using 2 div_mult_mod_eq [of c 64]
      by (simp add: utf8_char_def Let_def d del: of_nat_add)
  next
    case 3
    then have d: "c div 4096 < 16" by auto
    show ?thesis using 3 assms div_mod_split3 [of c]
      by (simp add: utf8_char_def Let_def d del: of_nat_add)
  next
    case 4
    then have d: "c div 262144 < 5" by auto
    show ?thesis using 4 assms div_mod_split4 [of c]
      by (simp add: utf8_char_def Let_def d del: of_nat_add)
  qed
qed

lemma utf8_decode_bytes: "valid_str s \<Longrightarrow> utf8_decode (utf8_bytes s) = Some s"
  by (induction s) (auto simp: valid_str_def utf8_bytes_def utf8_decode_char)

subsection \<open>The Windows-1254 tables agree\<close>

lemma decode_table_back:
  "list_all (\<lambda>(b, c). unicode_to_win1254 c = Some b) win1254_decode_table"
  by (simp add: win1254_decode_table_def unicode_to_win1254_def win1254_encode_table_def)

lemma encode_table_back:
  "list_all (\<lambda>(c, b). win1254_to_unicode b = c) win1254_encode_table"
  by (simp add: win1254_decode_table_def win1254_to_unicode_def win1254_encode_table_def)

lemma encode_table_keys: "list_all (\<lambda>(c, b). 0xFF < c) win1254_encode_table"
  by (simp add: win1254_encode_table_def)

lemma decode_table_keys:
  "list_all (\<lambda>(b, c). unat b < 0xA0 \<or> unat b \<in> set latin1_replaced) win1254_decode_table"
  by (simp add: win1254_decode_table_def latin1_replaced_def)

lemma replaced_in_decode_table:
  "list_all (\<lambda>c. map_of win1254_decode_table (word_of_nat c) \<noteq> None) latin1_replaced"
  by (simp add: win1254_decode_table_def latin1_replaced_def)

lemma c1_bytes_covered:
  "\<forall>n \<in> set [0x80..<0xA0]. map_of win1254_decode_table (word_of_nat n) \<noteq> None
     \<or> word_of_nat n \<in> set win1254_undefined"
  by (simp add: win1254_decode_table_def win1254_undefined_def upt_rec)

lemma latin1_not_in_tables:
  assumes "0xA0 \<le> c" "c \<le> 0xFF" "c \<notin> set latin1_replaced"
  shows "map_of win1254_encode_table c = None"
    and "map_of win1254_decode_table (word_of_nat c) = None"
    and "(word_of_nat c :: u8) \<notin> set win1254_undefined"
proof -
  have u: "unat (word_of_nat c :: u8) = c" using assms by simp
  show "map_of win1254_encode_table c = None"
    using encode_table_keys assms by (auto simp: map_of_eq_None_iff list_all_iff)
  show "map_of win1254_decode_table (word_of_nat c) = None"
  proof (rule ccontr)
    assume "map_of win1254_decode_table (word_of_nat c) \<noteq> None"
    then obtain x where "(word_of_nat c, x) \<in> set win1254_decode_table"
      by (auto dest: map_of_SomeD)
    then show False using decode_table_keys u assms by (force simp: list_all_iff)
  qed
  have "\<forall>b \<in> set win1254_undefined. unat b < 0xA0"
    by (simp add: win1254_undefined_def)
  then show "(word_of_nat c :: u8) \<notin> set win1254_undefined"
    using u assms by force
qed

lemma win1254_to_unicode_latin1:
  assumes "0xA0 \<le> c" "c \<le> 0xFF" "c \<notin> set latin1_replaced"
  shows "win1254_to_unicode (word_of_nat c) = c"
  using latin1_not_in_tables [OF assms] assms
  by (simp add: win1254_to_unicode_def word_le_nat_alt)

lemma high_byte_not_in_table:
  assumes "\<not> (b :: u8) \<le> 0x7F" "map_of win1254_decode_table b = None"
    "b \<notin> set win1254_undefined"
  shows "0xA0 \<le> unat b" "unat b \<notin> set latin1_replaced"
proof -
  show "0xA0 \<le> unat b"
  proof (rule ccontr)
    assume "\<not> 0xA0 \<le> unat b"
    then have "unat b \<in> set [0x80..<0xA0]"
      using assms(1) by (simp only: set_upt atLeastLessThan_iff) (simp add: word_le_nat_alt)
    from bspec [OF c1_bytes_covered this] assms(2,3) show False by simp
  qed
  show "unat b \<notin> set latin1_replaced"
    using replaced_in_decode_table assms(2) by (auto simp: list_all_iff)
qed

text \<open>Every byte comes back from its code point, but for the seven undefined ones.\<close>

lemma win1254_byte_back:
  "unicode_to_win1254 (win1254_to_unicode b) =
     (if b \<in> set win1254_undefined then None else Some b)"
proof -
  have u: "\<forall>b \<in> set win1254_undefined. \<not> b \<le> 0x7F \<and> map_of win1254_decode_table b = None"
    by (simp add: win1254_undefined_def win1254_decode_table_def)
  have f: "unicode_to_win1254 0xFFFD = None"
    by (simp add: unicode_to_win1254_def win1254_encode_table_def latin1_replaced_def)
  consider "b \<le> 0x7F" | c where "\<not> b \<le> 0x7F" "map_of win1254_decode_table b = Some c"
    | "\<not> b \<le> 0x7F" "map_of win1254_decode_table b = None"
    by (cases "map_of win1254_decode_table b") auto
  then show ?thesis
  proof cases
    case 1
    then show ?thesis using u
      by (auto simp: win1254_to_unicode_def unicode_to_win1254_def word_le_nat_alt)
  next
    case 2
    then have "(b, c) \<in> set win1254_decode_table" by (auto dest: map_of_SomeD)
    then show ?thesis using 2 u decode_table_back
      by (auto simp: win1254_to_unicode_def list_all_iff)
  next
    case 3
    show ?thesis
    proof (cases "b \<in> set win1254_undefined")
      case True
      then show ?thesis using 3 f by (simp add: win1254_to_unicode_def)
    next
      case False
      note h = high_byte_not_in_table [OF 3 False]
      have "unat b \<le> 0xFF" using unat_u8_less [of b] by linarith
      then show ?thesis using 3 False h latin1_not_in_tables(1) [of "unat b"]
        by (simp add: win1254_to_unicode_def unicode_to_win1254_def)
    qed
  qed
qed

lemma win1254_ascii_back: "c \<le> 0x7F \<Longrightarrow> win1254_to_unicode (word_of_nat c) = c"
  by (simp add: win1254_to_unicode_def word_le_nat_alt)

lemma win1254_char_back:
  assumes "unicode_to_win1254 c = Some b"
  shows "win1254_to_unicode b = c"
proof (cases "c \<le> 0x7F")
  case True
  then show ?thesis using assms by (auto simp: unicode_to_win1254_def win1254_ascii_back)
next
  case False
  show ?thesis
  proof (cases "map_of win1254_encode_table c")
    case (Some b')
    then have "(c, b') \<in> set win1254_encode_table" by (rule map_of_SomeD)
    then show ?thesis using False Some assms encode_table_back
      by (auto simp: unicode_to_win1254_def list_all_iff)
  next
    case None
    then have "c \<notin> set latin1_replaced" "0xA0 \<le> c" "c \<le> 0xFF" "b = word_of_nat c"
      using False assms by (auto simp: unicode_to_win1254_def split: if_splits)
    then show ?thesis using win1254_to_unicode_latin1 by blast
  qed
qed

lemma encode_chars_back:
  "encode_chars s = Some bs \<Longrightarrow> map win1254_to_unicode bs = s"
  by (induction s arbitrary: bs) (auto split: option.splits dest: win1254_char_back)

lemma encode_chars_Some: "\<forall>c \<in> set s. unicode_to_win1254 c \<noteq> None \<Longrightarrow> encode_chars s \<noteq> None"
  by (induction s) auto

subsection \<open>The round trip of strings, and where it fails\<close>

lemma utf8_bytes_ascii: "is_ascii_str s \<Longrightarrow> valid_str s"
  by (auto simp: is_ascii_str_def valid_str_def list_all_iff is_scalar_def)

lemma decode_encode_string:
  assumes "valid_str s"
  shows "decode_win1254 (encode_string_bytes s) = s \<longleftrightarrow>
    is_ascii_str s \<or> encode_chars s = None
      \<or> utf8_decode (encode_string_bytes s) = None \<or> utf8_decode (encode_string_bytes s) = Some s"
  using assms utf8_decode_bytes [OF assms] encode_chars_back [of s]
  by (auto simp: decode_win1254_def encode_string_bytes_def split: option.splits)

end
