(* ===== verification/Packet.thy ===== *)
theory Packet
  imports Rust_Str
begin

text \<open>
  Packets and the reading cursor (\<^verbatim>\<open>crates/ko-protocol/src/packet.rs\<close>, lines 19 to 35 and 185
  to 563). A \<open>&mut self\<close> method returns the updated packet or cursor; \<open>None\<close> of a read is the
  source's \<open>None\<close>; \<open>None\<close> of \<open>put_u16_at\<close>, \<open>put_u8_at\<close> and
  \<open>read_remaining\<close> is an index panic. An \<open>f32\<close> is its bit pattern. The LZF compressor of
  the \<^verbatim>\<open>lzf\<close> crate is an argument.
\<close>

definition HEADER_INCOMING :: bytes where "HEADER_INCOMING = [0xAA, 0x55]"
definition FOOTER_INCOMING :: bytes where "FOOTER_INCOMING = [0x55, 0xAA]"
definition HEADER_OUTGOING :: bytes where "HEADER_OUTGOING = [0xAA, 0x55]"
definition FOOTER_OUTGOING :: bytes where "FOOTER_OUTGOING = [0x55, 0xAA]"
definition OUTGOING_CRYPTO_MAGIC :: u16 where "OUTGOING_CRYPTO_MAGIC = 0x1EFC"
definition MAX_PACKET_SIZE :: nat where "MAX_PACKET_SIZE = 65536"

record packet =
  opcode :: u8
  pdata :: bytes
  plaintext :: bool

definition packet_new :: "u8 \<Rightarrow> packet" where
  "packet_new op = \<lparr>opcode = op, pdata = [], plaintext = False\<rparr>"

definition with_data :: "u8 \<Rightarrow> bytes \<Rightarrow> packet" where
  "with_data op d = \<lparr>opcode = op, pdata = d, plaintext = False\<rparr>"

definition new_plaintext :: "u8 \<Rightarrow> packet" where
  "new_plaintext op = \<lparr>opcode = op, pdata = [], plaintext = True\<rparr>"

subsection \<open>Writing\<close>

definition write_bytes :: "bytes \<Rightarrow> packet \<Rightarrow> packet" where
  "write_bytes bs p = p\<lparr>pdata := pdata p @ bs\<rparr>"

definition write_u8 :: "u8 \<Rightarrow> packet \<Rightarrow> packet" where
  "write_u8 v p = p\<lparr>pdata := pdata p @ [v]\<rparr>"

definition write_i8 :: "i8 \<Rightarrow> packet \<Rightarrow> packet" where
  "write_i8 v p = p\<lparr>pdata := pdata p @ [v]\<rparr>"

definition write_u16 :: "u16 \<Rightarrow> packet \<Rightarrow> packet" where
  "write_u16 v p = p\<lparr>pdata := pdata p @ to_le 2 v\<rparr>"

definition write_i16 :: "i16 \<Rightarrow> packet \<Rightarrow> packet" where
  "write_i16 v p = p\<lparr>pdata := pdata p @ to_le 2 v\<rparr>"

definition write_u32 :: "u32 \<Rightarrow> packet \<Rightarrow> packet" where
  "write_u32 v p = p\<lparr>pdata := pdata p @ to_le 4 v\<rparr>"

definition write_i32 :: "i32 \<Rightarrow> packet \<Rightarrow> packet" where
  "write_i32 v p = p\<lparr>pdata := pdata p @ to_le 4 v\<rparr>"

definition write_u64 :: "u64 \<Rightarrow> packet \<Rightarrow> packet" where
  "write_u64 v p = p\<lparr>pdata := pdata p @ to_le 8 v\<rparr>"

definition write_i64 :: "i64 \<Rightarrow> packet \<Rightarrow> packet" where
  "write_i64 v p = p\<lparr>pdata := pdata p @ to_le 8 v\<rparr>"

definition write_f32 :: "u32 \<Rightarrow> packet \<Rightarrow> packet" where
  "write_f32 v p = p\<lparr>pdata := pdata p @ to_le 4 v\<rparr>"

definition write_string :: "rstr \<Rightarrow> packet \<Rightarrow> packet" where
  "write_string s p =
     (let bs = encode_string_bytes s in
      write_bytes bs (write_u16 (word_of_nat (length bs)) p))"

definition write_string_raw :: "bytes \<Rightarrow> packet \<Rightarrow> packet" where
  "write_string_raw bs p = write_bytes bs (write_u16 (word_of_nat (length bs)) p)"

definition write_sbyte_string :: "rstr \<Rightarrow> packet \<Rightarrow> packet" where
  "write_sbyte_string s p =
     (let bs = encode_string_bytes s in
      write_bytes bs (write_u8 (word_of_nat (length bs)) p))"

definition put_u16_at :: "nat \<Rightarrow> u16 \<Rightarrow> packet \<Rightarrow> packet option" where
  "put_u16_at off v p =
     (let bs = to_le 2 v in
      if off + 1 < length (pdata p)
      then Some (p\<lparr>pdata := (pdata p)[off := bs ! 0, off + 1 := bs ! 1]\<rparr>) else None)"

definition put_u8_at :: "nat \<Rightarrow> u8 \<Rightarrow> packet \<Rightarrow> packet option" where
  "put_u8_at off v p =
     (if off < length (pdata p) then Some (p\<lparr>pdata := (pdata p)[off := v]\<rparr>) else None)"

definition wpos :: "packet \<Rightarrow> nat" where
  "wpos p = length (pdata p)"

definition to_compressed :: "(bytes \<Rightarrow> bytes option) \<Rightarrow> packet \<Rightarrow> packet option" where
  "to_compressed lzf p =
     (if length (pdata p) < 500 then None
      else
        let in_length = 1 + length (pdata p); buffer = opcode p # pdata p in
        case lzf buffer of
          None \<Rightarrow> None
        | Some compressed \<Rightarrow>
            Some (write_bytes compressed (write_u32 0 (write_u32 (word_of_nat in_length)
                   (write_u32 (word_of_nat (length compressed)) (packet_new 0x42))))))"

definition to_outbound_frame :: "packet \<Rightarrow> bytes" where
  "to_outbound_frame p =
     (let payload_len = 1 + length (pdata p) in
      HEADER_OUTGOING @ to_le 2 (word_of_nat payload_len :: u16) @ [opcode p] @ pdata p
        @ FOOTER_OUTGOING)"

subsection \<open>Reading\<close>

record reader =
  rd_data :: bytes
  rd_pos :: nat

definition reader_new :: "bytes \<Rightarrow> reader" where
  "reader_new d = \<lparr>rd_data = d, rd_pos = 0\<rparr>"

definition remaining :: "reader \<Rightarrow> nat" where
  "remaining r = length (rd_data r) - rd_pos r"

definition read_le :: "nat \<Rightarrow> reader \<Rightarrow> 'a::len word option \<times> reader" where
  \<comment> \<open>the body shared by the fixed-width reads: \<open>n\<close> bytes at the cursor, or \<open>None\<close>\<close>
  "read_le n r =
     (if rd_pos r + n \<le> length (rd_data r)
      then (Some (from_le (take n (drop (rd_pos r) (rd_data r)))), r\<lparr>rd_pos := rd_pos r + n\<rparr>)
      else (None, r))"

definition read_u8 :: "reader \<Rightarrow> u8 option \<times> reader" where
  "read_u8 r =
     (if rd_pos r < length (rd_data r)
      then (Some (rd_data r ! rd_pos r), r\<lparr>rd_pos := rd_pos r + 1\<rparr>)
      else (None, r))"

definition read_i8 :: "reader \<Rightarrow> i8 option \<times> reader" where
  "read_i8 r =
     (if rd_pos r < length (rd_data r)
      then (Some (rd_data r ! rd_pos r), r\<lparr>rd_pos := rd_pos r + 1\<rparr>)
      else (None, r))"

definition read_u16 :: "reader \<Rightarrow> u16 option \<times> reader" where "read_u16 = read_le 2"
definition read_i16 :: "reader \<Rightarrow> i16 option \<times> reader" where "read_i16 = read_le 2"
definition read_u32 :: "reader \<Rightarrow> u32 option \<times> reader" where "read_u32 = read_le 4"
definition read_i32 :: "reader \<Rightarrow> i32 option \<times> reader" where "read_i32 = read_le 4"
definition read_f32 :: "reader \<Rightarrow> u32 option \<times> reader" where "read_f32 = read_le 4"
definition read_u64 :: "reader \<Rightarrow> u64 option \<times> reader" where "read_u64 = read_le 8"
definition read_i64 :: "reader \<Rightarrow> i64 option \<times> reader" where "read_i64 = read_le 8"

definition MAX_STRING_LEN :: nat where "MAX_STRING_LEN = 16384"

definition read_string_raw :: "reader \<Rightarrow> bytes option \<times> reader" where
  "read_string_raw r =
     (case read_u16 r of
        (None, r1) \<Rightarrow> (None, r1)
      | (Some l, r1) \<Rightarrow>
          let len = unat l in
          if len > MAX_STRING_LEN \<or> rd_pos r1 + len > length (rd_data r1) then (None, r1)
          else (Some (take len (drop (rd_pos r1) (rd_data r1))),
                r1\<lparr>rd_pos := rd_pos r1 + len\<rparr>))"

definition read_string :: "reader \<Rightarrow> rstr option \<times> reader" where
  "read_string r =
     (case read_u16 r of
        (None, r1) \<Rightarrow> (None, r1)
      | (Some l, r1) \<Rightarrow>
          let len = unat l in
          if len > MAX_STRING_LEN \<or> rd_pos r1 + len > length (rd_data r1) then (None, r1)
          else (Some (decode_win1254 (take len (drop (rd_pos r1) (rd_data r1)))),
                r1\<lparr>rd_pos := rd_pos r1 + len\<rparr>))"

definition read_sbyte_string :: "reader \<Rightarrow> rstr option \<times> reader" where
  "read_sbyte_string r =
     (case read_u8 r of
        (None, r1) \<Rightarrow> (None, r1)
      | (Some l, r1) \<Rightarrow>
          let len = unat l in
          if rd_pos r1 + len \<le> length (rd_data r1)
          then (Some (decode_win1254 (take len (drop (rd_pos r1) (rd_data r1)))),
                r1\<lparr>rd_pos := rd_pos r1 + len\<rparr>)
          else (None, r1))"

definition read_remaining :: "reader \<Rightarrow> (bytes \<times> reader) option" where
  "read_remaining r =
     (if rd_pos r \<le> length (rd_data r)
      then Some (drop (rd_pos r) (rd_data r), r\<lparr>rd_pos := length (rd_data r)\<rparr>)
      else None)"

lemmas write_defs =
  write_bytes_def write_u8_def write_i8_def write_u16_def write_i16_def write_u32_def
  write_i32_def write_u64_def write_i64_def write_f32_def write_string_def write_string_raw_def
  write_sbyte_string_def

lemmas read_word_defs =
  read_u16_def read_i16_def read_u32_def read_i32_def read_f32_def read_u64_def read_i64_def

subsection \<open>The cursor stays inside the data\<close>

definition reader_ok :: "reader \<Rightarrow> bool" where
  "reader_ok r \<longleftrightarrow> rd_pos r \<le> length (rd_data r)"

text \<open>
  What every read of the cursor promises: it keeps the data, never moves backwards and never past
  the end, whatever the bytes are; and a value written where the cursor stands is read back.
\<close>

locale cursor_read =
  fixes rd :: "reader \<Rightarrow> 'v option \<times> reader"
  assumes rd_data_kept: "rd_data (snd (rd r)) = rd_data r"
    and rd_pos_mono: "rd_pos r \<le> rd_pos (snd (rd r))"
    and rd_pos_bound: "reader_ok r \<Longrightarrow> reader_ok (snd (rd r))"
begin

lemma step_inv: "reader_ok r \<Longrightarrow> rd r = (v, r') \<Longrightarrow>
    reader_ok r' \<and> rd_data r' = rd_data r \<and> rd_pos r \<le> rd_pos r'"
  using rd_data_kept [of r] rd_pos_mono [of r] rd_pos_bound [of r] by simp

end

locale field_codec = cursor_read rd
  for rd :: "reader \<Rightarrow> 'v option \<times> reader" +
  fixes wr :: "'v \<Rightarrow> packet \<Rightarrow> packet" and enc :: "'v \<Rightarrow> bytes" and ok :: "'v \<Rightarrow> bool"
  assumes wr_enc: "wr v p = p\<lparr>pdata := pdata p @ enc v\<rparr>"
    and rd_enc: "ok v \<Longrightarrow> rd \<lparr>rd_data = pre @ enc v @ post, rd_pos = length pre\<rparr> =
      (Some v, \<lparr>rd_data = pre @ enc v @ post, rd_pos = length pre + length (enc v)\<rparr>)"
begin

lemma read_back:
  assumes "ok v"
  shows "rd \<lparr>rd_data = pdata (wr v p) @ post, rd_pos = length (pdata p)\<rparr> =
    (Some v, \<lparr>rd_data = pdata (wr v p) @ post, rd_pos = length (pdata (wr v p))\<rparr>)"
  using rd_enc [OF assms, of "pdata p" post] by (simp add: wr_enc)

end

lemma read_le_cursor: "cursor_read (read_le n)"
  by unfold_locales (auto simp: read_le_def reader_ok_def)

lemma read_le_to_le:
  fixes w :: "'a::len word"
  assumes "8 * n = LENGTH('a)"
  shows "read_le n \<lparr>rd_data = pre @ to_le n w @ post, rd_pos = length pre\<rparr> =
    (Some w, \<lparr>rd_data = pre @ to_le n w @ post, rd_pos = length pre + n\<rparr>)"
  using assms by (simp add: read_le_def from_le_to_le)

interpretation c_u8: field_codec read_u8 write_u8 "\<lambda>v. [v]" "\<lambda>_. True"
  by unfold_locales (auto simp: read_u8_def write_defs reader_ok_def nth_append)

interpretation c_i8: field_codec read_i8 write_i8 "\<lambda>v. [v]" "\<lambda>_. True"
  by unfold_locales (auto simp: read_i8_def write_defs reader_ok_def nth_append)

interpretation c_u16: field_codec read_u16 write_u16 "to_le 2" "\<lambda>_. True"
  by unfold_locales (auto simp: read_u16_def write_defs reader_ok_def read_le_def)

interpretation c_i16: field_codec read_i16 write_i16 "to_le 2" "\<lambda>_. True"
  by unfold_locales (auto simp: read_i16_def write_defs reader_ok_def read_le_def)

interpretation c_u32: field_codec read_u32 write_u32 "to_le 4" "\<lambda>_. True"
  by unfold_locales (auto simp: read_u32_def write_defs reader_ok_def read_le_def)

interpretation c_i32: field_codec read_i32 write_i32 "to_le 4" "\<lambda>_. True"
  by unfold_locales (auto simp: read_i32_def write_defs reader_ok_def read_le_def)

interpretation c_f32: field_codec read_f32 write_f32 "to_le 4" "\<lambda>_. True"
  by unfold_locales (auto simp: read_f32_def write_defs reader_ok_def read_le_def)

interpretation c_u64: field_codec read_u64 write_u64 "to_le 8" "\<lambda>_. True"
  by unfold_locales (auto simp: read_u64_def write_defs reader_ok_def read_le_def)

interpretation c_i64: field_codec read_i64 write_i64 "to_le 8" "\<lambda>_. True"
  by unfold_locales (auto simp: read_i64_def write_defs reader_ok_def read_le_def)

lemma read_string_raw_split:
  "read_string_raw r =
     (case read_u16 r of
        (None, r1) \<Rightarrow> (None, r1)
      | (Some l, r1) \<Rightarrow>
          if unat l > MAX_STRING_LEN \<or> rd_pos r1 + unat l > length (rd_data r1) then (None, r1)
          else (Some (take (unat l) (drop (rd_pos r1) (rd_data r1))),
                r1\<lparr>rd_pos := rd_pos r1 + unat l\<rparr>))"
  by (simp add: read_string_raw_def Let_def split: option.split prod.split)

lemma read_string_raw_decode:
  "read_string r = (case read_string_raw r of (v, r') \<Rightarrow> (map_option decode_win1254 v, r'))"
  by (simp add: read_string_def read_string_raw_def Let_def split: option.split prod.split)

lemma string_len_bytes:
  assumes "length bs \<le> MAX_STRING_LEN"
  shows "unat (word_of_nat (length bs) :: u16) = length bs"
  using assms by (simp add: unat_of_nat MAX_STRING_LEN_def)

lemma read_string_raw_back:
  fixes bs pre post :: bytes
  defines "d \<equiv> pre @ (to_le 2 (word_of_nat (length bs) :: u16) @ bs) @ post"
  assumes "length bs \<le> MAX_STRING_LEN"
  shows "read_string_raw \<lparr>rd_data = d, rd_pos = length pre\<rparr> =
    (Some bs, \<lparr>rd_data = d, rd_pos = length pre + 2 + length bs\<rparr>)"
  using assms(2) c_u16.rd_enc [where v = "word_of_nat (length bs)" and pre = pre and post = "bs @ post"] string_len_bytes [of bs]
  by (simp add: read_string_raw_split d_def)

lemma read_string_raw_cursor: "cursor_read read_string_raw"
proof unfold_locales
  fix r
  obtain v r1 where r1: "read_u16 r = (v, r1)" by fastforce
  have "rd_data r1 = rd_data r" "rd_pos r \<le> rd_pos r1"
    using c_u16.rd_data_kept [of r] c_u16.rd_pos_mono [of r] r1 by simp_all
  moreover have "reader_ok r \<Longrightarrow> reader_ok r1" using c_u16.rd_pos_bound [of r] r1 by simp
  ultimately show "rd_data (snd (read_string_raw r)) = rd_data r"
    and "rd_pos r \<le> rd_pos (snd (read_string_raw r))"
    and "reader_ok r \<Longrightarrow> reader_ok (snd (read_string_raw r))"
    by (auto simp: read_string_raw_split r1 reader_ok_def split: option.split)
qed

interpretation c_raw: field_codec read_string_raw write_string_raw
  "\<lambda>bs. to_le 2 (word_of_nat (length bs) :: u16) @ bs" "\<lambda>bs. length bs \<le> MAX_STRING_LEN"
  using read_string_raw_cursor read_string_raw_back
  by (simp add: field_codec_def field_codec_axioms_def write_defs add.assoc)

definition string_ok :: "rstr \<Rightarrow> bool" where
  \<comment> \<open>the strings that survive the wire\<close>
  "string_ok s \<longleftrightarrow> length (encode_string_bytes s) \<le> MAX_STRING_LEN
     \<and> decode_win1254 (encode_string_bytes s) = s"

interpretation c_str: field_codec read_string write_string
  "\<lambda>s. to_le 2 (word_of_nat (length (encode_string_bytes s)) :: u16) @ encode_string_bytes s" string_ok
proof unfold_locales
  fix r
  obtain v r1 where r1: "read_string_raw r = (v, r1)" by fastforce
  note k = cursor_read.step_inv [OF read_string_raw_cursor _ r1]
    cursor_read.rd_data_kept [OF read_string_raw_cursor, of r]
    cursor_read.rd_pos_mono [OF read_string_raw_cursor, of r]
  show "rd_data (snd (read_string r)) = rd_data r"
    and "rd_pos r \<le> rd_pos (snd (read_string r))"
    and "reader_ok r \<Longrightarrow> reader_ok (snd (read_string r))"
    using k by (simp_all add: read_string_raw_decode r1)
next
  fix v pre post
  assume "string_ok v"
  then show "read_string \<lparr>rd_data = pre @ (to_le 2 (word_of_nat (length (encode_string_bytes v)) :: u16)
      @ encode_string_bytes v) @ post, rd_pos = length pre\<rparr> = (Some v,
      \<lparr>rd_data = pre @ (to_le 2 (word_of_nat (length (encode_string_bytes v)) :: u16)
      @ encode_string_bytes v) @ post,
       rd_pos = length pre + length (to_le 2 (word_of_nat (length (encode_string_bytes v)) :: u16)
      @ encode_string_bytes v)\<rparr>)"
    using read_string_raw_back [of "encode_string_bytes v" pre post]
    by (simp add: read_string_raw_decode string_ok_def)
qed (simp add: write_defs Let_def)

definition sbyte_ok :: "rstr \<Rightarrow> bool" where
  "sbyte_ok s \<longleftrightarrow> length (encode_string_bytes s) < 256 \<and> decode_win1254 (encode_string_bytes s) = s"

interpretation c_sbyte: field_codec read_sbyte_string write_sbyte_string
  "\<lambda>s. word_of_nat (length (encode_string_bytes s)) # encode_string_bytes s" sbyte_ok
proof unfold_locales
  fix r
  obtain v r1 where r1: "read_u8 r = (v, r1)" by fastforce
  note k = c_u8.step_inv [OF _ r1] c_u8.rd_data_kept [of r] c_u8.rd_pos_mono [of r]
  show "rd_data (snd (read_sbyte_string r)) = rd_data r"
    and "rd_pos r \<le> rd_pos (snd (read_sbyte_string r))"
    and "reader_ok r \<Longrightarrow> reader_ok (snd (read_sbyte_string r))"
    using k by (auto simp: read_sbyte_string_def Let_def r1 reader_ok_def split: option.split)
next
  fix v pre post
  assume ok: "sbyte_ok v"
  let ?l = "word_of_nat (length (encode_string_bytes v)) :: u8"
  have "unat ?l = length (encode_string_bytes v)" using ok by (simp add: sbyte_ok_def)
  then show "read_sbyte_string \<lparr>rd_data = pre @ (?l # encode_string_bytes v) @ post,
      rd_pos = length pre\<rparr> = (Some v, \<lparr>rd_data = pre @ (?l # encode_string_bytes v) @ post,
      rd_pos = length pre + length (?l # encode_string_bytes v)\<rparr>)"
    using ok c_u8.rd_enc [where v = ?l and pre = pre and post = "encode_string_bytes v @ post"]
    by (simp add: read_sbyte_string_def Let_def sbyte_ok_def)
qed (simp add: write_defs Let_def)

lemmas string_eval =
  encode_string_bytes_def is_ascii_str_def utf8_bytes_def utf8_char_def unicode_to_win1254_def
  win1254_encode_table_def win1254_decode_table_def win1254_undefined_def latin1_replaced_def
  decode_win1254_def win1254_to_unicode_def is_cont_def cont_bits_def is_scalar_def valid_str_def
  MAX_STRING_LEN_def

subsection \<open>Sequences of fields\<close>

text \<open>
  A handler writes and reads a packet as a sequence of fields. \<open>write_field\<close> and
  \<open>read_field\<close> name the model's writer and reader of each kind; they model no code of their own.
\<close>

datatype field = FU8 u8 | FI8 i8 | FU16 u16 | FI16 i16 | FU32 u32 | FI32 i32 | FF32 u32
  | FU64 u64 | FI64 i64 | FStr rstr | FSByte rstr | FRaw bytes

datatype kind = KU8 | KI8 | KU16 | KI16 | KU32 | KI32 | KF32 | KU64 | KI64 | KStr | KSByte | KRaw

fun kind_of :: "field \<Rightarrow> kind" where
  "kind_of (FU8 _) = KU8" | "kind_of (FI8 _) = KI8" | "kind_of (FU16 _) = KU16"
| "kind_of (FI16 _) = KI16" | "kind_of (FU32 _) = KU32" | "kind_of (FI32 _) = KI32"
| "kind_of (FF32 _) = KF32" | "kind_of (FU64 _) = KU64" | "kind_of (FI64 _) = KI64"
| "kind_of (FStr _) = KStr" | "kind_of (FSByte _) = KSByte" | "kind_of (FRaw _) = KRaw"

fun write_field :: "field \<Rightarrow> packet \<Rightarrow> packet" where
  "write_field (FU8 v) = write_u8 v" | "write_field (FI8 v) = write_i8 v"
| "write_field (FU16 v) = write_u16 v" | "write_field (FI16 v) = write_i16 v"
| "write_field (FU32 v) = write_u32 v" | "write_field (FI32 v) = write_i32 v"
| "write_field (FF32 v) = write_f32 v" | "write_field (FU64 v) = write_u64 v"
| "write_field (FI64 v) = write_i64 v" | "write_field (FStr s) = write_string s"
| "write_field (FSByte s) = write_sbyte_string s" | "write_field (FRaw b) = write_string_raw b"

fun read_field :: "kind \<Rightarrow> reader \<Rightarrow> field option \<times> reader" where
  "read_field KU8 r = apfst (map_option FU8) (read_u8 r)"
| "read_field KI8 r = apfst (map_option FI8) (read_i8 r)"
| "read_field KU16 r = apfst (map_option FU16) (read_u16 r)"
| "read_field KI16 r = apfst (map_option FI16) (read_i16 r)"
| "read_field KU32 r = apfst (map_option FU32) (read_u32 r)"
| "read_field KI32 r = apfst (map_option FI32) (read_i32 r)"
| "read_field KF32 r = apfst (map_option FF32) (read_f32 r)"
| "read_field KU64 r = apfst (map_option FU64) (read_u64 r)"
| "read_field KI64 r = apfst (map_option FI64) (read_i64 r)"
| "read_field KStr r = apfst (map_option FStr) (read_string r)"
| "read_field KSByte r = apfst (map_option FSByte) (read_sbyte_string r)"
| "read_field KRaw r = apfst (map_option FRaw) (read_string_raw r)"

fun field_ok :: "field \<Rightarrow> bool" where
  "field_ok (FStr s) = string_ok s"
| "field_ok (FSByte s) = sbyte_ok s"
| "field_ok (FRaw b) = (length b \<le> MAX_STRING_LEN)"
| "field_ok _ = True"

primrec write_fields :: "field list \<Rightarrow> packet \<Rightarrow> packet" where
  "write_fields [] p = p"
| "write_fields (f # fs) p = write_fields fs (write_field f p)"

primrec run_reads :: "kind list \<Rightarrow> reader \<Rightarrow> field option list \<times> reader" where
  \<comment> \<open>reads in order, going on after a failed one as the handlers' \<open>unwrap_or\<close> does\<close>
  "run_reads [] r = ([], r)"
| "run_reads (k # ks) r =
     (let (v, r1) = read_field k r; (vs, r2) = run_reads ks r1 in (v # vs, r2))"

lemma read_field_inv:
  assumes "reader_ok r" "read_field k r = (v, r')"
  shows "reader_ok r' \<and> rd_data r' = rd_data r \<and> rd_pos r \<le> rd_pos r'"
  using assms
  by (cases k)
    (auto dest: c_u8.step_inv c_i8.step_inv c_u16.step_inv c_i16.step_inv c_u32.step_inv
       c_i32.step_inv c_f32.step_inv c_u64.step_inv c_i64.step_inv c_str.step_inv
       c_sbyte.step_inv c_raw.step_inv simp: apfst_def map_prod_def split: prod.splits)

lemma run_reads_inv:
  "reader_ok r \<Longrightarrow> run_reads ks r = (vs, r') \<Longrightarrow>
     reader_ok r' \<and> rd_data r' = rd_data r \<and> rd_pos r \<le> rd_pos r' \<and> length vs = length ks"
proof (induction ks arbitrary: r vs r')
  case (Cons k ks)
  obtain v r1 where 1: "read_field k r = (v, r1)" by fastforce
  obtain ws r2 where 2: "run_reads ks r1 = (ws, r2)" by fastforce
  from read_field_inv [OF Cons.prems(1) 1] Cons.IH [OF _ 2] Cons.prems(2) 1 2
  show ?case by auto
qed simp

lemma write_field_append: "\<exists>bs. pdata (write_field f p) = pdata p @ bs"
  by (cases f) (simp_all add: write_defs Let_def)

lemma write_fields_append: "\<exists>bs. pdata (write_fields fs p) = pdata p @ bs"
proof (induction fs arbitrary: p)
  case (Cons f fs)
  then show ?case using write_field_append [of f p] by (metis append.assoc write_fields.simps(2))
qed simp

lemma read_write_field:
  assumes "field_ok f"
  shows "read_field (kind_of f) \<lparr>rd_data = pdata (write_field f p) @ post, rd_pos = length (pdata p)\<rparr> =
    (Some f, \<lparr>rd_data = pdata (write_field f p) @ post, rd_pos = length (pdata (write_field f p))\<rparr>)"
  using assms
  by (cases f) (simp_all add: c_u8.read_back c_i8.read_back c_u16.read_back c_i16.read_back
    c_u32.read_back c_i32.read_back c_f32.read_back c_u64.read_back c_i64.read_back
    c_str.read_back c_sbyte.read_back c_raw.read_back)

lemma read_write_fields:
  assumes "list_all field_ok fs"
  shows "run_reads (map kind_of fs)
      \<lparr>rd_data = pdata (write_fields fs p) @ post, rd_pos = length (pdata p)\<rparr> =
    (map Some fs, \<lparr>rd_data = pdata (write_fields fs p) @ post,
                   rd_pos = length (pdata (write_fields fs p))\<rparr>)"
  using assms
proof (induction fs arbitrary: p)
  case (Cons f fs)
  obtain bs where bs: "pdata (write_fields fs (write_field f p)) = pdata (write_field f p) @ bs"
    using write_fields_append by blast
  have "read_field (kind_of f)
      \<lparr>rd_data = pdata (write_fields fs (write_field f p)) @ post, rd_pos = length (pdata p)\<rparr> =
    (Some f, \<lparr>rd_data = pdata (write_fields fs (write_field f p)) @ post,
              rd_pos = length (pdata (write_field f p))\<rparr>)"
    using Cons.prems read_write_field [of f p "bs @ post"] by (simp add: bs)
  then show ?case
    using Cons.prems Cons.IH [of "write_field f p"] by simp
qed simp

text \<open>C35: whatever sequence of fields a packet is written from, reading the same kinds back from
  its payload returns exactly those fields and leaves the cursor at the end, for all integers, and
  for every string that fits the 16 KiB (or 255 byte) limit and survives its encoding.\<close>

theorem fields_roundtrip:
  assumes "list_all field_ok fs"
  shows "run_reads (map kind_of fs) (reader_new (pdata (write_fields fs (packet_new op)))) =
    (map Some fs, \<lparr>rd_data = pdata (write_fields fs (packet_new op)),
                   rd_pos = wpos (write_fields fs (packet_new op))\<rparr>)"
  using read_write_fields [OF assms, of "packet_new op" "[]"]
  by (simp add: packet_new_def reader_new_def wpos_def)

theorem fields_roundtrip_witness:
  "run_reads [KU8, KU32, KStr, KI16] (reader_new (pdata (write_fields
     [FU8 7, FU32 0xDEADBEEF, FStr [0x41, 0x11F], FI16 (-5)] (packet_new 0x10)))) =
   ([Some (FU8 7), Some (FU32 0xDEADBEEF), Some (FStr [0x41, 0x11F]), Some (FI16 (-5))],
    \<lparr>rd_data = pdata (write_fields [FU8 7, FU32 0xDEADBEEF, FStr [0x41, 0x11F], FI16 (-5)]
       (packet_new 0x10)),
     rd_pos = wpos (write_fields [FU8 7, FU32 0xDEADBEEF, FStr [0x41, 0x11F], FI16 (-5)]
       (packet_new 0x10))\<rparr>)"
proof -
  have "string_ok [0x41, 0x11F]" by (simp add: string_ok_def string_eval)
  then show ?thesis
    using fields_roundtrip [where fs = "[FU8 7, FU32 0xDEADBEEF, FStr [0x41, 0x11F], FI16 (-5)]" and op = "0x10"]
    by simp
qed

text \<open>No sequence of reads over hostile bytes moves the cursor backwards or past the end of
  the data, so \<open>read_remaining\<close> never panics and returns exactly the unread bytes.\<close>

theorem reads_stay_in_bounds:
  assumes "run_reads ks (reader_new d) = (vs, r)"
  shows "rd_pos r \<le> length d \<and> rd_data r = d \<and> remaining r = length d - rd_pos r
    \<and> read_remaining r = Some (drop (rd_pos r) d, r\<lparr>rd_pos := length d\<rparr>)"
  using run_reads_inv [OF _ assms]
  by (auto simp: reader_ok_def reader_new_def remaining_def read_remaining_def)

theorem reads_stay_in_bounds_witness:
  "\<exists>vs r. run_reads [KU16, KStr, KU8] (reader_new [1, 2, 0xFF, 0xFF, 9]) = (vs, r)
     \<and> rd_pos r \<le> 5"
proof -
  obtain vs r where r: "run_reads [KU16, KStr, KU8] (reader_new [1, 2, 0xFF, 0xFF, 9]) = (vs, r)"
    by fastforce
  from reads_stay_in_bounds [OF r] r show ?thesis by auto
qed

text \<open>A string is not always what it was after the wire: the two characters \<open>U+00C3 U+00A9\<close>
  are sent as the two Windows-1254 bytes that are the UTF-8 form of \<open>U+00E9\<close>, and
  \<open>read_string\<close> returns that one character, although the comment on \<open>read_string\<close> promises a
  lossless round trip with \<open>write_string\<close>. The round trip of a valid string of at most 16 KiB
  holds exactly when it is ASCII, not encodable, or its encoding is not the UTF-8 form of another
  string.\<close>

theorem string_roundtrip_iff:
  assumes "valid_str s" and "length (encode_string_bytes s) \<le> MAX_STRING_LEN"
  shows "(fst (read_string (reader_new (pdata (write_string s (packet_new op))))) = Some s \<longleftrightarrow>
      is_ascii_str s \<or> encode_chars s = None
        \<or> utf8_decode (encode_string_bytes s) = None
        \<or> utf8_decode (encode_string_bytes s) = Some s)
    \<and> fst (read_string (reader_new (pdata (write_string [0xC3, 0xA9] (packet_new op))))) =
        Some [0xE9]"
proof -
  have rd: "fst (read_string (reader_new (pdata (write_string t (packet_new op))))) =
      Some (decode_win1254 (encode_string_bytes t))"
    if "length (encode_string_bytes t) \<le> MAX_STRING_LEN" for t
    using read_string_raw_back [OF that, of "[]" "[]"]
    by (simp add: read_string_raw_decode reader_new_def packet_new_def write_defs Let_def)
  have "decode_win1254 (encode_string_bytes [0xC3, 0xA9]) = [0xE9]"
    and "length (encode_string_bytes [0xC3, 0xA9]) \<le> MAX_STRING_LEN"
    by (simp_all add: string_eval)
  then show ?thesis using assms by (simp add: rd decode_encode_string)
qed

theorem string_roundtrip_iff_witness:
  "fst (read_string (reader_new (pdata (write_string [0x11F, 0xA9] (packet_new 0x10))))) =
     Some [0x11F, 0xA9]"
proof -
  have "valid_str [0x11F, 0xA9]" "length (encode_string_bytes [0x11F, 0xA9]) \<le> MAX_STRING_LEN"
    "utf8_decode (encode_string_bytes [0x11F, 0xA9]) = None"
    by (simp_all add: string_eval)
  then show ?thesis using string_roundtrip_iff by blast
qed

end
