(* ===== verification/Jv_Cryption.thy ===== *)
theory Jv_Cryption
  imports Prelude
begin

unbundle bit_operations_syntax

text \<open>
  The XOR stream cipher and its CRC-32 (\<^verbatim>\<open>crates/ko-protocol/src/crypto.rs\<close>, lines 10 to 217).
  The table-driven checksum is shown equal to the bitwise one, the transform to be its own inverse,
  and a sealed buffer to be rejected after the corruption of any single byte. The clock that
  \<open>rand_u64\<close> reads is an argument: the nanosecond count of each call.
\<close>

definition PRIVATE_KEY :: u64 where "PRIVATE_KEY = 0x1207500120128966"
definition INITIAL_RKEY :: u32 where "INITIAL_RKEY = 2157"
definition RKEY_MULTIPLIER :: u32 where "RKEY_MULTIPLIER = 2171"
definition LKEY_MULTIPLIER :: u8 where "LKEY_MULTIPLIER = 157"
definition CRC32_POLY :: u32 where "CRC32_POLY = 0xEDB88320"

definition crc_bit :: "u32 \<Rightarrow> u32" where
  \<comment> \<open>the body of the inner loop that fills the table\<close>
  "crc_bit c = (if c AND 1 \<noteq> 0 then drop_bit 1 c XOR CRC32_POLY else drop_bit 1 c)"

definition CRC32_TABLE :: "u32 list" where
  "CRC32_TABLE = map (\<lambda>i. (crc_bit ^^ 8) (word_of_nat i)) [0..<256]"

definition crc_step :: "u32 \<Rightarrow> u8 \<Rightarrow> u32" where
  "crc_step c b = CRC32_TABLE ! unat ((c XOR ucast b) AND 0xFF) XOR drop_bit 8 c"

definition crc32_with_start :: "bytes \<Rightarrow> u32 \<Rightarrow> u32" where
  "crc32_with_start d start = foldl crc_step start d"

definition crc32 :: "bytes \<Rightarrow> u32" where
  "crc32 d = crc32_with_start d 0xFFFFFFFF"

record jv_cryption =
  jv_public_key :: u64
  jv_tkey :: u64
  jv_enabled :: bool
  jv_sequence :: u32

definition jv_new :: jv_cryption where
  "jv_new = \<lparr>jv_public_key = 0, jv_tkey = 0, jv_enabled = False, jv_sequence = 0\<rparr>"

definition rand_u64 :: "u64 \<Rightarrow> u64" where
  \<comment> \<open>the argument is the clock's nanoseconds\<close>
  "rand_u64 seed =
     (let x = seed; x = x XOR drop_bit 12 x; x = x XOR push_bit 25 x; x = x XOR drop_bit 27 x
      in x * 0x2545F4914F6CDD1D)"

partial_function (option) generate_key ::
  "(nat \<Rightarrow> u64) \<Rightarrow> nat \<Rightarrow> jv_cryption \<Rightarrow> (u64 \<times> jv_cryption) option" where
  \<comment> \<open>\<open>clock i\<close> is what the \<open>i\<close>th reading of the clock returns\<close>
  "generate_key clock i jv =
     (let key = rand_u64 (clock i) in
      if key \<noteq> 0 then Some (key, jv\<lparr>jv_public_key := key\<rparr>)
      else generate_key clock (Suc i) jv)"

definition set_public_key :: "u64 \<Rightarrow> jv_cryption \<Rightarrow> jv_cryption" where
  "set_public_key key jv = jv\<lparr>jv_public_key := key\<rparr>"

definition jv_init :: "jv_cryption \<Rightarrow> jv_cryption" where
  "jv_init jv = jv\<lparr>jv_tkey := jv_public_key jv XOR PRIVATE_KEY, jv_enabled := True\<rparr>"

fun transform_loop :: "bytes \<Rightarrow> u8 \<Rightarrow> nat \<Rightarrow> u32 \<Rightarrow> bytes \<Rightarrow> bytes" where
  "transform_loop pkey lkey i rkey [] = []"
| "transform_loop pkey lkey i rkey (b # bs) =
     (let rsk = ucast (drop_bit 8 rkey AND 0xFF) :: u8 in
      (((b XOR rsk) XOR pkey ! (i mod 8)) XOR lkey)
        # transform_loop pkey lkey (Suc i) (rkey * RKEY_MULTIPLIER) bs)"

definition transform :: "jv_cryption \<Rightarrow> bytes \<Rightarrow> bytes" where
  "transform jv d =
     (let pkey = to_le 8 (jv_tkey jv); lkey = word_of_nat (length d) * LKEY_MULTIPLIER in
      transform_loop pkey lkey 0 INITIAL_RKEY d)"

definition jv_encrypt :: "jv_cryption \<Rightarrow> bytes \<Rightarrow> bytes" where
  "jv_encrypt jv d = transform jv d"

definition jv_decrypt :: "jv_cryption \<Rightarrow> bytes \<Rightarrow> bytes" where
  "jv_decrypt jv d = transform jv d"

definition decrypt_with_crc32 :: "jv_cryption \<Rightarrow> bytes \<Rightarrow> nat option \<times> bytes" where
  \<comment> \<open>the payload length, and the buffer, which is decrypted in place even when the check fails\<close>
  "decrypt_with_crc32 jv d =
     (if length d < 4 then (None, d)
      else
        let d' = jv_decrypt jv d; payload_len = length d' - 4;
            computed = crc32 (take payload_len d'); stored = from_le (drop payload_len d')
        in (if computed = stored then Some payload_len else None, d'))"

definition encrypt_with_crc32 :: "jv_cryption \<Rightarrow> bytes \<Rightarrow> bytes" where
  "encrypt_with_crc32 jv d = jv_encrypt jv (d @ to_le 4 (crc32 d))"

definition next_sequence :: "jv_cryption \<Rightarrow> u32 \<times> jv_cryption" where
  "next_sequence jv = (jv_sequence jv + 1, jv\<lparr>jv_sequence := jv_sequence jv + 1\<rparr>)"

definition current_sequence :: "jv_cryption \<Rightarrow> u32" where
  "current_sequence jv = jv_sequence jv"

subsection \<open>The table is eight bitwise steps\<close>

lemma crc_bit_alt: "crc_bit c = drop_bit 1 c XOR (if bit c 0 then CRC32_POLY else 0)"
  by (simp add: crc_bit_def and_one_eq bit_0 mod_2_eq_odd)

lemma crc_bit_even: "\<not> bit c 0 \<Longrightarrow> crc_bit c = drop_bit 1 c"
  by (simp add: crc_bit_alt)

lemma crc_bit_xor: "crc_bit (x XOR y) = crc_bit x XOR crc_bit y"
  by (rule bit_eqI) (auto simp: crc_bit_alt bit_simps)

lemma crc_bits_xor: "(crc_bit ^^ n) (x XOR y) = (crc_bit ^^ n) x XOR (crc_bit ^^ n) y"
  by (induction n) (simp_all add: crc_bit_xor)

lemma crc_bits_zeros:
  assumes "\<forall>i<n. \<not> bit c i"
  shows "(crc_bit ^^ n) c = drop_bit n c"
  using assms
proof (induction n)
  case (Suc n)
  then have 1: "(crc_bit ^^ n) c = drop_bit n c" and 2: "\<not> bit (drop_bit n c) 0"
    by (auto simp: bit_drop_bit_eq)
  show ?case using crc_bit_even [OF 2] by (simp add: 1 drop_bit_drop_bit)
qed simp

definition crc_step_ref :: "u32 \<Rightarrow> u8 \<Rightarrow> u32" where
  \<comment> \<open>the bitwise checksum: one byte is eight single-bit steps\<close>
  "crc_step_ref c b = (crc_bit ^^ 8) (c XOR ucast b)"

lemma crc_table_nth: "i < 256 \<Longrightarrow> CRC32_TABLE ! i = (crc_bit ^^ 8) (word_of_nat i)"
  by (simp add: CRC32_TABLE_def)

lemma and_low_byte: "(x :: u32) AND 0xFF = take_bit 8 x"
  by (simp add: take_bit_eq_mask mask_eq_exp_minus_1)

lemma low_byte_less: "unat ((x :: u32) AND 0xFF) < 256"
  by (simp only: and_low_byte unsigned_take_bit_eq) (simp add: take_bit_eq_mod)

lemma crc_step_eq_ref: "crc_step c b = crc_step_ref c b"
proof -
  define x where "x = c XOR ucast b"
  have x: "x = take_bit 8 x XOR push_bit 8 (drop_bit 8 x)"
    by (rule bit_word_eqI) (auto simp: bit_simps)
  have z: "\<forall>i<8. \<not> bit (push_bit 8 (drop_bit 8 x)) i" by (simp add: bit_simps)
  have t: "CRC32_TABLE ! unat (x AND 0xFF) = (crc_bit ^^ 8) (take_bit 8 x)"
    using crc_table_nth [OF low_byte_less, of x] by (simp add: and_low_byte)
  have "(crc_bit ^^ 8) x = (crc_bit ^^ 8) (take_bit 8 x) XOR drop_bit 8 (push_bit 8 (drop_bit 8 x))"
    by (subst x) (simp only: crc_bits_xor crc_bits_zeros [OF z])
  moreover have "drop_bit 8 (push_bit 8 (drop_bit 8 x)) = drop_bit 8 c"
    by (rule bit_word_eqI) (auto simp: x_def bit_simps dest: bit_imp_le_length)
  ultimately show ?thesis
    by (simp add: crc_step_def crc_step_ref_def t flip: x_def)
qed

subsection \<open>One changed byte changes the checksum\<close>

lemma xor_cancel_right: "(x :: 'a::len word) XOR z = y XOR z \<Longrightarrow> x = y"
  by (metis xor.assoc xor.right_neutral xor_self_eq)

lemma xor_cancel_left: "(z :: 'a::len word) XOR x = z XOR y \<Longrightarrow> x = y"
  by (metis xor.assoc xor.left_neutral xor_self_eq)

lemma crc_bit_inj: "crc_bit x = crc_bit y \<Longrightarrow> x = y"
proof -
  assume eq: "crc_bit x = crc_bit y"
  have top: "bit (crc_bit c) 31 = bit c 0" for c
    using bit_imp_le_length [of c 32] by (auto simp: crc_bit_alt CRC32_POLY_def bit_simps)
  have "bit x 0 = bit y 0" using eq top by metis
  with eq have "drop_bit 1 x = drop_bit 1 y"
    by (auto simp: crc_bit_alt split: if_splits dest: xor_cancel_right)
  then have "bit x (Suc i) = bit y (Suc i)" for i
    by (metis bit_drop_bit_eq comp_apply plus_1_eq_Suc)
  then show "x = y" using \<open>bit x 0 = bit y 0\<close>
    by (intro bit_eqI) (metis not0_implies_Suc)
qed

lemma crc_bits_inj: "(crc_bit ^^ n) x = (crc_bit ^^ n) y \<Longrightarrow> x = y"
  by (induction n) (auto dest: crc_bit_inj)

lemma ucast_u8_u32_inj: "(ucast (x :: u8) :: u32) = ucast y \<Longrightarrow> x = y"
proof (rule bit_word_eqI)
  fix n assume eq: "(ucast x :: u32) = ucast y" and n: "n < LENGTH(8)"
  then have "bit (ucast x :: u32) n = bit (ucast y :: u32) n" by simp
  then show "bit x n = bit y n" using n by (simp add: bit_simps)
qed

lemma crc_step_inj_crc: "crc_step c b = crc_step c' b \<Longrightarrow> c = c'"
  unfolding crc_step_eq_ref crc_step_ref_def by (blast dest: crc_bits_inj xor_cancel_right)

lemma crc_step_inj_byte: "crc_step c b = crc_step c b' \<Longrightarrow> b = b'"
  unfolding crc_step_eq_ref crc_step_ref_def
  by (blast dest: crc_bits_inj xor_cancel_left ucast_u8_u32_inj)

lemma crc_fold_inj: "foldl crc_step c bs = foldl crc_step c' bs \<Longrightarrow> c = c'"
  by (induction bs arbitrary: c c') (auto dest: crc_step_inj_crc)

lemma crc32_with_start_change:
  assumes "i < length bs" "b \<noteq> bs ! i"
  shows "crc32_with_start (bs[i := b]) s \<noteq> crc32_with_start bs s"
proof
  assume eq: "crc32_with_start (bs[i := b]) s = crc32_with_start bs s"
  let ?c = "foldl crc_step s (take i bs)"
  have "bs = take i bs @ bs ! i # drop (Suc i) bs"
    using assms(1) by (rule id_take_nth_drop)
  moreover have "bs[i := b] = take i bs @ b # drop (Suc i) bs"
    using assms(1) by (rule upd_conv_take_nth_drop)
  ultimately have "foldl crc_step (crc_step ?c b) (drop (Suc i) bs) =
      foldl crc_step (crc_step ?c (bs ! i)) (drop (Suc i) bs)"
    using eq by (metis (no_types) crc32_with_start_def foldl_Cons foldl_append)
  then show False using assms(2) by (auto dest!: crc_fold_inj crc_step_inj_byte)
qed


subsection \<open>Stream ciphers and checksums\<close>

text \<open>
  What the framing needs of the cipher: it keeps the length and XORs byte \<open>i\<close> of a buffer of
  length \<open>n\<close> with a key byte that depends on \<open>n\<close> and \<open>i\<close> alone.
\<close>

locale stream_cipher =
  fixes f :: "bytes \<Rightarrow> bytes" and ks :: "nat \<Rightarrow> nat \<Rightarrow> u8"
  assumes length_kept: "length (f d) = length d"
    and nth_xor: "i < length d \<Longrightarrow> f d ! i = d ! i XOR ks (length d) i"
begin

lemma involutive: "f (f d) = d"
  by (rule nth_equalityI) (simp_all add: length_kept nth_xor xor.assoc)

lemma flip_byte:
  assumes "i < length d"
  shows "f (d[i := d ! i XOR m]) = (f d)[i := f d ! i XOR m]"
  using assms
  by (intro nth_equalityI) (auto simp: length_kept nth_xor nth_list_update ac_simps)

lemma inject: "f d = f e \<Longrightarrow> d = e"
  by (metis involutive)

end

text \<open>A checksum that notices every change of a single byte.\<close>

locale byte_checksum =
  fixes sum :: "bytes \<Rightarrow> u32"
  assumes sum_changes: "i < length d \<Longrightarrow> b \<noteq> d ! i \<Longrightarrow> sum (d[i := b]) \<noteq> sum d"

locale sealed_stream = stream_cipher f ks + byte_checksum sum
  for f :: "bytes \<Rightarrow> bytes" and ks :: "nat \<Rightarrow> nat \<Rightarrow> u8" and sum :: "bytes \<Rightarrow> u32"
begin

lemma check_fails_after_flip:
  fixes d :: bytes
  defines "b \<equiv> d @ to_le 4 (sum d)"
  assumes i: "i < length d + 4" and m: "m \<noteq> 0"
    and b': "b' = f ((f b)[i := f b ! i XOR m])"
  shows "length b' = length d + 4 \<and> sum (take (length d) b') \<noteq> from_le (drop (length d) b')"
proof -
  have len: "length b = length d + 4" by (simp add: b_def)
  have eq: "b' = b[i := b ! i XOR m]"
    using flip_byte [of i "f b" m] i len by (simp add: b' length_kept involutive)
  have ne: "b ! i XOR m \<noteq> b ! i" using m by (metis xor.assoc xor_self_eq xor.left_neutral)
  show ?thesis
  proof (cases "i < length d")
    case True
    then have "take (length d) b' = d[i := b ! i XOR m]" and "drop (length d) b' = to_le 4 (sum d)"
      by (simp_all add: eq b_def list_update_append)
    then show ?thesis
      using sum_changes [of i d "b ! i XOR m"] True ne len by (simp add: eq b_def nth_append)
  next
    case False
    define j where "j = i - length d"
    have t: "take (length d) b' = d" and dr: "drop (length d) b' = (to_le 4 (sum d))[j := b ! i XOR m]"
      using False i by (simp_all add: eq b_def list_update_append j_def)
    have "b ! i = to_le 4 (sum d) ! j" and "j < 4"
      using False i by (simp_all add: b_def nth_append j_def)
    then have "(to_le 4 (sum d))[j := b ! i XOR m] \<noteq> to_le 4 (sum d)"
      using ne by (metis length_to_le nth_list_update_eq)
    moreover have "sum d = from_le ((to_le 4 (sum d))[j := b ! i XOR m]) \<Longrightarrow>
        (to_le 4 (sum d))[j := b ! i XOR m] = to_le 4 (sum d)"
      by (rule from_le_inject [where 'a = 32]) simp_all
    moreover have "length b' = length d + 4" using len by (simp add: eq)
    ultimately show ?thesis by (auto simp: t dr)
  qed
qed

end

subsection \<open>The transform is such a cipher\<close>

primrec rotation_key :: "nat \<Rightarrow> u32" where
  "rotation_key 0 = INITIAL_RKEY"
| "rotation_key (Suc i) = rotation_key i * RKEY_MULTIPLIER"

definition key_byte :: "jv_cryption \<Rightarrow> nat \<Rightarrow> nat \<Rightarrow> u8" where
  "key_byte jv n i =
     ucast (drop_bit 8 (rotation_key i) AND 0xFF) XOR to_le 8 (jv_tkey jv) ! (i mod 8)
       XOR word_of_nat n * LKEY_MULTIPLIER"

lemma length_transform_loop [simp]: "length (transform_loop pkey lkey i rkey d) = length d"
  by (induction d arbitrary: i rkey) (auto simp: Let_def)

lemma transform_loop_nth:
  "j < length d \<Longrightarrow> transform_loop pkey lkey i (rotation_key i) d ! j =
     d ! j XOR (ucast (drop_bit 8 (rotation_key (i + j)) AND 0xFF) XOR pkey ! ((i + j) mod 8)
       XOR lkey)"
proof (induction d arbitrary: i j)
  case (Cons b d)
  show ?case
  proof (cases j)
    case 0
    then show ?thesis by (simp add: Let_def xor.assoc)
  next
    case (Suc k)
    then show ?thesis using Cons.prems Cons.IH [of k "Suc i"] by (simp add: Let_def)
  qed
qed simp

interpretation jv: sealed_stream "transform jv" "key_byte jv" crc32 for jv
proof unfold_locales
  show "length (transform jv d) = length d" for d by (simp add: transform_def)
  show "transform jv d ! i = d ! i XOR key_byte jv (length d) i" if "i < length d" for d i
    using transform_loop_nth [OF that, where i = 0] by (simp add: transform_def key_byte_def Let_def)
  show "crc32 (d[i := b]) \<noteq> crc32 d" if "i < length d" "b \<noteq> d ! i" for i d b
    unfolding crc32_def using that by (rule crc32_with_start_change)
qed

lemmas jv_cipher_defs = jv_encrypt_def jv_decrypt_def

lemma decrypt_encrypt_with_crc32:
  "decrypt_with_crc32 jv (encrypt_with_crc32 jv d) = (Some (length d), d @ to_le 4 (crc32 d))"
  by (simp add: decrypt_with_crc32_def encrypt_with_crc32_def jv_cipher_defs Let_def
      jv.involutive jv.length_kept)

text \<open>C39: the table-driven checksum the code computes, over the table its nested loops fill,
  is the bit-by-bit CRC with the reversed polynomial, for every buffer and start value.\<close>

theorem crc32_table_is_bitwise: "crc32_with_start d s = foldl crc_step_ref s d"
  unfolding crc32_with_start_def by (rule foldl_cong) (simp_all add: crc_step_eq_ref)

text \<open>Decrypting a buffer sealed with \<open>encrypt_with_crc32\<close> accepts it and gives the payload and
  its length back, whatever the keys, and encryption is its own inverse.\<close>

theorem jv_seal_roundtrip:
  "fst (decrypt_with_crc32 jv (encrypt_with_crc32 jv d)) = Some (length d)
   \<and> take (length d) (snd (decrypt_with_crc32 jv (encrypt_with_crc32 jv d))) = d
   \<and> jv_decrypt jv (jv_encrypt jv d) = d"
  by (simp add: decrypt_encrypt_with_crc32 jv_cipher_defs jv.involutive)

text \<open>C40: the corruption of any single byte of a sealed buffer, of the payload or of the checksum, in
  any non-zero bit pattern, makes \<open>decrypt_with_crc32\<close> return \<open>None\<close>.\<close>

theorem jv_corruption_detected:
  assumes "i < length d + 4" and "m \<noteq> 0"
  shows "fst (decrypt_with_crc32 jv
    ((encrypt_with_crc32 jv d)[i := encrypt_with_crc32 jv d ! i XOR m])) = None"
  using jv.check_fails_after_flip [OF assms refl, of jv]
  by (simp add: decrypt_with_crc32_def encrypt_with_crc32_def jv_cipher_defs Let_def jv.length_kept)

theorem jv_corruption_detected_witness:
  "fst (decrypt_with_crc32 (jv_init jv_new)
     ((encrypt_with_crc32 (jv_init jv_new) [1, 2, 3])
        [4 := encrypt_with_crc32 (jv_init jv_new) [1, 2, 3] ! 4 XOR 0x80])) = None"
  by (rule jv_corruption_detected) simp_all

subsection \<open>Key generation\<close>

lemma xor_eq_0: "(x :: 'a::len word) XOR y = 0 \<Longrightarrow> x = y"
  by (rule xor_cancel_right [of x y y]) simp

lemma xor_drop_bit_eq_0: "0 < n \<Longrightarrow> (x :: u64) XOR drop_bit n x = 0 \<Longrightarrow> x = 0"
proof -
  assume n: "0 < n" and z: "x XOR drop_bit n x = 0"
  from z have d: "x = drop_bit n x" by (rule xor_eq_0)
  have e: "bit x i = bit x (i + n)" for i
  proof -
    have "bit x i = bit (drop_bit n x) i" using d by (rule arg_cong)
    then show ?thesis by (simp add: bit_drop_bit_eq add.commute)
  qed
  have "\<not> bit x i" for i
  proof (induction "64 - i" arbitrary: i rule: less_induct)
    case less
    show ?case
    proof (cases "i < 64")
      case True
      then have "64 - (i + n) < 64 - i" using n by linarith
      then have "\<not> bit x (i + n)" by (rule less)
      then show ?thesis using e [of i] by blast
    next
      case False
      then show ?thesis using bit_imp_le_length [of x i] by auto
    qed
  qed
  then show "x = 0" by (intro bit_eqI) simp
qed

lemma xor_push_bit_eq_0: "0 < n \<Longrightarrow> (x :: u64) XOR push_bit n x = 0 \<Longrightarrow> x = 0"
proof -
  assume n: "0 < n" and z: "x XOR push_bit n x = 0"
  from z have p: "x = push_bit n x" by (rule xor_eq_0)
  have "\<not> bit x i" for i
  proof (induction i rule: less_induct)
    case (less i)
    have "bit x i = bit (push_bit n x) i" using p by (rule arg_cong)
    also have "\<dots> \<longleftrightarrow> n \<le> i \<and> i < 64 \<and> bit x (i - n)" by (auto simp: bit_simps)
    finally have b: "bit x i \<longleftrightarrow> n \<le> i \<and> i < 64 \<and> bit x (i - n)" .
    show ?case
    proof
      assume "bit x i"
      with b have "n \<le> i" "bit x (i - n)" by blast+
      moreover have "i - n < i" using n \<open>n \<le> i\<close> by linarith
      ultimately show False using less by blast
    qed
  qed
  then show "x = 0" by (intro bit_eqI) simp
qed

lemma multiplier_cancel:
  assumes "(x :: u64) * 0x2545F4914F6CDD1D = 0"
  shows "x = 0"
proof -
  have "(0x2545F4914F6CDD1D :: u64) * 0x59071D96D81ECD35 = 1" by simp
  then have "x = x * 0x2545F4914F6CDD1D * 0x59071D96D81ECD35" by (simp only: mult.assoc mult_1_right)
  also have "\<dots> = 0" by (simp only: assms mult_zero_left)
  finally show ?thesis .
qed

lemma rand_u64_nonzero:
  assumes "rand_u64 s = 0"
  shows "s = 0"
proof -
  define a where "a = s XOR drop_bit 12 s"
  define b where "b = a XOR push_bit 25 a"
  have "(b XOR drop_bit 27 b) * 0x2545F4914F6CDD1D = 0"
    using assms by (simp only: rand_u64_def Let_def a_def b_def)
  then have "b XOR drop_bit 27 b = 0" by (rule multiplier_cancel)
  then have "b = 0" by (rule xor_drop_bit_eq_0 [rotated]) simp
  then have "a XOR push_bit 25 a = 0" by (simp only: b_def)
  then have "a = 0" by (rule xor_push_bit_eq_0 [rotated]) simp
  then have "s XOR drop_bit 12 s = 0" by (simp only: a_def)
  then show ?thesis by (rule xor_drop_bit_eq_0 [rotated]) simp
qed

lemma rand_u64_eq_0: "rand_u64 s = 0 \<longleftrightarrow> s = 0"
proof
  show "rand_u64 s = 0 \<Longrightarrow> s = 0" by (rule rand_u64_nonzero)
qed (simp add: rand_u64_def)

text \<open>\<open>generate_key\<close> returns as soon as the clock reads something other than zero, with a
  non-zero key that it stores as the public key; the loop only goes round on a zero clock, because
  the generator maps no other seed to zero.\<close>

theorem generate_key_returns:
  assumes "clock n \<noteq> 0" and "\<forall>k. i \<le> k \<and> k < n \<longrightarrow> clock k = 0" and "i \<le> n"
  shows "generate_key clock i jv =
      Some (rand_u64 (clock n), jv\<lparr>jv_public_key := rand_u64 (clock n)\<rparr>)
    \<and> rand_u64 (clock n) \<noteq> 0"
proof -
  have "generate_key clock i jv =
      Some (rand_u64 (clock n), jv\<lparr>jv_public_key := rand_u64 (clock n)\<rparr>)"
    using assms(3,2)
  proof (induction "n - i" arbitrary: i)
    case 0
    then have "i = n" by simp
    then show ?case using assms(1) by (subst generate_key.simps) (simp add: Let_def rand_u64_eq_0)
  next
    case (Suc k)
    then have "clock i = 0" and "generate_key clock (Suc i) jv =
        Some (rand_u64 (clock n), jv\<lparr>jv_public_key := rand_u64 (clock n)\<rparr>)"
      by auto
    then show ?case by (subst generate_key.simps) (simp add: Let_def rand_u64_eq_0)
  qed
  then show ?thesis using assms(1) by (simp add: rand_u64_eq_0)
qed

theorem generate_key_returns_witness:
  "generate_key (\<lambda>k. if k = 0 then 0 else 17) 0 jv_new =
     Some (rand_u64 17, jv_new\<lparr>jv_public_key := rand_u64 17\<rparr>) \<and> rand_u64 17 \<noteq> 0"
  using generate_key_returns [where clock = "\<lambda>k. if k = 0 then 0 else 17" and n = 1 and i = 0
      and jv = jv_new]
  by simp

end
