(* ===== verification/Packet_Io.thy ===== *)
theory Packet_Io
  imports Packet Jv_Cryption
begin

text \<open>
  Framing on the wire (\<^verbatim>\<open>crates/ko-game/src/packet_io.rs\<close>, lines 17 to 457) and the AES state it
  uses (\<^verbatim>\<open>crates/ko-protocol/src/aes_crypt.rs\<close>, lines 23 to 120). The stream a reader consumes is
  the list of bytes still to come; a read returns what it leaves. Each way of failing is a
  constructor of \<open>io_error\<close>. The block cipher itself is the \<^verbatim>\<open>aes\<close> and \<^verbatim>\<open>cbc\<close> crates', an
  argument of type \<open>cbc_crate\<close>; what their documentation promises is \<open>cbc_ok\<close>.
\<close>

subsection \<open>AES state\<close>

definition AES_FLAG :: u8 where "AES_FLAG = 0x01"

definition AES_IV :: bytes where
  "AES_IV = [0x32, 0x4E, 0xAA, 0x58, 0xBC, 0xB3, 0xAE, 0xE3, 0x6B, 0xC7, 0x4C, 0x56, 0x36, 0x47,
     0x34, 0xF2]"

record cbc_crate =
  \<comment> \<open>\<open>encrypt_padded_mut\<close> and \<open>decrypt_padded_mut\<close> with PKCS7: key, IV, input\<close>
  cbc_enc :: "bytes \<Rightarrow> bytes \<Rightarrow> bytes \<Rightarrow> bytes option"
  cbc_dec :: "bytes \<Rightarrow> bytes \<Rightarrow> bytes \<Rightarrow> bytes option"

definition cbc_ok :: "cbc_crate \<Rightarrow> bool" where
  \<comment> \<open>with a large enough buffer encryption succeeds, pads to the next block and is undone by
    decryption\<close>
  "cbc_ok cr \<longleftrightarrow> (\<forall>k iv pt. \<exists>ct. cbc_enc cr k iv pt = Some ct \<and> cbc_dec cr k iv ct = Some pt
     \<and> length ct = 16 * (length pt div 16 + 1))"

record aes_cryption =
  aes_key :: bytes
  aes_enabled :: bool

definition aes_new :: aes_cryption where
  "aes_new = \<lparr>aes_key = replicate 16 0, aes_enabled = False\<rparr>"

definition aes_set_key :: "bytes \<Rightarrow> aes_cryption \<Rightarrow> aes_cryption" where
  "aes_set_key k a = a\<lparr>aes_key := k\<rparr>"

definition aes_enable :: "aes_cryption \<Rightarrow> aes_cryption" where
  "aes_enable a = a\<lparr>aes_enabled := True\<rparr>"

definition aes_disable :: "aes_cryption \<Rightarrow> aes_cryption" where
  "aes_disable a = a\<lparr>aes_enabled := False\<rparr>"

definition aes_encrypt :: "cbc_crate \<Rightarrow> aes_cryption \<Rightarrow> bytes \<Rightarrow> bytes" where
  "aes_encrypt cr a pt = (case cbc_enc cr (aes_key a) AES_IV pt of Some ct \<Rightarrow> ct | None \<Rightarrow> [])"

definition aes_decrypt :: "cbc_crate \<Rightarrow> aes_cryption \<Rightarrow> bytes \<Rightarrow> bytes option" where
  "aes_decrypt cr a ct = cbc_dec cr (aes_key a) AES_IV ct"

subsection \<open>Reading a frame\<close>

datatype io_error =
    UnexpectedEof
  | InvalidHeader u8 u8
  | InvalidLength nat
  | InvalidFooter u8 u8
  | CrcFailed
  | TooShort nat
  | SequenceMismatch u32 u32
  | AesFailed nat
  | AesEmpty
  | TooLarge nat

definition read_exact :: "nat \<Rightarrow> bytes \<Rightarrow> (io_error + bytes) \<times> bytes" where
  "read_exact n s = (if n \<le> length s then (Inr (take n s), drop n s) else (Inl UnexpectedEof, []))"

definition read_frame :: "nat \<Rightarrow> bytes \<Rightarrow> (io_error + bytes) \<times> bytes" where
  \<comment> \<open>header, length in \<open>lo..=MAX_PACKET_SIZE\<close>, payload, footer: the lines the three readers share\<close>
  "read_frame lo s =
     (case read_exact 2 s of
        (Inl e, s1) \<Rightarrow> (Inl e, s1)
      | (Inr header, s1) \<Rightarrow>
          if header \<noteq> HEADER_INCOMING then (Inl (InvalidHeader (header ! 0) (header ! 1)), s1)
          else case read_exact 2 s1 of
                 (Inl e, s2) \<Rightarrow> (Inl e, s2)
               | (Inr len_buf, s2) \<Rightarrow>
                   let payload_len = unat (from_le len_buf :: u16) in
                   if payload_len < lo \<or> payload_len > MAX_PACKET_SIZE
                   then (Inl (InvalidLength payload_len), s2)
                   else case read_exact payload_len s2 of
                          (Inl e, s3) \<Rightarrow> (Inl e, s3)
                        | (Inr payload, s3) \<Rightarrow>
                            case read_exact 2 s3 of
                              (Inl e, s4) \<Rightarrow> (Inl e, s4)
                            | (Inr footer, s4) \<Rightarrow>
                                if footer \<noteq> FOOTER_INCOMING
                                then (Inl (InvalidFooter (footer ! 0) (footer ! 1)), s4)
                                else (Inr payload, s4))"

definition read_packet_from ::
  "jv_cryption \<Rightarrow> u32 \<Rightarrow> bytes \<Rightarrow> (io_error + packet) \<times> u32 \<times> bytes" where
  "read_packet_from crypto sequence s =
     (case read_frame 1 s of
        (Inl e, r) \<Rightarrow> (Inl e, sequence, r)
      | (Inr payload, r) \<Rightarrow>
          if jv_enabled crypto then
            case decrypt_with_crc32 crypto payload of
              (None, _) \<Rightarrow> (Inl CrcFailed, sequence, r)
            | (Some decrypted_len, buf) \<Rightarrow>
                if decrypted_len < 5 then (Inl (TooShort decrypted_len), sequence, r)
                else
                  let sq = from_le (take 4 buf); sequence' = sequence + 1 in
                  if sq \<noteq> sequence' then (Inl (SequenceMismatch sequence' sq), sequence', r)
                  else (Inr (with_data (buf ! 4) (drop 5 (take decrypted_len buf))), sequence', r)
          else (Inr (with_data (payload ! 0) (drop 1 payload)), sequence, r))"

definition read_packet_aes_inner ::
  "bool \<Rightarrow> cbc_crate \<Rightarrow> aes_cryption \<Rightarrow> bytes \<Rightarrow> (io_error + packet) \<times> bytes" where
  "read_packet_aes_inner strip_seq cr aes s =
     (case read_frame 2 s of
        (Inl e, r) \<Rightarrow> (Inl e, r)
      | (Inr payload, r) \<Rightarrow>
          if payload ! 0 \<noteq> AES_FLAG then (Inr (with_data (payload ! 0) (drop 1 payload)), r)
          else
            let ciphertext = drop 1 payload in
            case aes_decrypt cr aes ciphertext of
              None \<Rightarrow> (Inl (AesFailed (length ciphertext)), r)
            | Some pt \<Rightarrow>
                if pt = [] then (Inl AesEmpty, r)
                else if strip_seq then
                  (if length pt < 2 then (Inl (TooShort (length pt)), r)
                   else (Inr (with_data (pt ! 1) (drop 2 pt)), r))
                else (Inr (with_data (pt ! 0) (drop 1 pt)), r))"

definition read_packet_aes ::
  "cbc_crate \<Rightarrow> aes_cryption \<Rightarrow> bytes \<Rightarrow> (io_error + packet) \<times> bytes" where
  "read_packet_aes = read_packet_aes_inner True"

definition read_packet_aes_no_seq ::
  "cbc_crate \<Rightarrow> aes_cryption \<Rightarrow> bytes \<Rightarrow> (io_error + packet) \<times> bytes" where
  "read_packet_aes_no_seq = read_packet_aes_inner False"

definition read_packet_jv_aes ::
  "cbc_crate \<Rightarrow> aes_cryption \<Rightarrow> jv_cryption \<Rightarrow> bytes \<Rightarrow> (io_error + packet) \<times> bytes" where
  "read_packet_jv_aes cr aes jv s =
     (case read_frame 2 s of
        (Inl e, r) \<Rightarrow> (Inl e, r)
      | (Inr payload, r) \<Rightarrow>
          if payload ! 0 \<noteq> AES_FLAG then (Inr (with_data (payload ! 0) (drop 1 payload)), r)
          else
            let ciphertext = drop 1 payload in
            case aes_decrypt cr aes ciphertext of
              None \<Rightarrow> (Inl (AesFailed (length ciphertext)), r)
            | Some aes_plaintext \<Rightarrow>
                case decrypt_with_crc32 jv aes_plaintext of
                  (None, _) \<Rightarrow> (Inl CrcFailed, r)
                | (Some jv_payload_len, jv_buf) \<Rightarrow>
                    if jv_payload_len < 5 then (Inl (TooShort jv_payload_len), r)
                    else (Inr (with_data (jv_buf ! 4) (drop 5 (take jv_payload_len jv_buf))), r))"

subsection \<open>Sending a frame\<close>

definition frame :: "bytes \<Rightarrow> bytes" where
  \<comment> \<open>header, length, payload, footer: the lines the senders share\<close>
  "frame payload =
     HEADER_OUTGOING @ to_le 2 (word_of_nat (length payload) :: u16) @ payload @ FOOTER_OUTGOING"

definition outgoing_plain :: "u16 \<Rightarrow> packet \<Rightarrow> bytes" where
  \<comment> \<open>magic, sequence, zero, opcode, data\<close>
  "outgoing_plain sq p = to_le 2 OUTGOING_CRYPTO_MAGIC @ to_le 2 sq @ [0x00] @ [opcode p] @ pdata p"

definition send_packet :: "jv_cryption \<Rightarrow> u32 \<Rightarrow> packet \<Rightarrow> io_error + bytes" where
  "send_packet crypto sequence p =
     (let payload = (if jv_enabled crypto
                     then jv_encrypt crypto (outgoing_plain (ucast sequence) p)
                     else opcode p # pdata p) in
      if length payload > 65535 then Inl (TooLarge (length payload)) else Inr (frame payload))"

definition send_packet_aes :: "cbc_crate \<Rightarrow> aes_cryption \<Rightarrow> packet \<Rightarrow> io_error + bytes" where
  "send_packet_aes cr aes p =
     (let ciphertext = aes_encrypt cr aes (opcode p # pdata p);
          payload_len = 1 + length ciphertext in
      if payload_len > 65535 then Inl (TooLarge payload_len)
      else Inr (frame (AES_FLAG # ciphertext)))"

definition send_packet_plaintext :: "packet \<Rightarrow> bytes" where
  "send_packet_plaintext p = frame (opcode p # pdata p)"

definition send_packet_jv_aes ::
  "cbc_crate \<Rightarrow> aes_cryption \<Rightarrow> jv_cryption \<Rightarrow> u32 \<Rightarrow> packet \<Rightarrow> (io_error + bytes) \<times> u32" where
  "send_packet_jv_aes cr aes jv jv_seq p =
     (let jv_seq' = jv_seq + 1;
          ciphertext = aes_encrypt cr aes (jv_encrypt jv (outgoing_plain (ucast jv_seq') p));
          payload_len = 1 + length ciphertext in
      (if payload_len > 65535 then Inl (TooLarge payload_len)
       else Inr (frame (AES_FLAG # ciphertext)), jv_seq'))"

subsection \<open>A frame is read back, whatever follows it\<close>

lemma outgoing_is_incoming: "HEADER_OUTGOING = HEADER_INCOMING" "FOOTER_OUTGOING = FOOTER_INCOMING"
  by (simp_all add: HEADER_OUTGOING_def HEADER_INCOMING_def FOOTER_OUTGOING_def FOOTER_INCOMING_def)

lemma length_marks [simp]: "length HEADER_INCOMING = 2" "length FOOTER_INCOMING = 2"
  by (simp_all add: HEADER_INCOMING_def FOOTER_INCOMING_def)

lemma read_exact_append [simp]: "length a = n \<Longrightarrow> read_exact n (a @ s) = (Inr a, s)"
  by (simp add: read_exact_def)

lemma read_frame_frame:
  assumes "lo \<le> length payload" and "length payload \<le> 65535"
  shows "read_frame lo (frame payload @ rest) = (Inr payload, rest)"
proof -
  have "unat (word_of_nat (length payload) :: u16) = length payload"
    using assms(2) by (simp add: unat_of_nat)
  then show ?thesis
    using assms by (simp add: read_frame_def frame_def outgoing_is_incoming MAX_PACKET_SIZE_def)
qed


lemma read_exact_Inr: "read_exact n s = (Inr a, r) \<Longrightarrow> s = a @ r \<and> length a = n"
  by (auto simp: read_exact_def split: if_splits)

lemma read_frame_Inr:
  assumes "read_frame lo s = (Inr payload, r)"
  shows "lo \<le> length payload \<and> length payload \<le> 65535 \<and> s = frame payload @ r"
proof -
  from assms obtain len_buf s1 s2 s3 where
    1: "read_exact 2 s = (Inr HEADER_INCOMING, s1)" and
    2: "read_exact 2 s1 = (Inr len_buf, s2)" and
    3: "read_exact (unat (from_le len_buf :: u16)) s2 = (Inr payload, s3)" and
    4: "read_exact 2 s3 = (Inr FOOTER_INCOMING, r)" and
    5: "lo \<le> unat (from_le len_buf :: u16)"
    by (auto simp: read_frame_def Let_def split: prod.splits sum.splits if_splits)
  note d = read_exact_Inr [OF 1] read_exact_Inr [OF 2] read_exact_Inr [OF 3] read_exact_Inr [OF 4]
  have "word_of_nat (length payload) = (from_le len_buf :: u16)" using d by simp
  then have "to_le 2 (word_of_nat (length payload) :: u16) = len_buf"
    using to_le_from_le [where 'a = 16, of len_buf] d by simp
  moreover have "unat (from_le len_buf :: u16) < 65536"
    using unsigned_less [of "from_le len_buf :: u16", where 'a = nat] by simp
  then have "length payload \<le> 65535" using d by linarith
  ultimately show ?thesis using d 5 by (simp add: frame_def outgoing_is_incoming)
qed

subsection \<open>Channels\<close>

text \<open>
  A sender and a receiver with a state each; \<open>rel\<close> says that the two states match. What one frame
  promises, a stream of frames keeps, whatever bytes follow it.
\<close>

primrec send_all :: "('s \<Rightarrow> packet \<Rightarrow> (bytes \<times> 's) option) \<Rightarrow> 's \<Rightarrow> packet list \<Rightarrow> (bytes \<times> 's) option"
where
  "send_all tx s [] = Some ([], s)"
| "send_all tx s (p # ps) =
     (case tx s p of
        None \<Rightarrow> None
      | Some (bs, s1) \<Rightarrow>
          (case send_all tx s1 ps of None \<Rightarrow> None | Some (bs', s2) \<Rightarrow> Some (bs @ bs', s2)))"

primrec recv_n ::
  "('r \<Rightarrow> bytes \<Rightarrow> (packet \<times> 'r \<times> bytes) option) \<Rightarrow> nat \<Rightarrow> 'r \<Rightarrow> bytes
     \<Rightarrow> (packet list \<times> 'r \<times> bytes) option" where
  "recv_n rx 0 r bs = Some ([], r, bs)"
| "recv_n rx (Suc n) r bs =
     (case rx r bs of
        None \<Rightarrow> None
      | Some (p, r1, bs1) \<Rightarrow> map_option (apfst ((#) p)) (recv_n rx n r1 bs1))"

definition wire :: "packet \<Rightarrow> packet" where
  \<comment> \<open>what of a packet travels: opcode and data\<close>
  "wire p = with_data (opcode p) (pdata p)"

locale packet_channel =
  fixes tx :: "'s \<Rightarrow> packet \<Rightarrow> (bytes \<times> 's) option"
    and rx :: "'r \<Rightarrow> bytes \<Rightarrow> (packet \<times> 'r \<times> bytes) option"
    and rel :: "'s \<Rightarrow> 'r \<Rightarrow> bool" and fits :: "packet \<Rightarrow> bool"
  assumes tx_fits: "fits p \<Longrightarrow> rel s r \<Longrightarrow> \<exists>bs s'. tx s p = Some (bs, s')"
    and rx_tx: "rel s r \<Longrightarrow> tx s p = Some (bs, s') \<Longrightarrow>
      \<exists>r'. rx r (bs @ rest) = Some (wire p, r', rest) \<and> rel s' r'"
begin

lemma stream:
  assumes "rel s r" and "list_all fits ps"
  shows "\<exists>bs s' r'. send_all tx s ps = Some (bs, s') \<and> rel s' r'
    \<and> recv_n rx (length ps) r (bs @ rest) = Some (map wire ps, r', rest)"
  using assms
proof (induction ps arbitrary: s r)
  case (Cons p ps)
  from tx_fits [of p s r] Cons.prems obtain b s1 where 1: "tx s p = Some (b, s1)" by auto
  have "\<exists>r1. rel s1 r1" using rx_tx [OF Cons.prems(1) 1] by blast
  then obtain r1' where "rel s1 r1'" ..
  then obtain bs s2 where 2: "send_all tx s1 ps = Some (bs, s2)"
    using Cons.IH [of s1 r1'] Cons.prems(2) by auto
  from rx_tx [OF Cons.prems(1) 1, of "bs @ rest"] obtain r1 where
    3: "rx r (b @ bs @ rest) = Some (wire p, r1, bs @ rest)" "rel s1 r1" by blast
  then show ?case using Cons.IH [of s1 r1] Cons.prems(2) 1 2 by auto
qed simp

end

definition plain_send :: "jv_cryption \<times> u32 \<Rightarrow> packet \<Rightarrow> (bytes \<times> jv_cryption \<times> u32) option" where
  "plain_send s p = (case send_packet (fst s) (snd s) p of Inr bs \<Rightarrow> Some (bs, s) | Inl _ \<Rightarrow> None)"

definition jv_recv :: "jv_cryption \<times> u32 \<Rightarrow> bytes \<Rightarrow> (packet \<times> (jv_cryption \<times> u32) \<times> bytes) option"
where
  "jv_recv r bs =
     (case read_packet_from (fst r) (snd r) bs of
        (Inr p, sq, rest) \<Rightarrow> Some (p, (fst r, sq), rest)
      | (Inl _, _, _) \<Rightarrow> None)"

interpretation plain: packet_channel plain_send jv_recv
  "\<lambda>s r. \<not> jv_enabled (fst s) \<and> \<not> jv_enabled (fst r)" "\<lambda>p. length (pdata p) < 65535"
proof unfold_locales
  fix s r :: "jv_cryption \<times> u32" and p bs s' rest
  show "\<exists>bs s'. plain_send s p = Some (bs, s')"
    if "length (pdata p) < 65535" "\<not> jv_enabled (fst s) \<and> \<not> jv_enabled (fst r)"
    using that by (simp add: plain_send_def send_packet_def Let_def)
  assume off: "\<not> jv_enabled (fst s) \<and> \<not> jv_enabled (fst r)" and "plain_send s p = Some (bs, s')"
  then have "bs = frame (opcode p # pdata p)" "s' = s" "length (opcode p # pdata p) \<le> 65535"
    by (auto simp: plain_send_def send_packet_def Let_def split: if_splits)
  then show "\<exists>r'. jv_recv r (bs @ rest) = Some (wire p, r', rest)
      \<and> \<not> jv_enabled (fst s') \<and> \<not> jv_enabled (fst r')"
    using off read_frame_frame [of 1 "opcode p # pdata p" rest]
    by (simp add: jv_recv_def read_packet_from_def wire_def)
qed

text \<open>
  The client's side of a sealed connection, as the comments of \<^verbatim>\<open>packet.rs\<close> (lines 10 to 13) and
  \<^verbatim>\<open>packet_io.rs\<close> (lines 182 to 186) give it: sequence, opcode, data, sealed with
  \<open>encrypt_with_crc32\<close>. The client is not part of the repository.
\<close>

definition sealed_payload :: "jv_cryption \<Rightarrow> u32 \<Rightarrow> packet \<Rightarrow> bytes" where
  "sealed_payload jv sq p = encrypt_with_crc32 jv (to_le 4 sq @ opcode p # pdata p)"

definition client_send :: "jv_cryption \<times> u32 \<Rightarrow> packet \<Rightarrow> (bytes \<times> jv_cryption \<times> u32) option" where
  "client_send s p =
     (let payload = sealed_payload (fst s) (snd s + 1) p in
      if length payload \<le> 65535 then Some (frame payload, fst s, snd s + 1) else None)"

lemma length_sealed [simp]: "length (sealed_payload jv sq p) = length (pdata p) + 9"
  by (simp add: sealed_payload_def encrypt_with_crc32_def jv_cipher_defs jv.length_kept)

lemma read_sealed:
  assumes "jv_enabled jv" and "length (pdata p) + 9 \<le> 65535"
  shows "read_packet_from jv sq (frame (sealed_payload jv n p) @ rest) =
    (if n = sq + 1 then (Inr (wire p), sq + 1, rest)
     else (Inl (SequenceMismatch (sq + 1) n), sq + 1, rest))"
proof -
  have f: "read_frame 1 (frame (sealed_payload jv n p) @ rest) = (Inr (sealed_payload jv n p), rest)"
    using assms(2) by (intro read_frame_frame) simp_all
  obtain buf where d: "decrypt_with_crc32 jv (sealed_payload jv n p) = (Some (length (pdata p) + 5), buf)"
    and b: "take 4 buf = to_le 4 n" "buf ! 4 = opcode p"
      "drop 5 (take (length (pdata p) + 5) buf) = pdata p"
    by (simp add: sealed_payload_def decrypt_encrypt_with_crc32 nth_append)
  show ?thesis using assms(1) by (simp add: read_packet_from_def f [unfolded One_nat_def] d b Let_def wire_def)
qed

interpretation sealed: packet_channel client_send jv_recv
  "\<lambda>s r. s = r \<and> jv_enabled (fst r)" "\<lambda>p. length (pdata p) + 9 \<le> 65535"
  by unfold_locales (auto simp: client_send_def jv_recv_def read_sealed Let_def split: if_splits)

text \<open>Over a connection without encryption, whatever list of packets \<open>send_packet\<close> puts on
  the wire, \<open>read_packet_from\<close> takes off it again, in order and byte for byte, and leaves the
  bytes that follow.\<close>

theorem plain_stream_roundtrip:
  assumes "\<not> jv_enabled jv" and "\<not> jv_enabled jv'" and "list_all (\<lambda>p. length (pdata p) < 65535) ps"
  shows "\<exists>bs s' r'. send_all plain_send (jv, sq) ps = Some (bs, s')
    \<and> recv_n jv_recv (length ps) (jv', sq') (bs @ rest) = Some (map wire ps, r', rest)"
  using plain.stream [where s = "(jv, sq)" and r = "(jv', sq')" and rest = rest, OF _ assms(3)]
    assms(1,2) by auto

theorem plain_stream_roundtrip_witness:
  "\<exists>bs s' r'. send_all plain_send (jv_new, 0) [with_data 0x10 [1, 2], packet_new 0x2B] = Some (bs, s')
    \<and> recv_n jv_recv 2 (jv_new, 0) (bs @ [0xAA]) =
        Some ([with_data 0x10 [1, 2], packet_new 0x2B], r', [0xAA])"
  using plain_stream_roundtrip [where ps = "[with_data 0x10 [1, 2], packet_new 0x2B]"
      and jv = jv_new and jv' = jv_new and sq = 0 and sq' = 0 and rest = "[0xAA]"]
  by (simp add: jv_new_def wire_def with_data_def packet_new_def numeral_2_eq_2)

text \<open>C36: over an encrypted connection the packets a client seals with consecutive sequence numbers
  are accepted in order and read back unchanged, and both counters advance together.\<close>

theorem sealed_stream_roundtrip:
  assumes "jv_enabled jv" and "list_all (\<lambda>p. length (pdata p) + 9 \<le> 65535) ps"
  shows "\<exists>bs s'. send_all client_send (jv, sq) ps = Some (bs, s')
    \<and> recv_n jv_recv (length ps) (jv, sq) (bs @ rest) = Some (map wire ps, s', rest)"
  using sealed.stream [where s = "(jv, sq)" and r = "(jv, sq)" and rest = rest, OF _ assms(2)]
    assms(1) by auto

theorem sealed_stream_roundtrip_witness:
  "\<exists>bs s'. send_all client_send (jv_init jv_new, 0) [with_data 0x10 [1, 2], packet_new 0x2B] =
       Some (bs, s')
    \<and> recv_n jv_recv 2 (jv_init jv_new, 0) (bs @ []) =
        Some ([with_data 0x10 [1, 2], packet_new 0x2B], s', [])"
  using sealed_stream_roundtrip [where ps = "[with_data 0x10 [1, 2], packet_new 0x2B]"
      and jv = "jv_init jv_new" and sq = 0 and rest = "[]"]
  by (simp add: jv_init_def wire_def with_data_def packet_new_def numeral_2_eq_2)

text \<open>C37: no frame is accepted twice: once a sealed frame has been read, the same bytes again are
  rejected with a sequence mismatch, and so is any frame whose number is not the next one.\<close>

theorem replay_rejected:
  assumes "jv_enabled jv" and "length (pdata p) + 9 \<le> 65535"
    and "read_packet_from jv sq (frame (sealed_payload jv n p) @ rest) = (Inr q, sq', rest')"
  shows "n = sq + 1 \<and> q = wire p \<and> sq' = n
    \<and> read_packet_from jv sq' (frame (sealed_payload jv n p) @ rest) =
        (Inl (SequenceMismatch (n + 1) n), n + 1, rest)"
  using assms(3) by (auto simp: read_sealed [OF assms(1,2)] split: if_splits)

theorem replay_rejected_witness:
  "read_packet_from (jv_init jv_new) 1
     (frame (sealed_payload (jv_init jv_new) 1 (with_data 0x08 [5])) @ []) =
   (Inl (SequenceMismatch (1 + 1) 1), 1 + 1, [])"
proof -
  have "read_packet_from (jv_init jv_new) 0
      (frame (sealed_payload (jv_init jv_new) 1 (with_data 0x08 [5])) @ []) =
      (Inr (wire (with_data 0x08 [5])), 1, [])"
    by (subst read_sealed) (simp_all add: jv_init_def with_data_def)
  from replay_rejected [OF _ _ this] show ?thesis by (simp add: jv_init_def with_data_def)
qed

text \<open>A sealed frame in which one payload byte was altered on the way is refused by the checksum,
  before the sequence counter moves.\<close>

theorem altered_frame_refused:
  assumes "jv_enabled jv" and "length (pdata p) + 9 \<le> 65535"
    and "i < length (pdata p) + 9" and "m \<noteq> 0"
  shows "read_packet_from jv sq
      (frame ((sealed_payload jv n p)[i := sealed_payload jv n p ! i XOR m]) @ rest) =
    (Inl CrcFailed, sq, rest)"
proof -
  let ?b = "(sealed_payload jv n p)[i := sealed_payload jv n p ! i XOR m]"
  have "read_frame 1 (frame ?b @ rest) = (Inr ?b, rest)"
    using assms(2) by (intro read_frame_frame) simp_all
  moreover have "fst (decrypt_with_crc32 jv ?b) = None"
    unfolding sealed_payload_def using assms(3,4) by (intro jv_corruption_detected) simp_all
  ultimately show ?thesis
    using assms(1) by (auto simp: read_packet_from_def split: prod.splits)
qed

theorem altered_frame_refused_witness:
  "read_packet_from (jv_init jv_new) 0
     (frame ((sealed_payload (jv_init jv_new) 1 (with_data 0x08 [5]))
        [2 := sealed_payload (jv_init jv_new) 1 (with_data 0x08 [5]) ! 2 XOR 1]) @ []) =
   (Inl CrcFailed, 0, [])"
  by (rule altered_frame_refused) (simp_all add: jv_init_def with_data_def)

end
