(* ===== verification/Opcode.thy ===== *)
theory Opcode
  imports Prelude
begin

text \<open>
  The opcode byte of a packet (\<^verbatim>\<open>crates/ko-protocol/src/opcode.rs\<close>, lines 11 to 707): the enum
  \<open>Opcode\<close>, \<open>repr(u8)\<close>, each variant with its discriminant, and the hand-written table of
  \<open>from_byte\<close>. \<open>as_u8\<close> is Rust's \<open>op as u8\<close>. The list of variants is split where the comments of
  the enum split it.
\<close>

datatype opcode = Discriminant (as_u8: u8)

definition WizLogin :: opcode where "WizLogin = Discriminant 0x01"
definition WizNewChar :: opcode where "WizNewChar = Discriminant 0x02"
definition WizDelChar :: opcode where "WizDelChar = Discriminant 0x03"
definition WizSelChar :: opcode where "WizSelChar = Discriminant 0x04"
definition WizSelNation :: opcode where "WizSelNation = Discriminant 0x05"
definition WizMove :: opcode where "WizMove = Discriminant 0x06"
definition WizUserInout :: opcode where "WizUserInout = Discriminant 0x07"
definition WizAttack :: opcode where "WizAttack = Discriminant 0x08"
definition WizRotate :: opcode where "WizRotate = Discriminant 0x09"
definition WizNpcInout :: opcode where "WizNpcInout = Discriminant 0x0A"
definition WizNpcMove :: opcode where "WizNpcMove = Discriminant 0x0B"
definition WizAllcharInfoReq :: opcode where "WizAllcharInfoReq = Discriminant 0x0C"
definition WizGamestart :: opcode where "WizGamestart = Discriminant 0x0D"
definition WizMyInfo :: opcode where "WizMyInfo = Discriminant 0x0E"
definition WizLogout :: opcode where "WizLogout = Discriminant 0x0F"
definition WizChat :: opcode where "WizChat = Discriminant 0x10"
definition WizDead :: opcode where "WizDead = Discriminant 0x11"
definition WizRegene :: opcode where "WizRegene = Discriminant 0x12"
definition WizTime :: opcode where "WizTime = Discriminant 0x13"
definition WizWeather :: opcode where "WizWeather = Discriminant 0x14"
definition WizRegionChange :: opcode where "WizRegionChange = Discriminant 0x15"
definition WizReqUserIn :: opcode where "WizReqUserIn = Discriminant 0x16"
definition WizHpChange :: opcode where "WizHpChange = Discriminant 0x17"
definition WizMspChange :: opcode where "WizMspChange = Discriminant 0x18"
definition WizNationChat :: opcode where "WizNationChat = Discriminant 0x19"
definition WizExpChange :: opcode where "WizExpChange = Discriminant 0x1A"
definition WizLevelChange :: opcode where "WizLevelChange = Discriminant 0x1B"
definition WizNpcRegion :: opcode where "WizNpcRegion = Discriminant 0x1C"
definition WizReqNpcIn :: opcode where "WizReqNpcIn = Discriminant 0x1D"
definition WizWarp :: opcode where "WizWarp = Discriminant 0x1E"
definition WizItemMove :: opcode where "WizItemMove = Discriminant 0x1F"
definition WizNpcEvent :: opcode where "WizNpcEvent = Discriminant 0x20"
definition WizItemTrade :: opcode where "WizItemTrade = Discriminant 0x21"
definition WizTargetHp :: opcode where "WizTargetHp = Discriminant 0x22"
definition WizItemDrop :: opcode where "WizItemDrop = Discriminant 0x23"
definition WizBundleOpenReq :: opcode where "WizBundleOpenReq = Discriminant 0x24"
definition WizTradeNpc :: opcode where "WizTradeNpc = Discriminant 0x25"
definition WizItemGet :: opcode where "WizItemGet = Discriminant 0x26"
definition WizZoneChange :: opcode where "WizZoneChange = Discriminant 0x27"
definition WizPointChange :: opcode where "WizPointChange = Discriminant 0x28"
definition WizStateChange :: opcode where "WizStateChange = Discriminant 0x29"
definition WizLoyaltyChange :: opcode where "WizLoyaltyChange = Discriminant 0x2A"
definition WizVersionCheck :: opcode where "WizVersionCheck = Discriminant 0x2B"
definition WizCryption :: opcode where "WizCryption = Discriminant 0x2C"
definition WizUserlookChange :: opcode where "WizUserlookChange = Discriminant 0x2D"
definition WizNotice :: opcode where "WizNotice = Discriminant 0x2E"
definition WizParty :: opcode where "WizParty = Discriminant 0x2F"
definition WizExchange :: opcode where "WizExchange = Discriminant 0x30"
definition WizMagicProcess :: opcode where "WizMagicProcess = Discriminant 0x31"
definition WizSkillptChange :: opcode where "WizSkillptChange = Discriminant 0x32"
definition WizObjectEvent :: opcode where "WizObjectEvent = Discriminant 0x33"
definition WizClassChange :: opcode where "WizClassChange = Discriminant 0x34"
definition WizChatTarget :: opcode where "WizChatTarget = Discriminant 0x35"
definition WizConcurrentUser :: opcode where "WizConcurrentUser = Discriminant 0x36"
definition WizDatasave :: opcode where "WizDatasave = Discriminant 0x37"
definition WizDuration :: opcode where "WizDuration = Discriminant 0x38"
definition WizRepairNpc :: opcode where "WizRepairNpc = Discriminant 0x3A"
definition WizItemRepair :: opcode where "WizItemRepair = Discriminant 0x3B"
definition WizKnightsProcess :: opcode where "WizKnightsProcess = Discriminant 0x3C"
definition WizItemCountChange :: opcode where "WizItemCountChange = Discriminant 0x3D"
definition WizKnightsList :: opcode where "WizKnightsList = Discriminant 0x3E"
definition WizItemRemove :: opcode where "WizItemRemove = Discriminant 0x3F"
definition WizOperator :: opcode where "WizOperator = Discriminant 0x40"
definition WizSpeedhackCheck :: opcode where "WizSpeedhackCheck = Discriminant 0x41"
definition WizCompressPacket :: opcode where "WizCompressPacket = Discriminant 0x42"
definition WizServerCheck :: opcode where "WizServerCheck = Discriminant 0x43"
definition WizVirtualServer :: opcode where "WizVirtualServer = Discriminant 0x4C"
definition WizWarehouse :: opcode where "WizWarehouse = Discriminant 0x45"
definition WizReportBug :: opcode where "WizReportBug = Discriminant 0x47"
definition WizHome :: opcode where "WizHome = Discriminant 0x48"
definition WizFriendProcess :: opcode where "WizFriendProcess = Discriminant 0x49"
definition WizGoldChange :: opcode where "WizGoldChange = Discriminant 0x4A"
definition WizWarpList :: opcode where "WizWarpList = Discriminant 0x4B"
definition WizPartyBbs :: opcode where "WizPartyBbs = Discriminant 0x4F"
definition WizClientEvent :: opcode where "WizClientEvent = Discriminant 0x52"
definition WizMapEvent :: opcode where "WizMapEvent = Discriminant 0x53"
definition WizWeightChange :: opcode where "WizWeightChange = Discriminant 0x54"
definition WizSelectMsg :: opcode where "WizSelectMsg = Discriminant 0x55"
definition WizNpcSay :: opcode where "WizNpcSay = Discriminant 0x56"
definition WizBattleEvent :: opcode where "WizBattleEvent = Discriminant 0x57"
definition WizAuthorityChange :: opcode where "WizAuthorityChange = Discriminant 0x58"
definition WizEditBox :: opcode where "WizEditBox = Discriminant 0x59"
definition WizSanta :: opcode where "WizSanta = Discriminant 0x5A"
definition WizItemUpgrade :: opcode where "WizItemUpgrade = Discriminant 0x5B"
definition WizZoneability :: opcode where "WizZoneability = Discriminant 0x5E"
definition WizEvent :: opcode where "WizEvent = Discriminant 0x5F"
definition WizStealth :: opcode where "WizStealth = Discriminant 0x60"
definition WizQuest :: opcode where "WizQuest = Discriminant 0x64"
definition WizMerchant :: opcode where "WizMerchant = Discriminant 0x68"
definition WizMerchantInout :: opcode where "WizMerchantInout = Discriminant 0x69"
definition WizShoppingMall :: opcode where "WizShoppingMall = Discriminant 0x6A"
definition WizServerIndex :: opcode where "WizServerIndex = Discriminant 0x6B"
definition WizEffect :: opcode where "WizEffect = Discriminant 0x6C"
definition WizSiege :: opcode where "WizSiege = Discriminant 0x6D"
definition WizNameChange :: opcode where "WizNameChange = Discriminant 0x6E"
definition WizCape :: opcode where "WizCape = Discriminant 0x70"
definition WizPremium :: opcode where "WizPremium = Discriminant 0x71"
definition WizHacktool :: opcode where "WizHacktool = Discriminant 0x72"
definition WizRental :: opcode where "WizRental = Discriminant 0x73"
definition WizChallenge :: opcode where "WizChallenge = Discriminant 0x75"
definition WizPet :: opcode where "WizPet = Discriminant 0x76"
definition WizKing :: opcode where "WizKing = Discriminant 0x78"
definition WizSkillData :: opcode where "WizSkillData = Discriminant 0x79"
definition WizProgramCheck :: opcode where "WizProgramCheck = Discriminant 0x7A"
definition WizBifrost :: opcode where "WizBifrost = Discriminant 0x7B"
definition WizReport :: opcode where "WizReport = Discriminant 0x7C"
definition WizLogosshout :: opcode where "WizLogosshout = Discriminant 0x7D"
definition WizRank :: opcode where "WizRank = Discriminant 0x80"
definition WizStory :: opcode where "WizStory = Discriminant 0x81"
definition WizNationTransfer :: opcode where "WizNationTransfer = Discriminant 0x82"
definition WizTerrainEffects :: opcode where "WizTerrainEffects = Discriminant 0x83"
definition WizMovingTower :: opcode where "WizMovingTower = Discriminant 0x84"
definition WizMining :: opcode where "WizMining = Discriminant 0x86"
definition WizHelmet :: opcode where "WizHelmet = Discriminant 0x87"
definition WizPvp :: opcode where "WizPvp = Discriminant 0x88"
definition WizChangeHair :: opcode where "WizChangeHair = Discriminant 0x89"
definition WizVipwarehouse :: opcode where "WizVipwarehouse = Discriminant 0x8B"
definition WizGenderChange :: opcode where "WizGenderChange = Discriminant 0x8D"
definition WizGenie :: opcode where "WizGenie = Discriminant 0x97"
definition WizUserInfo :: opcode where "WizUserInfo = Discriminant 0x98"
definition WizUserAchieve :: opcode where "WizUserAchieve = Discriminant 0x99"
definition WizExpSeal :: opcode where "WizExpSeal = Discriminant 0x9A"
definition WizKurianSpChange :: opcode where "WizKurianSpChange = Discriminant 0x9B"
definition WizLoadingLogin :: opcode where "WizLoadingLogin = Discriminant 0x9F"
definition WizSound :: opcode where "WizSound = Discriminant 0xB5"
definition WizVanguard :: opcode where "WizVanguard = Discriminant 0xB6"
definition WizPreset :: opcode where "WizPreset = Discriminant 0xB9"
definition WizAutoDrop :: opcode where "WizAutoDrop = Discriminant 0xBA"
definition WizMerchantList :: opcode where "WizMerchantList = Discriminant 0xBD"
definition WizMaxHpChange :: opcode where "WizMaxHpChange = Discriminant 0x92"
definition WizSeal :: opcode where "WizSeal = Discriminant 0x95"
definition WizContinousPacketData :: opcode where "WizContinousPacketData = Discriminant 0x9C"
definition WizAchievement2 :: opcode where "WizAchievement2 = Discriminant 0xA5"
definition WizCollection1 :: opcode where "WizCollection1 = Discriminant 0xA9"
definition WizPremium2 :: opcode where "WizPremium2 = Discriminant 0xAC"
definition WizCollection2 :: opcode where "WizCollection2 = Discriminant 0xB4"
definition WizAttendance :: opcode where "WizAttendance = Discriminant 0xB7"
definition WizUpgradeNotice :: opcode where "WizUpgradeNotice = Discriminant 0xB8"
definition WizCaptcha :: opcode where "WizCaptcha = Discriminant 0xC0"
definition WizDailyRank :: opcode where "WizDailyRank = Discriminant 0xC2"
definition WizCostume :: opcode where "WizCostume = Discriminant 0xC3"
definition WizSoul :: opcode where "WizSoul = Discriminant 0xC5"
definition WizDailyQuest :: opcode where "WizDailyQuest = Discriminant 0xC7"
definition WizAwakening :: opcode where "WizAwakening = Discriminant 0xCB"
definition WizEnchant :: opcode where "WizEnchant = Discriminant 0xCC"
definition WizChallenge2 :: opcode where "WizChallenge2 = Discriminant 0xCE"
definition WizAbility :: opcode where "WizAbility = Discriminant 0xCF"
definition WizGuildBank :: opcode where "WizGuildBank = Discriminant 0xD0"
definition WizClanWarehouse :: opcode where "WizClanWarehouse = Discriminant 0xD1"
definition WizRebirth :: opcode where "WizRebirth = Discriminant 0xD3"
definition WizTerritory :: opcode where "WizTerritory = Discriminant 0xD5"
definition WizWorldBoss :: opcode where "WizWorldBoss = Discriminant 0xD6"
definition WizSeason :: opcode where "WizSeason = Discriminant 0xD7"
definition WizAddMsg :: opcode where "WizAddMsg = Discriminant 0xDB"
definition WizCinderella :: opcode where "WizCinderella = Discriminant 0xE0"
definition WizPartyHp :: opcode where "WizPartyHp = Discriminant 0xE8"
definition WizExtHook :: opcode where "WizExtHook = Discriminant 0xE9"
definition WizContinousPacket :: opcode where "WizContinousPacket = Discriminant 0x44"
definition WizServerChange :: opcode where "WizServerChange = Discriminant 0x46"
definition WizZoneConcurrent :: opcode where "WizZoneConcurrent = Discriminant 0x4D"
definition WizCorpse :: opcode where "WizCorpse = Discriminant 0x4E"
definition WizMarketBbs :: opcode where "WizMarketBbs = Discriminant 0x50"
definition WizKickout :: opcode where "WizKickout = Discriminant 0x51"
definition WizClanPremium :: opcode where "WizClanPremium = Discriminant 0x5C"
definition WizPacket2 :: opcode where "WizPacket2 = Discriminant 0x5D"
definition WizRoomPacketProcess :: opcode where "WizRoomPacketProcess = Discriminant 0x61"
definition WizRoom :: opcode where "WizRoom = Discriminant 0x62"
definition WizClanBattle :: opcode where "WizClanBattle = Discriminant 0x63"
definition WizPpCardLogin :: opcode where "WizPpCardLogin = Discriminant 0x65"
definition WizKiss :: opcode where "WizKiss = Discriminant 0x66"
definition WizRecommendUser :: opcode where "WizRecommendUser = Discriminant 0x67"
definition WizWebpage :: opcode where "WizWebpage = Discriminant 0x6F"
definition WizItemExpiration :: opcode where "WizItemExpiration = Discriminant 0x74"
definition WizChina :: opcode where "WizChina = Discriminant 0x77"
definition WizCapture :: opcode where "WizCapture = Discriminant 0x85"
definition WizLoyaltyShop :: opcode where "WizLoyaltyShop = Discriminant 0x90"
definition WizClanpointsBattle :: opcode where "WizClanpointsBattle = Discriminant 0x91"
definition WizKillAssist :: opcode where "WizKillAssist = Discriminant 0xC8"
definition WizKnightRoyale :: opcode where "WizKnightRoyale = Discriminant 0xEF"
definition WizGameguardResp :: opcode where "WizGameguardResp = Discriminant 0xFA"
definition WizGameguardChal :: opcode where "WizGameguardChal = Discriminant 0xFB"
definition WizGameguardHb :: opcode where "WizGameguardHb = Discriminant 0xFC"
definition WizGameguardAuth :: opcode where "WizGameguardAuth = Discriminant 0xFD"
definition WizGameguardKey :: opcode where "WizGameguardKey = Discriminant 0xFE"

lemmas variant_defs =
  WizLogin_def WizNewChar_def WizDelChar_def WizSelChar_def WizSelNation_def WizMove_def
  WizUserInout_def WizAttack_def WizRotate_def WizNpcInout_def WizNpcMove_def
  WizAllcharInfoReq_def WizGamestart_def WizMyInfo_def WizLogout_def WizChat_def WizDead_def
  WizRegene_def WizTime_def WizWeather_def WizRegionChange_def WizReqUserIn_def WizHpChange_def
  WizMspChange_def WizNationChat_def WizExpChange_def WizLevelChange_def WizNpcRegion_def
  WizReqNpcIn_def WizWarp_def WizItemMove_def WizNpcEvent_def WizItemTrade_def WizTargetHp_def
  WizItemDrop_def WizBundleOpenReq_def WizTradeNpc_def WizItemGet_def WizZoneChange_def
  WizPointChange_def WizStateChange_def WizLoyaltyChange_def WizVersionCheck_def WizCryption_def
  WizUserlookChange_def WizNotice_def WizParty_def WizExchange_def WizMagicProcess_def
  WizSkillptChange_def WizObjectEvent_def WizClassChange_def WizChatTarget_def
  WizConcurrentUser_def WizDatasave_def WizDuration_def WizRepairNpc_def WizItemRepair_def
  WizKnightsProcess_def WizItemCountChange_def WizKnightsList_def WizItemRemove_def
  WizOperator_def WizSpeedhackCheck_def WizCompressPacket_def WizServerCheck_def
  WizVirtualServer_def WizWarehouse_def WizReportBug_def WizHome_def WizFriendProcess_def
  WizGoldChange_def WizWarpList_def WizPartyBbs_def WizClientEvent_def WizMapEvent_def
  WizWeightChange_def WizSelectMsg_def WizNpcSay_def WizBattleEvent_def WizAuthorityChange_def
  WizEditBox_def WizSanta_def WizItemUpgrade_def WizZoneability_def WizEvent_def WizStealth_def
  WizQuest_def WizMerchant_def WizMerchantInout_def WizShoppingMall_def WizServerIndex_def
  WizEffect_def WizSiege_def WizNameChange_def WizCape_def WizPremium_def WizHacktool_def
  WizRental_def WizChallenge_def WizPet_def WizKing_def WizSkillData_def WizProgramCheck_def
  WizBifrost_def WizReport_def WizLogosshout_def WizRank_def WizStory_def WizNationTransfer_def
  WizTerrainEffects_def WizMovingTower_def WizMining_def WizHelmet_def WizPvp_def
  WizChangeHair_def WizVipwarehouse_def WizGenderChange_def WizGenie_def WizUserInfo_def
  WizUserAchieve_def WizExpSeal_def WizKurianSpChange_def WizLoadingLogin_def WizSound_def
  WizVanguard_def WizPreset_def WizAutoDrop_def WizMerchantList_def WizMaxHpChange_def
  WizSeal_def WizContinousPacketData_def WizAchievement2_def WizCollection1_def WizPremium2_def
  WizCollection2_def WizAttendance_def WizUpgradeNotice_def WizCaptcha_def WizDailyRank_def
  WizCostume_def WizSoul_def WizDailyQuest_def WizAwakening_def WizEnchant_def WizChallenge2_def
  WizAbility_def WizGuildBank_def WizClanWarehouse_def WizRebirth_def WizTerritory_def
  WizWorldBoss_def WizSeason_def WizAddMsg_def WizCinderella_def WizPartyHp_def WizExtHook_def
  WizContinousPacket_def WizServerChange_def WizZoneConcurrent_def WizCorpse_def WizMarketBbs_def
  WizKickout_def WizClanPremium_def WizPacket2_def WizRoomPacketProcess_def WizRoom_def
  WizClanBattle_def WizPpCardLogin_def WizKiss_def WizRecommendUser_def WizWebpage_def
  WizItemExpiration_def WizChina_def WizCapture_def WizLoyaltyShop_def WizClanpointsBattle_def
  WizKillAssist_def WizKnightRoyale_def WizGameguardResp_def WizGameguardChal_def
  WizGameguardHb_def WizGameguardAuth_def WizGameguardKey_def

definition variants_1 :: "opcode list" where
  "variants_1 =
    [WizLogin, WizNewChar, WizDelChar, WizSelChar, WizSelNation, WizMove, WizUserInout, WizAttack,
     WizRotate, WizNpcInout, WizNpcMove, WizAllcharInfoReq, WizGamestart, WizMyInfo, WizLogout,
     WizChat, WizDead, WizRegene, WizTime, WizWeather, WizRegionChange, WizReqUserIn,
     WizHpChange, WizMspChange, WizNationChat, WizExpChange, WizLevelChange, WizNpcRegion,
     WizReqNpcIn, WizWarp, WizItemMove, WizNpcEvent, WizItemTrade, WizTargetHp, WizItemDrop,
     WizBundleOpenReq, WizTradeNpc, WizItemGet, WizZoneChange, WizPointChange, WizStateChange,
     WizLoyaltyChange, WizVersionCheck, WizCryption, WizUserlookChange, WizNotice, WizParty,
     WizExchange, WizMagicProcess, WizSkillptChange, WizObjectEvent, WizClassChange,
     WizChatTarget, WizConcurrentUser, WizDatasave, WizDuration, WizRepairNpc, WizItemRepair,
     WizKnightsProcess, WizItemCountChange, WizKnightsList, WizItemRemove]"

definition variants_2 :: "opcode list" where
  "variants_2 =
    [WizOperator, WizSpeedhackCheck, WizCompressPacket, WizServerCheck, WizVirtualServer,
     WizWarehouse, WizReportBug, WizHome, WizFriendProcess, WizGoldChange, WizWarpList,
     WizPartyBbs, WizClientEvent, WizMapEvent, WizWeightChange, WizSelectMsg, WizNpcSay,
     WizBattleEvent, WizAuthorityChange, WizEditBox, WizSanta, WizItemUpgrade, WizZoneability,
     WizEvent, WizStealth, WizQuest, WizMerchant, WizMerchantInout, WizShoppingMall,
     WizServerIndex, WizEffect, WizSiege, WizNameChange, WizCape, WizPremium, WizHacktool,
     WizRental, WizChallenge, WizPet, WizKing, WizSkillData, WizProgramCheck, WizBifrost,
     WizReport, WizLogosshout, WizRank, WizStory, WizNationTransfer, WizTerrainEffects,
     WizMovingTower, WizMining, WizHelmet, WizPvp, WizChangeHair, WizVipwarehouse,
     WizGenderChange, WizGenie, WizUserInfo, WizUserAchieve, WizExpSeal, WizKurianSpChange,
     WizLoadingLogin]"

definition variants_3 :: "opcode list" where
  "variants_3 =
    [WizSound, WizVanguard, WizPreset, WizAutoDrop, WizMerchantList, WizMaxHpChange, WizSeal,
     WizContinousPacketData, WizAchievement2, WizCollection1, WizPremium2, WizCollection2,
     WizAttendance, WizUpgradeNotice, WizCaptcha, WizDailyRank, WizCostume, WizSoul,
     WizDailyQuest, WizAwakening, WizEnchant, WizChallenge2, WizAbility, WizGuildBank,
     WizClanWarehouse, WizRebirth, WizTerritory, WizWorldBoss, WizSeason, WizAddMsg,
     WizCinderella, WizPartyHp, WizExtHook, WizContinousPacket, WizServerChange,
     WizZoneConcurrent, WizCorpse, WizMarketBbs, WizKickout, WizClanPremium, WizPacket2,
     WizRoomPacketProcess, WizRoom, WizClanBattle, WizPpCardLogin, WizKiss, WizRecommendUser,
     WizWebpage, WizItemExpiration, WizChina, WizCapture, WizLoyaltyShop, WizClanpointsBattle,
     WizKillAssist, WizKnightRoyale, WizGameguardResp, WizGameguardChal, WizGameguardHb,
     WizGameguardAuth, WizGameguardKey]"

definition variants :: "opcode list" where
  "variants = variants_1 @ variants_2 @ variants_3"

definition from_byte_arms_1 :: "(u8 \<times> opcode) list" where
  "from_byte_arms_1 =
    [(0x01, WizLogin), (0x02, WizNewChar), (0x03, WizDelChar), (0x04, WizSelChar),
     (0x05, WizSelNation), (0x06, WizMove), (0x07, WizUserInout), (0x08, WizAttack),
     (0x09, WizRotate), (0x0A, WizNpcInout), (0x0B, WizNpcMove), (0x0C, WizAllcharInfoReq),
     (0x0D, WizGamestart), (0x0E, WizMyInfo), (0x0F, WizLogout), (0x10, WizChat),
     (0x11, WizDead), (0x12, WizRegene), (0x13, WizTime), (0x14, WizWeather),
     (0x15, WizRegionChange), (0x16, WizReqUserIn), (0x17, WizHpChange), (0x18, WizMspChange),
     (0x19, WizNationChat), (0x1A, WizExpChange), (0x1B, WizLevelChange), (0x1C, WizNpcRegion),
     (0x1D, WizReqNpcIn), (0x1E, WizWarp), (0x1F, WizItemMove), (0x20, WizNpcEvent),
     (0x21, WizItemTrade), (0x22, WizTargetHp), (0x23, WizItemDrop), (0x24, WizBundleOpenReq),
     (0x25, WizTradeNpc), (0x26, WizItemGet), (0x27, WizZoneChange), (0x28, WizPointChange),
     (0x29, WizStateChange), (0x2A, WizLoyaltyChange), (0x2B, WizVersionCheck),
     (0x2C, WizCryption), (0x2D, WizUserlookChange), (0x2E, WizNotice), (0x2F, WizParty),
     (0x30, WizExchange), (0x31, WizMagicProcess), (0x32, WizSkillptChange),
     (0x33, WizObjectEvent), (0x34, WizClassChange), (0x35, WizChatTarget),
     (0x36, WizConcurrentUser), (0x37, WizDatasave), (0x38, WizDuration), (0x3A, WizRepairNpc),
     (0x3B, WizItemRepair), (0x3C, WizKnightsProcess), (0x3D, WizItemCountChange),
     (0x3E, WizKnightsList), (0x3F, WizItemRemove), (0x40, WizOperator),
     (0x41, WizSpeedhackCheck), (0x42, WizCompressPacket), (0x43, WizServerCheck),
     (0x44, WizContinousPacket), (0x45, WizWarehouse), (0x46, WizServerChange),
     (0x47, WizReportBug), (0x48, WizHome), (0x49, WizFriendProcess), (0x4A, WizGoldChange),
     (0x4B, WizWarpList), (0x4C, WizVirtualServer), (0x4D, WizZoneConcurrent), (0x4E, WizCorpse),
     (0x4F, WizPartyBbs), (0x50, WizMarketBbs), (0x51, WizKickout), (0x52, WizClientEvent),
     (0x53, WizMapEvent), (0x54, WizWeightChange), (0x55, WizSelectMsg), (0x56, WizNpcSay),
     (0x57, WizBattleEvent), (0x58, WizAuthorityChange), (0x59, WizEditBox), (0x5A, WizSanta),
     (0x5B, WizItemUpgrade), (0x5C, WizClanPremium), (0x5D, WizPacket2), (0x5E, WizZoneability),
     (0x5F, WizEvent), (0x60, WizStealth), (0x61, WizRoomPacketProcess), (0x62, WizRoom),
     (0x63, WizClanBattle)]"

definition from_byte_arms_2 :: "(u8 \<times> opcode) list" where
  "from_byte_arms_2 =
    [(0x64, WizQuest), (0x65, WizPpCardLogin), (0x66, WizKiss), (0x67, WizRecommendUser),
     (0x68, WizMerchant), (0x69, WizMerchantInout), (0x6A, WizShoppingMall),
     (0x6B, WizServerIndex), (0x6C, WizEffect), (0x6D, WizSiege), (0x6E, WizNameChange),
     (0x6F, WizWebpage), (0x70, WizCape), (0x71, WizPremium), (0x72, WizHacktool),
     (0x73, WizRental), (0x74, WizItemExpiration), (0x75, WizChallenge), (0x76, WizPet),
     (0x77, WizChina), (0x78, WizKing), (0x79, WizSkillData), (0x7A, WizProgramCheck),
     (0x7B, WizBifrost), (0x7C, WizReport), (0x7D, WizLogosshout), (0x80, WizRank),
     (0x81, WizStory), (0x82, WizNationTransfer), (0x83, WizTerrainEffects),
     (0x84, WizMovingTower), (0x85, WizCapture), (0x86, WizMining), (0x87, WizHelmet),
     (0x88, WizPvp), (0x89, WizChangeHair), (0x8B, WizVipwarehouse), (0x8D, WizGenderChange),
     (0x90, WizLoyaltyShop), (0x91, WizClanpointsBattle), (0x97, WizGenie), (0x98, WizUserInfo),
     (0x99, WizUserAchieve), (0x9A, WizExpSeal), (0x9B, WizKurianSpChange),
     (0x9F, WizLoadingLogin), (0xB5, WizSound), (0xB6, WizVanguard), (0xB9, WizPreset),
     (0xBA, WizAutoDrop), (0xBD, WizMerchantList), (0x92, WizMaxHpChange), (0x95, WizSeal),
     (0x9C, WizContinousPacketData), (0xA5, WizAchievement2), (0xA9, WizCollection1),
     (0xAC, WizPremium2), (0xB4, WizCollection2), (0xB7, WizAttendance),
     (0xB8, WizUpgradeNotice), (0xC0, WizCaptcha), (0xC2, WizDailyRank), (0xC3, WizCostume),
     (0xC5, WizSoul), (0xC7, WizDailyQuest), (0xC8, WizKillAssist), (0xCB, WizAwakening),
     (0xCC, WizEnchant), (0xCE, WizChallenge2), (0xCF, WizAbility), (0xD0, WizGuildBank),
     (0xD1, WizClanWarehouse), (0xD3, WizRebirth), (0xD5, WizTerritory), (0xD6, WizWorldBoss),
     (0xD7, WizSeason), (0xDB, WizAddMsg), (0xE0, WizCinderella), (0xE8, WizPartyHp),
     (0xE9, WizExtHook), (0xEF, WizKnightRoyale), (0xFA, WizGameguardResp),
     (0xFB, WizGameguardChal), (0xFC, WizGameguardHb), (0xFD, WizGameguardAuth),
     (0xFE, WizGameguardKey)]"

definition from_byte :: "u8 \<Rightarrow> opcode option" where
  "from_byte b = map_of (from_byte_arms_1 @ from_byte_arms_2) b"

subsection \<open>The table is the inverse of the discriminants\<close>

fun ascending :: "u8 list \<Rightarrow> bool" where
  \<comment> \<open>strictly, by looking at neighbours only\<close>
  "ascending (x # y # zs) = (x < y \<and> ascending (y # zs))"
| "ascending _ = True"

lemma ascending_distinct: "ascending xs \<Longrightarrow> distinct xs \<and> (\<forall>x \<in> set (tl xs). hd xs < x)"
  by (induction xs rule: ascending.induct) auto

lemma from_byte_arms_ascending:
  "ascending (map fst (sort_key fst (from_byte_arms_1 @ from_byte_arms_2)))"
  by (simp add: from_byte_arms_1_def from_byte_arms_2_def)

lemma as_u8_variants:
  "map as_u8 variants =
    [0x01, 0x02, 0x03, 0x04, 0x05, 0x06, 0x07, 0x08, 0x09, 0x0A, 0x0B, 0x0C, 0x0D, 0x0E, 0x0F,
     0x10, 0x11, 0x12, 0x13, 0x14, 0x15, 0x16, 0x17, 0x18, 0x19, 0x1A, 0x1B, 0x1C, 0x1D, 0x1E,
     0x1F, 0x20, 0x21, 0x22, 0x23, 0x24, 0x25, 0x26, 0x27, 0x28, 0x29, 0x2A, 0x2B, 0x2C, 0x2D,
     0x2E, 0x2F, 0x30, 0x31, 0x32, 0x33, 0x34, 0x35, 0x36, 0x37, 0x38, 0x3A, 0x3B, 0x3C, 0x3D,
     0x3E, 0x3F, 0x40, 0x41, 0x42, 0x43, 0x4C, 0x45, 0x47, 0x48, 0x49, 0x4A, 0x4B, 0x4F, 0x52,
     0x53, 0x54, 0x55, 0x56, 0x57, 0x58, 0x59, 0x5A, 0x5B, 0x5E, 0x5F, 0x60, 0x64, 0x68, 0x69,
     0x6A, 0x6B, 0x6C, 0x6D, 0x6E, 0x70, 0x71, 0x72, 0x73, 0x75, 0x76, 0x78, 0x79, 0x7A, 0x7B,
     0x7C, 0x7D, 0x80, 0x81, 0x82, 0x83, 0x84, 0x86, 0x87, 0x88, 0x89, 0x8B, 0x8D, 0x97, 0x98,
     0x99, 0x9A, 0x9B, 0x9F, 0xB5, 0xB6, 0xB9, 0xBA, 0xBD, 0x92, 0x95, 0x9C, 0xA5, 0xA9, 0xAC,
     0xB4, 0xB7, 0xB8, 0xC0, 0xC2, 0xC3, 0xC5, 0xC7, 0xCB, 0xCC, 0xCE, 0xCF, 0xD0, 0xD1, 0xD3,
     0xD5, 0xD6, 0xD7, 0xDB, 0xE0, 0xE8, 0xE9, 0x44, 0x46, 0x4D, 0x4E, 0x50, 0x51, 0x5C, 0x5D,
     0x61, 0x62, 0x63, 0x65, 0x66, 0x67, 0x6F, 0x74, 0x77, 0x85, 0x90, 0x91, 0xC8, 0xEF, 0xFA,
     0xFB, 0xFC, 0xFD, 0xFE]"
  by (simp add: variants_def variants_1_def variants_2_def variants_3_def variant_defs)

lemma arms_are_the_variants:
  "sort_key fst (from_byte_arms_1 @ from_byte_arms_2) =
   sort_key fst (zip (map as_u8 variants) variants)"
  unfolding as_u8_variants
  by (simp add: from_byte_arms_1_def from_byte_arms_2_def variants_def variants_1_def
      variants_2_def variants_3_def)

text \<open>\<open>from_byte\<close> is exactly the inverse of the enum's discriminants: a byte converts to an
  opcode if and only if it is that opcode's discriminant, so no variant is missing from the
  hand-written table, none is mistyped, and unlisted bytes give nothing.\<close>

theorem from_byte_iff: "from_byte b = Some op \<longleftrightarrow> op \<in> set variants \<and> as_u8 op = b"
proof -
  let ?arms = "from_byte_arms_1 @ from_byte_arms_2"
  have d: "distinct (map fst (sort_key fst ?arms))"
    using ascending_distinct [OF from_byte_arms_ascending] by blast
  then have "inj_on fst (set (sort_key fst ?arms))" "distinct (sort_key fst ?arms)"
    by (simp_all only: distinct_map)
  then have "distinct (map fst ?arms)" by (simp only: distinct_map set_sort distinct_sort)
  then have "from_byte b = Some op \<longleftrightarrow> (b, op) \<in> set ?arms"
    unfolding from_byte_def by (rule map_of_eq_Some_iff)
  also have "\<dots> \<longleftrightarrow> (b, op) \<in> set (zip (map as_u8 variants) variants)"
    using arg_cong [OF arms_are_the_variants, of set] by (simp only: set_sort)
  also have "\<dots> \<longleftrightarrow> op \<in> set variants \<and> as_u8 op = b"
    by (auto simp: zip_map1 set_zip in_set_conv_nth)
  finally show ?thesis .
qed

end
