(* ===== verification/Steps.thy ===== *)
theory Steps
  imports Prelude
begin

text \<open>
  Sequences of operations on one state. \<open>run\<close> performs a list of operations and collects their
  answers; two contracts say what holds of every run: an invariant that each operation keeps, and a
  gauge that each answer of a certain kind raises and that never passes a cap.
\<close>

primrec run :: "('s \<Rightarrow> 'a \<Rightarrow> 'o \<times> 's) \<Rightarrow> 's \<Rightarrow> 'a list \<Rightarrow> 'o list \<times> 's" where
  "run step s [] = ([], s)"
| "run step s (a # as) =
     (let (x, s1) = step s a; (xs, s2) = run step s1 as in (x # xs, s2))"

primrec run_ok :: "('s \<Rightarrow> 'a \<Rightarrow> bool) \<Rightarrow> ('s \<Rightarrow> 'a \<Rightarrow> 'o \<times> 's) \<Rightarrow> 's \<Rightarrow> 'a list \<Rightarrow> bool" where
  \<comment> \<open>every operation is allowed in the state it is performed in\<close>
  "run_ok ok step s [] = True"
| "run_ok ok step s (a # as) = (ok s a \<and> run_ok ok step (snd (step s a)) as)"

lemma run_ok_True [simp]: "run_ok (\<lambda>_ _. True) step s as"
  by (induction as arbitrary: s) simp_all

lemma run_Cons_simps [simp]:
  "fst (run step s (a # as)) = fst (step s a) # fst (run step (snd (step s a)) as)"
  "snd (run step s (a # as)) = snd (run step (snd (step s a)) as)"
  by (simp_all add: split_def Let_def)

declare run.simps(2) [simp del]

lemma length_run [simp]: "length (fst (run step s as)) = length as"
  by (induction as arbitrary: s) simp_all

lemma run_append: "run step s (as @ bs) =
    (fst (run step s as) @ fst (run step (snd (run step s as)) bs),
     snd (run step (snd (run step s as)) bs))"
  by (induction as arbitrary: s) (simp_all add: run.simps(2) split_def Let_def)

definition hits :: "('a \<Rightarrow> 'o \<Rightarrow> bool) \<Rightarrow> ('s \<Rightarrow> 'a \<Rightarrow> 'o \<times> 's) \<Rightarrow> 's \<Rightarrow> 'a list \<Rightarrow> nat" where
  \<comment> \<open>how many operations of the run got an answer of the given kind\<close>
  "hits hit step s as = length (filter (case_prod hit) (zip as (fst (run step s as))))"

lemma hits_simps [simp]:
  "hits hit step s [] = 0"
  "hits hit step s (a # as) =
     (if hit a (fst (step s a)) then 1 else 0) + hits hit step (snd (step s a)) as"
  by (simp_all add: hits_def run.simps(2) split_def Let_def)

lemma hits_mono: "(\<And>a r. P a r \<Longrightarrow> Q a r) \<Longrightarrow> hits P step s as \<le> hits Q step s as"
  by (induction as arbitrary: s) (simp_all add: le_SucI)

locale stable =
  fixes step :: "'s \<Rightarrow> 'a \<Rightarrow> 'o \<times> 's" and ok :: "'s \<Rightarrow> 'a \<Rightarrow> bool" and inv :: "'s \<Rightarrow> bool"
  assumes step_inv: "inv s \<Longrightarrow> ok s a \<Longrightarrow> inv (snd (step s a))"
begin

lemma run_inv: "inv s \<Longrightarrow> run_ok ok step s as \<Longrightarrow> inv (snd (run step s as))"
proof (induction as arbitrary: s)
  case (Cons a as)
  then show ?case using step_inv by simp
qed simp

end

locale budget = stable step ok inv
  for step :: "'s \<Rightarrow> 'a \<Rightarrow> 'o \<times> 's" and ok :: "'s \<Rightarrow> 'a \<Rightarrow> bool" and inv :: "'s \<Rightarrow> bool" +
  fixes gauge :: "'s \<Rightarrow> nat" and hit :: "'a \<Rightarrow> 'o \<Rightarrow> bool" and cap :: nat
  assumes gauge_mono: "inv s \<Longrightarrow> ok s a \<Longrightarrow> gauge s \<le> gauge (snd (step s a))"
    and gauge_hit: "inv s \<Longrightarrow> ok s a \<Longrightarrow> hit a (fst (step s a)) \<Longrightarrow>
      gauge s < gauge (snd (step s a)) \<and> gauge (snd (step s a)) \<le> cap"
begin

lemma hits_gauge:
  "inv s \<Longrightarrow> run_ok ok step s as \<Longrightarrow> 0 < hits hit step s as \<Longrightarrow>
    hits hit step s as + gauge s \<le> cap"
proof (induction as arbitrary: s)
  case (Cons a as)
  let ?s = "snd (step s a)"
  from Cons.prems have ok: "ok s a" "run_ok ok step ?s as" by auto
  show ?case
  proof (cases "0 < hits hit step ?s as")
    case True
    then have "hits hit step ?s as + gauge ?s \<le> cap"
      using Cons.IH ok step_inv Cons.prems(1) by blast
    then show ?thesis
      using gauge_mono [OF Cons.prems(1) ok(1)] gauge_hit [OF Cons.prems(1) ok(1)] by auto
  next
    case False
    then show ?thesis
      using Cons.prems gauge_hit [OF Cons.prems(1) ok(1)] by (auto split: if_splits)
  qed
qed simp

lemma hits_cap: "inv s \<Longrightarrow> run_ok ok step s as \<Longrightarrow> hits hit step s as \<le> cap"
  using hits_gauge [of s as] by (cases "0 < hits hit step s as") auto

end

end
