(* ===== verification/Rate_Limiter.thy ===== *)
theory Rate_Limiter
  imports Steps Opcode
begin

text \<open>
  Flood protection (\<^verbatim>\<open>crates/ko-game/src/rate_limiter.rs\<close>, lines 25 to 363). An \<open>Instant\<close> is its
  number of nanoseconds. Each \<open>Instant::now()\<close> of the code is a reading of its own: \<open>readings\<close>
  holds the three a call of \<open>check_rate_limit\<close> may take, in the order it takes them. The dash maps
  are maps, the answer is an error or \<open>()\<close>.
\<close>

type_synonym session_id = u16
type_synonym instant = nat

datatype ip_addr = V4 u32 | V6 "128 word"

datatype rate_limit_error =
    GlobalRateExceeded session_id u32
  | CriticalRateExceeded session_id u32
  | OpcodeRateExceeded session_id "opcode option" u32
  | TooManyConnections ip_addr u32
  | TemporaryBan session_id

fun should_disconnect :: "rate_limit_error \<Rightarrow> bool" where
  "should_disconnect (CriticalRateExceeded _ _) = True"
| "should_disconnect (TemporaryBan _) = True"
| "should_disconnect _ = False"

definition MAX_CONNECTIONS_PER_IP :: u32 where "MAX_CONNECTIONS_PER_IP = 5"
definition SOFT_PACKETS_PER_SECOND :: u32 where "SOFT_PACKETS_PER_SECOND = 100"
definition CRITICAL_PACKETS_PER_SECOND :: u32 where "CRITICAL_PACKETS_PER_SECOND = 300"
definition MAX_VIOLATIONS :: u32 where "MAX_VIOLATIONS = 3"
definition BAN_DURATION :: nat where "BAN_DURATION = 300 * 10 ^ 9"
definition WINDOW_DURATION :: nat where "WINDOW_DURATION = 10 ^ 9"
definition CHAT_GROUP_KEY :: u8 where "CHAT_GROUP_KEY = 0xFF"

lemmas rate_consts = MAX_CONNECTIONS_PER_IP_def SOFT_PACKETS_PER_SECOND_def
  CRITICAL_PACKETS_PER_SECOND_def MAX_VIOLATIONS_def BAN_DURATION_def WINDOW_DURATION_def

definition opcode_rate_limit :: "opcode option \<Rightarrow> u32" where
  "opcode_rate_limit op =
     (if op = Some WizChat \<or> op = Some WizNationChat \<or> op = Some WizChatTarget then 5
      else if op = Some WizMove then 20
      else if op = Some WizAttack then 10
      else if op = Some WizMagicProcess then 10
      else 30)"

definition opcode_counter_key :: "u8 \<Rightarrow> u8" where
  "opcode_counter_key b =
     (let op = from_byte b in
      if op = Some WizChat \<or> op = Some WizNationChat \<or> op = Some WizChatTarget
      then CHAT_GROUP_KEY else b)"

subsection \<open>One session\<close>

record session_rate_state =
  window_start :: instant
  global_count :: u32
  opcode_counts :: "u8 \<rightharpoonup> u32"
  violation_count :: u32
  ban_until :: "instant option"

definition session_rate_new :: "instant \<Rightarrow> session_rate_state" where
  "session_rate_new now = \<lparr>window_start = now, global_count = 0, opcode_counts = Map.empty,
     violation_count = 0, ban_until = None\<rparr>"

definition maybe_reset_window :: "instant \<Rightarrow> session_rate_state \<Rightarrow> session_rate_state" where
  "maybe_reset_window now st =
     (if now - window_start st \<ge> WINDOW_DURATION
      then st\<lparr>window_start := now, global_count := 0, opcode_counts := Map.empty\<rparr>
      else st)"

definition record_violation :: "instant \<Rightarrow> session_rate_state \<Rightarrow> bool \<times> session_rate_state" where
  "record_violation now st =
     (let st1 = st\<lparr>violation_count := violation_count st + 1\<rparr> in
      if violation_count st1 \<ge> MAX_VIOLATIONS
      then (True, st1\<lparr>ban_until := Some (now + BAN_DURATION)\<rparr>)
      else (False, st1))"

definition is_banned :: "instant \<Rightarrow> session_rate_state \<Rightarrow> bool \<times> session_rate_state" where
  "is_banned now st =
     (case ban_until st of
        Some until \<Rightarrow>
          if now \<ge> until then (False, st\<lparr>ban_until := None, violation_count := 0\<rparr>)
          else (True, st)
      | None \<Rightarrow> (False, st))"

record readings =
  at_ban :: instant
  at_window :: instant
  at_violation :: instant

definition check_state ::
  "session_id \<Rightarrow> u8 \<Rightarrow> readings \<Rightarrow> session_rate_state
     \<Rightarrow> (rate_limit_error + unit) \<times> session_rate_state" where
  \<comment> \<open>\<open>check_rate_limit\<close> from the ban check on, on the session's entry\<close>
  "check_state sid b clk st =
     (let opcode = from_byte b; (banned, st0) = is_banned (at_ban clk) st in
      if banned then (Inl (TemporaryBan sid), st0)
      else
        let st1 = maybe_reset_window (at_window clk) st0;
            st2 = st1\<lparr>global_count := global_count st1 + 1\<rparr> in
        if global_count st2 > CRITICAL_PACKETS_PER_SECOND
        then (Inl (CriticalRateExceeded sid CRITICAL_PACKETS_PER_SECOND),
              snd (record_violation (at_violation clk) st2))
        else if global_count st2 > SOFT_PACKETS_PER_SECOND
        then (Inl (GlobalRateExceeded sid SOFT_PACKETS_PER_SECOND), st2)
        else
          let key = opcode_counter_key b;
              count = (case opcode_counts st2 key of None \<Rightarrow> 0 | Some c \<Rightarrow> c) + 1;
              st3 = st2\<lparr>opcode_counts := (opcode_counts st2)(key \<mapsto> count)\<rparr>;
              limit = opcode_rate_limit opcode in
          if count > limit
          then (Inl (OpcodeRateExceeded sid opcode limit),
                snd (record_violation (at_violation clk) st3))
          else (Inr (), st3))"

subsection \<open>The limiter\<close>

record rate_limiter =
  sessions :: "session_id \<rightharpoonup> session_rate_state"
  ip_connections :: "ip_addr \<rightharpoonup> u64"

definition rate_limiter_new :: rate_limiter where
  "rate_limiter_new = \<lparr>sessions = Map.empty, ip_connections = Map.empty\<rparr>"

definition register_connection ::
  "ip_addr \<Rightarrow> rate_limiter \<Rightarrow> (rate_limit_error + unit) \<times> rate_limiter" where
  "register_connection ip rl =
     (let old = (case ip_connections rl ip of None \<Rightarrow> 0 | Some c \<Rightarrow> c); current = old + 1 in
      if current > ucast MAX_CONNECTIONS_PER_IP
      then (Inl (TooManyConnections ip MAX_CONNECTIONS_PER_IP),
            rl\<lparr>ip_connections := (ip_connections rl)(ip \<mapsto> current - 1)\<rparr>)
      else (Inr (), rl\<lparr>ip_connections := (ip_connections rl)(ip \<mapsto> current)\<rparr>))"

definition unregister_connection :: "ip_addr \<Rightarrow> rate_limiter \<Rightarrow> rate_limiter" where
  \<comment> \<open>\<open>remove_if\<close>: the closure decrements and looks at the old value\<close>
  "unregister_connection ip rl =
     (case ip_connections rl ip of
        None \<Rightarrow> rl
      | Some c \<Rightarrow>
          rl\<lparr>ip_connections := (ip_connections rl)(ip := if c \<le> 1 then None else Some (c - 1))\<rparr>)"

definition register_session :: "session_id \<Rightarrow> instant \<Rightarrow> rate_limiter \<Rightarrow> rate_limiter" where
  "register_session sid now rl = rl\<lparr>sessions := (sessions rl)(sid \<mapsto> session_rate_new now)\<rparr>"

definition unregister_session :: "session_id \<Rightarrow> rate_limiter \<Rightarrow> rate_limiter" where
  "unregister_session sid rl = rl\<lparr>sessions := (sessions rl)(sid := None)\<rparr>"

definition check_rate_limit ::
  "session_id \<Rightarrow> u8 \<Rightarrow> bool \<Rightarrow> readings \<Rightarrow> rate_limiter
     \<Rightarrow> (rate_limit_error + unit) \<times> rate_limiter" where
  "check_rate_limit sid b is_gm clk rl =
     (if is_gm then (Inr (), rl)
      else case sessions rl sid of
             None \<Rightarrow> (Inr (), rl)
           | Some st \<Rightarrow>
               let (r, st') = check_state sid b clk st in
               (r, rl\<lparr>sessions := (sessions rl)(sid \<mapsto> st')\<rparr>))"

definition session_violation_count :: "session_id \<Rightarrow> rate_limiter \<Rightarrow> u32" where
  "session_violation_count sid rl =
     (case sessions rl sid of None \<Rightarrow> 0 | Some st \<Rightarrow> violation_count st)"

definition session_is_banned :: "session_id \<Rightarrow> instant \<Rightarrow> rate_limiter \<Rightarrow> bool \<times> rate_limiter" where
  "session_is_banned sid now rl =
     (case sessions rl sid of
        None \<Rightarrow> (False, rl)
      | Some st \<Rightarrow>
          let (b, st') = is_banned now st in (b, rl\<lparr>sessions := (sessions rl)(sid \<mapsto> st')\<rparr>))"

subsection \<open>A session over time\<close>

text \<open>
  A session with the last clock reading, fed with packets whose readings never go back: what the
  code sees, since \<open>Instant\<close> is monotone.
\<close>

type_synonym timed = "instant \<times> session_rate_state"

definition timed_check ::
  "session_id \<Rightarrow> timed \<Rightarrow> u8 \<times> readings \<Rightarrow> (rate_limit_error + unit) \<times> timed" where
  "timed_check sid s a =
     (let (r, st) = check_state sid (fst a) (snd a) (snd s) in (r, at_violation (snd a), st))"

definition clock_ok :: "timed \<Rightarrow> u8 \<times> readings \<Rightarrow> bool" where
  "clock_ok s a \<longleftrightarrow> fst s \<le> at_ban (snd a) \<and> at_ban (snd a) \<le> at_window (snd a)
     \<and> at_window (snd a) \<le> at_violation (snd a)"

definition rate_inv :: "timed \<Rightarrow> bool" where
  "rate_inv s \<longleftrightarrow>
     window_start (snd s) \<le> fst s
     \<and> unat (global_count (snd s)) \<le> 300 + unat (violation_count (snd s))
     \<and> (\<forall>k c. opcode_counts (snd s) k = Some c \<longrightarrow> c \<le> global_count (snd s))
     \<and> (case ban_until (snd s) of
          None \<Rightarrow> violation_count (snd s) < 3
        | Some u \<Rightarrow> violation_count (snd s) = 3 \<and> window_start (snd s) + WINDOW_DURATION \<le> u)"

lemma rate_inv_new: "rate_inv (now, session_rate_new now)"
  by (simp add: rate_inv_def session_rate_new_def)

definition ready :: "readings \<Rightarrow> session_rate_state \<Rightarrow> session_rate_state" where
  \<comment> \<open>the session when a packet that is not banned is about to be counted\<close>
  "ready clk st = maybe_reset_window (at_window clk) (snd (is_banned (at_ban clk) st))"

lemma ready_inv:
  assumes "rate_inv s" and "clock_ok s (b, clk)" and "\<not> fst (is_banned (at_ban clk) (snd s))"
  shows "rate_inv (at_window clk, ready clk (snd s)) \<and> ban_until (ready clk (snd s)) = None"
  using assms
  by (auto simp: rate_inv_def clock_ok_def is_banned_def ready_def maybe_reset_window_def
      split: option.splits if_splits)

lemma check_state_banned:
  "fst (is_banned (at_ban clk) st) \<Longrightarrow> check_state sid b clk st = (Inl (TemporaryBan sid), st)"
  by (auto simp: check_state_def is_banned_def split: option.splits if_splits)

lemma check_state_ready:
  "\<not> fst (is_banned (at_ban clk) st) \<Longrightarrow> check_state sid b clk st =
     (let st2 = (ready clk st)\<lparr>global_count := global_count (ready clk st) + 1\<rparr> in
      if global_count st2 > 300
      then (Inl (CriticalRateExceeded sid 300), snd (record_violation (at_violation clk) st2))
      else if global_count st2 > 100 then (Inl (GlobalRateExceeded sid 100), st2)
      else
        let key = opcode_counter_key b;
            count = (case opcode_counts st2 key of None \<Rightarrow> 0 | Some c \<Rightarrow> c) + 1;
            st3 = st2\<lparr>opcode_counts := (opcode_counts st2)(key \<mapsto> count)\<rparr>;
            limit = opcode_rate_limit (from_byte b) in
        if count > limit
        then (Inl (OpcodeRateExceeded sid (from_byte b) limit),
              snd (record_violation (at_violation clk) st3))
        else (Inr (), st3))"
  by (simp add: check_state_def ready_def split_def Let_def CRITICAL_PACKETS_PER_SECOND_def
      SOFT_PACKETS_PER_SECOND_def)

lemma u32_Suc: "unat (x :: u32) < 1000 \<Longrightarrow> unat (x + 1) = Suc (unat x)"
  by (simp add: unat_word_ariths(1))

lemma rate_inv_count:
  assumes "rate_inv (t, st)" and "ban_until st = None"
  defines "st2 \<equiv> st\<lparr>global_count := global_count st + 1\<rparr>"
  shows "unat (global_count st2) = Suc (unat (global_count st))"
    and "unat (violation_count st) < 3"
    and "opcode_counts st k = Some c \<Longrightarrow> unat (c + 1) = Suc (unat c) \<and> c + 1 \<le> global_count st2
      \<and> c \<le> global_count st2"
proof -
  have v: "unat (violation_count st) < 3" and g: "unat (global_count st) \<le> 300 + unat (violation_count st)"
    using assms(1,2) by (auto simp: rate_inv_def word_less_nat_alt)
  then show 1: "unat (global_count st2) = Suc (unat (global_count st))"
    unfolding st2_def by (simp add: u32_Suc)
  show "unat (violation_count st) < 3" by (fact v)
  assume "opcode_counts st k = Some c"
  then have c: "unat c \<le> unat (global_count st)"
    using assms(1) by (auto simp: rate_inv_def word_le_nat_alt)
  then have "unat (c + 1) = Suc (unat c)" using g v by (intro u32_Suc) linarith
  then show "unat (c + 1) = Suc (unat c) \<and> c + 1 \<le> global_count st2 \<and> c \<le> global_count st2"
    using c 1 by (simp add: word_le_nat_alt)
qed

lemma rate_inv_violation:
  assumes "window_start st \<le> t" and "unat (violation_count st) < 3"
    and "unat (global_count st) \<le> 301 + unat (violation_count st)"
    and "\<And>k c. opcode_counts st k = Some c \<Longrightarrow> c \<le> global_count st" and "ban_until st = None"
  shows "rate_inv (t, snd (record_violation t st))"
proof -
  have v: "unat (violation_count st + 1) = Suc (unat (violation_count st))"
    using assms(2) by (intro u32_Suc) linarith
  show ?thesis
    using assms v
    by (auto simp: rate_inv_def record_violation_def Let_def MAX_VIOLATIONS_def WINDOW_DURATION_def
        BAN_DURATION_def word_le_nat_alt word_less_nat_alt word_unat_eq_iff split: if_splits)
qed

lemma rate_inv_later: "rate_inv (t, st) \<Longrightarrow> t \<le> t' \<Longrightarrow> rate_inv (t', st)"
  by (auto simp: rate_inv_def split: option.splits)

lemma rate_step_inv:
  assumes "rate_inv s" and "clock_ok s a"
  shows "rate_inv (snd (timed_check sid s a))"
proof -
  obtain b clk where a: "a = (b, clk)" by (cases a)
  obtain t st where s: "s = (t, st)" by (cases s)
  show ?thesis
  proof (cases "fst (is_banned (at_ban clk) st)")
    case True
    then show ?thesis
      using assms by (auto simp: timed_check_def check_state_banned a s clock_ok_def
          intro: rate_inv_later)
  next
    case False
    let ?r = "ready clk st"
    from ready_inv [of s b clk] assms False
    have r: "rate_inv (at_window clk, ?r)" "ban_until ?r = None" by (simp_all add: a s)
    have later: "window_start ?r \<le> at_violation clk"
      using r(1) assms(2) by (simp add: rate_inv_def clock_ok_def a)
    note n = rate_inv_count [OF r]
    have g: "unat (global_count ?r) \<le> 300 + unat (violation_count ?r)"
      using r(1) by (simp add: rate_inv_def)
    let ?g = "global_count ?r + 1"
    let ?k = "opcode_counter_key b"
    let ?n = "(case opcode_counts ?r ?k of None \<Rightarrow> 0 | Some c \<Rightarrow> c) + 1 :: u32"
    have k: "c \<le> ?g" if "opcode_counts ?r k = Some c" for k c using n(3) [OF that] by simp
    have kn: "?n \<le> ?g"
    proof (cases "opcode_counts ?r ?k")
      case None
      then show ?thesis using n(1) by (simp add: word_le_nat_alt)
    qed (use n(3) in simp)
    have g1: "unat ?g \<le> 301 + unat (violation_count ?r)" using n(1) g by simp
    have ?thesis if "?g > 300"
      using that n(2) k g1 r(2) later False
      by (simp add: timed_check_def check_state_ready a s Let_def split_def)
        (rule rate_inv_violation; simp)
    moreover have ?thesis if "\<not> ?g > 300" "?g > 100"
      using that n(2) k r later False assms(2)
      by (simp add: timed_check_def check_state_ready a s Let_def split_def rate_inv_def
          word_less_nat_alt)
    moreover have ?thesis if "\<not> ?g > 300" "\<not> ?g > 100"
    proof (cases "?n > opcode_rate_limit (from_byte b)")
      case True
      then show ?thesis
        using that n(2) k kn g1 r(2) later False
        by (simp add: timed_check_def check_state_ready a s Let_def split_def)
          (rule rate_inv_violation; auto split: if_splits)
    next
      case n': False
      then show ?thesis
        using that n(2) k kn r later False assms(2)
        by (simp add: timed_check_def check_state_ready a s Let_def split_def rate_inv_def
            word_less_nat_alt)
    qed
    ultimately show ?thesis by blast
  qed
qed

definition in_window :: "timed \<Rightarrow> u8 \<times> readings \<Rightarrow> bool" where
  "in_window s a \<longleftrightarrow> clock_ok s a \<and> at_window (snd a) - window_start (snd s) < WINDOW_DURATION"

definition opcode_count :: "u8 \<Rightarrow> timed \<Rightarrow> nat" where
  "opcode_count k s = (case opcode_counts (snd s) k of None \<Rightarrow> 0 | Some c \<Rightarrow> unat c)"

lemma ready_in_window:
  "in_window s (b, clk) \<Longrightarrow> global_count (ready clk (snd s)) = global_count (snd s)
    \<and> opcode_counts (ready clk (snd s)) = opcode_counts (snd s)"
  by (auto simp: in_window_def ready_def maybe_reset_window_def is_banned_def split: option.splits)

lemma record_violation_counts [simp]:
  "global_count (snd (record_violation t st)) = global_count st"
  "opcode_counts (snd (record_violation t st)) = opcode_counts st"
  by (simp_all add: record_violation_def Let_def)

lemma window_gauges:
  fixes sid
  assumes "rate_inv s" and "in_window s (b, clk)"
  defines "s' \<equiv> timed_check sid s (b, clk)"
  shows "global_count (snd s) \<le> global_count (snd (snd s'))
    \<and> opcode_count k s \<le> opcode_count k (snd s')
    \<and> (fst s' = Inr () \<longrightarrow> unat (global_count (snd s)) < unat (global_count (snd (snd s')))
      \<and> unat (global_count (snd (snd s'))) \<le> 100
      \<and> opcode_count (opcode_counter_key b) s < opcode_count (opcode_counter_key b) (snd s')
      \<and> opcode_count (opcode_counter_key b) (snd s') \<le> unat (opcode_rate_limit (from_byte b)))"
proof -
  obtain t st where s: "s = (t, st)" by (cases s)
  have ck: "clock_ok s (b, clk)" using assms(2) by (simp add: in_window_def)
  show ?thesis
  proof (cases "fst (is_banned (at_ban clk) st)")
    case True
    then show ?thesis by (simp add: s'_def s timed_check_def check_state_banned opcode_count_def)
  next
    case False
    from ready_inv [OF assms(1) ck] False
    have r: "rate_inv (at_window clk, ready clk st)" "ban_until (ready clk st) = None"
      by (simp_all add: s)
    note n = rate_inv_count [OF r]
    have eq: "global_count (ready clk st) = global_count st"
      "opcode_counts (ready clk st) = opcode_counts st"
      using ready_in_window [OF assms(2)] by (simp_all add: s)
    have c: "unat (c + 1) = Suc (unat c)" if "opcode_counts st k = Some c" for k c
      using n(3) [of k c] that eq by simp
    have g: "unat (global_count st + 1) = Suc (unat (global_count st))" using n(1) eq by simp
    show ?thesis
      using False c g
      by (auto simp: s'_def s timed_check_def check_state_ready Let_def split_def eq
          opcode_count_def word_le_nat_alt word_less_nat_alt split: option.splits)
  qed
qed

definition accepted :: "u8 \<times> readings \<Rightarrow> rate_limit_error + unit \<Rightarrow> bool" where
  "accepted a r \<longleftrightarrow> r = Inr ()"

definition accepted_as :: "u8 \<Rightarrow> u32 \<Rightarrow> u8 \<times> readings \<Rightarrow> rate_limit_error + unit \<Rightarrow> bool" where
  \<comment> \<open>accepted, counted under key \<open>k\<close> and held to limit \<open>l\<close>\<close>
  "accepted_as k l a r \<longleftrightarrow> r = Inr () \<and> opcode_counter_key (fst a) = k
     \<and> opcode_rate_limit (from_byte (fst a)) = l"

interpretation session: stable "timed_check sid" clock_ok rate_inv
  for sid by unfold_locales (rule rate_step_inv)

interpretation packets: budget "timed_check sid" in_window rate_inv
  "\<lambda>s. unat (global_count (snd s))" accepted 100
  for sid
proof unfold_locales
  fix s and a :: "u8 \<times> readings"
  assume inv: "rate_inv s" and ok: "in_window s a"
  then show "rate_inv (snd (timed_check sid s a))"
    by (intro rate_step_inv) (simp_all add: in_window_def)
  note w = window_gauges [OF inv, of "fst a" "snd a" sid, simplified, OF ok]
  show "unat (global_count (snd s)) \<le> unat (global_count (snd (snd (timed_check sid s a))))"
    using w by (simp add: word_le_nat_alt)
  show "unat (global_count (snd s)) < unat (global_count (snd (snd (timed_check sid s a))))
      \<and> unat (global_count (snd (snd (timed_check sid s a)))) \<le> 100"
    if "accepted a (fst (timed_check sid s a))"
    using w that by (simp add: accepted_def)
qed

interpretation opcodes: budget "timed_check sid" in_window rate_inv
  "opcode_count k" "accepted_as k l" "unat l"
  for sid k l
proof unfold_locales
  fix s and a :: "u8 \<times> readings"
  assume inv: "rate_inv s" and ok: "in_window s a"
  note w = window_gauges [OF inv, of "fst a" "snd a" sid, simplified, OF ok]
  show "opcode_count k s \<le> opcode_count k (snd (timed_check sid s a))"
    using w by simp
  show "opcode_count k s < opcode_count k (snd (timed_check sid s a))
      \<and> opcode_count k (snd (timed_check sid s a)) \<le> unat l"
    if "accepted_as k l a (fst (timed_check sid s a))"
    using w that by (auto simp: accepted_as_def)
qed

subsection \<open>What the limits guarantee\<close>

text \<open>C38: from the registration of a session on, with a clock that never goes back, no counter of
  the session overflows: violations stay at 3 or below, the packet counter at 303 or below, and
  the session is banned exactly when it has three violations.\<close>

theorem session_counters_bounded:
  assumes "run_ok clock_ok (timed_check sid) (t, session_rate_new t) as"
  defines "st \<equiv> snd (snd (run (timed_check sid) (t, session_rate_new t) as))"
  shows "unat (violation_count st) \<le> 3 \<and> unat (global_count st) \<le> 303
    \<and> (ban_until st \<noteq> None \<longleftrightarrow> violation_count st = 3)"
proof -
  have "rate_inv (snd (run (timed_check sid) (t, session_rate_new t) as))"
    by (rule session.run_inv [OF rate_inv_new assms(1)])
  then show ?thesis
    unfolding st_def by (auto simp: rate_inv_def word_less_nat_alt split: option.splits)
qed

theorem session_counters_bounded_witness:
  "unat (violation_count (snd (snd (run (timed_check 7) (0, session_rate_new 0)
     [(0x06, \<lparr>at_ban = 1, at_window = 1, at_violation = 2\<rparr>)])))) \<le> 3"
proof -
  have "run_ok clock_ok (timed_check 7) (0, session_rate_new 0)
      [(0x06, \<lparr>at_ban = 1, at_window = 1, at_violation = 2\<rparr>)]"
    by (simp add: clock_ok_def)
  from session_counters_bounded [OF this] show ?thesis by blast
qed

text \<open>In one window, whatever packets a session sends, at most 100 are let through.\<close>

theorem at_most_100_per_window:
  assumes "run_ok clock_ok (timed_check sid) (t, session_rate_new t) as"
    and "run_ok in_window (timed_check sid)
      (snd (run (timed_check sid) (t, session_rate_new t) as)) bs"
  shows "hits accepted (timed_check sid)
      (snd (run (timed_check sid) (t, session_rate_new t) as)) bs \<le> 100"
  by (rule packets.hits_cap [OF session.run_inv [OF rate_inv_new assms(1)] assms(2)])

theorem at_most_100_per_window_witness:
  "hits accepted (timed_check 7) (0, session_rate_new 0)
     [(0x06, \<lparr>at_ban = 1, at_window = 1, at_violation = 2\<rparr>)] \<le> 100"
proof -
  have "run_ok in_window (timed_check 7) (snd (run (timed_check 7) (0, session_rate_new 0) []))
      [(0x06, \<lparr>at_ban = 1, at_window = 1, at_violation = 2\<rparr>)]"
    by (simp add: in_window_def clock_ok_def session_rate_new_def WINDOW_DURATION_def)
  from at_most_100_per_window [OF _ this] show ?thesis by simp
qed

definition is_chat :: "u8 \<Rightarrow> bool" where
  "is_chat b \<longleftrightarrow> from_byte b \<in> {Some WizChat, Some WizNationChat, Some WizChatTarget}"

lemma is_chat_key: "is_chat b \<Longrightarrow> opcode_counter_key b = CHAT_GROUP_KEY
    \<and> opcode_rate_limit (from_byte b) = 5"
  by (auto simp: is_chat_def opcode_counter_key_def opcode_rate_limit_def)

lemma not_chat_key: "\<not> is_chat b \<Longrightarrow> opcode_counter_key b = b"
  by (auto simp: is_chat_def opcode_counter_key_def)

text \<open>In one window the three chat channels together get at most 5 packets through, and every
  other byte at most its own limit (20 for movement, 10 for attacks and for magic, else 30).\<close>

theorem opcode_limits_hold:
  fixes sid
  assumes "run_ok clock_ok (timed_check sid) (t, session_rate_new t) as"
  defines "s \<equiv> snd (run (timed_check sid) (t, session_rate_new t) as)"
  assumes "run_ok in_window (timed_check sid) s bs"
  shows "hits (\<lambda>a r. r = Inr () \<and> is_chat (fst a)) (timed_check sid) s bs \<le> 5
    \<and> (\<not> is_chat b \<longrightarrow> hits (\<lambda>a r. r = Inr () \<and> fst a = b) (timed_check sid) s bs
        \<le> unat (opcode_rate_limit (from_byte b)))"
proof -
  have cap: "hits (accepted_as k l) (timed_check sid) s bs \<le> unat l" for k l
    unfolding s_def
    by (rule opcodes.hits_cap [OF session.run_inv [OF rate_inv_new assms(1)] assms(3) [unfolded s_def]])
  have "hits (\<lambda>a r. r = Inr () \<and> is_chat (fst a)) (timed_check sid) s bs
      \<le> hits (accepted_as CHAT_GROUP_KEY 5) (timed_check sid) s bs"
    by (rule hits_mono) (auto simp: accepted_as_def is_chat_key)
  moreover have "hits (\<lambda>a r. r = Inr () \<and> fst a = b) (timed_check sid) s bs
      \<le> hits (accepted_as b (opcode_rate_limit (from_byte b))) (timed_check sid) s bs"
    if "\<not> is_chat b"
    by (rule hits_mono) (use that in \<open>auto simp: accepted_as_def not_chat_key\<close>)
  ultimately show ?thesis
    using cap [of CHAT_GROUP_KEY 5] cap [of b "opcode_rate_limit (from_byte b)"] by fastforce
qed

theorem opcode_limits_hold_witness:
  "hits (\<lambda>a r. r = Inr () \<and> is_chat (fst a)) (timed_check 7) (0, session_rate_new 0)
     [(0x10, \<lparr>at_ban = 1, at_window = 1, at_violation = 2\<rparr>)] \<le> 5"
proof -
  have "run_ok in_window (timed_check 7) (snd (run (timed_check 7) (0, session_rate_new 0) []))
      [(0x10, \<lparr>at_ban = 1, at_window = 1, at_violation = 2\<rparr>)]"
    by (simp add: in_window_def clock_ok_def session_rate_new_def WINDOW_DURATION_def)
  from opcode_limits_hold [OF _ this, of 0] show ?thesis by simp
qed

text \<open>Three violations ban: from then on, whatever is sent, every packet before the five minutes
  are over is answered with a ban and changes nothing; the first packet after that starts afresh, with no
  violation and only itself in a new window.\<close>

theorem ban_holds_and_ends:
  fixes sid
  assumes "rate_inv (t, st)" and "violation_count st = 2"
    and "snd (check_state sid b clk st) = st'" and "violation_count st' = 3"
    and "clock_ok (t, st) (b, clk)" and "clock_ok (at_violation clk, st') (b', clk')"
  shows "should_disconnect (TemporaryBan sid)
    \<and> (at_ban clk' < at_violation clk + BAN_DURATION \<longrightarrow>
        check_state sid b' clk' st' = (Inl (TemporaryBan sid), st'))
    \<and> (at_violation clk + BAN_DURATION \<le> at_ban clk' \<longrightarrow>
        check_state sid b' clk' st' =
          (Inr (), session_rate_new (at_window clk')
             \<lparr>global_count := 1, opcode_counts := [opcode_counter_key b' \<mapsto> 1]\<rparr>))"
proof -
  have "ban_until st = None" using assms(1,2) by (auto simp: rate_inv_def split: option.splits)
  then have nb: "\<not> fst (is_banned (at_ban clk) st)" and v: "violation_count (ready clk st) = 2"
    using assms(2) by (auto simp: is_banned_def ready_def maybe_reset_window_def)
  have u: "ban_until st' = Some (at_violation clk + BAN_DURATION)"
    using assms(3,4) unfolding check_state_ready [OF nb]
    by (auto simp: Let_def record_violation_def MAX_VIOLATIONS_def v split: if_splits)
  have "rate_inv (at_violation clk, st')"
    using rate_step_inv [OF assms(1,5), of sid] assms(3)
    by (simp add: timed_check_def split_def)
  then have w: "window_start st' \<le> at_violation clk" by (simp add: rate_inv_def)
  have lim: "\<not> opcode_rate_limit (from_byte b') < 1"
    by (simp add: opcode_rate_limit_def)
  have reset: "WINDOW_DURATION \<le> at_window clk' - window_start st'"
    if "at_violation clk + BAN_DURATION \<le> at_ban clk'"
    using that w assms(6) unfolding clock_ok_def BAN_DURATION_def WINDOW_DURATION_def fst_conv snd_conv
    by linarith
  then have "at_violation clk + BAN_DURATION \<le> at_ban clk' \<Longrightarrow>
    ready clk' st' = session_rate_new (at_window clk')"
    using u by (simp add: ready_def is_banned_def maybe_reset_window_def session_rate_new_def)
  then show ?thesis
    using u lim
    by (auto simp: check_state_banned check_state_ready is_banned_def session_rate_new_def Let_def)
qed

theorem ban_holds_and_ends_witness:
  defines "st \<equiv> (session_rate_new 0)\<lparr>global_count := 302, violation_count := 2\<rparr>"
    and "clk \<equiv> \<lparr>at_ban = 1, at_window = 1, at_violation = 1\<rparr>"
  shows "check_state 7 0x06 \<lparr>at_ban = 2, at_window = 2, at_violation = 2\<rparr>
      (snd (check_state 7 0x06 clk st)) =
    (Inl (TemporaryBan 7), snd (check_state 7 0x06 clk st))"
proof -
  let ?later = "\<lparr>at_ban = 2, at_window = 2, at_violation = 2\<rparr>"
  have 1: "rate_inv (0, st)" "violation_count st = 2"
    by (simp_all add: rate_inv_def st_def session_rate_new_def)
  have 2: "violation_count (snd (check_state 7 0x06 clk st)) = 3"
    by (simp add: check_state_def st_def clk_def session_rate_new_def is_banned_def
        maybe_reset_window_def WINDOW_DURATION_def CRITICAL_PACKETS_PER_SECOND_def
        record_violation_def MAX_VIOLATIONS_def)
  show ?thesis
    using ban_holds_and_ends [OF 1 refl 2, where clk' = ?later and b' = "0x06"]
    by (simp add: clock_ok_def clk_def BAN_DURATION_def)
qed

text \<open>Violations add up however many packets are accepted in between: an accepted packet of an
  unbanned session leaves the count as it is, in the same window or in a new one, so the three that
  ban need not be consecutive.\<close>

theorem violations_not_consecutive:
  assumes "ban_until st = None" and "check_state sid b clk st = (Inr (), st')"
  shows "violation_count st' = violation_count st"
proof -
  have "\<not> fst (is_banned (at_ban clk) st)" "violation_count (ready clk st) = violation_count st"
    using assms(1) by (auto simp: is_banned_def ready_def maybe_reset_window_def)
  then show ?thesis using assms(2) by (auto simp: check_state_ready Let_def split: if_splits)
qed

theorem violations_not_consecutive_witness:
  "violation_count ((session_rate_new 5)\<lparr>violation_count := 2, global_count := 1,
     opcode_counts := [0x01 \<mapsto> 1]\<rparr>) = violation_count ((session_rate_new 0)\<lparr>violation_count := 2\<rparr>)"
proof -
  let ?st = "(session_rate_new 0)\<lparr>violation_count := 2\<rparr>"
    and ?clk = "\<lparr>at_ban = 5, at_window = 2 * 10 ^ 9, at_violation = 2 * 10 ^ 9\<rparr>"
  have "from_byte 0x01 = Some WizLogin" by (simp add: from_byte_def from_byte_arms_1_def)
  then have "check_state 7 0x01 ?clk ?st = (Inr (), (session_rate_new (2 * 10 ^ 9))
      \<lparr>violation_count := 2, global_count := 1, opcode_counts := [0x01 \<mapsto> 1]\<rparr>)"
    by (simp add: check_state_def session_rate_new_def is_banned_def maybe_reset_window_def
        WINDOW_DURATION_def rate_consts Let_def opcode_counter_key_def opcode_rate_limit_def
        variant_defs)
  from violations_not_consecutive [OF _ this] show ?thesis by (simp add: session_rate_new_def)
qed

subsection \<open>Connections per address\<close>

definition connections :: "rate_limiter \<Rightarrow> ip_addr \<Rightarrow> nat" where
  \<comment> \<open>the abstract view: how many connections an address holds\<close>
  "connections rl ip = (case ip_connections rl ip of None \<Rightarrow> 0 | Some c \<Rightarrow> unat c)"

definition conn_inv :: "rate_limiter \<Rightarrow> bool" where
  "conn_inv rl \<longleftrightarrow> (\<forall>ip c. ip_connections rl ip = Some c \<longrightarrow> 1 \<le> c \<and> c \<le> 5)"

datatype conn_event = Connect ip_addr | Disconnect ip_addr

fun conn_step :: "rate_limiter \<Rightarrow> conn_event \<Rightarrow> bool \<times> rate_limiter" where
  "conn_step rl (Connect ip) =
     (case register_connection ip rl of (r, rl') \<Rightarrow> (r = Inr (), rl'))"
| "conn_step rl (Disconnect ip) = (True, unregister_connection ip rl)"

fun conn_spec :: "(ip_addr \<Rightarrow> nat) \<Rightarrow> conn_event \<Rightarrow> bool \<times> (ip_addr \<Rightarrow> nat)" where
  \<comment> \<open>what the component promises: at most five each, a refusal changes nothing\<close>
  "conn_spec f (Connect ip) = (if f ip < 5 then (True, f(ip := f ip + 1)) else (False, f))"
| "conn_spec f (Disconnect ip) = (True, f(ip := f ip - 1))"

lemma conn_inv_cases:
  assumes "conn_inv rl"
  obtains "ip_connections rl ip = None"
    | c where "ip_connections rl ip = Some c" "1 \<le> unat c" "unat c \<le> 5"
      "unat (c + 1) = Suc (unat c)" "unat (c - 1) = unat c - 1"
proof (cases "ip_connections rl ip")
  case (Some c)
  then have "1 \<le> c" "c \<le> 5" using assms by (auto simp: conn_inv_def)
  then have "1 \<le> unat c" "unat c \<le> 5" "unat (c - 1) = unat c - 1"
    by (simp_all add: word_le_nat_alt unat_sub)
  moreover from this have "unat (c + 1) = Suc (unat c)" by (simp add: unat_word_ariths(1))
  ultimately show thesis using Some that(2) by blast
qed (use that(1) in blast)

lemma conn_step_refines:
  assumes "conn_inv rl"
  shows "conn_inv (snd (conn_step rl e))
    \<and> conn_spec (connections rl) e = (fst (conn_step rl e), connections (snd (conn_step rl e)))"
proof (cases e)
  case (Connect ip)
  show ?thesis
    by (rule conn_inv_cases [OF assms, of ip])
      (use assms in \<open>auto simp: Connect register_connection_def Let_def conn_inv_def connections_def
        MAX_CONNECTIONS_PER_IP_def word_le_nat_alt word_less_nat_alt fun_eq_iff\<close>)
next
  case (Disconnect ip)
  show ?thesis
    by (rule conn_inv_cases [OF assms, of ip])
      (use assms in \<open>auto simp: Disconnect unregister_connection_def conn_inv_def connections_def
        word_le_nat_alt fun_eq_iff split: option.splits intro: diff_le_self [THEN order_trans]\<close>)
qed

interpretation conns: stable conn_step "\<lambda>_ _. True" conn_inv
  by unfold_locales (simp add: conn_step_refines)

text \<open>Whatever sequence of connects and disconnects arrives, the atomic counters answer it as
  the specification does (a refusal exactly at five, a disconnect gives one place back), and
  the map holds an entry only for addresses with one to five connections.\<close>

theorem connections_refine:
  "conn_inv (snd (run conn_step rate_limiter_new es))
   \<and> run conn_spec (\<lambda>_. 0) es =
       (fst (run conn_step rate_limiter_new es),
        connections (snd (run conn_step rate_limiter_new es)))"
proof -
  have "run conn_spec (connections rl) es =
      (fst (run conn_step rl es), connections (snd (run conn_step rl es)))" if "conn_inv rl" for rl
    using that
  proof (induction es arbitrary: rl)
    case (Cons e es)
    from conn_step_refines [OF Cons.prems, of e] Cons.IH show ?case
      by (simp add: prod_eq_iff)
  qed simp
  moreover have "conn_inv rate_limiter_new" "connections rate_limiter_new = (\<lambda>_. 0)"
    by (simp_all add: conn_inv_def rate_limiter_new_def connections_def fun_eq_iff)
  ultimately show ?thesis using conns.run_inv [of rate_limiter_new es] by (metis run_ok_True)
qed

text \<open>A game master's packets are never counted, and no packet of one session touches another
  session or the connection counts.\<close>

theorem check_rate_limit_frame:
  "check_rate_limit sid b True clk rl = (Inr (), rl)
   \<and> ip_connections (snd (check_rate_limit sid b gm clk rl)) = ip_connections rl
   \<and> (sessions (snd (check_rate_limit sid b gm clk rl)))(sid := None) = (sessions rl)(sid := None)"
  by (simp add: check_rate_limit_def split_def Let_def split: option.splits)

end
