(* ===== verification/World.thy ===== *)
theory World
  imports Packet Opcode
begin

text \<open>
  The world state the item, gold and trade code works on
  (\<^verbatim>\<open>crates/ko-game/src/world/types.rs\<close>, \<^verbatim>\<open>world/session.rs\<close>, \<^verbatim>\<open>world/tables.rs\<close>,
  \<^verbatim>\<open>inventory_constants.rs\<close>). The records have the fields this code uses; the dash maps are maps,
  and an operation that locks one is a function from world to world. A packet sent to a session is
  appended to \<open>outbox\<close>. Operations run one at a time: interleavings of two handlers inside one
  operation are not modelled.
\<close>

type_synonym sid = u16
type_synonym unix_time = u32

subsection \<open>Constants\<close>

definition SLOT_MAX :: nat where "SLOT_MAX = 14"
definition HAVE_MAX :: nat where "HAVE_MAX = 28"
definition COSP_MAX :: nat where "COSP_MAX = 11"
definition INVENTORY_COSP :: nat where "INVENTORY_COSP = SLOT_MAX + HAVE_MAX"
definition INVENTORY_MBAG :: nat where "INVENTORY_MBAG = INVENTORY_COSP + COSP_MAX"
definition MBAG_MAX :: nat where "MBAG_MAX = 12"
definition MBAG_COUNT :: nat where "MBAG_COUNT = 3"
definition KNIGHT_ROYALE_MAX :: nat where "KNIGHT_ROYALE_MAX = 7"
definition INVENTORY_TOTAL :: nat where
  "INVENTORY_TOTAL = INVENTORY_MBAG + MBAG_MAX * MBAG_COUNT + KNIGHT_ROYALE_MAX"
definition WAREHOUSE_MAX :: nat where "WAREHOUSE_MAX = 192"
definition TRASH_ITEM_MAX :: nat where "TRASH_ITEM_MAX = 10000"
definition COIN_MAX :: u32 where "COIN_MAX = 2100000000"
definition ITEMCOUNT_MAX :: u16 where "ITEMCOUNT_MAX = 9999"
definition ITEM_KIND_UNIQUE :: i32 where "ITEM_KIND_UNIQUE = 255"
definition ITEM_KIND_PET :: i32 where "ITEM_KIND_PET = 151"
definition ITEM_GOLD :: u32 where "ITEM_GOLD = 900000000"
definition ITEM_NO_TRADE_MIN :: u32 where "ITEM_NO_TRADE_MIN = 900000001"
definition ITEM_NO_TRADE_MAX :: u32 where "ITEM_NO_TRADE_MAX = 999999999"
definition RACE_UNTRADEABLE :: i32 where "RACE_UNTRADEABLE = 20"
definition ITEM_FLAG_RENTED :: u8 where "ITEM_FLAG_RENTED = 1"
definition ITEM_FLAG_DUPLICATE :: u8 where "ITEM_FLAG_DUPLICATE = 3"
definition ITEM_FLAG_SEALED :: u8 where "ITEM_FLAG_SEALED = 4"
definition ITEM_FLAG_BOUND :: u8 where "ITEM_FLAG_BOUND = 8"
definition USER_DEAD :: u8 where "USER_DEAD = 0x03"
definition MAX_LEVEL :: u16 where "MAX_LEVEL = 83"
definition MAX_MERCH_ITEMS :: nat where "MAX_MERCH_ITEMS = 12"
definition MERCHANT_STATE_NONE :: i8 where "MERCHANT_STATE_NONE = -1"
definition MERCHANT_STATE_SELLING :: i8 where "MERCHANT_STATE_SELLING = 0"
definition MERCHANT_STATE_BUYING :: i8 where "MERCHANT_STATE_BUYING = 1"
definition TRADE_STATE_NONE :: u8 where "TRADE_STATE_NONE = 1"
definition TRADE_STATE_SENDER :: u8 where "TRADE_STATE_SENDER = 2"
definition TRADE_STATE_TARGET :: u8 where "TRADE_STATE_TARGET = 3"
definition TRADE_STATE_TRADING :: u8 where "TRADE_STATE_TRADING = 4"
definition TRADE_STATE_DECIDING :: u8 where "TRADE_STATE_DECIDING = 5"

lemmas bag_consts = SLOT_MAX_def HAVE_MAX_def
lemmas trade_states = TRADE_STATE_NONE_def TRADE_STATE_SENDER_def TRADE_STATE_TARGET_def
  TRADE_STATE_TRADING_def TRADE_STATE_DECIDING_def

subsection \<open>Data\<close>

record user_item_slot =
  item_id :: u32
  durability :: i16
  item_count :: u16
  item_flag :: u8
  original_flag :: u8
  serial_num :: u64
  expire_time :: unix_time

definition empty_slot :: user_item_slot where
  \<comment> \<open>\<open>UserItemSlot::default()\<close>\<close>
  "empty_slot = \<lparr>item_id = 0, durability = 0, item_count = 0, item_flag = 0, original_flag = 0,
     serial_num = 0, expire_time = 0\<rparr>"

record exchange_item =
  ex_item_id :: u32
  ex_count :: u32
  ex_durability :: i16
  ex_serial_num :: u64
  ex_src_pos :: u8
  ex_dst_pos :: u8

record merch_data =
  m_item_id :: u32
  m_durability :: i16
  sell_count :: u16
  original_count :: u16
  m_serial_num :: u64
  price :: u32
  original_slot :: u8
  sold_out :: bool
  is_kc :: bool

definition empty_merch :: merch_data where
  "empty_merch = \<lparr>m_item_id = 0, m_durability = 0, sell_count = 0, original_count = 0,
     m_serial_num = 0, price = 0, original_slot = 0, sold_out = False, is_kc = False\<rparr>"

record deleted_item_entry =
  d_db_id :: i64
  d_item_id :: u32
  d_count :: u32
  d_delete_time :: u32
  d_duration :: u16
  d_serial_num :: u64
  d_flag :: u8

record character_info =
  ch_name :: rstr
  nation :: u8
  level :: u8
  authority :: u8
  rebirth_level :: u8
  gold :: u32
  loyalty :: u32
  hp :: i16
  max_hp :: i16
  mp :: i16
  max_mp :: i16
  ch_item_weight :: i32
  ch_max_weight :: i32
  res_hp_type :: u8
  party_id :: "u16 option"
  ch_session_id :: u16
  ch_class :: u16
  knights_id :: u16
  ch_str :: u8
  ch_sta :: u8
  ch_dex :: u8
  ch_intel :: u8
  ch_cha :: u8
  equipped_items :: "u32 list"
  free_points :: u16
  skill_points :: "u8 list"
    \<comment> \<open>ten entries: the free points first, the categories at 5 to 8\<close>
  ch_exp :: u64
  max_exp :: i64
  exp_seal_status :: bool
  sealed_exp :: u32

record equipped_stats =
  max_weight :: u32
  item_weight :: u32
  item_gold_bonus :: u8
  total_hit :: u16
  total_ac :: i16
  stat_bonuses :: "i16 list"
  fire_r :: i16
  cold_r :: i16
  lightning_r :: i16
  magic_r :: i16
  disease_r :: i16
  poison_r :: i16
  item_exp_bonus :: u8
  resistance_bonus :: i16

definition default_stats :: equipped_stats where
  "default_stats = \<lparr>max_weight = 0, item_weight = 0, item_gold_bonus = 0, total_hit = 0, total_ac = 0,
     stat_bonuses = [0, 0, 0, 0, 0], fire_r = 0, cold_r = 0, lightning_r = 0, magic_r = 0, disease_r = 0, poison_r = 0,
     item_exp_bonus = 0, resistance_bonus = 0\<rparr>"

record active_buff =
  buff_type :: i32
  buff_ac :: i32
  buff_ac_pct :: i32
  buff_attack :: i32
  buff_ac_sour :: i32
  buff_resists :: "i32 list"
    \<comment> \<open>\<open>fire_r\<close>, \<open>cold_r\<close>, \<open>lightning_r\<close>, \<open>magic_r\<close>, \<open>disease_r\<close>, \<open>poison_r\<close>\<close>

record session_handle =
  tx_open :: bool
    \<comment> \<open>the receiving half of the session's channel is still there\<close>
  character :: "character_info option"
  zone_id :: u16
  account_id :: rstr
  inventory :: "user_item_slot list"
  equipped :: equipped_stats
  noah_gain_amount :: u8
  clan_premium_in_use :: u8
  flame_level :: u16
  perk_levels :: "i16 list"
  warehouse :: "user_item_slot list"
  inn_coins :: u32
  warehouse_loaded :: bool
  deleted_items :: "deleted_item_entry list"
  delete_item_list :: "u8 \<rightharpoonup> nat"
  trade_state :: u8
  exchange_user :: "sid option"
  exchange_items :: "exchange_item list"
  is_request_sender :: bool
  merchant_state :: i8
  selling_merchant_preparing :: bool
  buying_merchant_preparing :: bool
  merchant_items :: "merch_data list"
  merchant_looker :: "sid option"
  browsing_merchant :: "sid option"
  h_is_mining :: bool
  h_is_fishing :: bool
  genie_active :: bool
  store_open :: bool
  premium_in_use :: u8
  dr_gm_total_sold :: u64
  vip_warehouse :: "user_item_slot list"
  vip_password :: rstr
  vip_password_request :: u8
  vip_vault_expiry :: u32
  vip_warehouse_loaded :: bool
  region_x :: u16
  region_z :: u16
  event_room :: u16
  party_type :: i8
  personal_rank :: u8
  h_knights_rank :: u8
  last_target_number_time :: nat
    \<comment> \<open>milliseconds\<close>
  pet_items :: "user_item_slot list option"
    \<comment> \<open>the items of \<open>pet_data\<close>\<close>
  is_hiding_cospre :: bool
  fairy_check :: bool
  auto_loot :: bool
  is_premium_merchant :: bool
  knight_cash :: u32
  tl_balance :: u32
  is_offline :: bool
  offline_remaining_minutes :: u16
  offline_next_check :: "nat option"
    \<comment> \<open>seconds\<close>
  flash_exp_bonus :: u8
  exp_gain_buff11 :: u16
  exp_gain_buff33 :: u16
  quest_states :: "u16 \<rightharpoonup> u8"
    \<comment> \<open>\<open>quests\<close>, of which only the state is used\<close>
  buffs :: "active_buff list"
    \<comment> \<open>the values of the map, in the order it is walked through\<close>
  pct_resists :: "u8 list"
    \<comment> \<open>\<open>pct_fire_r\<close> to \<open>pct_poison_r\<close>\<close>

record item_def =
  kind :: "i32 option"
  race :: "i32 option"
  countable :: "i32 option"
  weight :: "i16 option"
  duration :: "i16 option"
  buy_price :: "i32 option"
  sell_price :: "i32 option"
  sell_npc_type :: "i32 option"
  sell_npc_price :: "i32 option"
  np_buy_price :: "i32 option"
  selling_group :: "i32 option"
  slot_type :: "i32 option"
  item_class :: "i32 option"
  req_level :: "i32 option"
  req_level_max :: "i32 option"
  req_str :: "i32 option"
  req_sta :: "i32 option"
  req_dex :: "i32 option"
  req_intel :: "i32 option"
  req_cha :: "i32 option"

record perk_row =
  perk_count :: i16
  perk_status :: bool

record zone_state =
  trade_other_nation :: "bool option"
    \<comment> \<open>of \<open>zone_info\<close>, when the zone has one\<close>
  war_zone :: "bool option"
    \<comment> \<open>the same\<close>
  regions :: "u16 \<times> u16 \<rightharpoonup> sid list"
    \<comment> \<open>the users in each region of the zone\<close>

record item_exchange =
  exchange_outputs :: "i32 list"

record king_system =
  territory_tariff :: u8
  territory_tax :: u32
  national_treasury :: u32
  exp_event :: u8

record siege_warfare =
  master_knights :: u16
  moradon_tariff :: u16
  delos_tariff :: u16
  dungeon_charge :: i32
  moradon_tax :: i32
  delos_tax :: i32

record npc_instance =
  proto_id :: u16
  is_monster :: bool
  npc_zone :: u16

record npc_template =
  npc_type :: u8
  tmpl_selling_group :: u32

record party =
  party_no :: u16
  members :: "sid option list"
    \<comment> \<open>\<open>MAX_PARTY_USERS\<close> slots, the leader in slot 0\<close>
  item_routing :: u8
  target_number_id :: i16
  command_leader_sid :: "sid option"

record knights_info =
  kn_alliance :: u16
  kn_chief :: rstr

record premium_exp_row =
  pe_type :: i16
  pe_min_level :: i16
  pe_max_level :: i16
  pe_percent :: i16

record knights_alliance =
  main_clan :: u16

record world =
  wsessions :: "sid \<rightharpoonup> session_handle"
  witems :: "u32 \<rightharpoonup> item_def"
  next_item_serial :: u64
  zones :: "u16 \<rightharpoonup> zone_state"
  trade_level :: "i16 option"
    \<comment> \<open>of \<open>server_settings\<close>, when loaded\<close>
  parties :: "u16 \<rightharpoonup> party"
  burning_money_rates :: "u8 list"
  perk_definitions :: "i32 \<rightharpoonup> perk_row"
  item_exchanges :: "i32 \<rightharpoonup> item_exchange"
  level_up_table :: "u8 \<times> u8 \<rightharpoonup> i64"
  pet_attacks :: "u8 \<rightharpoonup> i16 \<times> i32"
    \<comment> \<open>attack and experience of \<open>pet_stats_info\<close>\<close>
  trash_item :: "bool option"
    \<comment> \<open>of \<open>server_settings\<close>, when loaded\<close>
  item_sell_table :: "i32 \<rightharpoonup> i32 list list"
  premium_sell_pct :: "u8 \<rightharpoonup> i16"
    \<comment> \<open>\<open>item_sell_pct\<close> of \<open>premium_item_types\<close>\<close>
  npc_instances :: "u32 \<rightharpoonup> npc_instance"
  npc_hp :: "u32 \<rightharpoonup> i32"
  npc_templates :: "u16 \<times> bool \<rightharpoonup> npc_template"
  king_systems :: "u8 \<rightharpoonup> king_system"
  siege_war :: siege_warfare
  party_invitations :: "sid \<rightharpoonup> u16 \<times> sid"
  next_party_id :: u16
  name_to_session :: "rstr \<rightharpoonup> sid"
    \<comment> \<open>by lower-case name\<close>
  zone_session_index :: "u16 \<rightharpoonup> sid list"
  knights :: "u16 \<rightharpoonup> knights_info"
  alliances :: "u16 \<rightharpoonup> knights_alliance"
  csw_active :: bool
  merchant_level :: "i16 option"
    \<comment> \<open>of \<open>server_settings\<close>, when loaded\<close>
  merchant_min_cash :: "i16 option"
    \<comment> \<open>of \<open>server_settings\<close>, when loaded\<close>
  burning_exp_rates :: "u8 list"
  premium_item_exp :: "premium_exp_row list"
  discount :: u8
  old_victory :: u8
    \<comment> \<open>of \<open>battle_state\<close>\<close>
  outbox :: "(sid \<times> packet) list"

subsection \<open>Reading and updating a session\<close>

definition with_session :: "sid \<Rightarrow> (session_handle \<Rightarrow> 'r) \<Rightarrow> world \<Rightarrow> 'r option" where
  "with_session s f w = map_option f (wsessions w s)"

definition session_or :: "'r \<Rightarrow> sid \<Rightarrow> (session_handle \<Rightarrow> 'r) \<Rightarrow> world \<Rightarrow> 'r" where
  \<comment> \<open>\<open>sessions.get(&id).map(f).unwrap_or(d)\<close>\<close>
  "session_or d s f w = (case wsessions w s of None \<Rightarrow> d | Some h \<Rightarrow> f h)"

definition modify_session :: "sid \<Rightarrow> (session_handle \<Rightarrow> session_handle) \<Rightarrow> world \<Rightarrow> world" where
  \<comment> \<open>\<open>if let Some(mut h) = sessions.get_mut(&id)\<close>\<close>
  "modify_session s f w =
     (case wsessions w s of
        None \<Rightarrow> w
      | Some h \<Rightarrow> w\<lparr>wsessions := (wsessions w)(s \<mapsto> f h)\<rparr>)"

definition update_character_stats ::
  "sid \<Rightarrow> (character_info \<Rightarrow> character_info) \<Rightarrow> world \<Rightarrow> world" where
  "update_character_stats s f = modify_session s (\<lambda>h. h\<lparr>character := map_option f (character h)\<rparr>)"

definition get_character_info :: "sid \<Rightarrow> world \<Rightarrow> character_info option" where
  "get_character_info s w = Option.bind (wsessions w s) character"

definition get_zone_id :: "sid \<Rightarrow> world \<Rightarrow> u16 option" where
  \<comment> \<open>\<open>get_position(id)\<close>, of which only the zone is used\<close>
  "get_zone_id s w = with_session s zone_id w"

definition is_player_dead :: "sid \<Rightarrow> world \<Rightarrow> bool" where
  "is_player_dead s w =
     session_or False s (\<lambda>h.
       case character h of
         None \<Rightarrow> False
       | Some ch \<Rightarrow> res_hp_type ch = USER_DEAD \<or> sint (hp ch) \<le> 0) w"

definition send_to_session :: "sid \<Rightarrow> packet \<Rightarrow> world \<Rightarrow> world" where
  \<comment> \<open>also \<open>send_to_session_owned\<close>: a closed channel is ignored\<close>
  "send_to_session s p w =
     (case wsessions w s of
        None \<Rightarrow> w
      | Some h \<Rightarrow> if tx_open h then w\<lparr>outbox := outbox w @ [(s, p)]\<rparr> else w)"

definition get_session_name :: "sid \<Rightarrow> world \<Rightarrow> rstr option" where
  "get_session_name s w = map_option ch_name (get_character_info s w)"

definition get_item :: "u32 \<Rightarrow> world \<Rightarrow> item_def option" where
  "get_item i w = witems w i"

definition can_trade_other_nation :: "zone_state \<Rightarrow> bool" where
  "can_trade_other_nation z = (case trade_other_nation z of None \<Rightarrow> False | Some b \<Rightarrow> b)"

definition get_party_id :: "sid \<Rightarrow> world \<Rightarrow> u16 option" where
  "get_party_id s w = Option.bind (get_character_info s w) party_id"

definition active_members :: "party \<Rightarrow> sid list" where
  "active_members p = List.map_filter id (members p)"

definition get_exp_by_level :: "u8 \<Rightarrow> u8 \<Rightarrow> world \<Rightarrow> i64" where
  "get_exp_by_level lvl rebirth w =
     (let key = (if (ucast lvl :: u16) < MAX_LEVEL \<and> rebirth > 0 then (lvl, 0) else (lvl, rebirth)) in
      case level_up_table w key of None \<Rightarrow> 0 | Some v \<Rightarrow> v)"

subsection \<open>What updates leave alone\<close>

text \<open>
  Every operation of the item and trade code is put together from \<open>modify_session\<close> and
  \<open>send_to_session\<close>. \<open>same_tables\<close> says that a step changed no table; the lookups after an update are rewrite
  rules.
\<close>

definition same_tables :: "world \<Rightarrow> world \<Rightarrow> bool" where
  "same_tables w w' \<longleftrightarrow> witems w' = witems w \<and> zones w' = zones w \<and> trade_level w' = trade_level w
     \<and> parties w' = parties w \<and> perk_definitions w' = perk_definitions w
     \<and> burning_money_rates w' = burning_money_rates w \<and> item_exchanges w' = item_exchanges w
     \<and> level_up_table w' = level_up_table w \<and> pet_attacks w' = pet_attacks w
     \<and> trash_item w' = trash_item w \<and> item_sell_table w' = item_sell_table w
     \<and> premium_sell_pct w' = premium_sell_pct w \<and> npc_instances w' = npc_instances w
     \<and> npc_hp w' = npc_hp w \<and> npc_templates w' = npc_templates w"

lemma wsessions_modify [simp]:
  "wsessions (modify_session s f w) t =
     (if t = s then map_option f (wsessions w s) else wsessions w t)"
  by (simp add: modify_session_def split: option.splits)

lemma modify_fields [simp]:
  "witems (modify_session s f w) = witems w"
  "zones (modify_session s f w) = zones w"
  "trade_level (modify_session s f w) = trade_level w"
  "parties (modify_session s f w) = parties w"
  "next_item_serial (modify_session s f w) = next_item_serial w"
  "outbox (modify_session s f w) = outbox w"
  "same_tables w (modify_session s f w)"
  by (simp_all add: modify_session_def same_tables_def split: option.splits)

lemma send_fields [simp]:
  "wsessions (send_to_session s p w) = wsessions w"
  "witems (send_to_session s p w) = witems w"
  "zones (send_to_session s p w) = zones w"
  "trade_level (send_to_session s p w) = trade_level w"
  "parties (send_to_session s p w) = parties w"
  "next_item_serial (send_to_session s p w) = next_item_serial w"
  "same_tables w (send_to_session s p w)"
  by (simp_all add: send_to_session_def same_tables_def split: option.splits)

lemma same_tables_refl [simp]: "same_tables w w"
  by (simp add: same_tables_def)

lemma same_tables_trans [trans]: "same_tables w1 w2 \<Longrightarrow> same_tables w2 w3 \<Longrightarrow> same_tables w1 w3"
  by (simp add: same_tables_def)

lemma same_tables_items: "same_tables w w' \<Longrightarrow> witems w' = witems w"
  by (simp add: same_tables_def)

lemma session_or_Some [simp]: "wsessions w s = Some h \<Longrightarrow> session_or d s f w = f h"
  and session_or_None [simp]: "wsessions w s = None \<Longrightarrow> session_or d s f w = d"
  by (simp_all add: session_or_def)

lemma session_or_send [simp]: "session_or d s f (send_to_session t p w) = session_or d s f w"
  by (simp add: session_or_def)

lemma get_item_modify [simp]: "get_item i (modify_session s f w) = get_item i w"
  and get_item_send [simp]: "get_item i (send_to_session s p w) = get_item i w"
  by (simp_all add: get_item_def)

lemma get_character_info_send [simp]:
  "get_character_info s (send_to_session t p w) = get_character_info s w"
  by (simp add: get_character_info_def)

subsection \<open>What the model is given\<close>

text \<open>
  Code and data outside the modelled part, as arguments: the database lookups of
  \<^verbatim>\<open>PetRepository::load_pet_data\<close> and \<^verbatim>\<open>CharacterSealRepository::load_seal_summary_by_serial\<close>,
  the percentage \<^verbatim>\<open>write_pet_item_info\<close> computes in \<open>f32\<close>, Unicode lower-casing, the comparison of
  \<open>f32\<close> distances to an NPC in the same zone and between buyer and shop, the rows of the warehouse and trash
  tables, what a clan does when a member's session ends, the price
  \<^verbatim>\<open>compute_money_req\<close> of \<^verbatim>\<open>handler/ext_hook.rs\<close> computes with powers of \<open>f64\<close>, and the
  numbers \<^verbatim>\<open>set_user_ability\<close> computes in floating point from equipment, buffs and tables (its second
  phase: statistics, maximal HP, maximal MP).
\<close>

record pet_user_data =
  pet_index :: i32
  pet_name :: rstr
  pet_level :: i16
  pet_exp :: i32
  pet_satisfaction :: i16

record seal_summary =
  seal_unique_id :: i32
  seal_char_name :: rstr
  seal_class :: i16
  seal_level :: i16
  seal_exp :: i64
  seal_race :: i16

record stored_row =
  \<comment> \<open>a row of the warehouse table\<close>
  row_slot :: i16
  row_item :: i32
  row_durability :: i16
  row_count :: i16
  row_flag :: i16
  row_original_flag :: i16
  row_serial :: i64
  row_expire :: i32

record env =
  load_pet_data :: "i64 \<Rightarrow> pet_user_data option"
  load_seal :: "i64 \<Rightarrow> seal_summary option"
  exp_percent :: "i32 \<Rightarrow> i32 \<Rightarrow> u16"
  to_lowercase :: "rstr \<Rightarrow> rstr"
  near_npc :: "world \<Rightarrow> sid \<Rightarrow> u32 \<Rightarrow> bool"
  load_warehouse_items :: "rstr \<Rightarrow> stored_row list option"
  load_warehouse_coins :: "rstr \<Rightarrow> i32 option"
  insert_trash :: "world \<Rightarrow> rstr \<Rightarrow> deleted_item_entry \<Rightarrow> i64 option"
  beyond_35m :: "world \<Rightarrow> sid \<Rightarrow> sid \<Rightarrow> bool"
  clan_member_leaves :: "sid \<Rightarrow> world \<Rightarrow> world"
  money_req :: "u8 \<Rightarrow> u8 \<Rightarrow> u32"
  ability :: "world \<Rightarrow> sid \<Rightarrow> equipped_stats \<times> i16 \<times> i16"

end
