(* ===== verification/Item_Info.thy ===== *)
theory Item_Info
  imports World "HOL-Library.Signed_Division"
begin

text \<open>
  The variable-length field an item slot carries for pets and cypher rings
  (\<^verbatim>\<open>crates/ko-game/src/handler/unique_item_info.rs\<close>, lines 15 to 145). The database and the
  floating-point percentage are fields of \<open>env\<close>.
\<close>

definition ITEM_CYPHER_RING :: u32 where "ITEM_CYPHER_RING = 800112000"

definition write_pet_item_info :: "env \<Rightarrow> world \<Rightarrow> i64 \<Rightarrow> packet \<Rightarrow> packet" where
  "write_pet_item_info e w serial_id p =
     (if serial_id = 0 then write_u32 0 p
      else case load_pet_data e serial_id of
             None \<Rightarrow> write_u32 0 p
           | Some pet \<Rightarrow>
               let stats = pet_attacks w (ucast (pet_level pet));
                   pet_attack = (case stats of None \<Rightarrow> 0 | Some s \<Rightarrow> ucast (fst s)) :: u8;
                   pet_exp_max = (case stats of None \<Rightarrow> 1 | Some s \<Rightarrow> snd s);
                   percent = (if sint pet_exp_max > 0
                              then exp_percent e (pet_exp pet) pet_exp_max else 0) in
               write_u8 0 (write_i16 (pet_satisfaction pet) (write_u16 percent
                 (write_u8 (ucast (pet_level pet)) (write_u8 pet_attack
                   (write_string (pet_name pet) (write_u32 (pet_index pet) p)))))))"

definition seal_exp_rate :: "i64 \<Rightarrow> i64 \<Rightarrow> u16" where
  \<comment> \<open>\<open>((exp * 50) / exp_by_level) * 100\<close>, clamped to \<open>0..=10000\<close>\<close>
  "seal_exp_rate xp exp_by_level =
     (if sint exp_by_level > 0
      then let rate = (word_of_int (sint (xp * 50) sdiv sint exp_by_level) :: i64) * 100 in
           word_of_int (max 0 (min 10000 (sint rate)))
      else 0)"

definition write_cypher_ring_item_info :: "env \<Rightarrow> world \<Rightarrow> i64 \<Rightarrow> u8 \<Rightarrow> packet \<Rightarrow> packet" where
  "write_cypher_ring_item_info e w serial_id rebirth p =
     (if serial_id = 0 then write_u32 0 p
      else case load_seal e serial_id of
             None \<Rightarrow> write_u32 0 p
           | Some s \<Rightarrow>
               let rate = seal_exp_rate (seal_exp s)
                     (get_exp_by_level (ucast (seal_level s)) rebirth w) in
               write_u8 0 (write_u8 0 (write_u8 (ucast (seal_race s)) (write_u16 rate
                 (write_u8 (ucast (seal_level s)) (write_u8 (ucast (seal_class s))
                   (write_string (seal_char_name s) (write_u32 (seal_unique_id s) p))))))))"

definition write_unique_item_info ::
  "env \<Rightarrow> world \<Rightarrow> u32 \<Rightarrow> u64 \<Rightarrow> u8 \<Rightarrow> packet \<Rightarrow> packet" where
  "write_unique_item_info e w i serial rebirth p =
     (if i = 0 then write_u32 0 p
      else case get_item i w of
             None \<Rightarrow> write_u32 0 p
           | Some tmpl \<Rightarrow>
               if kind tmpl = Some ITEM_KIND_PET then write_pet_item_info e w serial p
               else if i = ITEM_CYPHER_RING then write_cypher_ring_item_info e w serial rebirth p
               else write_u32 0 p)"

lemma seal_exp_rate_le: "seal_exp_rate xp l \<le> 10000"
proof -
  have "unat (word_of_int (max 0 (min 10000 i)) :: u16) \<le> 10000" for i :: int
  proof -
    have "unat (word_of_int (max 0 (min 10000 i)) :: u16) = nat (max 0 (min 10000 i))"
      by (simp add: unsigned_of_int take_bit_int_eq_self)
    then show ?thesis by simp
  qed
  then show ?thesis by (simp add: seal_exp_rate_def Let_def word_le_nat_alt)
qed

end
