(* ===== verification/Inventory.thy ===== *)
theory Inventory
  imports Item_Info
begin

text \<open>
  The bag, the warehouse and the list of deleted items of a session
  (\<^verbatim>\<open>crates/ko-game/src/world/inventory.rs\<close>). An update through a closure is
  \<open>update_inventory\<close>: the closure takes the slots and gives an answer and the new slots, and the
  given default is the answer when there is no session.
\<close>

definition bag :: "nat list" where
  \<comment> \<open>\<open>SLOT_MAX..(SLOT_MAX + HAVE_MAX)\<close>\<close>
  "bag = [SLOT_MAX..<SLOT_MAX + HAVE_MAX]"

lemma in_bag [simp]: "k \<in> set bag \<longleftrightarrow> 14 \<le> k \<and> k < 42"
  unfolding bag_def bag_consts set_upt atLeastLessThan_iff by simp

lemma distinct_bag [simp]: "distinct bag"
  unfolding bag_def by (rule distinct_upt)

lemma length_bag [simp]: "length bag = 28"
  unfolding bag_def bag_consts length_upt by simp

lemma nth_bag [simp]: "j < 28 \<Longrightarrow> bag ! j = 14 + j"
  unfolding bag_def bag_consts by (subst nth_upt) simp_all

subsection \<open>Access\<close>

definition set_inventory :: "sid \<Rightarrow> user_item_slot list \<Rightarrow> world \<Rightarrow> world" where
  "set_inventory s slots = modify_session s (\<lambda>h. h\<lparr>inventory := slots\<rparr>)"

definition get_inventory :: "sid \<Rightarrow> world \<Rightarrow> user_item_slot list" where
  "get_inventory s w = session_or [] s inventory w"

definition get_inventory_slot :: "sid \<Rightarrow> nat \<Rightarrow> world \<Rightarrow> user_item_slot option" where
  "get_inventory_slot s k w = session_or None s (\<lambda>h. slice_get (inventory h) k) w"

definition update_inventory ::
  "sid \<Rightarrow> 'r \<Rightarrow> (user_item_slot list \<Rightarrow> 'r \<times> user_item_slot list) \<Rightarrow> world \<Rightarrow> 'r \<times> world" where
  "update_inventory s d f w =
     (case wsessions w s of
        None \<Rightarrow> (d, w)
      | Some h \<Rightarrow> (fst (f (inventory h)), modify_session s (\<lambda>h. h\<lparr>inventory := snd (f (inventory h))\<rparr>) w))"

definition generate_item_serial :: "world \<Rightarrow> u64 \<times> world" where
  "generate_item_serial w =
     (next_item_serial w, w\<lparr>next_item_serial := next_item_serial w + 1\<rparr>)"

definition get_equipped_stats :: "sid \<Rightarrow> world \<Rightarrow> equipped_stats" where
  "get_equipped_stats s w = session_or default_stats s equipped w"

definition build_max_hp_change :: "i32 \<Rightarrow> packet" where
  "build_max_hp_change m =
     write_i32 m (write_i32 0 (write_u8 1 (write_u8 2 (packet_new (as_u8 WizMaxHpChange)))))"

definition set_user_ability :: "env \<Rightarrow> sid \<Rightarrow> world \<Rightarrow> world" where
  \<comment> \<open>the guard and the third phase; the numbers of the second phase are \<open>ability\<close>\<close>
  "set_user_ability e s w =
     (case get_character_info s w of
        None \<Rightarrow> w
      | Some ch \<Rightarrow>
          let old_max_hp = max_hp ch;
              old_item_weight = item_weight (get_equipped_stats s w);
              (stats, new_max_hp, new_max_mp) = ability e w s;
              w1 = modify_session s (\<lambda>h. h\<lparr>equipped := stats,
                     character := map_option (\<lambda>c. c\<lparr>max_hp := new_max_hp, max_mp := new_max_mp,
                       hp := (if sint (hp c) > sint new_max_hp then new_max_hp else hp c),
                       mp := (if sint (mp c) > sint new_max_mp then new_max_mp else mp c)\<rparr>)
                     (character h)\<rparr>) w;
              w2 = (if new_max_hp \<noteq> old_max_hp
                    then send_to_session s (build_max_hp_change (scast new_max_hp)) w1 else w1);
              new_weight = item_weight (get_equipped_stats s w2) in
          if new_weight \<noteq> old_item_weight
          then send_to_session s (write_u32 new_weight (packet_new (as_u8 WizWeightChange))) w2
          else w2)"

subsection \<open>Looking for a slot\<close>

definition has_empty_inventory_slot :: "sid \<Rightarrow> world \<Rightarrow> bool" where
  "has_empty_inventory_slot s w =
     session_or False s (\<lambda>h.
       list_ex (\<lambda>k. case slice_get (inventory h) k of None \<Rightarrow> False | Some sl \<Rightarrow> item_id sl = 0) bag) w"

primrec scan_stack ::
  "user_item_slot list \<Rightarrow> u32 \<Rightarrow> u16 \<Rightarrow> nat option \<Rightarrow> nat list \<Rightarrow> nat option" where
  \<comment> \<open>the loop for stackable items: the first stack with room, else the first empty slot seen\<close>
  "scan_stack slots i cnt first_empty [] = first_empty"
| "scan_stack slots i cnt first_empty (k # ks) =
     (case slice_get slots k of
        None \<Rightarrow> scan_stack slots i cnt first_empty ks
      | Some sl \<Rightarrow>
          if item_id sl = i \<and> item_count sl + cnt \<le> ITEMCOUNT_MAX then Some k
          else scan_stack slots i cnt
                 (if item_id sl = 0 \<and> first_empty = None then Some k else first_empty) ks)"

primrec scan_empty :: "user_item_slot list \<Rightarrow> nat list \<Rightarrow> nat option" where
  "scan_empty slots [] = None"
| "scan_empty slots (k # ks) =
     (case slice_get slots k of
        None \<Rightarrow> scan_empty slots ks
      | Some sl \<Rightarrow> if item_id sl = 0 then Some k else scan_empty slots ks)"

definition find_slot_for_item :: "sid \<Rightarrow> u32 \<Rightarrow> u16 \<Rightarrow> world \<Rightarrow> nat option" where
  "find_slot_for_item s i cnt w =
     (case get_item i w of
        None \<Rightarrow> None
      | Some it \<Rightarrow>
          session_or None s (\<lambda>h.
            if sint (unwrap_or 0 (countable it)) > 0
            then scan_stack (inventory h) i cnt None bag
            else scan_empty (inventory h) bag) w)"

primrec count_empty :: "user_item_slot list \<Rightarrow> 'c::len word \<Rightarrow> nat list \<Rightarrow> 'c word" where
  "count_empty slots c [] = c"
| "count_empty slots c (k # ks) =
     count_empty slots (case slice_get slots k of
                        None \<Rightarrow> c | Some sl \<Rightarrow> if item_id sl = 0 then c + 1 else c) ks"

definition count_free_inventory_slots :: "sid \<Rightarrow> world \<Rightarrow> u32" where
  "count_free_inventory_slots s w = session_or 0 s (\<lambda>h. count_empty (inventory h) 0 bag) w"

definition count_free_slots :: "sid \<Rightarrow> world \<Rightarrow> u8" where
  "count_free_slots s w = session_or 0 s (\<lambda>h. count_empty (inventory h) 0 bag) w"

definition check_weight :: "sid \<Rightarrow> u32 \<Rightarrow> u16 \<Rightarrow> world \<Rightarrow> bool" where
  "check_weight s i cnt w =
     (case get_item i w of
        None \<Rightarrow> False
      | Some it \<Rightarrow>
          let add_weight = (scast (unwrap_or 0 (weight it)) :: u32) * ucast cnt in
          session_or False s (\<lambda>h.
            item_weight (equipped h) + add_weight \<le> max_weight (equipped h)
            \<and> find_slot_for_item s i cnt w \<noteq> None) w)"

subsection \<open>Giving items\<close>

definition item_count_change :: "u8 \<Rightarrow> u32 \<Rightarrow> u32 \<Rightarrow> u8 \<Rightarrow> u16 \<Rightarrow> u32 \<Rightarrow> packet" where
  "item_count_change slot_pos i new_count is_new dur exp =
     write_u32 exp (write_u32 0 (write_u16 dur (write_u8 is_new (write_u32 new_count
       (write_u32 i (write_u8 slot_pos (write_u8 1 (write_u16 1
         (packet_new (as_u8 WizItemCountChange))))))))))"

definition place_item ::
  "item_def \<Rightarrow> u32 \<Rightarrow> u16 \<Rightarrow> u64 \<Rightarrow> u32 \<Rightarrow> nat \<Rightarrow> user_item_slot list
     \<Rightarrow> (u8 \<times> u32 \<times> u16 \<times> u32) option \<times> user_item_slot list" where
  \<comment> \<open>the closure of \<open>give_item\<close> (with expiry 0) and \<open>give_item_with_expiry\<close>\<close>
  "place_item it i cnt serial expiry pos slots =
     (if pos \<ge> length slots then (None, slots)
      else
        let slot = slots ! pos; is_new = (item_id slot = 0);
            s1 = slot\<lparr>item_id := i,
                   item_count := min (saturating_add (item_count slot) cnt) ITEMCOUNT_MAX,
                   durability := unwrap_or 0 (duration it)\<rparr>;
            s2 = (if is_new then s1\<lparr>serial_num := serial\<rparr> else s1);
            s3 = (if unwrap_or 0 (kind it) = 255 \<or> unwrap_or 0 (countable it) = 0
                  then s2\<lparr>item_count := 1\<rparr> else s2);
            s4 = (if expiry > 0 then s3\<lparr>expire_time := expiry\<rparr> else s3) in
        (Some (word_of_nat (pos - SLOT_MAX), ucast (item_count s4), durability s4, expire_time s4),
         slots[pos := s4]))"

definition give_item :: "env \<Rightarrow> sid \<Rightarrow> u32 \<Rightarrow> u16 \<Rightarrow> world \<Rightarrow> bool \<times> world" where
  "give_item e s i cnt w =
     (case get_item i w of
        None \<Rightarrow> (False, w)
      | Some it \<Rightarrow>
          if unwrap_or 0 (countable it) = 2 then (False, w)
          else case find_slot_for_item s i cnt w of
                 None \<Rightarrow> (False, w)
               | Some pos \<Rightarrow>
                   let (serial, w1) = generate_item_serial w;
                       (info, w2) = update_inventory s None (place_item it i cnt serial 0 pos) w1 in
                   case info of
                     None \<Rightarrow> (False, w2)
                   | Some (slot_pos, new_count, dur, _) \<Rightarrow>
                       (True, set_user_ability e s
                          (send_to_session s (item_count_change slot_pos i new_count 100 dur 0) w2)))"

definition expiry_from :: "unix_time \<Rightarrow> u32 \<Rightarrow> unix_time" where
  "expiry_from now days = (if days > 0 then now + 86400 * days else 0)"

definition give_item_with_expiry ::
  "env \<Rightarrow> unix_time \<Rightarrow> sid \<Rightarrow> u32 \<Rightarrow> u16 \<Rightarrow> u32 \<Rightarrow> world \<Rightarrow> bool \<times> world" where
  "give_item_with_expiry e now s i cnt days w =
     (case get_item i w of
        None \<Rightarrow> (False, w)
      | Some it \<Rightarrow>
          if unwrap_or 0 (countable it) = 2 then (False, w)
          else case find_slot_for_item s i cnt w of
                 None \<Rightarrow> (False, w)
               | Some pos \<Rightarrow>
                   let expiry = expiry_from now days; (serial, w1) = generate_item_serial w;
                       (info, w2) = update_inventory s None (place_item it i cnt serial expiry pos) w1 in
                   case info of
                     None \<Rightarrow> (False, w2)
                   | Some (slot_pos, new_count, dur, exp) \<Rightarrow>
                       (True, set_user_ability e s
                          (send_to_session s (item_count_change slot_pos i new_count 100 dur exp) w2)))"

subsection \<open>Taking items\<close>

primrec rob_scan ::
  "bool \<Rightarrow> u32 \<Rightarrow> u16 \<Rightarrow> nat list \<Rightarrow> user_item_slot list
     \<Rightarrow> (u8 \<times> u32 \<times> u16) option \<times> user_item_slot list" where
  "rob_scan scroll i cnt [] slots = (None, slots)"
| "rob_scan scroll i cnt (k # ks) slots =
     (case slice_get slots k of
        None \<Rightarrow> rob_scan scroll i cnt ks slots
      | Some slot \<Rightarrow>
          let bag_pos = word_of_nat (k - SLOT_MAX) in
          if item_id slot \<noteq> i then rob_scan scroll i cnt ks slots
          else if scroll then
            (if sint (durability slot) < sint cnt then (None, slots)
             else
               let d = durability slot - cnt in
               if sint d \<le> 0 then (Some (bag_pos, 0, 0), slots[k := empty_slot])
               else (Some (bag_pos, ucast (item_count slot), d), slots[k := slot\<lparr>durability := d\<rparr>]))
          else if item_count slot < cnt then rob_scan scroll i cnt ks slots
          else
            let new_count = item_count slot - cnt in
            (Some (bag_pos, ucast new_count, durability slot),
             slots[k := (if new_count = 0 then empty_slot else slot\<lparr>item_count := new_count\<rparr>)]))"

definition rob_item :: "env \<Rightarrow> sid \<Rightarrow> u32 \<Rightarrow> u16 \<Rightarrow> world \<Rightarrow> bool \<times> world" where
  "rob_item e s i cnt w =
     (if cnt = 0 then (True, w)
      else
        let scroll = (unwrap_or 0 (Option.bind (get_item i w) kind) = 255);
            (info, w1) = update_inventory s None (rob_scan scroll i cnt bag) w in
        case info of
          None \<Rightarrow> (False, w1)
        | Some (slot_pos, new_count, dur) \<Rightarrow>
            (True, set_user_ability e s
               (send_to_session s (item_count_change slot_pos i new_count 0 dur 0) w1)))"

primrec clear_scan :: "u32 \<Rightarrow> nat list \<Rightarrow> user_item_slot list \<Rightarrow> u8 list \<times> user_item_slot list" where
  "clear_scan i [] slots = ([], slots)"
| "clear_scan i (k # ks) slots =
     (case slice_get slots k of
        None \<Rightarrow> clear_scan i ks slots
      | Some slot \<Rightarrow>
          if item_id slot = i \<and> item_count slot > 0
          then apfst ((#) (word_of_nat (k - SLOT_MAX))) (clear_scan i ks (slots[k := empty_slot]))
          else clear_scan i ks slots)"

definition rob_all_of_item :: "env \<Rightarrow> sid \<Rightarrow> u32 \<Rightarrow> world \<Rightarrow> bool \<times> world" where
  "rob_all_of_item e s i w =
     (let (removed, w1) = update_inventory s [] (clear_scan i bag) w in
      if removed = [] then (False, w1)
      else (True, set_user_ability e s
              (fold (\<lambda>pos. send_to_session s (item_count_change pos i 0 0 0 0)) removed w1)))"

subsection \<open>Party-wide removal\<close>

definition check_exist_item :: "sid \<Rightarrow> u32 \<Rightarrow> u16 \<Rightarrow> world \<Rightarrow> bool option" where
  \<comment> \<open>\<open>None\<close>: the slice \<open>inventory[SLOT_MAX..SLOT_MAX + HAVE_MAX]\<close> is out of range\<close>
  "check_exist_item s i cnt w =
     (if cnt = 0 then Some True
      else session_or (Some False) s (\<lambda>h.
        if length (inventory h) < SLOT_MAX + HAVE_MAX then None
        else Some (sum_list (map (\<lambda>sl. ucast (item_count sl) :: u32)
               (filter (\<lambda>sl. item_id sl = i) (take HAVE_MAX (drop SLOT_MAX (inventory h)))))
             \<ge> ucast cnt)) w)"

primrec all_have :: "u32 \<Rightarrow> u16 \<Rightarrow> world \<Rightarrow> sid list \<Rightarrow> bool option" where
  "all_have i cnt w [] = Some True"
| "all_have i cnt w (m # ms) =
     (case check_exist_item m i cnt w of
        None \<Rightarrow> None
      | Some b \<Rightarrow> if b then all_have i cnt w ms else Some False)"

definition rob_all_item_party :: "env \<Rightarrow> sid \<Rightarrow> u32 \<Rightarrow> u16 \<Rightarrow> world \<Rightarrow> (bool \<times> world) option" where
  "rob_all_item_party e s i cnt w =
     (if cnt = 0 then Some (False, w)
      else case Option.bind (get_party_id s w) (parties w) of
             None \<Rightarrow> Some (rob_item e s i cnt w)
           | Some party \<Rightarrow>
               let members = filter (\<lambda>m. get_party_id m w \<noteq> None) (active_members party) in
               if members = [] then Some (rob_item e s i cnt w)
               else case all_have i cnt w members of
                      None \<Rightarrow> None
                    | Some b \<Rightarrow>
                        if b then Some (True, fold (\<lambda>m w. snd (rob_item e m i cnt w)) members w)
                        else Some (False, w))"

definition get_max_exchange_capacity :: "sid \<Rightarrow> i32 \<Rightarrow> world \<Rightarrow> u16" where
  "get_max_exchange_capacity s x w =
     (case item_exchanges w x of
        None \<Rightarrow> 0
      | Some ex \<Rightarrow>
          let total = foldl (\<lambda>t i. if i = 0 then t
                        else case get_item i w of
                               None \<Rightarrow> t
                             | Some it \<Rightarrow> saturating_add_i32 t (scast (unwrap_or 0 (weight it))))
                      0 (exchange_outputs ex) in
          if total = 0 then 0
          else
            let (max_weight, current) =
                  (case get_character_info s w of
                     None \<Rightarrow> (0, 0)
                   | Some c \<Rightarrow> (ch_max_weight c, ch_item_weight c)) in
            if sint current \<ge> sint max_weight then 0
            else word_of_int (sint (max_weight - current) sdiv sint total))"

subsection \<open>Searching: the loops and their specification\<close>

definition room_for :: "user_item_slot list \<Rightarrow> u32 \<Rightarrow> u16 \<Rightarrow> nat \<Rightarrow> bool" where
  "room_for slots i cnt k \<longleftrightarrow> (\<exists>sl. slice_get slots k = Some sl \<and> item_id sl = i
     \<and> item_count sl + cnt \<le> ITEMCOUNT_MAX)"

definition empty_at :: "user_item_slot list \<Rightarrow> nat \<Rightarrow> bool" where
  "empty_at slots k \<longleftrightarrow> (\<exists>sl. slice_get slots k = Some sl \<and> item_id sl = 0)"

lemma scan_empty_find: "scan_empty slots ks = List.find (empty_at slots) ks"
  by (induction ks) (auto simp: empty_at_def split: option.splits)

lemma scan_stack_find:
  "scan_stack slots i cnt first ks =
     (case List.find (room_for slots i cnt) ks of
        Some k \<Rightarrow> Some k
      | None \<Rightarrow> (case first of Some k \<Rightarrow> Some k | None \<Rightarrow> List.find (empty_at slots) ks))"
  by (induction ks arbitrary: first)
    (auto simp: empty_at_def room_for_def split: option.splits)

lemma find_Some_in: "List.find P ks = Some k \<Longrightarrow> k \<in> set ks \<and> P k"
  by (auto simp: find_Some_iff)

lemma find_slot_for_item_Some:
  assumes "find_slot_for_item s i cnt w = Some k"
  obtains h it where "wsessions w s = Some h" "get_item i w = Some it" "14 \<le> k" "k < 42"
    "k < length (inventory h)"
    "item_id (inventory h ! k) = 0 \<or> sint (unwrap_or 0 (countable it)) > 0
       \<and> item_id (inventory h ! k) = i \<and> item_count (inventory h ! k) + cnt \<le> ITEMCOUNT_MAX"
  using assms
  by (auto simp: find_slot_for_item_def session_or_def scan_empty_find scan_stack_find empty_at_def
      room_for_def split: option.splits if_splits dest!: find_Some_in)

lemma find_slot_for_item_None:
  assumes "wsessions w s = Some h" "get_item i w = Some it" "find_slot_for_item s i cnt w = None"
    and "14 \<le> k" "k < 42" "k < length (inventory h)"
  shows "item_id (inventory h ! k) \<noteq> 0"
  using assms
  by (auto simp: find_slot_for_item_def scan_empty_find scan_stack_find empty_at_def
      split: option.splits if_splits simp: find_None_iff)

subsection \<open>How much a bag holds\<close>

definition held :: "u32 \<Rightarrow> user_item_slot list \<Rightarrow> nat" where
  \<comment> \<open>how many of an item lie in the bag, over all stacks\<close>
  "held i slots = (\<Sum>k \<in> {14..<42}. if k < length slots \<and> item_id (slots ! k) = i
     then unat (item_count (slots ! k)) else 0)"

definition at_slot :: "u32 \<Rightarrow> user_item_slot \<Rightarrow> nat" where
  "at_slot i sl = (if item_id sl = i then unat (item_count sl) else 0)"

lemma held_update:
  assumes "14 \<le> k" "k < 42" "k < length slots"
  shows "held i (slots[k := sl]) + at_slot i (slots ! k) = held i slots + at_slot i sl"
proof -
  let ?f = "\<lambda>xs k. if k < length xs \<and> item_id (xs ! k) = i then unat (item_count (xs ! k)) else 0"
  have k: "k \<in> {14..<42::nat}" using assms by simp
  have "held i (slots[k := sl]) = ?f (slots[k := sl]) k + (\<Sum>j \<in> {14..<42} - {k}. ?f (slots[k := sl]) j)"
    unfolding held_def by (rule sum.remove) (use k in simp_all)
  moreover have "held i slots = ?f slots k + (\<Sum>j \<in> {14..<42} - {k}. ?f slots j)"
    unfolding held_def by (rule sum.remove) (use k in simp_all)
  moreover have "(\<Sum>j \<in> {14..<42} - {k}. ?f (slots[k := sl]) j) = (\<Sum>j \<in> {14..<42} - {k}. ?f slots j)"
    by (rule sum.cong) auto
  ultimately show ?thesis using assms(3) by (simp add: at_slot_def)
qed

lemma at_slot_le_held: "14 \<le> k \<Longrightarrow> k < 42 \<Longrightarrow> k < length slots \<Longrightarrow> at_slot i (slots ! k) \<le> held i slots"
  using held_update [of k slots i empty_slot] held_update [of k slots i "slots ! k"]
  by (cases "i = 0") (simp_all add: at_slot_def empty_slot_def)

definition slots_ok :: "user_item_slot list \<Rightarrow> bool" where
  \<comment> \<open>no stack above the maximum, and an empty slot is really empty\<close>
  "slots_ok slots \<longleftrightarrow> (\<forall>sl \<in> set slots. item_count sl \<le> ITEMCOUNT_MAX
     \<and> (item_id sl = 0 \<longrightarrow> item_count sl = 0))"

lemma slots_ok_update:
  "slots_ok slots \<Longrightarrow> item_count sl \<le> ITEMCOUNT_MAX \<Longrightarrow> (item_id sl = 0 \<Longrightarrow> item_count sl = 0)
    \<Longrightarrow> slots_ok (slots[k := sl])"
  using set_update_subset_insert [of slots k sl] by (fastforce simp: slots_ok_def)

lemma slots_ok_nth: "slots_ok slots \<Longrightarrow> k < length slots \<Longrightarrow>
    item_count (slots ! k) \<le> ITEMCOUNT_MAX \<and> (item_id (slots ! k) = 0 \<longrightarrow> item_count (slots ! k) = 0)"
  by (simp add: slots_ok_def)

subsection \<open>Frames\<close>

definition bag_of :: "sid \<Rightarrow> world \<Rightarrow> user_item_slot list" where
  "bag_of s w = session_or [] s inventory w"

lemma set_user_ability_session:
  "wsessions (set_user_ability e s w) t =
     (case get_character_info s w of
        None \<Rightarrow> wsessions w t
      | Some _ \<Rightarrow>
          if t = s then map_option (\<lambda>h. h\<lparr>equipped := fst (ability e w s),
            character := map_option (\<lambda>c. c\<lparr>max_hp := fst (snd (ability e w s)),
                max_mp := snd (snd (ability e w s)),
                hp := (if sint (hp c) > sint (fst (snd (ability e w s)))
                       then fst (snd (ability e w s)) else hp c),
                mp := (if sint (mp c) > sint (snd (snd (ability e w s)))
                       then snd (snd (ability e w s)) else mp c)\<rparr>) (character h)\<rparr>) (wsessions w s)
          else wsessions w t)"
  by (simp add: set_user_ability_def Let_def split_def split: option.splits)

lemma session_or_ability [simp]:
  assumes "\<And>h st ch. f (h\<lparr>equipped := st, character := ch\<rparr>) = f h"
  shows "session_or d t f (set_user_ability e s w) = session_or d t f w"
  using assms by (auto simp: session_or_def set_user_ability_session split: option.splits)

lemma same_tables_ability [simp]: "same_tables w (set_user_ability e s w)"
  by (auto simp: set_user_ability_def Let_def split_def same_tables_def modify_session_def
      send_to_session_def split: option.splits)

lemma get_item_ability [simp]: "get_item i (set_user_ability e s w) = get_item i w"
  using same_tables_items [OF same_tables_ability [of w e s]] by (simp add: get_item_def)

lemma next_item_serial_ability [simp]:
  "next_item_serial (set_user_ability e s w) = next_item_serial w"
  by (simp add: set_user_ability_def Let_def split_def split: option.splits)

lemma session_or_modify:
  "session_or d t f (modify_session s g w) =
     (if t = s then session_or d s (\<lambda>h. f (g h)) w else session_or d t f w)"
  by (simp add: session_or_def split: option.splits)

lemma update_inventory_Some:
  "wsessions w s = Some h \<Longrightarrow> update_inventory s d f w =
    (fst (f (inventory h)), modify_session s (\<lambda>h. h\<lparr>inventory := snd (f (inventory h))\<rparr>) w)"
  by (simp add: update_inventory_def)

lemma wsessions_serial [simp]: "wsessions (snd (generate_item_serial w)) = wsessions w"
  by (simp add: generate_item_serial_def)

lemma get_item_serial [simp]: "get_item i (snd (generate_item_serial w)) = get_item i w"
  by (simp add: generate_item_serial_def get_item_def)

lemma bag_of_simps [simp]:
  "bag_of t (set_user_ability e s w) = bag_of t w"
  "bag_of t (send_to_session s p w) = bag_of t w"
  "bag_of t (snd (generate_item_serial w)) = bag_of t w"
  by (simp_all add: bag_of_def) (simp add: session_or_def)

lemma bag_of_modify:
  "wsessions w s = Some h \<Longrightarrow> bag_of t (modify_session s f w) =
     (if t = s then inventory (f h) else bag_of t w)"
  by (simp add: bag_of_def session_or_modify)

subsection \<open>Giving and taking, on the bag\<close>

definition is_stack :: "item_def \<Rightarrow> bool" where
  \<comment> \<open>an item whose count is not forced to one\<close>
  "is_stack it \<longleftrightarrow> unwrap_or 0 (kind it) \<noteq> 255 \<and> unwrap_or 0 (countable it) \<noteq> 0"

lemma place_item_info:
  assumes "k < length slots"
  obtains a b c d where "fst (place_item it i cnt serial expiry k slots) = Some (a, b, c, d)"
  using assms by (simp add: place_item_def Let_def)

lemma give_item_place:
  assumes "get_item i w = Some it" "unwrap_or 0 (countable it) \<noteq> 2"
    and "find_slot_for_item s i cnt w = Some k" "wsessions w s = Some h" "k < length (inventory h)"
  obtains p where "give_item e s i cnt w = (True, set_user_ability e s (send_to_session s p
    (modify_session s (\<lambda>h. h\<lparr>inventory :=
       snd (place_item it i cnt (next_item_serial w) 0 k (inventory h))\<rparr>)
     (snd (generate_item_serial w)))))"
proof -
  define w1 where "w1 = snd (generate_item_serial w)"
  have g: "generate_item_serial w = (next_item_serial w, w1)"
    by (simp add: w1_def generate_item_serial_def)
  have h: "wsessions w1 s = Some h" using assms(4) by (simp add: w1_def)
  obtain a b c d where info:
    "fst (place_item it i cnt (next_item_serial w) 0 k (inventory h)) = Some (a, b, c, d)"
    using place_item_info [OF assms(5)] by metis
  have "give_item e s i cnt w = (True, set_user_ability e s (send_to_session s
      (item_count_change a i b 100 c 0) (modify_session s (\<lambda>h. h\<lparr>inventory :=
       snd (place_item it i cnt (next_item_serial w) 0 k (inventory h))\<rparr>) w1)))"
    unfolding give_item_def g using assms(1-3)
    by (simp add: update_inventory_Some [OF h] info modify_session_def h)
  then show thesis unfolding w1_def by (rule that)
qed

lemma give_item_cases:
  assumes "give_item e s i cnt w = (b, w')"
  obtains
    (refused) "\<not> b" "w' = w" "find_slot_for_item s i cnt w = None
      \<or> (\<exists>it. get_item i w = Some it \<and> unwrap_or 0 (countable it) = 2)"
  | (given) h it k where "b" "wsessions w s = Some h" "get_item i w = Some it"
      "unwrap_or 0 (countable it) \<noteq> 2" "find_slot_for_item s i cnt w = Some k"
      "14 \<le> k" "k < 42" "k < length (inventory h)"
      "\<And>t. bag_of t w' = (if t = s
         then snd (place_item it i cnt (next_item_serial w) 0 k (inventory h)) else bag_of t w)"
      "same_tables w w'"
proof (cases "find_slot_for_item s i cnt w")
  case None
  then show thesis
    using assms by (intro refused) (auto simp: give_item_def split: option.splits if_splits)
next
  case k: (Some k)
  from find_slot_for_item_Some [OF k] obtain h it where h: "wsessions w s = Some h"
    "get_item i w = Some it" "14 \<le> k" "k < 42" "k < length (inventory h)" by metis
  show thesis
  proof (cases "unwrap_or 0 (countable it) = 2")
    case True
    then show thesis using assms h k by (intro refused) (auto simp: give_item_def)
  next
    case False
    define w1 where "w1 = modify_session s (\<lambda>h. h\<lparr>inventory :=
           snd (place_item it i cnt (next_item_serial w) 0 k (inventory h))\<rparr>)
         (snd (generate_item_serial w))"
    from give_item_place [OF h(2) False k h(1,5)] obtain p where
      "give_item e s i cnt w = (True, set_user_ability e s (send_to_session s p w1))"
      unfolding w1_def by blast
    then have eq: "b" "w' = set_user_ability e s (send_to_session s p w1)"
      using assms by simp_all
    have h': "wsessions (snd (generate_item_serial w)) s = Some h" using h(1) by simp
    have "same_tables w (snd (generate_item_serial w))"
      by (simp add: generate_item_serial_def same_tables_def)
    then have "same_tables w w1" unfolding w1_def by (rule same_tables_trans) simp
    then have "same_tables w w'" unfolding eq(2) by (rule same_tables_trans)
        (rule same_tables_trans [of _ "send_to_session s p w1"]; simp)
    moreover have "bag_of t w' = (if t = s
         then snd (place_item it i cnt (next_item_serial w) 0 k (inventory h)) else bag_of t w)" for t
      unfolding eq(2) bag_of_simps w1_def by (simp add: bag_of_modify [OF h'])
    ultimately show thesis using given [OF eq(1) h(1,2) False k h(3-5)] by blast
  qed
qed

lemma place_item_update:
  assumes "k < length slots"
  shows "snd (place_item it i cnt serial 0 k slots) = slots[k := (slots ! k)
     \<lparr>item_id := i,
      item_count := (if is_stack it then min (saturating_add (item_count (slots ! k)) cnt) ITEMCOUNT_MAX
        else 1),
      durability := unwrap_or 0 (duration it),
      serial_num := (if item_id (slots ! k) = 0 then serial else serial_num (slots ! k))\<rparr>]"
  using assms by (cases "slots ! k") (simp add: place_item_def Let_def is_stack_def)

lemma min_saturating:
  fixes a b :: u16
  assumes "a \<le> ITEMCOUNT_MAX" "b \<le> ITEMCOUNT_MAX" "a + b \<le> ITEMCOUNT_MAX"
  shows "min (saturating_add a b) ITEMCOUNT_MAX = a + b" "unat (a + b) = unat a + unat b"
proof -
  have le: "unat a \<le> 9999" "unat b \<le> 9999"
    using assms(1,2) by (simp_all add: ITEMCOUNT_MAX_def word_le_nat_alt)
  then show "unat (a + b) = unat a + unat b" by (simp add: unat_word_ariths(1))
  show "min (saturating_add a b) ITEMCOUNT_MAX = a + b"
    using assms(3) le by (simp add: saturating_add_def)
qed

lemma min_saturating_ge: "(n :: u16) \<le> ITEMCOUNT_MAX \<Longrightarrow> n \<le> min (saturating_add c n) ITEMCOUNT_MAX"
proof -
  have "unat n < 2 ^ 16" using unsigned_less [of n] by simp
  then have "n \<le> saturating_add c n" by (simp add: word_le_nat_alt unat_saturating_add)
  then show "n \<le> ITEMCOUNT_MAX \<Longrightarrow> n \<le> min (saturating_add c n) ITEMCOUNT_MAX" by simp
qed

lemma held_place_item:
  fixes serial
  assumes "slots_ok slots" "cnt \<le> ITEMCOUNT_MAX" "14 \<le> k" "k < 42" "k < length slots" "i \<noteq> 0"
    and "item_id (slots ! k) = 0 \<or> is_stack it \<and> item_id (slots ! k) = i
      \<and> item_count (slots ! k) + cnt \<le> ITEMCOUNT_MAX"
  defines "slots' \<equiv> snd (place_item it i cnt serial 0 k slots)"
  shows "held i slots' = held i slots + (if is_stack it then unat cnt else 1)"
    and "j \<noteq> i \<Longrightarrow> j \<noteq> 0 \<Longrightarrow> held j slots' = held j slots" and "slots_ok slots'"
proof -
  note k = slots_ok_nth [OF assms(1,5)]
  have c: "is_stack it \<Longrightarrow> min (saturating_add (item_count (slots ! k)) cnt) ITEMCOUNT_MAX
      = item_count (slots ! k) + cnt
    \<and> unat (item_count (slots ! k) + cnt) = unat (item_count (slots ! k)) + unat cnt"
    using min_saturating [of "item_count (slots ! k)" cnt] k assms(2,7) by auto
  obtain sl where u: "slots' = slots[k := sl]" "item_id sl = i"
    "item_count sl = (if is_stack it
       then min (saturating_add (item_count (slots ! k)) cnt) ITEMCOUNT_MAX else 1)"
    unfolding slots'_def place_item_update [OF assms(5)] by simp
  note h = held_update [OF assms(3-5), where sl = sl, folded u(1)]
  show "held i slots' = held i slots + (if is_stack it then unat cnt else 1)"
    using h [of i] c k assms(6,7) u(2,3) by (auto simp: at_slot_def split: if_splits)
  show "j \<noteq> i \<Longrightarrow> j \<noteq> 0 \<Longrightarrow> held j slots' = held j slots"
    using h [of j] assms(7) u(2) by (auto simp: at_slot_def)
  have "(1 :: u16) \<le> ITEMCOUNT_MAX" by (simp add: ITEMCOUNT_MAX_def)
  then show "slots_ok slots'"
    unfolding u(1) using assms(1,6) u(2,3) by (intro slots_ok_update) auto
qed

lemma rob_scan_cases:
  assumes "rob_scan False i cnt ks slots = (info, slots')"
  obtains (missing) "info = None" "slots' = slots"
      "\<And>k. k \<in> set ks \<Longrightarrow> k < length slots \<Longrightarrow> item_id (slots ! k) = i \<Longrightarrow> item_count (slots ! k) < cnt"
    | (robbed) k where "info \<noteq> None" "k \<in> set ks" "k < length slots" "item_id (slots ! k) = i"
      "cnt \<le> item_count (slots ! k)"
      "slots' = slots[k := (if item_count (slots ! k) = cnt then empty_slot
         else (slots ! k)\<lparr>item_count := item_count (slots ! k) - cnt\<rparr>)]"
  using assms
proof (induction ks arbitrary: thesis)
  case (Cons a ks)
  show ?case
  proof (cases "a < length slots \<and> item_id (slots ! a) = i \<and> cnt \<le> item_count (slots ! a)")
    case True
    then show ?thesis using Cons.prems(2) [of a] Cons.prems(3)
      by (auto simp: Let_def slice_get_def not_less split: if_splits)
  next
    case False
    then have "rob_scan False i cnt ks slots = (info, slots')"
      using Cons.prems(3) by (auto simp: slice_get_def Let_def not_le not_less split: if_splits)
    then show ?thesis
      using Cons.IH Cons.prems(1,2) False by (metis not_le set_ConsD list.set_intros(2))
  qed
qed simp

definition is_scroll :: "u32 \<Rightarrow> world \<Rightarrow> bool" where
  "is_scroll i w \<longleftrightarrow> unwrap_or 0 (Option.bind (get_item i w) kind) = 255"

lemma modify_same: "wsessions w s = Some h \<Longrightarrow> f h = h \<Longrightarrow> modify_session s f w = w"
  by (simp add: modify_session_def map_upd_triv)

lemma rob_item_cases:
  assumes "rob_item e s i cnt w = (b, w')" and "cnt \<noteq> 0" and "\<not> is_scroll i w"
  obtains (missing) "\<not> b" "w' = w"
      "\<And>k. 14 \<le> k \<Longrightarrow> k < 42 \<Longrightarrow> k < length (bag_of s w) \<Longrightarrow> item_id (bag_of s w ! k) = i
        \<Longrightarrow> item_count (bag_of s w ! k) < cnt"
    | (robbed) h k where "b" "wsessions w s = Some h" "14 \<le> k" "k < 42" "k < length (inventory h)"
      "item_id (inventory h ! k) = i" "cnt \<le> item_count (inventory h ! k)"
      "\<And>t. bag_of t w' = (if t = s then (inventory h)[k :=
         (if item_count (inventory h ! k) = cnt then empty_slot
          else (inventory h ! k)\<lparr>item_count := item_count (inventory h ! k) - cnt\<rparr>)]
         else bag_of t w)"
      "same_tables w w'"
proof (cases "wsessions w s")
  case None
  then show thesis using assms by (intro missing) (auto simp: rob_item_def update_inventory_def bag_of_def)
next
  case h: (Some h)
  obtain info slots' where r: "rob_scan False i cnt bag (inventory h) = (info, slots')" by fastforce
  have sc: "\<not> unwrap_or 0 (Option.bind (get_item i w) kind) = 255" using assms(3) by (simp add: is_scroll_def)
  define w1 where "w1 = modify_session s (\<lambda>h. h\<lparr>inventory := slots'\<rparr>) w"
  have u: "update_inventory s None (rob_scan False i cnt bag) w = (info, w1)"
    using update_inventory_Some [OF h, of None "rob_scan False i cnt bag"] r
    by (simp add: w1_def modify_session_def h)
  show thesis
  proof (rule rob_scan_cases [OF r])
    assume m: "info = None" "slots' = inventory h"
      "\<And>k. k \<in> set bag \<Longrightarrow> k < length (inventory h) \<Longrightarrow> item_id (inventory h ! k) = i
        \<Longrightarrow> item_count (inventory h ! k) < cnt"
    have "w1 = w" unfolding w1_def by (rule modify_same [OF h]) (simp add: m(2))
    then show thesis
      using assms(1,2) sc u m(1) missing m(3) h
      by (simp add: rob_item_def bag_of_def)
  next
    fix k
    assume k: "info \<noteq> None" "k \<in> set bag" "k < length (inventory h)" "item_id (inventory h ! k) = i"
      "cnt \<le> item_count (inventory h ! k)"
      "slots' = (inventory h)[k := (if item_count (inventory h ! k) = cnt then empty_slot
         else (inventory h ! k)\<lparr>item_count := item_count (inventory h ! k) - cnt\<rparr>)]"
    obtain p where w': "b" "w' = set_user_ability e s (send_to_session s p w1)"
      using assms(1,2) sc u k(1) by (auto simp: rob_item_def)
    have "same_tables w w1" by (simp add: w1_def)
    then have "same_tables w w'" unfolding w'(2) by (rule same_tables_trans)
        (rule same_tables_trans [of _ "send_to_session s p w1"]; simp)
    moreover have "bag_of t w' = (if t = s then slots' else bag_of t w)" for t
      unfolding w'(2) bag_of_simps w1_def by (simp add: bag_of_modify [OF h])
    ultimately show thesis using robbed [OF w'(1) h _ _ k(3-5)] k(2) unfolding k(6) by auto
  qed
qed

lemma held_rob:
  assumes "slots_ok slots" "14 \<le> k" "k < 42" "k < length slots" "item_id (slots ! k) = i" "i \<noteq> 0"
    and "cnt \<le> item_count (slots ! k)"
  defines "slots' \<equiv> slots[k := (if item_count (slots ! k) = cnt then empty_slot
         else (slots ! k)\<lparr>item_count := item_count (slots ! k) - cnt\<rparr>)]"
  shows "held i slots = held i slots' + unat cnt"
    and "j \<noteq> i \<Longrightarrow> j \<noteq> 0 \<Longrightarrow> held j slots' = held j slots" and "slots_ok slots'"
proof -
  let ?sl = "if item_count (slots ! k) = cnt then empty_slot
     else (slots ! k)\<lparr>item_count := item_count (slots ! k) - cnt\<rparr>"
  have c: "unat (item_count (slots ! k) - cnt) + unat cnt = unat (item_count (slots ! k))"
    using assms(7) by (simp add: unat_sub word_le_nat_alt)
  note h = held_update [OF assms(2-4), where sl = ?sl, folded slots'_def]
  show "held i slots = held i slots' + unat cnt"
    using h [of i] c assms(5,6) by (auto simp: at_slot_def empty_slot_def split: if_splits)
  show "j \<noteq> i \<Longrightarrow> j \<noteq> 0 \<Longrightarrow> held j slots' = held j slots"
    using h [of j] assms(5) by (auto simp: at_slot_def empty_slot_def split: if_splits)
  have "item_count (slots ! k) - cnt \<le> item_count (slots ! k)"
    using c by (simp add: word_le_nat_alt)
  then show "slots_ok slots'"
    unfolding slots'_def using slots_ok_nth [OF assms(1,4)] assms(1,5,6)
    by (intro slots_ok_update) (auto simp: empty_slot_def ITEMCOUNT_MAX_def split: if_splits)
qed

subsection \<open>The contract of a store of items\<close>

text \<open>
  What the callers of \<open>give_item\<close> and \<open>rob_item\<close> rely on: a gift adds exactly what was given to one owner
  and changes nobody else, a removal takes exactly that away, a refusal changes nothing, and
  either can be undone.
\<close>

locale item_store =
  fixes holds :: "'p \<Rightarrow> 'i \<Rightarrow> 'w \<Rightarrow> nat" and fits :: "'w \<Rightarrow> bool" and good :: "'i \<Rightarrow> 'n \<Rightarrow> 'w \<Rightarrow> bool"
    and num :: "'n \<Rightarrow> nat" and give take_away :: "'p \<Rightarrow> 'i \<Rightarrow> 'n \<Rightarrow> 'w \<Rightarrow> bool \<times> 'w"
  assumes given: "fits w \<Longrightarrow> good i n w \<Longrightarrow> give p i n w = (True, w') \<Longrightarrow>
      fits w' \<and> good i n w' \<and> (\<forall>q j. holds q j w' = holds q j w + (if q = p \<and> j = i then num n else 0))"
    and taken: "fits w \<Longrightarrow> good i n w \<Longrightarrow> take_away p i n w = (True, w') \<Longrightarrow>
      fits w' \<and> good i n w' \<and> (\<forall>q j. holds q j w = holds q j w' + (if q = p \<and> j = i then num n else 0))"
    and refused: "good i n w \<Longrightarrow> give p i n w = (False, w') \<Longrightarrow> w' = w"
      "good i n w \<Longrightarrow> take_away p i n w = (False, w') \<Longrightarrow> w' = w"
    and room_again: "fits w \<Longrightarrow> good i n w \<Longrightarrow> take_away p i n w = (True, w') \<Longrightarrow> fst (give p i n w')"
    and there: "fits w \<Longrightarrow> good i n w \<Longrightarrow> give p i n w = (True, w') \<Longrightarrow> fst (take_away p i n w')"
begin

lemma give_back:
  assumes "fits w" "good i n w" "take_away p i n w = (True, w1)"
  shows "\<exists>w2. give p i n w1 = (True, w2) \<and> fits w2 \<and> (\<forall>q j. holds q j w2 = holds q j w)"
proof -
  obtain w2 where g: "give p i n w1 = (True, w2)"
    using room_again [OF assms] by (metis prod.collapse)
  from taken [OF assms] have t: "fits w1" "good i n w1"
    "\<forall>q j. holds q j w = holds q j w1 + (if q = p \<and> j = i then num n else 0)" by auto
  then show ?thesis using given [OF t(1,2) g] g by auto
qed

lemma take_back:
  assumes "fits w" "good i n w" "give p i n w = (True, w1)"
  shows "\<exists>w2. take_away p i n w1 = (True, w2) \<and> fits w2 \<and> (\<forall>q j. holds q j w2 = holds q j w)"
proof -
  obtain w2 where g: "take_away p i n w1 = (True, w2)"
    using there [OF assms] by (metis prod.collapse)
  from given [OF assms] have t: "fits w1" "good i n w1"
    "\<forall>q j. holds q j w1 = holds q j w + (if q = p \<and> j = i then num n else 0)" by auto
  then show ?thesis using taken [OF t(1,2) g] g by auto
qed

lemma handed_over:
  \<comment> \<open>taken from one and given to another: the sum stays\<close>
  assumes "fits w" "good i n w" "take_away p i n w = (True, w1)" "give q i n w1 = (True, w2)"
  shows "p \<noteq> q \<Longrightarrow> holds p i w2 + holds q i w2 = holds p i w + holds q i w"
    and "r \<noteq> p \<Longrightarrow> r \<noteq> q \<Longrightarrow> holds r j w2 = holds r j w"
proof -
  from taken [OF assms(1-3)] have t: "fits w1" "good i n w1"
    "\<forall>q j. holds q j w = holds q j w1 + (if q = p \<and> j = i then num n else 0)" by auto
  note g = given [OF t(1,2) assms(4)]
  show "p \<noteq> q \<Longrightarrow> holds p i w2 + holds q i w2 = holds p i w + holds q i w"
    "r \<noteq> p \<Longrightarrow> r \<noteq> q \<Longrightarrow> holds r j w2 = holds r j w"
    using t(3) g by auto
qed

end

definition holding :: "sid \<Rightarrow> u32 \<Rightarrow> world \<Rightarrow> nat" where
  "holding s i w = (if i = 0 then 0 else held i (bag_of s w))"

definition bags_ok :: "world \<Rightarrow> bool" where
  "bags_ok w \<longleftrightarrow> (\<forall>s. slots_ok (bag_of s w))"

definition stackable :: "u32 \<Rightarrow> u16 \<Rightarrow> world \<Rightarrow> bool" where
  \<comment> \<open>an amount of an item the code keeps in stacks and hands out\<close>
  "stackable i n w \<longleftrightarrow> i \<noteq> 0 \<and> n \<noteq> 0 \<and> n \<le> ITEMCOUNT_MAX \<and> (\<exists>it. get_item i w = Some it
     \<and> is_stack it \<and> sint (unwrap_or 0 (countable it)) > 0 \<and> unwrap_or 0 (countable it) \<noteq> 2)"

lemma stackable_scroll: "stackable i n w \<Longrightarrow> \<not> is_scroll i w"
  by (auto simp: stackable_def is_scroll_def is_stack_def)

lemma stackable_same_tables: "same_tables w w' \<Longrightarrow> stackable i n w' = stackable i n w"
  by (simp add: stackable_def get_item_def same_tables_items)

lemma give_item_succeeds:
  assumes "get_item i w = Some it" "unwrap_or 0 (countable it) \<noteq> 2" "find_slot_for_item s i cnt w \<noteq> None"
  shows "fst (give_item e s i cnt w)"
proof (rule give_item_cases [of e s i cnt w "fst (give_item e s i cnt w)" "snd (give_item e s i cnt w)"])
qed (use assms in auto)

lemma find_slot_room:
  assumes "wsessions w s = Some h" "get_item i w = Some it" "sint (unwrap_or 0 (countable it)) > 0"
    and "14 \<le> k" "k < 42" "k < length (inventory h)"
    and "item_id (inventory h ! k) = 0
      \<or> item_id (inventory h ! k) = i \<and> item_count (inventory h ! k) + cnt \<le> ITEMCOUNT_MAX"
  shows "find_slot_for_item s i cnt w \<noteq> None"
proof -
  have "List.find (room_for (inventory h) i cnt) bag \<noteq> None \<or> List.find (empty_at (inventory h)) bag \<noteq> None"
    using assms(4-7) by (auto simp: find_None_iff empty_at_def room_for_def)
  then show ?thesis
    using assms(1-3) by (auto simp: find_slot_for_item_def scan_stack_find split: option.splits)
qed

lemma give_item_effect:
  assumes "bags_ok w" "stackable i n w" "give_item e s i n w = (True, w')"
  shows "bags_ok w' \<and> stackable i n w'
    \<and> (\<forall>t j. holding t j w' = holding t j w + (if t = s \<and> j = i then unat n else 0))"
proof (rule give_item_cases [OF assms(3)])
  fix h it k
  assume k: "wsessions w s = Some h" "get_item i w = Some it" "find_slot_for_item s i n w = Some k"
    "14 \<le> k" "k < 42" "k < length (inventory h)"
    and b: "\<And>t. bag_of t w' = (if t = s
      then snd (place_item it i n (next_item_serial w) 0 k (inventory h)) else bag_of t w)"
    and tab: "same_tables w w'"
  have ok: "slots_ok (inventory h)" using assms(1) k(1) by (simp add: bags_ok_def bag_of_def session_or_def)
      (metis option.simps(5))
  have it: "is_stack it" "i \<noteq> 0" "n \<le> ITEMCOUNT_MAX" using assms(2) k(2) by (auto simp: stackable_def)
  have room: "item_id (inventory h ! k) = 0 \<or> is_stack it \<and> item_id (inventory h ! k) = i
      \<and> item_count (inventory h ! k) + n \<le> ITEMCOUNT_MAX"
    by (rule find_slot_for_item_Some [OF k(3)]) (use k(1,2) it(1) in auto)
  note p = held_place_item [OF ok it(3) k(4-6) it(2) room, where serial = "next_item_serial w"]
  have same: "bag_of s w = inventory h" by (simp add: bag_of_def k(1))
  show ?thesis
    using assms(1,2) p it stackable_same_tables [OF tab]
    by (auto simp: b bags_ok_def holding_def same)
qed simp

lemma rob_item_effect:
  assumes "bags_ok w" "stackable i n w" "rob_item e s i n w = (True, w')"
  shows "bags_ok w' \<and> stackable i n w'
    \<and> (\<forall>t j. holding t j w = holding t j w' + (if t = s \<and> j = i then unat n else 0))"
proof -
  have n: "n \<noteq> 0" "i \<noteq> 0" using assms(2) by (auto simp: stackable_def)
  show ?thesis
  proof (rule rob_item_cases [OF assms(3) n(1) stackable_scroll [OF assms(2)]])
    fix h k
    assume k: "wsessions w s = Some h" "14 \<le> k" "k < 42" "k < length (inventory h)"
      "item_id (inventory h ! k) = i" "n \<le> item_count (inventory h ! k)"
      and b: "\<And>t. bag_of t w' = (if t = s then (inventory h)[k :=
         (if item_count (inventory h ! k) = n then empty_slot
          else (inventory h ! k)\<lparr>item_count := item_count (inventory h ! k) - n\<rparr>)]
         else bag_of t w)"
      and tab: "same_tables w w'"
    have same: "bag_of s w = inventory h" by (simp add: bag_of_def k(1))
    have ok: "slots_ok (inventory h)" using assms(1) same unfolding bags_ok_def by metis
    note p = held_rob [OF ok k(2-5) n(2) k(6)]
    show ?thesis
      using assms(1,2) p n(2) stackable_same_tables [OF tab]
      by (auto simp: b bags_ok_def holding_def same)
  qed simp
qed

lemma bag_of_Some: "bag_of s w \<noteq> [] \<Longrightarrow> \<exists>h. wsessions w s = Some h \<and> inventory h = bag_of s w"
  by (cases "wsessions w s") (simp_all add: bag_of_def)

lemma give_item_room:
  assumes "stackable i n w" "14 \<le> k" "k < 42" "k < length (bag_of s w)"
    and "item_id (bag_of s w ! k) = 0
      \<or> item_id (bag_of s w ! k) = i \<and> item_count (bag_of s w ! k) + n \<le> ITEMCOUNT_MAX"
  shows "fst (give_item e s i n w)"
proof -
  obtain h where h: "wsessions w s = Some h" "inventory h = bag_of s w"
    using bag_of_Some [of s w] assms(4) by fastforce
  obtain it where it: "get_item i w = Some it" "sint (unwrap_or 0 (countable it)) > 0"
    "unwrap_or 0 (countable it) \<noteq> 2" using assms(1) by (auto simp: stackable_def)
  show ?thesis
    by (rule give_item_succeeds [OF it(1,3) find_slot_room [OF h(1) it(1,2) assms(2,3)]])
      (use assms(4,5) h(2) in auto)
qed

interpretation items: item_store holding bags_ok stackable unat "give_item e" "rob_item e"
  for e
proof unfold_locales
  fix w w' :: world and i n s
  show "bags_ok w' \<and> stackable i n w'
      \<and> (\<forall>t j. holding t j w' = holding t j w + (if t = s \<and> j = i then unat n else 0))"
    if "bags_ok w" "stackable i n w" "give_item e s i n w = (True, w')"
    using that by (rule give_item_effect)
  show "bags_ok w' \<and> stackable i n w'
      \<and> (\<forall>t j. holding t j w = holding t j w' + (if t = s \<and> j = i then unat n else 0))"
    if "bags_ok w" "stackable i n w" "rob_item e s i n w = (True, w')"
    using that by (rule rob_item_effect)
  show "w' = w" if "stackable i n w" "give_item e s i n w = (False, w')"
    by (rule give_item_cases [OF that(2)]) auto
  show "w' = w" if st: "stackable i n w" and r: "rob_item e s i n w = (False, w')"
  proof -
    have "n \<noteq> 0" using st by (simp add: stackable_def)
    from rob_item_cases [OF r this stackable_scroll [OF st]] show ?thesis by auto
  qed
  show "fst (give_item e s i n w')"
    if ok: "bags_ok w" and st: "stackable i n w" and r: "rob_item e s i n w = (True, w')"
  proof -
    have n: "n \<noteq> 0" using st by (simp add: stackable_def)
    show ?thesis
    proof (rule rob_item_cases [OF r n stackable_scroll [OF st]])
      fix h k
      assume k: "wsessions w s = Some h" "14 \<le> k" "k < 42" "k < length (inventory h)"
        "item_id (inventory h ! k) = i" "n \<le> item_count (inventory h ! k)"
        and b: "\<And>t. bag_of t w' = (if t = s then (inventory h)[k :=
           (if item_count (inventory h ! k) = n then empty_slot
            else (inventory h ! k)\<lparr>item_count := item_count (inventory h ! k) - n\<rparr>)]
           else bag_of t w)"
        and tab: "same_tables w w'"
      have "slots_ok (inventory h)" using ok k(1) by (metis bags_ok_def bag_of_def session_or_Some)
      then have "item_count (inventory h ! k) \<le> ITEMCOUNT_MAX" using slots_ok_nth k(4) by blast
      then show "fst (give_item e s i n w')"
        using k st stackable_same_tables [OF tab]
        by (intro give_item_room [of i n w' k]) (auto simp: b empty_slot_def)
    qed simp
  qed
  show "fst (rob_item e s i n w')"
    if ok: "bags_ok w" and st: "stackable i n w" and g: "give_item e s i n w = (True, w')"
  proof (rule give_item_cases [OF g])
    fix h it k
    assume k: "wsessions w s = Some h" "get_item i w = Some it" "14 \<le> k" "k < 42" "k < length (inventory h)"
      and b: "\<And>t. bag_of t w' = (if t = s
        then snd (place_item it i n (next_item_serial w) 0 k (inventory h)) else bag_of t w)"
      and tab: "same_tables w w'"
    have "is_stack it" "n \<noteq> 0" "n \<le> ITEMCOUNT_MAX" using st k(2) by (auto simp: stackable_def)
    then have there: "item_id (bag_of s w' ! k) = i" "n \<le> item_count (bag_of s w' ! k)"
      "k < length (bag_of s w')"
      using k(5) min_saturating_ge [of n "item_count (inventory h ! k)"]
      by (simp_all add: b place_item_update)
    have ns: "\<not> is_scroll i w'" using st stackable_same_tables [OF tab] stackable_scroll by blast
    show "fst (rob_item e s i n w')"
      by (rule rob_item_cases [OF prod.collapse [symmetric] \<open>n \<noteq> 0\<close> ns, where e = e and s = s])
        (use there k(3,4) in \<open>auto simp: not_le [symmetric]\<close>)
  qed simp
qed

subsection \<open>A small world\<close>

text \<open>One player with a bag of empty slots and a table with one stackable and one single item.\<close>

definition demo_char :: character_info where
  "demo_char = \<lparr>ch_name = [65], nation = 1, level = 60, authority = 1, rebirth_level = 0, gold = 1000,
     loyalty = 500, hp = 100, max_hp = 100, mp = 10, max_mp = 10, ch_item_weight = 0, ch_max_weight = 1000,
     res_hp_type = 1, party_id = None, ch_session_id = 1, ch_class = 101, knights_id = 0,
     ch_str = 100, ch_sta = 100, ch_dex = 60, ch_intel = 50, ch_cha = 50, equipped_items = replicate 14 0,
     free_points = 0, skill_points = replicate 10 0, ch_exp = 0, max_exp = 1000, exp_seal_status = False, sealed_exp = 0\<rparr>"

definition demo_handle :: session_handle where
  "demo_handle = \<lparr>tx_open = True, character = Some demo_char, zone_id = 21, account_id = [97],
     inventory = replicate 96 empty_slot, equipped = default_stats, noah_gain_amount = 100,
     clan_premium_in_use = 0, flame_level = 0, perk_levels = replicate 13 0,
     warehouse = replicate 192 empty_slot, inn_coins = 0, warehouse_loaded = True,
     deleted_items = [], delete_item_list = Map.empty,
     trade_state = TRADE_STATE_NONE, exchange_user = None, exchange_items = [],
     is_request_sender = False, merchant_state = MERCHANT_STATE_NONE,
     selling_merchant_preparing = False, buying_merchant_preparing = False,
     merchant_items = replicate 12 empty_merch, merchant_looker = None, browsing_merchant = None,
     h_is_mining = False, h_is_fishing = False, genie_active = False, store_open = False,
     premium_in_use = 0, dr_gm_total_sold = 0, vip_warehouse = [], vip_password = [],
     vip_password_request = 0, vip_vault_expiry = 0, vip_warehouse_loaded = False,
     region_x = 5, region_z = 5, event_room = 0, party_type = 0, personal_rank = 0, h_knights_rank = 0,
     last_target_number_time = 0, pet_items = None, is_hiding_cospre = False, fairy_check = False, auto_loot = False,
     is_premium_merchant = False, knight_cash = 0, tl_balance = 0, is_offline = False,
     offline_remaining_minutes = 0, offline_next_check = None,
     flash_exp_bonus = 0, exp_gain_buff11 = 0, exp_gain_buff33 = 0, quest_states = Map.empty, buffs = [],
     pct_resists = replicate 6 100\<rparr>"

definition potion :: item_def where
  "potion = \<lparr>kind = Some 1, race = Some 0, countable = Some 1, weight = Some 2, duration = Some 1,
     buy_price = Some 60, sell_price = Some 0, sell_npc_type = Some 0, sell_npc_price = Some 0,
     np_buy_price = Some 5, selling_group = Some 253, slot_type = Some 99, item_class = Some 0, req_level = Some 0,
     req_level_max = Some 0, req_str = None, req_sta = None, req_dex = None, req_intel = None, req_cha = None\<rparr>"

definition sword :: item_def where
  "sword = \<lparr>kind = Some 21, race = Some 0, countable = Some 0, weight = Some 30, duration = Some 5000,
     buy_price = Some 600, sell_price = Some 0, sell_npc_type = Some 0, sell_npc_price = Some 0,
     np_buy_price = Some 50, selling_group = Some 253, slot_type = Some 1, item_class = Some 1, req_level = Some 20,
     req_level_max = Some 83, req_str = Some 80, req_sta = None, req_dex = None, req_intel = None, req_cha = None\<rparr>"

definition demo_world :: world where
  "demo_world = \<lparr>wsessions = [1 \<mapsto> demo_handle, 2 \<mapsto> demo_handle],
     witems = [389010000 \<mapsto> potion, 120050000 \<mapsto> sword],
     next_item_serial = 1, zones = [21 \<mapsto> \<lparr>trade_other_nation = Some True, war_zone = Some False, regions = Map.empty\<rparr>], trade_level = Some 1,
     parties = Map.empty, burning_money_rates = [0, 0, 0], perk_definitions = Map.empty,
     item_exchanges = Map.empty, level_up_table = Map.empty, pet_attacks = Map.empty,
     trash_item = Some True, item_sell_table = Map.empty, premium_sell_pct = Map.empty,
     npc_instances = [10001 \<mapsto> \<lparr>proto_id = 100, is_monster = False, npc_zone = 21\<rparr>],
     npc_hp = [10001 \<mapsto> 100],
     npc_templates = [(100, False) \<mapsto> \<lparr>npc_type = 21, tmpl_selling_group = 253000\<rparr>],
     king_systems = Map.empty,
     siege_war = \<lparr>master_knights = 0, moradon_tariff = 10, delos_tariff = 10, dungeon_charge = 0,
       moradon_tax = 0, delos_tax = 0\<rparr>,
     party_invitations = Map.empty, next_party_id = 1, name_to_session = Map.empty, zone_session_index = Map.empty,
     knights = Map.empty, alliances = Map.empty, csw_active = False,
     merchant_level = Some 1, merchant_min_cash = Some 0,
     burning_exp_rates = [0, 0, 0], premium_item_exp = [], discount = 0, old_victory = 0, outbox = []\<rparr>"

definition demo_env :: env where
  \<comment> \<open>no rows in the database, and statistics that stay as they are\<close>
  "demo_env = \<lparr>load_pet_data = \<lambda>_. None, load_seal = \<lambda>_. None, exp_percent = \<lambda>_ _. 0, to_lowercase = id,
     near_npc = \<lambda>_ _ _. True, load_warehouse_items = \<lambda>_. Some [], load_warehouse_coins = \<lambda>_. Some 0,
     insert_trash = \<lambda>_ _ _. Some 1, beyond_35m = \<lambda>_ _ _. False, clan_member_leaves = \<lambda>_. id,
     money_req = \<lambda>_ _. 0, ability = \<lambda>w s. (get_equipped_stats s w, 100, 100)\<rparr>"

lemma demo_sessions [simp]:
  "wsessions demo_world 1 = Some demo_handle" "wsessions demo_world 2 = Some demo_handle"
  by (simp_all add: demo_world_def)

lemma demo_bag [simp]: "bag_of 1 demo_world = replicate 96 empty_slot"
  "bag_of 2 demo_world = replicate 96 empty_slot"
  by (simp_all add: bag_of_def demo_handle_def)

lemma slots_ok_empty: "slots_ok (replicate n empty_slot)"
  by (simp add: slots_ok_def empty_slot_def)

lemma demo_bags_ok: "bags_ok demo_world"
  by (auto simp: bags_ok_def bag_of_def demo_world_def demo_handle_def session_or_def slots_ok_empty
      slots_ok_def [of "[]"])

lemma demo_stackable: "stackable 389010000 7 demo_world"
  by (simp add: stackable_def get_item_def demo_world_def potion_def is_stack_def ITEMCOUNT_MAX_def)

lemma demo_give: "fst (give_item e 1 389010000 7 demo_world)"
  using give_item_room [OF demo_stackable, of 14 1] by (simp add: empty_slot_def)

subsection \<open>What the bag operations guarantee\<close>

text \<open>The search for a slot is first fit: for a stackable item the first stack of it with room,
  else the first empty slot; for any other item the first empty slot, in the bag only.\<close>

theorem find_slot_is_first_fit:
  "find_slot_for_item s i cnt w =
     (case get_item i w of
        None \<Rightarrow> None
      | Some it \<Rightarrow> session_or None s (\<lambda>h.
          case (if sint (unwrap_or 0 (countable it)) > 0
                then List.find (room_for (inventory h) i cnt) bag else None) of
            Some k \<Rightarrow> Some k
          | None \<Rightarrow> List.find (empty_at (inventory h)) bag) w)"
  by (auto simp: find_slot_for_item_def scan_empty_find scan_stack_find session_or_def
      split: option.splits)

text \<open>A successful \<open>give_item\<close> of a stackable item adds exactly the amount given to the bag of
  exactly that player and keeps every bag well formed; a refused one changes nothing at all.\<close>

theorem give_item_exact:
  assumes "bags_ok w" and "stackable i n w" and "give_item e s i n w = (b, w')"
  shows "if b then bags_ok w' \<and>
      (\<forall>t j. holding t j w' = holding t j w + (if t = s \<and> j = i then unat n else 0)) else w' = w"
  using assms(3) items.given [OF assms(1,2)] items.refused(1) [OF assms(2)] by (cases b) auto

theorem give_item_exact_witness:
  "holding 1 389010000 (snd (give_item demo_env 1 389010000 7 demo_world)) = holding 1 389010000 demo_world + 7"
  using give_item_exact [OF demo_bags_ok demo_stackable prod.collapse [symmetric], of demo_env 1] demo_give
  by simp

lemma rob_item_exact_iff:
  assumes "stackable i n w" and "rob_item e s i n w = (b, w')"
  shows "b \<longleftrightarrow> (\<exists>k \<in> set bag. k < length (bag_of s w) \<and> item_id (bag_of s w ! k) = i
        \<and> n \<le> item_count (bag_of s w ! k))"
proof -
  have "n \<noteq> 0" using assms(1) by (simp add: stackable_def)
  then show ?thesis
    by (rule rob_item_cases [OF assms(2) _ stackable_scroll [OF assms(1)]])
      (auto simp: bag_of_def not_le [symmetric])
qed

text \<open>\<open>rob_item\<close> succeeds exactly when one single stack in the bag covers the amount; then it
  takes exactly that much from exactly that player, otherwise it changes nothing at all.\<close>

theorem rob_item_exact:
  assumes "bags_ok w" and "stackable i n w" and "rob_item e s i n w = (b, w')"
  shows "(b \<longleftrightarrow> (\<exists>k \<in> set bag. k < length (bag_of s w) \<and> item_id (bag_of s w ! k) = i
        \<and> n \<le> item_count (bag_of s w ! k)))
    \<and> (if b then bags_ok w' \<and>
        (\<forall>t j. holding t j w = holding t j w' + (if t = s \<and> j = i then unat n else 0)) else w' = w)"
  using rob_item_exact_iff [OF assms(2,3)] items.taken [OF assms(1,2)] items.refused(2) [OF assms(2)]
    assms(3) by (cases b) auto

theorem rob_item_exact_witness: "rob_item demo_env 1 389010000 7 demo_world = (False, demo_world)"
proof -
  obtain b w' where r: "rob_item demo_env 1 389010000 7 demo_world = (b, w')" by fastforce
  from rob_item_exact [OF demo_bags_ok demo_stackable r] show ?thesis
    unfolding r by (auto simp: empty_slot_def split: if_splits)
qed

text \<open>Giving and taking undo each other: what was just given can be taken again and what was
  just taken can be given back, and then every player holds exactly what they held before.\<close>

theorem give_and_rob_undo:
  assumes "bags_ok w" and "stackable i n w"
  shows "(fst (give_item e s i n w) \<longrightarrow>
      fst (rob_item e s i n (snd (give_item e s i n w)))
      \<and> (\<forall>t j. holding t j (snd (rob_item e s i n (snd (give_item e s i n w)))) = holding t j w))
    \<and> (fst (rob_item e s i n w) \<longrightarrow>
      fst (give_item e s i n (snd (rob_item e s i n w)))
      \<and> (\<forall>t j. holding t j (snd (give_item e s i n (snd (rob_item e s i n w)))) = holding t j w))"
  using items.take_back [OF assms, of e s "snd (give_item e s i n w)"]
    items.give_back [OF assms, of e s "snd (rob_item e s i n w)"]
  by (auto simp: prod_eq_iff)

theorem give_and_rob_undo_witness:
  "fst (rob_item demo_env 1 389010000 7 (snd (give_item demo_env 1 389010000 7 demo_world)))"
  using give_and_rob_undo [OF demo_bags_ok demo_stackable, of demo_env 1] demo_give by blast

end
