(* ===== verification/Party_Items.thy ===== *)
theory Party_Items
  imports Inventory
begin

text \<open>
  Removal of all copies of an item and removal from every member of a party
  (\<^verbatim>\<open>crates/ko-game/src/world/inventory.rs\<close>, lines 1514 to 1556 and 2010 to 2065), on the operations
  of theory \<open>Inventory\<close>: the loop over the bag clears exactly the item's stacks, and the check before the
  party-wide removal adds up stacks while the removal itself needs one stack.
\<close>

lemma clear_scan_spec:
  assumes "distinct ks"
  shows "length (snd (clear_scan i ks slots)) = length slots
    \<and> (\<forall>k < length slots. snd (clear_scan i ks slots) ! k =
        (if k \<in> set ks \<and> item_id (slots ! k) = i \<and> item_count (slots ! k) > 0
         then empty_slot else slots ! k))
    \<and> (fst (clear_scan i ks slots) = [] \<longleftrightarrow>
        (\<forall>k \<in> set ks. k < length slots \<longrightarrow> \<not> (item_id (slots ! k) = i \<and> item_count (slots ! k) > 0)))"
  using assms
proof (induction ks arbitrary: slots)
  case (Cons a ks)
  show ?case
  proof (cases "a < length slots \<and> item_id (slots ! a) = i \<and> item_count (slots ! a) > 0")
    case True
    then show ?thesis
      using Cons.IH [of "slots[a := empty_slot]"] Cons.prems
      by (auto simp: slice_get_def nth_list_update)
  next
    case False
    then have "clear_scan i (a # ks) slots = clear_scan i ks slots"
      by (auto simp: slice_get_def)
    then show ?thesis using Cons.IH [of slots] Cons.prems False by auto
  qed
qed simp

lemma held_eq_0: "held i slots = 0 \<longleftrightarrow>
    (\<forall>k \<in> set bag. k < length slots \<longrightarrow> item_id (slots ! k) = i \<longrightarrow> \<not> item_count (slots ! k) > 0)"
  by (auto simp: held_def word_gt_0 unsigned_eq_0_iff)

lemma fold_send_bag [simp]: "bag_of t (fold (\<lambda>x. send_to_session s (f x)) xs w) = bag_of t w"
  by (induction xs arbitrary: w) simp_all

lemma rob_all_bag:
  assumes "rob_all_of_item e s i w = (b, w')" "wsessions w s = Some h"
  shows "(b \<longleftrightarrow> fst (clear_scan i bag (inventory h)) \<noteq> [])
    \<and> bag_of t w' = (if t = s then snd (clear_scan i bag (inventory h)) else bag_of t w)"
  using assms
  by (auto simp: rob_all_of_item_def update_inventory_def split_def Let_def bag_of_modify
      split: if_splits)

text \<open>After \<open>rob_all_of_item\<close> the player's bag holds none of the item and as much as before of every
  other, nobody else is touched, and the answer says whether there was any.\<close>

theorem rob_all_removes_all:
  assumes "rob_all_of_item e s i w = (b, w')" and "i \<noteq> 0"
  shows "holding s i w' = 0 \<and> (b \<longleftrightarrow> holding s i w \<noteq> 0)
    \<and> (\<forall>t j. \<not> (t = s \<and> j = i) \<longrightarrow> holding t j w' = holding t j w)"
proof (cases "wsessions w s")
  case None
  then show ?thesis
    using assms
    by (auto simp: rob_all_of_item_def update_inventory_def holding_def bag_of_def held_def)
next
  case (Some h)
  let ?c = "clear_scan i bag (inventory h)"
  have bag: "bag_of s w = inventory h" by (simp add: bag_of_def Some)
  note r = rob_all_bag [OF assms(1) Some]
  note c = clear_scan_spec [OF distinct_bag, of i "inventory h"]
  have "held i (snd ?c) = 0"
    unfolding held_eq_0 using c assms(2) by (auto simp: empty_slot_def)
  moreover have "held j (snd ?c) = held j (inventory h)" if "j \<noteq> i" "j \<noteq> 0" for j
    unfolding held_def using c that by (intro sum.cong) (auto simp: empty_slot_def)
  moreover have "b \<longleftrightarrow> held i (inventory h) \<noteq> 0"
    using r c by (simp add: held_eq_0)
  ultimately show ?thesis using r assms(2) by (auto simp: holding_def bag)
qed

theorem rob_all_removes_all_witness:
  "\<not> fst (rob_all_of_item demo_env 1 389010000 demo_world)
   \<and> holding 1 389010000 (snd (rob_all_of_item demo_env 1 389010000 demo_world)) = 0"
proof -
  have z: "holding 1 389010000 demo_world = 0"
    by (simp add: holding_def held_def empty_slot_def)
  have "(389010000 :: u32) \<noteq> 0" by simp
  note r = rob_all_removes_all [OF prod.collapse [symmetric] this, where e = demo_env and s = 1 and w = demo_world]
  from r z show ?thesis by metis
qed

subsection \<open>A whole party\<close>

definition one_stack :: "u32 \<Rightarrow> u16 \<Rightarrow> world \<Rightarrow> sid \<Rightarrow> bool" where
  \<comment> \<open>the member has the amount in one stack\<close>
  "one_stack i n w m \<longleftrightarrow> list_ex (\<lambda>k. k < length (bag_of m w) \<and> item_id (bag_of m w ! k) = i
     \<and> n \<le> item_count (bag_of m w ! k)) bag"

lemma rob_item_other_bag: "t \<noteq> s \<Longrightarrow> bag_of t (snd (rob_item e s i n w)) = bag_of t w"
  by (cases "wsessions w s")
    (auto simp: rob_item_def update_inventory_def Let_def bag_of_modify split: option.splits)

lemma rob_fold:
  assumes "bags_ok w" "stackable i n w" "distinct ms" and "\<forall>m \<in> set ms. one_stack i n w m"
  shows "holding t j w = holding t j (fold (\<lambda>m w. snd (rob_item e m i n w)) ms w)
    + (if t \<in> set ms \<and> j = i then unat n else 0)"
  using assms
proof (induction ms arbitrary: w)
  case (Cons m ms)
  obtain b w1 where r: "rob_item e m i n w = (b, w1)" by fastforce
  have "b" using rob_item_exact_iff [OF Cons.prems(2) r] Cons.prems(4)
    by (auto simp: one_stack_def list_ex_iff)
  with r items.taken [OF Cons.prems(1,2), of e m w1] have 1: "bags_ok w1" "stackable i n w1"
    "holding t j w = holding t j w1 + (if t = m \<and> j = i then unat n else 0)" by auto
  have "one_stack i n w1 m' = one_stack i n w m'" if "m' \<noteq> m" for m'
    using rob_item_other_bag [OF that, of e i n w] r by (simp add: one_stack_def)
  then have "\<forall>m' \<in> set ms. one_stack i n w1 m'"
    using Cons.prems(3,4) by (metis distinct.simps(2) list.set_intros(2))
  from Cons.IH [OF 1(1,2) _ this] Cons.prems(3) 1(3) r show ?case by auto
qed simp

lemma sum_list_u16_le: "sum_list (map (\<lambda>x. unat (f x :: u16)) xs) \<le> 65535 * length xs"
proof (induction xs)
  case (Cons x xs)
  have "unat (f x) < 2 ^ 16" using unsigned_less [of "f x"] by simp
  with Cons show ?case by simp
qed simp

lemma bag_slice: "42 \<le> length slots \<Longrightarrow> take HAVE_MAX (drop SLOT_MAX slots) = map ((!) slots) bag"
  by (rule nth_equalityI) (auto simp: bag_consts)

lemma held_list:
  assumes "42 \<le> length slots"
  shows "held i slots =
    sum_list (map (\<lambda>sl. unat (item_count sl)) (filter (\<lambda>sl. item_id sl = i) (map ((!) slots) bag)))"
proof -
  have "{14..<42::nat} = set bag" by auto
  then have "held i slots = (\<Sum>k \<in> set bag. if item_id (slots ! k) = i then unat (item_count (slots ! k)) else 0)"
    unfolding held_def using assms by (intro sum.cong) auto
  then show ?thesis
    by (simp add: sum_list_distinct_conv_sum_set [symmetric] sum_list_map_filter' filter_map o_def)
qed

lemma check_exist_item_held:
  assumes "wsessions w s = Some h" "42 \<le> length (inventory h)"
  shows "check_exist_item s i n w = Some (unat n \<le> held i (inventory h))"
proof -
  let ?sl = "filter (\<lambda>sl. item_id sl = i) (map ((!) (inventory h)) bag)"
  have "sum_list (map (\<lambda>sl. unat (item_count sl)) ?sl) \<le> 65535 * length ?sl"
    by (rule sum_list_u16_le)
  also have "length ?sl \<le> 28"
    using length_filter_le [of "\<lambda>sl. item_id sl = i" "map ((!) (inventory h)) bag"]
    by simp
  finally have "unat (sum_list (map (\<lambda>sl. ucast (item_count sl) :: u32) ?sl)) = held i (inventory h)"
    using unat_sum_list [of "map (\<lambda>sl. ucast (item_count sl) :: u32) ?sl"]
    by (simp add: held_list [OF assms(2)] o_def)
  then show ?thesis
    using assms by (simp add: check_exist_item_def bag_slice word_le_nat_alt) (simp add: bag_consts)
qed

lemma all_have_held:
  "\<forall>m \<in> set ms. 42 \<le> length (bag_of m w) \<Longrightarrow>
    all_have i n w ms = Some (\<forall>m \<in> set ms. unat n \<le> held i (bag_of m w))"
proof (induction ms)
  case (Cons m ms)
  obtain h where h: "wsessions w m = Some h" "inventory h = bag_of m w"
    using bag_of_Some [of m w] Cons.prems by force
  then show ?case using Cons check_exist_item_held [OF h(1), of i n] by auto
qed simp

definition party_of :: "sid \<Rightarrow> world \<Rightarrow> sid list" where
  \<comment> \<open>the members the removal is for: of the caller's party, in the game and in a party\<close>
  "party_of s w = (case Option.bind (get_party_id s w) (parties w) of
     None \<Rightarrow> [] | Some party \<Rightarrow> filter (\<lambda>m. get_party_id m w \<noteq> None) (active_members party))"

lemma rob_party_eq:
  assumes "n \<noteq> 0" "party_of s w \<noteq> []" "\<forall>m \<in> set (party_of s w). 42 \<le> length (bag_of m w)"
  shows "rob_all_item_party e s i n w =
    (if \<forall>m \<in> set (party_of s w). unat n \<le> held i (bag_of m w)
     then Some (True, fold (\<lambda>m w. snd (rob_item e m i n w)) (party_of s w) w) else Some (False, w))"
  using assms all_have_held [OF assms(3), of i n]
  by (auto simp: rob_all_item_party_def party_of_def Let_def split: option.splits)

text \<open>When every member of the party has the amount in one stack, \<open>rob_all_item_party\<close> takes
  exactly that much from each of them and nothing from anyone else; when some member has too few in
  all stacks together, it answers no and takes nothing from anybody.\<close>

theorem rob_party_all_or_nothing:
  assumes "bags_ok w" and "stackable i n w" and "party_of s w \<noteq> []" and "distinct (party_of s w)"
    and "\<forall>m \<in> set (party_of s w). 42 \<le> length (bag_of m w)"
  shows "((\<forall>m \<in> set (party_of s w). one_stack i n w m) \<longrightarrow>
      (\<exists>w'. rob_all_item_party e s i n w = Some (True, w')
        \<and> (\<forall>t j. holding t j w = holding t j w' + (if t \<in> set (party_of s w) \<and> j = i then unat n else 0))))
    \<and> ((\<exists>m \<in> set (party_of s w). holding m i w < unat n) \<longrightarrow>
      rob_all_item_party e s i n w = Some (False, w))"
proof -
  have i: "i \<noteq> 0" "n \<noteq> 0" using assms(2) by (auto simp: stackable_def)
  have enough: "unat n \<le> held i (bag_of m w)" if "one_stack i n w m" for m
    using that at_slot_le_held [of _ "bag_of m w" i]
    by (fastforce simp: one_stack_def list_ex_iff at_slot_def word_le_nat_alt)
  show ?thesis
    using rob_party_eq [OF i(2) assms(3,5), of e i] enough rob_fold [OF assms(1,2,4)] i(1)
    by (auto simp: holding_def not_le [symmetric])
qed

definition party_world :: "user_item_slot list \<Rightarrow> world" where
  \<comment> \<open>player 1, alone in a party, with the given first bag slots\<close>
  "party_world sl = demo_world\<lparr>parties := [9 \<mapsto> \<lparr>party_no = 9, members = [Some 1, None, None, None, None, None, None, None],
       item_routing = 0, target_number_id = -1, command_leader_sid = Some 1\<rparr>], wsessions := [1 \<mapsto> demo_handle
     \<lparr>character := Some (demo_char\<lparr>party_id := Some 9\<rparr>),
      inventory := replicate 14 empty_slot @ sl @ replicate (82 - length sl) empty_slot\<rparr>]\<rparr>"

definition potions :: "u16 \<Rightarrow> user_item_slot" where
  "potions n = empty_slot\<lparr>item_id := 389010000, item_count := n\<rparr>"

lemma party_world_simps:
  "party_of 1 (party_world sl) = [1]"
  "bag_of 1 (party_world sl) = replicate 14 empty_slot @ sl @ replicate (82 - length sl) empty_slot"
  by (simp_all add: party_of_def party_world_def get_party_id_def get_character_info_def
      demo_world_def active_members_def List.map_filter_def bag_of_def session_or_def)

lemma party_world_ok: "slots_ok sl \<Longrightarrow> bags_ok (party_world sl)"
  by (auto simp: bags_ok_def bag_of_def party_world_def demo_world_def session_or_def slots_ok_def
      empty_slot_def)

lemma party_world_stackable: "stackable 389010000 n (party_world sl) = stackable 389010000 n demo_world"
  by (simp add: stackable_def get_item_def party_world_def)

theorem rob_party_all_or_nothing_witness:
  "\<exists>w'. rob_all_item_party demo_env 1 389010000 7 (party_world [potions 10]) = Some (True, w')
    \<and> holding 1 389010000 (party_world [potions 10]) = holding 1 389010000 w' + 7"
proof -
  let ?w = "party_world [potions 10]"
  have "bags_ok ?w"
    by (rule party_world_ok) (simp add: slots_ok_def potions_def empty_slot_def ITEMCOUNT_MAX_def)
  moreover have "one_stack 389010000 7 ?w 1"
    unfolding one_stack_def list_ex_iff party_world_simps
    by (rule bexI [of _ 14]) (simp_all add: potions_def nth_append)
  ultimately show ?thesis
    using rob_party_all_or_nothing [of ?w 389010000 7 1 demo_env] demo_stackable
    by (force simp: party_world_simps party_world_stackable)
qed

text \<open>The check adds up a member's stacks but the removal needs one stack: a player with two stacks of
  five passes the check for eight, the operation answers that all have paid, and nothing was
  taken.\<close>

theorem rob_party_split_stacks_pay_nothing:
  "rob_all_item_party e 1 389010000 8 (party_world [potions 5, potions 5]) =
     Some (True, party_world [potions 5, potions 5])
   \<and> holding 1 389010000 (party_world [potions 5, potions 5]) = 10"
proof -
  let ?w = "party_world [potions 5, potions 5]"
  have ok: "bags_ok ?w"
    by (rule party_world_ok) (simp add: slots_ok_def potions_def empty_slot_def ITEMCOUNT_MAX_def)
  have st: "stackable 389010000 8 ?w"
    unfolding party_world_stackable
    by (simp add: stackable_def get_item_def demo_world_def potion_def is_stack_def ITEMCOUNT_MAX_def)
  have "held 389010000 (bag_of 1 ?w) = 10"
    by (simp add: held_list bag_slice [symmetric] party_world_simps)
      (simp add: bag_consts potions_def empty_slot_def)
  then have ten: "holding 1 389010000 ?w = 10" by (simp add: holding_def)
  have "\<forall>sl \<in> set (bag_of 1 ?w). item_count sl \<le> 5"
    by (simp add: party_world_simps potions_def empty_slot_def)
  then have "\<not> 8 \<le> item_count (bag_of 1 ?w ! k)" if "k < length (bag_of 1 ?w)" for k
    using that nth_mem by (fastforce simp: word_le_nat_alt)
  then have "\<not> fst (rob_item e 1 389010000 8 ?w)"
    using rob_item_exact_iff [OF st prod.collapse [symmetric], of e 1] by blast
  then have "rob_item e 1 389010000 8 ?w = (False, ?w)"
    using items.refused(2) [OF st, of e 1 "snd (rob_item e 1 389010000 8 ?w)"]
    by (cases "rob_item e 1 389010000 8 ?w") auto
  then show ?thesis
    using rob_party_eq [of 8 1 ?w e 389010000] ten
    by (simp add: party_world_simps(1) holding_def) (simp add: party_world_simps)
qed

end
