(* ===== verification/Gold.thy ===== *)
theory Gold
  imports Inventory
begin

text \<open>
  A player's gold (\<^verbatim>\<open>crates/ko-game/src/world/inventory.rs\<close>, lines 1558 to 1712, and
  \<^verbatim>\<open>compute_perk_bonus\<close> of \<^verbatim>\<open>world/combat.rs\<close>): paying, gaining up to the cap, and the gain with
  bonus percentages, whose products are computed in 32 bits.
\<close>

definition gold_change :: "u8 \<Rightarrow> u32 \<Rightarrow> u32 \<Rightarrow> packet" where
  "gold_change k amount new_gold =
     write_u32 new_gold (write_u32 amount (write_u8 k (packet_new (as_u8 WizGoldChange))))"

definition gold_lose_silent :: "sid \<Rightarrow> u32 \<Rightarrow> world \<Rightarrow> bool \<times> world" where
  "gold_lose_silent s amount w =
     (case get_character_info s w of
        None \<Rightarrow> (False, w)
      | Some ch \<Rightarrow>
          if gold ch \<ge> amount
          then (True, update_character_stats s (\<lambda>c. c\<lparr>gold := gold c - amount\<rparr>) w)
          else (False, w))"

definition gold_lose :: "sid \<Rightarrow> u32 \<Rightarrow> world \<Rightarrow> bool \<times> world" where
  "gold_lose s amount w =
     (case get_character_info s w of
        None \<Rightarrow> (False, w)
      | Some ch \<Rightarrow>
          if gold ch \<ge> amount
          then (True, send_to_session s (gold_change 2 amount (gold ch - amount))
                  (update_character_stats s (\<lambda>c. c\<lparr>gold := gold c - amount\<rparr>) w))
          else (False, w))"

definition add_gold :: "u32 \<Rightarrow> u32 \<Rightarrow> u32" where
  "add_gold g amount =
     (if (ucast g :: u64) + ucast amount > ucast COIN_MAX then COIN_MAX else g + amount)"

definition gold_gain_silent :: "sid \<Rightarrow> u32 \<Rightarrow> world \<Rightarrow> world" where
  "gold_gain_silent s amount = update_character_stats s (\<lambda>c. c\<lparr>gold := add_gold (gold c) amount\<rparr>)"

definition gold_gain :: "sid \<Rightarrow> u32 \<Rightarrow> world \<Rightarrow> world" where
  "gold_gain s amount w =
     (let w1 = update_character_stats s (\<lambda>c. c\<lparr>gold := add_gold (gold c) amount\<rparr>) w;
          new_gold = (case get_character_info s w1 of None \<Rightarrow> 0 | Some c \<Rightarrow> gold c) in
      send_to_session s (gold_change 1 amount new_gold) w1)"

definition compute_perk_bonus :: "i16 list \<Rightarrow> nat \<Rightarrow> bool \<Rightarrow> world \<Rightarrow> i32" where
  "compute_perk_bonus levels idx check_status w =
     (if idx \<ge> 13 \<or> sint (levels ! idx) \<le> 0 then 0
      else case perk_definitions w (word_of_nat idx) of
             None \<Rightarrow> 0
           | Some d \<Rightarrow>
               if sint (perk_count d) \<le> 0 then 0
               else if check_status \<and> \<not> perk_status d then 0
               else scast (perk_count d) * scast (levels ! idx))"

definition money_rate :: "u16 \<Rightarrow> world \<Rightarrow> u8 option" where
  \<comment> \<open>\<open>get_burning_feature(flame_level)\<close>, of which only the money rate is used\<close>
  "money_rate flame w =
     (if flame = 0 \<or> flame > 3 then None else Some (burning_money_rates w ! unat (flame - 1)))"

definition bonus_gold :: "sid \<Rightarrow> u32 \<Rightarrow> world \<Rightarrow> u32" where
  \<comment> \<open>the amount \<open>gold_gain_with_bonus\<close> and \<open>gold_gain_with_bonus_silent\<close> compute, line for line the same\<close>
  "bonus_gold s amount w =
     (let noah_gain = session_or 100 s (\<lambda>h. ucast (noah_gain_amount h)) w :: u32;
          item_bonus = ucast (item_gold_bonus (get_equipped_stats s w)) :: u32;
          clan_premium_bonus =
            (if session_or False s (\<lambda>h. clan_premium_in_use h > 0) w then 2 else 0) :: u32;
          b1 = amount * (noah_gain + item_bonus + clan_premium_bonus) div 100;
          flame = session_or 0 s flame_level w;
          b2 = (if flame > 0
                then case money_rate flame w of
                       Some r \<Rightarrow> if r > 0 then b1 * (100 + ucast r) div 100 else b1
                     | None \<Rightarrow> b1
                else b1);
          perk = session_or 0 s (\<lambda>h. compute_perk_bonus (perk_levels h) 6 False w) w in
      if sint perk > 0 then b2 + b2 * perk div 100 else b2)"

definition gold_gain_with_bonus :: "sid \<Rightarrow> u32 \<Rightarrow> world \<Rightarrow> world" where
  "gold_gain_with_bonus s amount w = gold_gain s (bonus_gold s amount w) w"

definition gold_gain_with_bonus_silent :: "sid \<Rightarrow> u32 \<Rightarrow> world \<Rightarrow> world" where
  "gold_gain_with_bonus_silent s amount w = gold_gain_silent s (bonus_gold s amount w) w"

subsection \<open>The contract of a purse\<close>

locale purse =
  fixes balance :: "'p \<Rightarrow> 'w \<Rightarrow> nat" and owner :: "'p \<Rightarrow> 'w \<Rightarrow> bool" and cap :: nat
    and amt :: "'a \<Rightarrow> nat" and pay :: "'p \<Rightarrow> 'a \<Rightarrow> 'w \<Rightarrow> bool \<times> 'w" and gain :: "'p \<Rightarrow> 'a \<Rightarrow> 'w \<Rightarrow> 'w"
  assumes pay_iff: "fst (pay p a w) \<longleftrightarrow> owner p w \<and> amt a \<le> balance p w"
    and pay_refused: "\<not> fst (pay p a w) \<Longrightarrow> snd (pay p a w) = w"
    and pay_balance: "fst (pay p a w) \<Longrightarrow>
      balance q (snd (pay p a w)) = balance q w - (if q = p then amt a else 0)"
    and gain_balance: "balance q (gain p a w) =
      (if q = p \<and> owner p w then min cap (balance p w + amt a) else balance q w)"
    and owner_kept: "owner q (snd (pay p a w)) = owner q w" "owner q (gain p a w) = owner q w"
begin

lemma refund:
  assumes "fst (pay p a w)" "balance p w \<le> cap"
  shows "balance q (gain p a (snd (pay p a w))) = balance q w"
  using assms pay_iff [of p a w]
  by (auto simp: gain_balance pay_balance owner_kept)

lemma payment:
  assumes "fst (pay p a w)" "p \<noteq> q" "owner q w" "balance q w + amt a \<le> cap"
  shows "balance p (gain q a (snd (pay p a w))) + balance q (gain q a (snd (pay p a w)))
      = balance p w + balance q w"
  using assms pay_iff [of p a w]
  by (auto simp: gain_balance pay_balance owner_kept)

lemma never_above_cap: "balance q w \<le> cap \<Longrightarrow> balance q (gain p a w) \<le> cap \<and> balance q (snd (pay p a w)) \<le> cap"
  by (cases "fst (pay p a w)") (auto simp: gain_balance pay_balance pay_refused)

end

definition gold_of :: "sid \<Rightarrow> world \<Rightarrow> nat" where
  "gold_of s w = (case get_character_info s w of None \<Rightarrow> 0 | Some c \<Rightarrow> unat (gold c))"

definition in_game :: "sid \<Rightarrow> world \<Rightarrow> bool" where
  "in_game s w \<longleftrightarrow> get_character_info s w \<noteq> None"

lemma get_character_info_modify:
  "get_character_info t (modify_session s f w) =
     (if t = s then Option.bind (wsessions w s) (\<lambda>h. character (f h)) else get_character_info t w)"
  by (cases "wsessions w s") (simp_all add: get_character_info_def)

lemma get_character_info_update [simp]:
  "get_character_info t (update_character_stats s f w) =
     (if t = s then map_option f (get_character_info s w) else get_character_info t w)"
  by (cases "wsessions w s") (simp_all add: update_character_stats_def get_character_info_def)

lemma unat_add_gold: "unat (add_gold g a) = min (unat COIN_MAX) (unat g + unat a)"
proof -
  have "unat g < 2 ^ 32" "unat a < 2 ^ 32" by (rule unat_less_wider, simp)+
  then have "unat ((ucast g :: u64) + ucast a) = unat g + unat a"
    by (simp add: unat_word_ariths(1))
  moreover have "unat g + unat a \<le> 2100000000 \<Longrightarrow> unat (g + a) = unat g + unat a"
    by (simp add: unat_word_ariths(1))
  ultimately show ?thesis
    by (auto simp: add_gold_def COIN_MAX_def word_less_nat_alt min_def not_less)
qed

lemma gold_of_update:
  "gold_of t (update_character_stats s f w) =
     (if t = s then (case get_character_info s w of None \<Rightarrow> 0 | Some c \<Rightarrow> unat (gold (f c)))
      else gold_of t w)"
  by (simp add: gold_of_def split: option.splits)

lemma gold_of_send [simp]: "gold_of t (send_to_session s p w) = gold_of t w"
  by (simp add: gold_of_def)

lemma in_game_simps [simp]:
  "in_game t (send_to_session s p w) = in_game t w"
  "in_game t (update_character_stats s f w) = in_game t w"
  by (simp_all add: in_game_def)

interpretation gold: purse gold_of in_game "unat COIN_MAX" unat gold_lose gold_gain
proof unfold_locales
  fix p q a w
  show "fst (gold_lose p a w) = (in_game p w \<and> unat a \<le> gold_of p w)"
    by (auto simp: gold_lose_def in_game_def gold_of_def word_le_nat_alt split: option.splits)
  show "snd (gold_lose p a w) = w" if "\<not> fst (gold_lose p a w)"
    using that by (auto simp: gold_lose_def split: option.splits)
  show "gold_of q (snd (gold_lose p a w)) = gold_of q w - (if q = p then unat a else 0)"
    if "fst (gold_lose p a w)"
    using that by (auto simp: gold_lose_def gold_of_update gold_of_def [of p w] word_le_nat_alt unat_sub
        split: option.splits if_splits)
  show "gold_of q (gold_gain p a w) =
      (if q = p \<and> in_game p w then min (unat COIN_MAX) (gold_of p w + unat a) else gold_of q w)"
    by (auto simp: gold_gain_def Let_def gold_of_update gold_of_def [of p w] in_game_def unat_add_gold
        split: option.splits)
  show "in_game q (snd (gold_lose p a w)) = in_game q w"
    by (auto simp: gold_lose_def split: option.splits)
  show "in_game q (gold_gain p a w) = in_game q w"
    by (simp add: gold_gain_def Let_def)
qed

subsection \<open>What the operations on gold guarantee\<close>

text \<open>\<open>gold_lose\<close> succeeds exactly when the player is in the game and has the amount, then takes
  exactly that from that player alone; a refused payment changes nothing. \<open>gold_gain\<close> adds up to
  the cap of 2,100,000,000 and never beyond, so no gain wraps around.\<close>

theorem gold_exact:
  "(if in_game s w \<and> unat a \<le> gold_of s w
    then fst (gold_lose s a w)
      \<and> gold_of t (snd (gold_lose s a w)) = gold_of t w - (if t = s then unat a else 0)
    else gold_lose s a w = (False, w))
   \<and> gold_of t (gold_gain s a w) =
      (if t = s \<and> in_game s w then min 2100000000 (gold_of s w + unat a) else gold_of t w)"
  using gold.pay_iff [of s a w] gold.pay_balance [of s a w t] gold.pay_refused [of s a w]
    gold.gain_balance [of t s a w]
  by (auto simp: prod_eq_iff COIN_MAX_def)

text \<open>The gain with bonus pays the percentages when their product fits in 32 bits: with no
  flame level and no perk, \<open>amount * (noah + item + premium) / 100\<close>.\<close>

theorem bonus_gold_formula:
  assumes "wsessions w s = Some h" and "flame_level h = 0"
    and "sint (compute_perk_bonus (perk_levels h) 6 False w) \<le> 0"
    and "unat amount * (unat (noah_gain_amount h) + unat (item_gold_bonus (equipped h)) + 2) < 2 ^ 32"
  shows "unat (bonus_gold s amount w) =
    unat amount * (unat (noah_gain_amount h) + unat (item_gold_bonus (equipped h))
      + (if clan_premium_in_use h > 0 then 2 else 0)) div 100"
proof -
  let ?n = "unat (noah_gain_amount h)" and ?i = "unat (item_gold_bonus (equipped h))"
  let ?b = "if clan_premium_in_use h > 0 then 2 else 0"
  have "?n < 2 ^ 30" "?i < 2 ^ 30" by (rule unat_less_wider, simp)+
  then have lt: "?n + ?i + 2 < 2 ^ 32" by simp
  have sum: "unat (ucast (noah_gain_amount h) + ucast (item_gold_bonus (equipped h)) + ?b :: u32)
      = ?n + ?i + ?b"
    using lt by (simp add: unat_word_ariths(1))
  have "unat amount * (?n + ?i + ?b) \<le> unat amount * (?n + ?i + 2)" by simp
  then have "unat amount * (?n + ?i + ?b) < 2 ^ 32" using assms(4) by (rule le_less_trans)
  then have "unat (amount * (ucast (noah_gain_amount h) + ucast (item_gold_bonus (equipped h)) + ?b))
      = unat amount * (?n + ?i + ?b)"
    by (simp only: unat_word_ariths(2) sum) simp
  moreover have "bonus_gold s amount w =
      amount * (ucast (noah_gain_amount h) + ucast (item_gold_bonus (equipped h)) + ?b) div 100"
    using assms(1-3) by (simp add: bonus_gold_def Let_def get_equipped_stats_def)
  ultimately show ?thesis by (simp add: unat_div_distrib)
qed

theorem bonus_gold_formula_witness: "unat (bonus_gold 1 5000 demo_world) = 5000"
proof -
  have "wsessions demo_world 1 = Some demo_handle" by simp
  from bonus_gold_formula [OF this, of 5000] show ?thesis
    by (simp add: demo_handle_def default_stats_def compute_perk_bonus_def)
qed

text \<open>The product is taken in 32 bits, so a gain of 42,949,673 coins or more with the normal rate
  of 100 percent wraps around: that gain pays nothing, and the player keeps the old amount.\<close>

theorem large_gain_is_lost:
  "bonus_gold 1 42949673 demo_world = 0
   \<and> gold_of 1 (gold_gain_with_bonus 1 42949673 demo_world) = gold_of 1 demo_world"
proof -
  have "bonus_gold 1 42949673 demo_world = 0"
    by (simp add: bonus_gold_def Let_def get_equipped_stats_def demo_handle_def default_stats_def
        compute_perk_bonus_def)
  moreover have "gold_of 1 demo_world = 1000"
    by (simp add: gold_of_def get_character_info_def demo_handle_def demo_char_def)
  ultimately show ?thesis
    using gold.gain_balance [of 1 1 0 demo_world]
    by (simp add: gold_gain_with_bonus_def COIN_MAX_def)
qed

end
