(* ===== verification/Trade_State.thy ===== *)
theory Trade_State
  imports Gold Steps
begin

text \<open>
  The part of the world state that trades and merchant shops keep
  (\<^verbatim>\<open>crates/ko-game/src/world/trade.rs\<close>, lines 10 to 356): the trade state machine of a session,
  the list of offered items, the shop's slots. The shops of players who are offline
  are in theory \<open>Merchant\<close>.
\<close>

subsection \<open>Trade\<close>

definition is_trading :: "sid \<Rightarrow> world \<Rightarrow> bool" where
  "is_trading s w = session_or False s (\<lambda>h. exchange_user h \<noteq> None) w"

definition get_trade_state :: "sid \<Rightarrow> world \<Rightarrow> u8" where
  "get_trade_state s w = session_or TRADE_STATE_NONE s trade_state w"

definition get_exchange_user :: "sid \<Rightarrow> world \<Rightarrow> sid option" where
  "get_exchange_user s w = session_or None s exchange_user w"

definition init_trade_request :: "sid \<Rightarrow> sid \<Rightarrow> world \<Rightarrow> world" where
  "init_trade_request sender target w =
     modify_session target (\<lambda>h. h\<lparr>exchange_user := Some sender, trade_state := TRADE_STATE_TARGET\<rparr>)
       (modify_session sender (\<lambda>h. h\<lparr>exchange_user := Some target,
          trade_state := TRADE_STATE_SENDER, is_request_sender := True\<rparr>) w)"

definition set_trade_state :: "sid \<Rightarrow> u8 \<Rightarrow> world \<Rightarrow> world" where
  "set_trade_state s st = modify_session s (\<lambda>h. h\<lparr>trade_state := st\<rparr>)"

definition trade_agree :: "sid \<Rightarrow> world \<Rightarrow> world" where
  "trade_agree s w =
     (let partner = get_exchange_user s w; w1 = set_trade_state s TRADE_STATE_TRADING w in
      case partner of None \<Rightarrow> w1 | Some p \<Rightarrow> set_trade_state p TRADE_STATE_TRADING w1)"

definition reset_trade :: "sid \<Rightarrow> world \<Rightarrow> world" where
  "reset_trade s = modify_session s (\<lambda>h. h\<lparr>trade_state := TRADE_STATE_NONE, exchange_user := None,
     exchange_items := [], is_request_sender := False\<rparr>)"

definition trade_decline :: "sid \<Rightarrow> world \<Rightarrow> world" where
  "trade_decline s w =
     (let partner = get_exchange_user s w; w1 = reset_trade s w in
      case partner of None \<Rightarrow> w1 | Some p \<Rightarrow> reset_trade p w1)"

definition add_exchange_item :: "sid \<Rightarrow> exchange_item \<Rightarrow> world \<Rightarrow> world" where
  "add_exchange_item s x = modify_session s (\<lambda>h. h\<lparr>exchange_items := exchange_items h @ [x]\<rparr>)"

definition get_exchange_items :: "sid \<Rightarrow> world \<Rightarrow> exchange_item list" where
  "get_exchange_items s w = session_or [] s exchange_items w"

primrec bump_count :: "u32 \<Rightarrow> u32 \<Rightarrow> exchange_item list \<Rightarrow> bool \<times> exchange_item list" where
  \<comment> \<open>the loop of \<open>update_exchange_item_count\<close>: the first entry with the item\<close>
  "bump_count i n [] = (False, [])"
| "bump_count i n (x # xs) =
     (if ex_item_id x = i then (True, x\<lparr>ex_count := saturating_add (ex_count x) n\<rparr> # xs)
      else apsnd ((#) x) (bump_count i n xs))"

definition update_exchange_item_count :: "sid \<Rightarrow> u32 \<Rightarrow> u32 \<Rightarrow> world \<Rightarrow> bool \<times> world" where
  "update_exchange_item_count s i n w =
     (session_or False s (\<lambda>h. fst (bump_count i n (exchange_items h))) w,
      modify_session s (\<lambda>h. h\<lparr>exchange_items := snd (bump_count i n (exchange_items h))\<rparr>) w)"

definition restore_slot :: "exchange_item \<Rightarrow> user_item_slot list \<Rightarrow> bool \<times> user_item_slot list" where
  \<comment> \<open>the closure of \<open>exchange_give_items_back\<close>\<close>
  "restore_slot x slots =
     (let pos = unat (ex_src_pos x) in
      if pos \<ge> length slots then (False, slots)
      else (True,
        if item_id (slots ! pos) = ex_item_id x
        then slots[pos := (slots ! pos)\<lparr>item_count :=
               min (item_count (slots ! pos) + ucast (ex_count x)) ITEMCOUNT_MAX\<rparr>]
        else if item_id (slots ! pos) = 0
        then slots[pos := (slots ! pos)\<lparr>item_id := ex_item_id x, item_count := ucast (ex_count x),
               durability := ex_durability x, serial_num := ex_serial_num x\<rparr>]
        else slots))"

definition give_back_one :: "sid \<Rightarrow> exchange_item \<Rightarrow> world \<Rightarrow> world" where
  "give_back_one s x w =
     (if ex_item_id x = ITEM_GOLD then gold_gain s (ex_count x) w
      else snd (update_inventory s False (restore_slot x) w))"

definition exchange_give_items_back :: "sid \<Rightarrow> world \<Rightarrow> world" where
  "exchange_give_items_back s w = fold (give_back_one s) (get_exchange_items s w) w"

subsection \<open>Merchant\<close>

definition is_merchanting :: "sid \<Rightarrow> world \<Rightarrow> bool" where
  "is_merchanting s w = session_or False s (\<lambda>h. merchant_state h \<noteq> MERCHANT_STATE_NONE) w"

definition is_mining :: "sid \<Rightarrow> world \<Rightarrow> bool" where
  "is_mining s w = session_or False s h_is_mining w"

definition is_fishing :: "sid \<Rightarrow> world \<Rightarrow> bool" where
  "is_fishing s w = session_or False s h_is_fishing w"

definition is_selling_merchant_preparing :: "sid \<Rightarrow> world \<Rightarrow> bool" where
  "is_selling_merchant_preparing s w = session_or False s selling_merchant_preparing w"

definition is_buying_merchant_preparing :: "sid \<Rightarrow> world \<Rightarrow> bool" where
  "is_buying_merchant_preparing s w = session_or False s buying_merchant_preparing w"

definition is_selling_merchant :: "sid \<Rightarrow> world \<Rightarrow> bool" where
  "is_selling_merchant s w = session_or False s (\<lambda>h. merchant_state h = MERCHANT_STATE_SELLING) w"

definition is_buying_merchant :: "sid \<Rightarrow> world \<Rightarrow> bool" where
  "is_buying_merchant s w = session_or False s (\<lambda>h. merchant_state h = MERCHANT_STATE_BUYING) w"

definition set_selling_merchant_preparing :: "sid \<Rightarrow> bool \<Rightarrow> world \<Rightarrow> world" where
  "set_selling_merchant_preparing s v = modify_session s (\<lambda>h. h\<lparr>selling_merchant_preparing := v\<rparr>)"

definition set_buying_merchant_preparing :: "sid \<Rightarrow> bool \<Rightarrow> world \<Rightarrow> world" where
  "set_buying_merchant_preparing s v = modify_session s (\<lambda>h. h\<lparr>buying_merchant_preparing := v\<rparr>)"

definition set_merchant_item :: "sid \<Rightarrow> nat \<Rightarrow> merch_data \<Rightarrow> world \<Rightarrow> world" where
  "set_merchant_item s k d = modify_session s (\<lambda>h.
     if k < MAX_MERCH_ITEMS then h\<lparr>merchant_items := (merchant_items h)[k := d]\<rparr> else h)"

definition get_merchant_item :: "sid \<Rightarrow> nat \<Rightarrow> world \<Rightarrow> merch_data option" where
  "get_merchant_item s k w =
     session_or None s (\<lambda>h. if k < MAX_MERCH_ITEMS then Some (merchant_items h ! k) else None) w"

definition get_merchant_items :: "sid \<Rightarrow> world \<Rightarrow> merch_data list" where
  "get_merchant_items s w = session_or (replicate MAX_MERCH_ITEMS empty_merch) s merchant_items w"

definition activate_selling_merchant :: "sid \<Rightarrow> world \<Rightarrow> world" where
  "activate_selling_merchant s = modify_session s (\<lambda>h.
     h\<lparr>merchant_state := MERCHANT_STATE_SELLING, selling_merchant_preparing := False\<rparr>)"

definition activate_buying_merchant :: "sid \<Rightarrow> world \<Rightarrow> world" where
  "activate_buying_merchant s = modify_session s (\<lambda>h.
     h\<lparr>merchant_state := MERCHANT_STATE_BUYING, buying_merchant_preparing := False\<rparr>)"

definition close_merchant :: "sid \<Rightarrow> world \<Rightarrow> world" where
  "close_merchant s = modify_session s (\<lambda>h.
     h\<lparr>inventory := map (\<lambda>sl. sl\<lparr>item_flag := and (item_flag sl) (not 0x10)\<rparr>) (inventory h),
       merchant_state := MERCHANT_STATE_NONE, selling_merchant_preparing := False,
       buying_merchant_preparing := False,
       merchant_items := replicate MAX_MERCH_ITEMS empty_merch, merchant_looker := None\<rparr>)"

definition close_buying_merchant :: "sid \<Rightarrow> world \<Rightarrow> world" where
  "close_buying_merchant s = modify_session s (\<lambda>h.
     h\<lparr>merchant_looker := None, merchant_state := MERCHANT_STATE_NONE,
       buying_merchant_preparing := False,
       merchant_items := replicate MAX_MERCH_ITEMS empty_merch\<rparr>)"

definition set_inventory_merchant_flag :: "sid \<Rightarrow> nat \<Rightarrow> bool \<Rightarrow> world \<Rightarrow> world" where
  "set_inventory_merchant_flag s k flagged = modify_session s (\<lambda>h.
     case slice_get (inventory h) k of
       None \<Rightarrow> h
     | Some sl \<Rightarrow> h\<lparr>inventory := (inventory h)[k := sl\<lparr>item_flag :=
         (if flagged then or (item_flag sl) 0x10 else and (item_flag sl) (not 0x10))\<rparr>]\<rparr>)"

definition set_merchant_looker :: "sid \<Rightarrow> sid option \<Rightarrow> world \<Rightarrow> world" where
  "set_merchant_looker s l = modify_session s (\<lambda>h. h\<lparr>merchant_looker := l\<rparr>)"

definition get_merchant_looker :: "sid \<Rightarrow> world \<Rightarrow> sid option" where
  "get_merchant_looker s w = session_or None s merchant_looker w"

definition set_browsing_merchant :: "sid \<Rightarrow> sid option \<Rightarrow> world \<Rightarrow> world" where
  "set_browsing_merchant s m = modify_session s (\<lambda>h. h\<lparr>browsing_merchant := m\<rparr>)"

definition get_browsing_merchant :: "sid \<Rightarrow> world \<Rightarrow> sid option" where
  "get_browsing_merchant s w = session_or None s browsing_merchant w"

definition remove_from_merchant_lookers :: "sid \<Rightarrow> world \<Rightarrow> world" where
  "remove_from_merchant_lookers s w =
     set_browsing_merchant s None
       (case get_browsing_merchant s w of
          None \<Rightarrow> w
        | Some m \<Rightarrow> modify_session m (\<lambda>h.
            if merchant_looker h = Some s then h\<lparr>merchant_looker := None\<rparr> else h) w)"

definition buyable :: "u32 \<Rightarrow> u16 \<Rightarrow> merch_data \<Rightarrow> bool" where
  \<comment> \<open>the guard of \<open>try_merchant_buy\<close>\<close>
  "buyable i n m \<longleftrightarrow> \<not> (m_item_id m = 0 \<or> m_item_id m \<noteq> i \<or> sold_out m \<or> sell_count m < n \<or> price m = 0)"

definition try_merchant_buy :: "sid \<Rightarrow> nat \<Rightarrow> u32 \<Rightarrow> u16 \<Rightarrow> world \<Rightarrow> merch_data option \<times> world" where
  "try_merchant_buy s k i n w =
     (case wsessions w s of
        None \<Rightarrow> (None, w)
      | Some h \<Rightarrow>
          if k \<ge> MAX_MERCH_ITEMS then (None, w)
          else
            let m = merchant_items h ! k in
            if \<not> buyable i n m then (None, w)
            else
              let left = saturating_sub (sell_count m) n in
              (Some m, modify_session s (\<lambda>h. h\<lparr>merchant_items := (merchant_items h)
                 [k := m\<lparr>sell_count := left, sold_out := (if left = 0 then True else sold_out m)\<rparr>]\<rparr>) w))"

definition restore_merchant_buy :: "sid \<Rightarrow> nat \<Rightarrow> u32 \<Rightarrow> u16 \<Rightarrow> world \<Rightarrow> world" where
  "restore_merchant_buy s k i n = modify_session s (\<lambda>h.
     if k < MAX_MERCH_ITEMS then
       let m = merchant_items h ! k in
       if m_item_id m = i \<or> sold_out m \<and> m_item_id m = 0
       then h\<lparr>merchant_items := (merchant_items h)[k := m
              \<lparr>m_item_id := (if m_item_id m = 0 then i else m_item_id m),
               sell_count := saturating_add (sell_count m) n, sold_out := False\<rparr>]\<rparr>
       else h
     else h)"

definition are_all_merchant_items_sold :: "sid \<Rightarrow> world \<Rightarrow> bool" where
  "are_all_merchant_items_sold s w =
     session_or False s (\<lambda>h.
       let listed = filter (\<lambda>m. m_item_id m > 0 \<or> sold_out m) (merchant_items h) in
       listed \<noteq> [] \<and> list_all sold_out listed) w"

subsection \<open>A shop slot is never oversold\<close>

definition stock :: "sid \<Rightarrow> nat \<Rightarrow> world \<Rightarrow> nat" where
  \<comment> \<open>what is still for sale in a slot\<close>
  "stock s k w = (case wsessions w s of
     None \<Rightarrow> 0 | Some h \<Rightarrow> if k < length (merchant_items h) then unat (sell_count (merchant_items h ! k)) else 0)"

definition buy_step :: "sid \<Rightarrow> world \<Rightarrow> nat \<times> u32 \<times> u16 \<Rightarrow> merch_data option \<times> world" where
  "buy_step s w b = try_merchant_buy s (fst b) (fst (snd b)) (snd (snd b)) w"

definition sold :: "nat \<Rightarrow> (nat \<times> u32 \<times> u16) list \<Rightarrow> merch_data option list \<Rightarrow> nat" where
  \<comment> \<open>how many units of slot \<open>k\<close> the successful purchases took\<close>
  "sold k bs rs = (\<Sum>(b, r) \<leftarrow> zip bs rs. if r \<noteq> None \<and> fst b = k then unat (snd (snd b)) else 0)"

definition shop_ok :: "sid \<Rightarrow> world \<Rightarrow> bool" where
  "shop_ok s w \<longleftrightarrow> session_or True s (\<lambda>h. length (merchant_items h) = MAX_MERCH_ITEMS) w"

lemma buyable_stock: "buyable i n m \<Longrightarrow> n \<le> sell_count m"
  by (auto simp: buyable_def)

lemma buy_step_stock:
  assumes "shop_ok s w"
  shows "stock s k w = stock s k (snd (buy_step s w b))
      + (if fst (buy_step s w b) \<noteq> None \<and> fst b = k then unat (snd (snd b)) else 0)
    \<and> shop_ok s (snd (buy_step s w b))"
proof -
  obtain c i n where b: "b = (c, i, n)" by (cases b)
  show ?thesis
  proof (cases "\<exists>h. wsessions w s = Some h \<and> c < 12 \<and> buyable i n (merchant_items h ! c)")
    case False
    then have "buy_step s w b = (None, w)"
      by (auto simp: buy_step_def b try_merchant_buy_def MAX_MERCH_ITEMS_def Let_def split: option.splits)
    then show ?thesis using assms by simp
  next
    case True
    then obtain h where h: "wsessions w s = Some h" "c < 12" "buyable i n (merchant_items h ! c)" by auto
    define m where "m = (merchant_items h ! c)\<lparr>sell_count := saturating_sub (sell_count (merchant_items h ! c)) n,
      sold_out := (if saturating_sub (sell_count (merchant_items h ! c)) n = 0 then True
        else sold_out (merchant_items h ! c))\<rparr>"
    have step: "buy_step s w b = (Some (merchant_items h ! c),
        modify_session s (\<lambda>h. h\<lparr>merchant_items := (merchant_items h)[c := m]\<rparr>) w)"
      using h by (simp add: buy_step_def b try_merchant_buy_def MAX_MERCH_ITEMS_def Let_def m_def modify_session_def)
    have len: "length (merchant_items h) = 12"
      using assms h(1) by (simp add: shop_ok_def MAX_MERCH_ITEMS_def)
    have "unat (sell_count m) + unat n = unat (sell_count (merchant_items h ! c))"
      using buyable_stock [OF h(3)] by (simp add: m_def unat_saturating_sub word_le_nat_alt)
    then show ?thesis
      unfolding step using h(1,2) len
      by (auto simp: stock_def shop_ok_def session_or_modify b MAX_MERCH_ITEMS_def)
  qed
qed

interpretation shop: stable "buy_step s" "\<lambda>_ _. True" "shop_ok s"
  for s by unfold_locales (simp add: buy_step_stock)

text \<open>Whatever buyers ask of a shop, in any order, the units sold from a slot and the units left
  in it add up to what was put on sale, so a slot is never oversold.\<close>

theorem shop_never_oversold:
  assumes "shop_ok s w"
  shows "sold k bs (fst (run (buy_step s) w bs)) + stock s k (snd (run (buy_step s) w bs)) = stock s k w"
  using assms
proof (induction bs arbitrary: w)
  case (Cons b bs)
  from buy_step_stock [OF Cons.prems, of k b] Cons.IH [of "snd (buy_step s w b)"] show ?case
    by (simp add: sold_def)
qed (simp add: sold_def)

definition shop_world :: world where
  \<comment> \<open>player 1 sells five potions at 100 coins\<close>
  "shop_world = modify_session 1 (\<lambda>h. h\<lparr>merchant_state := MERCHANT_STATE_SELLING, merchant_items :=
     empty_merch\<lparr>m_item_id := 389010000, sell_count := 5, price := 100\<rparr> # replicate 11 empty_merch\<rparr>)
     demo_world"

theorem shop_never_oversold_witness:
  "sold 0 [(0, 389010000, 3), (0, 389010000, 3)]
     (fst (run (buy_step 1) shop_world [(0, 389010000, 3), (0, 389010000, 3)])) \<le> 5"
proof -
  have "shop_ok 1 shop_world" "stock 1 0 shop_world = 5"
    by (simp_all add: shop_ok_def shop_world_def session_or_modify MAX_MERCH_ITEMS_def stock_def)
  with shop_never_oversold [of 1 shop_world 0] show ?thesis by (metis le_add1)
qed

text \<open>Undoing a purchase whose payment failed puts the slot back exactly as it was, the
  sold-out mark included.\<close>

theorem merchant_buy_restored:
  assumes "shop_ok s w" and "try_merchant_buy s k i n w = (Some m, w')"
  shows "restore_merchant_buy s k i n w' = w"
proof -
  obtain h where h: "wsessions w s = Some h" "k < 12" "m = merchant_items h ! k" "buyable i n m"
    "w' = modify_session s (\<lambda>h. h\<lparr>merchant_items := (merchant_items h)[k := m
        \<lparr>sell_count := saturating_sub (sell_count m) n,
         sold_out := (if saturating_sub (sell_count m) n = 0 then True else sold_out m)\<rparr>]\<rparr>) w"
    using assms(2)
    by (auto simp: try_merchant_buy_def Let_def MAX_MERCH_ITEMS_def split: option.splits if_splits)
  have len: "length (merchant_items h) = 12"
    using assms(1) h(1) by (simp add: shop_ok_def MAX_MERCH_ITEMS_def)
  have "saturating_add (saturating_sub (sell_count m) n) n = sell_count m"
    using buyable_stock [OF h(4)] unsigned_less [of "sell_count m", where 'a = nat]
    by (simp add: saturating_add_def saturating_sub_def unat_sub word_le_nat_alt)
  moreover have i: "m_item_id m = i" "i \<noteq> 0" "\<not> sold_out m" using h(4) by (auto simp: buyable_def)
  ultimately have "m\<lparr>m_item_id := i, sell_count := saturating_add (saturating_sub (sell_count m) n) n,
      sold_out := False\<rparr> = m"
    by (cases m) simp
  then show ?thesis
    using h(1-3) len i
    by (simp add: restore_merchant_buy_def modify_session_def h(5) MAX_MERCH_ITEMS_def Let_def map_upd_triv)
qed

theorem merchant_buy_restored_witness:
  "restore_merchant_buy 1 0 389010000 5 (snd (try_merchant_buy 1 0 389010000 5 shop_world)) = shop_world"
proof -
  have s: "shop_ok 1 shop_world"
    by (simp add: shop_ok_def shop_world_def session_or_modify MAX_MERCH_ITEMS_def)
  obtain m where "try_merchant_buy 1 0 389010000 5 shop_world =
      (Some m, snd (try_merchant_buy 1 0 389010000 5 shop_world))"
    by (simp add: try_merchant_buy_def shop_world_def MAX_MERCH_ITEMS_def buyable_def Let_def
        empty_merch_def)
  from merchant_buy_restored [OF s this] show ?thesis .
qed

end
