(* ===== verification/Exchange.thy ===== *)
theory Exchange
  imports Trade_State
begin

text \<open>
  The trade between two players: the handler of \<^verbatim>\<open>WIZ_EXCHANGE\<close>
  (\<^verbatim>\<open>crates/ko-game/src/handler/trade.rs\<close>, lines 23 to 1090). A handler takes the world to an answer
  and a world; the answer is \<open>False\<close> when sending to the own client failed because its channel is
  closed, which is the only error a handler returns. Logging and the audit log write are left out.
\<close>

datatype session_state =
  Connected | VersionChecked | LoggedIn | NationSelected | CharacterSelected | InGame

definition EXCHANGE_REQ :: u8 where "EXCHANGE_REQ = 1"
definition EXCHANGE_AGREE :: u8 where "EXCHANGE_AGREE = 2"
definition EXCHANGE_ADD :: u8 where "EXCHANGE_ADD = 3"
definition EXCHANGE_OTHERADD :: u8 where "EXCHANGE_OTHERADD = 4"
definition EXCHANGE_DECIDE :: u8 where "EXCHANGE_DECIDE = 5"
definition EXCHANGE_OTHERDECIDE :: u8 where "EXCHANGE_OTHERDECIDE = 6"
definition EXCHANGE_DONE :: u8 where "EXCHANGE_DONE = 7"
definition EXCHANGE_CANCEL :: u8 where "EXCHANGE_CANCEL = 8"

definition exchange_packet :: "u8 \<Rightarrow> packet" where
  "exchange_packet sub = write_u8 sub (packet_new (as_u8 WizExchange))"

definition session_send :: "sid \<Rightarrow> packet \<Rightarrow> world \<Rightarrow> bool \<times> world" where
  \<comment> \<open>\<open>ClientSession::send_packet\<close> in the game: fails when the channel is closed\<close>
  "session_send s p w = (session_or False s tx_open w, send_to_session s p w)"

definition send_cancel :: "sid \<Rightarrow> world \<Rightarrow> bool \<times> world" where
  "send_cancel s w = session_send s (exchange_packet EXCHANGE_CANCEL) w"

definition send_add_fail :: "sid \<Rightarrow> world \<Rightarrow> bool \<times> world" where
  "send_add_fail s w = session_send s (write_u8 0 (exchange_packet EXCHANGE_ADD)) w"

definition my_rebirth :: "sid \<Rightarrow> world \<Rightarrow> u8" where
  "my_rebirth s w = (case get_character_info s w of None \<Rightarrow> 0 | Some c \<Rightarrow> rebirth_level c)"

definition send_inventory_refresh :: "env \<Rightarrow> sid \<Rightarrow> world \<Rightarrow> world" where
  "send_inventory_refresh e s w =
     (let rebirth = my_rebirth s w;
          p0 = write_u8 1 (write_u8 2 (packet_new (as_u8 WizItemMove)));
          p = fold (\<lambda>k p.
                let slot = unwrap_or empty_slot (get_inventory_slot s (SLOT_MAX + k) w) in
                write_u32 (expire_time slot)
                  (write_unique_item_info e w (item_id slot) (serial_num slot) rebirth
                    (write_u16 0 (write_u8 (item_flag slot) (write_u16 (item_count slot)
                      (write_u16 (durability slot) (write_u32 (item_id slot) p)))))))
              [0..<HAVE_MAX] p0 in
      send_to_session s p w)"

definition exchange_cancel :: "env \<Rightarrow> sid \<Rightarrow> world \<Rightarrow> bool \<times> world" where
  "exchange_cancel e s w =
     (if get_trade_state s w = TRADE_STATE_NONE then (True, w)
      else
        let partner = get_exchange_user s w;
            w1 = reset_trade s (exchange_give_items_back s w);
            (ok, w2) = session_send s (exchange_packet EXCHANGE_CANCEL) w1 in
        if \<not> ok then (False, w2)
        else
          let w3 = send_inventory_refresh e s w2 in
          case partner of
            None \<Rightarrow> (True, w3)
          | Some p \<Rightarrow>
              if get_trade_state p w3 \<noteq> TRADE_STATE_NONE
              then (True, send_inventory_refresh e p
                     (send_to_session p (exchange_packet EXCHANGE_CANCEL)
                       (reset_trade p (exchange_give_items_back p w3))))
              else (True, w3))"

definition busy :: "sid \<Rightarrow> world \<Rightarrow> bool" where
  \<comment> \<open>mining, fishing, keeping or preparing a shop: the states the handlers ask for one by one\<close>
  "busy s w \<longleftrightarrow> is_merchanting s w \<or> is_mining s w \<or> is_fishing s w
     \<or> is_selling_merchant_preparing s w \<or> is_buying_merchant_preparing s w"

definition same_account :: "env \<Rightarrow> rstr \<Rightarrow> rstr \<Rightarrow> bool" where
  "same_account e a b \<longleftrightarrow> a \<noteq> [] \<and> to_lowercase e a = to_lowercase e b"

definition zone_allows :: "u16 \<Rightarrow> world \<Rightarrow> bool" where
  "zone_allows z w = (case zones w z of None \<Rightarrow> False | Some zs \<Rightarrow> can_trade_other_nation zs)"

definition identity :: "sid \<Rightarrow> world \<Rightarrow> (character_info \<times> u16 \<times> rstr) option" where
  \<comment> \<open>character, zone and account of a session in the game\<close>
  "identity s w = Option.bind (wsessions w s)
     (\<lambda>h. map_option (\<lambda>ch. (ch, zone_id h, account_id h)) (character h))"

definition exchange_req :: "env \<Rightarrow> sid \<Rightarrow> reader \<Rightarrow> world \<Rightarrow> bool \<times> world" where
  "exchange_req e s rd w =
     (let target = unwrap_or 0 (fst (read_u16 rd)) in
      if is_trading s w then exchange_cancel e s w
      else case identity s w of
        None \<Rightarrow> send_cancel s w
      | Some (my_info, my_zone, my_account) \<Rightarrow>
          (case identity target w of
             None \<Rightarrow> send_cancel s w
           | Some (target_info, target_zone, target_account) \<Rightarrow>
               if target = s \<or> authority target_info = 0 \<or> ch_name target_info = ch_name my_info
                 \<or> target_zone \<noteq> my_zone
               then send_cancel s w
               else if same_account e my_account target_account then send_cancel s w
               else if nation my_info \<noteq> nation target_info \<and> \<not> zone_allows my_zone w
               then send_cancel s w
               else if is_player_dead target w \<or> is_trading target w \<or> busy target w
                 \<or> session_or False target genie_active w
               then send_cancel s w
               else if sint (ucast (level my_info) :: i16) < sint (unwrap_or 1 (trade_level w))
               then send_cancel s w
               else (True, send_to_session target
                      (write_u32 (ucast s) (exchange_packet EXCHANGE_REQ))
                      (init_trade_request s target w))))"

definition drop_trade :: "sid \<Rightarrow> sid \<Rightarrow> world \<Rightarrow> bool \<times> world" where
  \<comment> \<open>reset both sides, tell the own client\<close>
  "drop_trade s p w = send_cancel s (reset_trade p (reset_trade s w))"

definition account_nation :: "sid \<Rightarrow> world \<Rightarrow> rstr \<times> u8" where
  "account_nation s w = session_or ([], 0) s (\<lambda>h.
     (account_id h, case character h of None \<Rightarrow> 0 | Some c \<Rightarrow> nation c)) w"

definition exchange_agree :: "env \<Rightarrow> sid \<Rightarrow> reader \<Rightarrow> world \<Rightarrow> bool \<times> world" where
  "exchange_agree e s rd w =
     (case get_exchange_user s w of
        None \<Rightarrow> (True, w)
      | Some p \<Rightarrow>
          if get_trade_state s w \<noteq> TRADE_STATE_TARGET then send_cancel s w
          else
            let accepted = unwrap_or 0 (fst (read_u8 rd)) in
            if get_trade_state s w = TRADE_STATE_SENDER then drop_trade s p w
            else if get_trade_state p w \<noteq> TRADE_STATE_SENDER \<or> is_player_dead p w
            then drop_trade s p w
            else
              let my_zone = unwrap_or 0 (get_zone_id s w); p_zone = unwrap_or 0 (get_zone_id p w) in
              if my_zone \<noteq> p_zone \<or> get_exchange_user p w \<noteq> Some s \<or> busy p w
              then drop_trade s p w
              else
                let (my_account, my_nation) = account_nation s w;
                    (p_account, p_nation) = account_nation p w in
                if same_account e my_account p_account then drop_trade s p w
                else if my_nation \<noteq> p_nation \<and> \<not> zone_allows my_zone w then drop_trade s p w
                else if accepted = 0
                then (True, send_to_session p (write_u16 0 (exchange_packet EXCHANGE_AGREE))
                       (trade_decline s w))
                else (True, send_to_session p (write_u16 1 (exchange_packet EXCHANGE_AGREE))
                       (remove_from_merchant_lookers s (trade_agree s w))))"

subsection \<open>Adding to the trade window\<close>

definition name_account :: "sid \<Rightarrow> world \<Rightarrow> rstr \<times> rstr" where
  "name_account s w = session_or ([], []) s (\<lambda>h.
     (account_id h, case character h of None \<Rightarrow> [] | Some c \<Rightarrow> ch_name c)) w"

definition nation_of :: "sid \<Rightarrow> world \<Rightarrow> u8" where
  "nation_of s w = (case get_character_info s w of None \<Rightarrow> 0 | Some c \<Rightarrow> nation c)"

definition add_must_cancel :: "env \<Rightarrow> sid \<Rightarrow> sid \<Rightarrow> world \<Rightarrow> bool" where
  \<comment> \<open>the checks of \<open>exchange_add\<close> whose failure cancels the trade\<close>
  "add_must_cancel e s p w =
     (let my_zone = unwrap_or 0 (get_zone_id s w); p_zone = unwrap_or 0 (get_zone_id p w);
          (my_account, my_name) = name_account s w; (p_account, p_name) = name_account p w in
      my_zone \<noteq> p_zone \<or> get_exchange_user p w \<noteq> Some s \<or> is_player_dead p w \<or> busy p w
      \<or> nation_of s w \<noteq> nation_of p w \<and> \<not> zone_allows my_zone w
      \<or> s = p \<or> my_name = p_name \<or> same_account e my_account p_account)"

definition addable :: "u8 \<Rightarrow> u32 \<Rightarrow> u32 \<Rightarrow> world \<Rightarrow> bool" where
  \<comment> \<open>the checks on the request itself: amount, position, item table\<close>
  "addable pos i n w \<longleftrightarrow> n \<noteq> 0 \<and> i \<noteq> 0 \<and> \<not> (i = ITEM_GOLD \<and> pos \<noteq> 255)
     \<and> (i = ITEM_GOLD \<or>
        unat pos < HAVE_MAX \<and> \<not> (ITEM_NO_TRADE_MIN \<le> i \<and> i \<le> ITEM_NO_TRADE_MAX)
        \<and> (ucast n :: u16) < ITEMCOUNT_MAX
        \<and> (case get_item i w of
              None \<Rightarrow> False
            | Some it \<Rightarrow> unwrap_or 0 (race it) \<noteq> RACE_UNTRADEABLE \<and> unwrap_or 0 (countable it) \<noteq> 2))"

definition window_full :: "sid \<Rightarrow> world \<Rightarrow> bool" where
  "window_full s w =
     (let xs = get_exchange_items s w;
          max_items = (if list_ex (\<lambda>x. ex_item_id x = ITEM_GOLD) xs then 13 else 12) in
      length xs \<ge> max_items)"

definition offer_gold :: "sid \<Rightarrow> u32 \<Rightarrow> world \<Rightarrow> (i16 \<times> u64 \<times> bool \<times> world) option" where
  \<comment> \<open>durability, serial, whether a new entry is needed; \<open>None\<close> fails\<close>
  "offer_gold s n w =
     (case get_character_info s w of
        None \<Rightarrow> None
      | Some ch \<Rightarrow>
          if n = 0 \<or> n > gold ch then None
          else
            let (found, w1) = update_exchange_item_count s ITEM_GOLD n w in
            Some (0, 0, \<not> found, snd (gold_lose s n w1)))"

definition slot_tradeable :: "u32 \<Rightarrow> u32 \<Rightarrow> user_item_slot \<Rightarrow> bool" where
  "slot_tradeable i n sl \<longleftrightarrow> item_id sl = i \<and> \<not> item_count sl < ucast n \<and> item_count sl \<noteq> 0
     \<and> item_flag sl \<notin> {ITEM_FLAG_RENTED, ITEM_FLAG_SEALED, ITEM_FLAG_BOUND, ITEM_FLAG_DUPLICATE}
     \<and> \<not> expire_time sl > 0"

definition deduct :: "nat \<Rightarrow> u16 \<Rightarrow> user_item_slot list \<Rightarrow> bool \<times> user_item_slot list" where
  "deduct k n slots =
     (if k < length slots
      then let c = item_count (slots ! k) - n in
           (True, slots[k := (if c = 0 then empty_slot else (slots ! k)\<lparr>item_count := c\<rparr>)])
      else (False, slots))"

definition offer_item ::
  "sid \<Rightarrow> u8 \<Rightarrow> u32 \<Rightarrow> u32 \<Rightarrow> world \<Rightarrow> (i16 \<times> u64 \<times> bool \<times> world) option" where
  "offer_item s pos i n w =
     (let k = SLOT_MAX + unat pos in
      case get_inventory_slot s k w of
        None \<Rightarrow> None
      | Some slot \<Rightarrow>
          if \<not> slot_tradeable i n slot then None
          else
            let stack = sint (unwrap_or 0 (Option.bind (get_item i w) countable)) > 0;
                (found, w1) = (if stack then update_exchange_item_count s i n w else (False, w));
                (_, w2) = update_inventory s False (deduct k (ucast n)) w1 in
            Some (durability slot, serial_num slot, \<not> found, w2))"

definition exchange_add :: "env \<Rightarrow> sid \<Rightarrow> reader \<Rightarrow> world \<Rightarrow> bool \<times> world" where
  "exchange_add e s rd w =
     (let (r1, rd1) = read_u8 rd; (r2, rd2) = read_u32 rd1; (r3, _) = read_u32 rd2;
          pos = unwrap_or 0 r1; i = unwrap_or 0 r2; n = unwrap_or 0 r3 in
      if is_mining s w \<or> is_fishing s w \<or> is_merchanting s w \<or> is_selling_merchant_preparing s w
      then send_add_fail s w
      else case get_exchange_user s w of
        None \<Rightarrow> (True, w)
      | Some p \<Rightarrow>
          if get_trade_state s w \<noteq> TRADE_STATE_TRADING then send_add_fail s w
          else if add_must_cancel e s p w then exchange_cancel e s w
          else if get_trade_state p w \<noteq> TRADE_STATE_TRADING \<and> get_trade_state p w \<noteq> TRADE_STATE_DECIDING
          then send_add_fail s w
          else if \<not> addable pos i n w \<or> window_full s w then send_add_fail s w
          else case (if i = ITEM_GOLD then offer_gold s n w else offer_item s pos i n w) of
            None \<Rightarrow> send_add_fail s w
          | Some (dur, serial, add_new, w1) \<Rightarrow>
              let w2 = (if add_new
                        then add_exchange_item s \<lparr>ex_item_id = i, ex_count = n, ex_durability = dur,
                          ex_serial_num = serial,
                          ex_src_pos = (if i = ITEM_GOLD then 255 else word_of_nat SLOT_MAX + pos),
                          ex_dst_pos = 0\<rparr> w1
                        else w1);
                  (ok, w3) = session_send s (write_u8 1 (exchange_packet EXCHANGE_ADD)) w2 in
              if \<not> ok then (False, w3)
              else
                let q = write_u16 dur (write_u32 n (write_u32 i (exchange_packet EXCHANGE_OTHERADD)));
                    q' = (if add_new then write_unique_item_info e w3 i serial (my_rebirth s w3) q
                          else write_u32 0 q) in
                (True, send_to_session p q' w3))"

subsection \<open>Deciding\<close>

definition check_step :: "sid \<Rightarrow> world \<Rightarrow> (u32 \<times> u8) option \<Rightarrow> exchange_item \<Rightarrow> (u32 \<times> u8) option" where
  \<comment> \<open>the loop body of \<open>check_exchange\<close> on weight and item count\<close>
  "check_step s w acc x =
     (case acc of
        None \<Rightarrow> None
      | Some (total_weight, n) \<Rightarrow>
          if ex_item_id x = ITEM_GOLD then
            (case get_character_info s w of
               None \<Rightarrow> None
             | Some ch \<Rightarrow>
                 if (ucast (gold ch) :: u64) + ucast (ex_count x) > ucast COIN_MAX then None
                 else Some (total_weight, n))
          else
            (case get_item (ex_item_id x) w of
               None \<Rightarrow> None
             | Some it \<Rightarrow>
                 Some (saturating_add total_weight (scast (unwrap_or 0 (weight it))), n + 1)))"

definition check_exchange :: "sid \<Rightarrow> world \<Rightarrow> bool" where
  "check_exchange s w =
     (case get_exchange_user s w of
        None \<Rightarrow> False
      | Some p \<Rightarrow>
          if is_player_dead s w \<or> \<not> is_trading s w then False
          else case foldl (check_step s w) (Some (0, 0)) (get_exchange_items p w) of
            None \<Rightarrow> False
          | Some (total_weight, n) \<Rightarrow>
              \<not> n > count_free_slots s w
              \<and> total_weight + item_weight (get_equipped_stats s w) \<le> max_weight (get_equipped_stats s w))"

definition placeable :: "sid \<Rightarrow> sid \<Rightarrow> world \<Rightarrow> exchange_item \<Rightarrow> bool" where
  \<comment> \<open>the loop body of \<open>check_execute_exchange\<close>\<close>
  "placeable s p w x =
     (if ex_item_id x = ITEM_GOLD then True
      else case get_item (ex_item_id x) w of
        None \<Rightarrow> False
      | Some it \<Rightarrow>
          (case find_slot_for_item s (ex_item_id x) (ucast (ex_count x)) w of
             None \<Rightarrow> False
           | Some k \<Rightarrow>
               k < SLOT_MAX + HAVE_MAX
               \<and> (case get_inventory_slot p (unat (ex_src_pos x)) w of
                     None \<Rightarrow> False | Some src \<Rightarrow> item_id src = ex_item_id x)
               \<and> (let dst = unwrap_or empty_slot (get_inventory_slot s k w) in
                  \<not> (unwrap_or 0 (kind it) = ITEM_KIND_UNIQUE \<and> item_id dst \<noteq> 0)
                  \<and> \<not> (item_id dst \<noteq> ex_item_id x \<and> item_id dst \<noteq> 0))))"

definition check_execute_exchange :: "sid \<Rightarrow> world \<Rightarrow> bool" where
  "check_execute_exchange s w =
     (if get_trade_state s w \<noteq> TRADE_STATE_DECIDING then False
      else if \<not> is_trading s w \<or> busy s w then False
      else case get_exchange_user s w of
        None \<Rightarrow> False
      | Some p \<Rightarrow>
          if get_exchange_user p w \<noteq> Some s \<or> get_zone_id p w \<noteq> get_zone_id s w \<or> busy p w then False
          else if nation_of s w \<noteq> nation_of p w
                  \<and> \<not> zone_allows (unwrap_or 0 (get_zone_id s w)) w then False
          else list_all (placeable s p w) (get_exchange_items p w))"

type_synonym received = "u8 \<times> u32 \<times> u16 \<times> i16 \<times> u64"

definition place_received :: "exchange_item \<Rightarrow> i32 \<Rightarrow> nat \<Rightarrow> user_item_slot list \<Rightarrow> bool \<times> user_item_slot list"
where
  "place_received x cntable k slots =
     (if k \<ge> length slots then (False, slots)
      else
        let slot = slots ! k; is_new = (item_id slot = 0);
            s1 = slot\<lparr>item_id := ex_item_id x,
                   item_count := min (item_count slot + ucast (ex_count x)) ITEMCOUNT_MAX\<rparr>;
            s2 = (if cntable = 0 then s1\<lparr>item_count := 1\<rparr> else s1);
            s3 = (if is_new then s2\<lparr>durability := ex_durability x, serial_num := ex_serial_num x\<rparr>
                  else s2) in
        (True, slots[k := s3]))"

definition receive_one :: "sid \<Rightarrow> exchange_item \<Rightarrow> received list \<times> world \<Rightarrow> received list \<times> world" where
  \<comment> \<open>the loop that hands over one item or the gold\<close>
  "receive_one s x acc =
     (let (rs, w) = acc in
      if ex_item_id x = ITEM_GOLD then (rs, gold_gain s (ex_count x) w)
      else case find_slot_for_item s (ex_item_id x) (ucast (ex_count x)) w of
        None \<Rightarrow> (rs, w)
      | Some k \<Rightarrow>
          let cntable = unwrap_or 0 (Option.bind (get_item (ex_item_id x) w) countable);
              (_, w1) = update_inventory s False (place_received x cntable k) w;
              final_count = (if cntable = 0 then 1 else ucast (ex_count x)) in
          (rs @ [(word_of_nat (k - 14), ex_item_id x, final_count, ex_durability x, ex_serial_num x)], w1))"

definition receive_all :: "sid \<Rightarrow> exchange_item list \<Rightarrow> world \<Rightarrow> received list \<times> world" where
  "receive_all s xs w = fold (receive_one s) xs ([], w)"

definition clear_source :: "sid \<Rightarrow> exchange_item \<Rightarrow> world \<Rightarrow> world" where
  "clear_source s x w =
     (if ex_item_id x \<noteq> ITEM_GOLD
      then snd (update_inventory s False (\<lambda>slots.
             let pos = unat (ex_src_pos x) in
             (True, if pos < length slots \<and> item_count (slots ! pos) = 0
                    then slots[pos := empty_slot] else slots)) w)
      else w)"

definition done_packet :: "env \<Rightarrow> sid \<Rightarrow> received list \<Rightarrow> world \<Rightarrow> packet" where
  "done_packet e s rs w =
     (let (my_gold, rebirth) = (case get_character_info s w of
            None \<Rightarrow> (0, 0) | Some c \<Rightarrow> (gold c, rebirth_level c));
          p0 = write_u16 (word_of_nat (length rs))
                 (write_u32 my_gold (write_u8 1 (exchange_packet EXCHANGE_DONE))) in
      fold (\<lambda>(dst, i, cnt, dur, serial) p.
        write_unique_item_info e w i serial rebirth
          (write_u8 0 (write_u16 dur (write_u16 cnt (write_u32 i (write_u8 dst p)))))) rs p0)"

definition fail_exchange :: "sid \<Rightarrow> sid \<Rightarrow> world \<Rightarrow> world" where
  "fail_exchange s p w =
     (let fail = write_u8 0 (exchange_packet EXCHANGE_DONE);
          w1 = send_to_session p fail (send_to_session s fail w) in
      reset_trade p (reset_trade s (exchange_give_items_back p (exchange_give_items_back s w1))))"

definition execute_exchange :: "env \<Rightarrow> sid \<Rightarrow> sid \<Rightarrow> world \<Rightarrow> world" where
  "execute_exchange e s p w =
     (let p_items = get_exchange_items p w; my_items = get_exchange_items s w;
          (mine, w1) = receive_all s p_items w;
          (theirs, w2) = receive_all p my_items w1;
          w3 = fold (clear_source p) p_items w2;
          w4 = fold (clear_source s) my_items w3;
          w5 = send_to_session s (done_packet e s mine w4) w4;
          w6 = send_to_session p (done_packet e p theirs w5) w5;
          w7 = set_user_ability e p (set_user_ability e s w6) in
      reset_trade p (reset_trade s w7))"

definition exchange_decide :: "env \<Rightarrow> sid \<Rightarrow> world \<Rightarrow> bool \<times> world" where
  "exchange_decide e s w =
     (if get_trade_state s w \<noteq> TRADE_STATE_TRADING then (True, w)
      else case get_exchange_user s w of
        None \<Rightarrow> (True, w)
      | Some p \<Rightarrow>
          if unwrap_or 0 (get_zone_id s w) \<noteq> unwrap_or 0 (get_zone_id p w)
            \<or> get_exchange_user p w \<noteq> Some s \<or> is_player_dead p w \<or> is_mining p w
            \<or> is_merchanting p w
          then (True, w)
          else if get_trade_state p w \<noteq> TRADE_STATE_DECIDING \<and> get_trade_state p w \<noteq> TRADE_STATE_TRADING
          then (True, w)
          else if get_trade_state p w \<noteq> TRADE_STATE_DECIDING
          then (True, send_to_session p (exchange_packet EXCHANGE_OTHERDECIDE)
                 (set_trade_state s TRADE_STATE_DECIDING w))
          else
            let w1 = set_trade_state s TRADE_STATE_DECIDING w in
            if \<not> (check_exchange s w1 \<and> check_exchange p w1) then (True, fail_exchange s p w1)
            else if \<not> (check_execute_exchange s w1 \<and> check_execute_exchange p w1)
            then (True, fail_exchange s p w1)
            else (True, execute_exchange e s p w1))"

definition handle_exchange :: "env \<Rightarrow> session_state \<Rightarrow> sid \<Rightarrow> packet \<Rightarrow> world \<Rightarrow> bool \<times> world" where
  "handle_exchange e st s pkt w =
     (if st \<noteq> InGame then (True, w)
      else if get_character_info s w = None then (True, w)
      else if is_player_dead s w \<or> busy s w then (True, w)
      else
        let (r, rd) = read_u8 (reader_new (pdata pkt)); sub = unwrap_or 0 r in
        if sub = EXCHANGE_REQ then exchange_req e s rd w
        else if sub = EXCHANGE_AGREE then exchange_agree e s rd w
        else if sub = EXCHANGE_ADD then exchange_add e s rd w
        else if sub = EXCHANGE_DECIDE then exchange_decide e s w
        else if sub = EXCHANGE_CANCEL then exchange_cancel e s w
        else (True, w))"

definition cleanup_exchange :: "sid \<Rightarrow> world \<Rightarrow> world" where
  \<comment> \<open>what logout, zone change and disconnection do with a running trade\<close>
  "cleanup_exchange s w =
     (if is_trading s w then
        let partner = get_exchange_user s w; w1 = reset_trade s w in
        case partner of
          None \<Rightarrow> w1
        | Some p \<Rightarrow> send_to_session p (exchange_packet EXCHANGE_CANCEL) (reset_trade p w1)
      else w)"

end
