(* ===== verification/Trade_Machine.thy ===== *)
theory Trade_Machine
  imports Exchange
begin

text \<open>
  What the trade handlers do to the trade state of the players, seen from outside: a state machine
  whose states are, for each session, the phase, the partner and the offers. The handlers of theory \<open>Exchange\<close>
  implement it, and its invariant, that partners point at each other in matching phases, is an
  invariant of the server.
\<close>

type_synonym trade_view = "u8 \<times> sid option \<times> exchange_item list"
type_synonym trades = "sid \<rightharpoonup> trade_view"

definition idle :: trade_view where
  "idle = (TRADE_STATE_NONE, None, [])"

inductive trade_step :: "trades \<Rightarrow> trades \<Rightarrow> bool" where
  stay: "trade_step m m"
| request: "s \<noteq> t \<Longrightarrow> m s = Some (x, None, xs) \<Longrightarrow> m t = Some (y, None, ys) \<Longrightarrow>
    trade_step m (m(s \<mapsto> (TRADE_STATE_SENDER, Some t, xs), t \<mapsto> (TRADE_STATE_TARGET, Some s, ys)))"
| agree: "m s = Some (TRADE_STATE_TARGET, Some p, xs) \<Longrightarrow> m p = Some (TRADE_STATE_SENDER, Some s, ys) \<Longrightarrow>
    trade_step m (m(s \<mapsto> (TRADE_STATE_TRADING, Some p, xs), p \<mapsto> (TRADE_STATE_TRADING, Some s, ys)))"
| close: "m s = Some (x, Some p, xs) \<Longrightarrow> m p = Some (y, Some s, ys) \<Longrightarrow>
    trade_step m (m(s \<mapsto> idle, p \<mapsto> idle))"
| offer: "m s = Some (TRADE_STATE_TRADING, Some p, xs) \<Longrightarrow>
    trade_step m (m(s \<mapsto> (TRADE_STATE_TRADING, Some p, xs')))"
| decide: "m s = Some (TRADE_STATE_TRADING, Some p, xs) \<Longrightarrow> m p = Some (TRADE_STATE_TRADING, Some s, ys) \<Longrightarrow>
    trade_step m (m(s \<mapsto> (TRADE_STATE_DECIDING, Some p, xs)))"

inductive_cases trade_stepE: "trade_step m m'"

definition phases :: "(u8 \<times> u8) set" where
  \<comment> \<open>the phases two partners can be in\<close>
  "phases = {(TRADE_STATE_SENDER, TRADE_STATE_TARGET), (TRADE_STATE_TARGET, TRADE_STATE_SENDER),
     (TRADE_STATE_TRADING, TRADE_STATE_TRADING), (TRADE_STATE_TRADING, TRADE_STATE_DECIDING),
     (TRADE_STATE_DECIDING, TRADE_STATE_TRADING)}"

definition paired :: "trades \<Rightarrow> sid \<Rightarrow> trade_view \<Rightarrow> bool" where
  "paired m s v = (case v of
     (x, None, xs) \<Rightarrow> x = TRADE_STATE_NONE \<and> xs = []
   | (x, Some p, xs) \<Rightarrow> p \<noteq> s \<and> (x \<in> {TRADE_STATE_SENDER, TRADE_STATE_TARGET} \<longrightarrow> xs = [])
       \<and> (\<exists>y ys. m p = Some (y, Some s, ys) \<and> (x, y) \<in> phases))"

definition trade_inv :: "trades \<Rightarrow> bool" where
  "trade_inv m \<longleftrightarrow> (\<forall>s v. m s = Some v \<longrightarrow> paired m s v)"

lemma trade_invD: "trade_inv m \<Longrightarrow> m s = Some v \<Longrightarrow> paired m s v"
  unfolding trade_inv_def by blast

lemma paired_simps [simp]:
  "paired m s (x, None, xs) \<longleftrightarrow> x = TRADE_STATE_NONE \<and> xs = []"
  "paired m s (x, Some p, xs) \<longleftrightarrow> p \<noteq> s \<and> (x \<in> {TRADE_STATE_SENDER, TRADE_STATE_TARGET} \<longrightarrow> xs = [])
     \<and> (\<exists>y ys. m p = Some (y, Some s, ys) \<and> (x, y) \<in> phases)"
  "paired m s idle"
  by (simp_all add: paired_def idle_def)

lemma trade_inv_update:
  assumes "trade_inv m" "s \<noteq> p" "m s = Some (x, u, xs)" "u = None \<or> u = Some p"
    and "m p = Some (y, v, ys)" "v = None \<or> v = Some s"
    and m': "m' = m(s \<mapsto> a, p \<mapsto> b)" and "paired m' s a" "paired m' p b"
  shows "trade_inv m'"
  unfolding trade_inv_def
proof (intro allI impI)
  fix q v'
  assume q: "m' q = Some v'"
  show "paired m' q v'"
  proof (cases "q = s \<or> q = p")
    case True
    then show ?thesis using assms(2,8,9) q by (auto simp: m')
  next
    case False
    then have "m q = Some v'" using q by (simp add: m')
    from trade_invD [OF assms(1) this] show ?thesis
      using assms(3-6) False
      by (cases v'; cases "fst (snd v')") (auto simp: m')
  qed
qed

lemma distinct_phases [simp]:
  "TRADE_STATE_NONE \<noteq> TRADE_STATE_SENDER" "TRADE_STATE_NONE \<noteq> TRADE_STATE_TARGET"
  "TRADE_STATE_NONE \<noteq> TRADE_STATE_TRADING" "TRADE_STATE_NONE \<noteq> TRADE_STATE_DECIDING"
  "TRADE_STATE_SENDER \<noteq> TRADE_STATE_TARGET" "TRADE_STATE_SENDER \<noteq> TRADE_STATE_TRADING"
  "TRADE_STATE_SENDER \<noteq> TRADE_STATE_DECIDING" "TRADE_STATE_TARGET \<noteq> TRADE_STATE_TRADING"
  "TRADE_STATE_TARGET \<noteq> TRADE_STATE_DECIDING" "TRADE_STATE_TRADING \<noteq> TRADE_STATE_DECIDING"
  by (simp_all add: trade_states)

lemmas distinct_phases' [simp] = distinct_phases [symmetric]

lemma phases_iff [simp]: "(x, y) \<in> phases \<longleftrightarrow>
    x = TRADE_STATE_SENDER \<and> y = TRADE_STATE_TARGET \<or> x = TRADE_STATE_TARGET \<and> y = TRADE_STATE_SENDER
    \<or> x = TRADE_STATE_TRADING \<and> (y = TRADE_STATE_TRADING \<or> y = TRADE_STATE_DECIDING)
    \<or> x = TRADE_STATE_DECIDING \<and> y = TRADE_STATE_TRADING"
  by (auto simp: phases_def)

lemma trade_step_inv:
  assumes "trade_step m m'" and "trade_inv m"
  shows "trade_inv m'"
  using assms
proof (induction rule: trade_step.induct)
  case (request s t m x xs y ys)
  then show ?case
    using trade_invD [of m s] trade_invD [of m t]
    by (intro trade_inv_update [OF request(4,1-2) _ request(3) _ refl]) auto
next
  case (agree m s p xs ys)
  then show ?case
    using trade_invD [of m s] trade_invD [of m p]
    by (intro trade_inv_update [OF agree(3) _ agree(1) _ agree(2) _ refl]) auto
next
  case (close m s x p xs y ys)
  then show ?case
    using trade_invD [of m s]
    by (intro trade_inv_update [OF close(3) _ close(1) _ close(2) _ refl]) auto
next
  case (offer m s p xs xs')
  obtain y ys where p: "p \<noteq> s" "m p = Some (y, Some s, ys)" "(TRADE_STATE_TRADING, y) \<in> phases"
    using trade_invD [OF offer(2,1)] by auto
  show ?case
    using p trade_invD [OF offer(2) p(2)] offer(1)
    by (intro trade_inv_update [OF offer(2) _ offer(1) _ p(2), where b = "(y, Some s, ys)"])
      (auto simp: fun_upd_twist fun_upd_triv fun_eq_iff)
next
  case (decide m s p xs ys)
  then have "p \<noteq> s" using trade_invD [of m s] by auto
  then show ?case
    using decide
    by (intro trade_inv_update [OF decide(3) _ decide(1) _ decide(2),
          where b = "(TRADE_STATE_TRADING, Some s, ys)"]) (auto simp: fun_eq_iff)
qed

end
