(* ===== verification/Exchange_Refine.thy ===== *)
theory Exchange_Refine
  imports Trade_Machine
begin

text \<open>
  The handlers of theory \<open>Exchange\<close> refine the machine of theory \<open>Trade_Machine\<close>. \<open>observe f\<close> is what
  a function \<open>f\<close> of a session sees of the whole world; an operation that does not touch what \<open>f\<close>
  looks at leaves the observation alone, and the rules below say which operations touch what.
\<close>

definition observe :: "(session_handle \<Rightarrow> 'v) \<Rightarrow> world \<Rightarrow> sid \<Rightarrow> 'v option" where
  "observe f w s = map_option f (wsessions w s)"

definition ignores_character :: "(session_handle \<Rightarrow> 'v) \<Rightarrow> bool" where
  "ignores_character f \<longleftrightarrow> (\<forall>h c st. f (h\<lparr>character := c\<rparr>) = f h \<and> f (h\<lparr>equipped := st\<rparr>) = f h)"

definition ignores_inventory :: "(session_handle \<Rightarrow> 'v) \<Rightarrow> bool" where
  "ignores_inventory f \<longleftrightarrow> (\<forall>h xs. f (h\<lparr>inventory := xs\<rparr>) = f h)"

lemma observe_send [simp]: "observe f (send_to_session s p w) = observe f w"
  by (simp add: observe_def fun_eq_iff)

lemma observe_modify:
  "observe f (modify_session s g w) = (observe f w)(s := map_option (\<lambda>h. f (g h)) (wsessions w s))"
  by (auto simp: observe_def fun_eq_iff option.map_comp o_def)

lemma observe_modify_same: "(\<And>h. f (g h) = f h) \<Longrightarrow> observe f (modify_session s g w) = observe f w"
  by (auto simp: observe_def fun_eq_iff option.map_comp o_def)

lemma observe_update_inventory [simp]:
  "ignores_inventory f \<Longrightarrow> observe f (snd (update_inventory s d u w)) = observe f w"
  by (simp add: update_inventory_def ignores_inventory_def observe_modify_same split: option.splits)

lemma observe_stats [simp]:
  "ignores_character f \<Longrightarrow> observe f (update_character_stats s u w) = observe f w"
  by (simp add: update_character_stats_def ignores_character_def observe_modify_same)

lemma observe_gold [simp]:
  assumes "ignores_character f"
  shows "observe f (gold_gain s n w) = observe f w" "observe f (snd (gold_lose s n w)) = observe f w"
  using assms by (simp_all add: gold_gain_def gold_lose_def Let_def split: option.splits)

lemma observe_ability [simp]:
  "ignores_character f \<Longrightarrow> observe f (set_user_ability e s w) = observe f w"
  by (auto simp: observe_def fun_eq_iff set_user_ability_session ignores_character_def
      option.map_comp o_def split: option.splits)

lemma observe_fold:
  "(\<And>x w. observe f (g x w) = observe f w) \<Longrightarrow> observe f (fold g xs w) = observe f w"
  by (induction xs arbitrary: w) simp_all

lemma observe_give_back [simp]:
  assumes "ignores_character f" "ignores_inventory f"
  shows "observe f (exchange_give_items_back s w) = observe f w"
  unfolding exchange_give_items_back_def
  by (rule observe_fold) (simp add: give_back_one_def assms)

lemma observe_receive [simp]:
  assumes "ignores_character f" "ignores_inventory f"
  shows "observe f (snd (receive_all s xs w)) = observe f w"
proof -
  have "observe f (snd (receive_one s x acc)) = observe f (snd acc)" for x acc
    using assms by (simp add: receive_one_def split_def Let_def split: option.splits)
  then have "observe f (snd (fold (receive_one s) xs acc)) = observe f (snd acc)" for acc
    by (induction xs arbitrary: acc) simp_all
  then show ?thesis by (simp add: receive_all_def)
qed

lemma observe_clear_source [simp]:
  "ignores_inventory f \<Longrightarrow> observe f (fold (clear_source s) xs w) = observe f w"
  by (rule observe_fold) (simp add: clear_source_def)

lemma observe_refresh [simp]: "observe f (send_inventory_refresh e s w) = observe f w"
  by (simp add: send_inventory_refresh_def Let_def)

lemma observe_session_send [simp]:
  "observe f (snd (session_send s p w)) = observe f w"
  "observe f (snd (send_cancel s w)) = observe f w"
  "observe f (snd (send_add_fail s w)) = observe f w"
  by (simp_all add: session_send_def send_cancel_def send_add_fail_def)

lemma session_or_observe: "session_or d s f w = unwrap_or d (observe f w s)"
  by (simp add: session_or_def observe_def split: option.splits)

subsection \<open>The trade view\<close>

definition tv :: "session_handle \<Rightarrow> trade_view" where
  "tv h = (trade_state h, exchange_user h, exchange_items h)"

abbreviation tview :: "world \<Rightarrow> trades" where
  "tview \<equiv> observe tv"

definition all_open :: "world \<Rightarrow> bool" where
  \<comment> \<open>nobody's channel is closed\<close>
  "all_open w \<longleftrightarrow> (\<forall>s b. observe tx_open w s = Some b \<longrightarrow> b)"

lemma tv_ignores [simp]: "ignores_character tv" "ignores_inventory tv"
  "ignores_character tx_open" "ignores_inventory tx_open"
  by (simp_all add: ignores_character_def ignores_inventory_def tv_def)

lemma get_trade_state_view: "get_trade_state s w = (case tview w s of None \<Rightarrow> TRADE_STATE_NONE | Some v \<Rightarrow> fst v)"
  by (simp add: get_trade_state_def session_or_def observe_def tv_def split: option.splits)

lemma get_exchange_user_view:
  "get_exchange_user s w = (case tview w s of None \<Rightarrow> None | Some v \<Rightarrow> fst (snd v))"
  by (simp add: get_exchange_user_def session_or_def observe_def tv_def split: option.splits)

lemma is_trading_view: "is_trading s w \<longleftrightarrow> get_exchange_user s w \<noteq> None"
  by (simp add: is_trading_def get_exchange_user_def session_or_def split: option.splits)

lemma get_exchange_items_view:
  "get_exchange_items s w = (case tview w s of None \<Rightarrow> [] | Some v \<Rightarrow> snd (snd v))"
  by (simp add: get_exchange_items_def session_or_def observe_def tv_def split: option.splits)

lemma tview_reset [simp]:
  "tview (reset_trade s w) = (tview w)(s := map_option (\<lambda>_. idle) (tview w s))"
  by (auto simp: reset_trade_def observe_modify tv_def idle_def fun_eq_iff observe_def option.map_comp o_def)

lemma tview_set_state [simp]:
  "tview (set_trade_state s x w) = (tview w)(s := map_option (\<lambda>v. (x, snd v)) (tview w s))"
  by (auto simp: set_trade_state_def observe_modify tv_def fun_eq_iff observe_def option.map_comp o_def)

lemma tview_add_item [simp]:
  "tview (add_exchange_item s y w) = (tview w)(s := map_option (\<lambda>(x, u, xs). (x, u, xs @ [y])) (tview w s))"
  by (auto simp: add_exchange_item_def observe_modify tv_def fun_eq_iff observe_def option.map_comp o_def)

lemma tview_bump [simp]:
  "tview (snd (update_exchange_item_count s i n w)) =
     (tview w)(s := map_option (\<lambda>(x, u, xs). (x, u, snd (bump_count i n xs))) (tview w s))"
  by (auto simp: update_exchange_item_count_def observe_modify tv_def fun_eq_iff observe_def option.map_comp o_def)

lemma tview_lookers [simp]: "tview (remove_from_merchant_lookers s w) = tview w"
  by (auto simp: remove_from_merchant_lookers_def set_browsing_merchant_def observe_modify_same tv_def
      split: option.splits)

lemma open_ops [simp]:
  "observe tx_open (reset_trade s w) = observe tx_open w"
  "observe tx_open (set_trade_state s x w) = observe tx_open w"
  "observe tx_open (add_exchange_item s y w) = observe tx_open w"
  "observe tx_open (snd (update_exchange_item_count s i n w)) = observe tx_open w"
  "observe tx_open (init_trade_request s p w) = observe tx_open w"
  "observe tx_open (remove_from_merchant_lookers s w) = observe tx_open w"
  by (auto simp: reset_trade_def set_trade_state_def add_exchange_item_def init_trade_request_def
      update_exchange_item_count_def remove_from_merchant_lookers_def set_browsing_merchant_def
      observe_modify_same split: option.splits)

subsection \<open>Each handler makes a step of the machine\<close>

lemma all_open_cong: "observe tx_open w' = observe tx_open w \<Longrightarrow> all_open w' = all_open w"
  by (simp add: all_open_def)

lemma all_open_send: "all_open w \<Longrightarrow> tview w s \<noteq> None \<Longrightarrow> fst (session_send s p w)"
  by (auto simp: session_send_def all_open_def session_or_def observe_def split: option.splits)

lemma cancel_view:
  assumes "trade_inv (tview w)" "all_open w"
  shows "tview (snd (exchange_cancel e s w)) =
    (case tview w s of
       Some (x, Some p, xs) \<Rightarrow> (tview w)(s \<mapsto> idle, p \<mapsto> idle)
     | _ \<Rightarrow> tview w)"
proof (cases "tview w s")
  case None
  then show ?thesis by (simp add: exchange_cancel_def get_trade_state_view)
next
  case (Some v)
  obtain x u xs where v: "v = (x, u, xs)" by (cases v)
  let ?w1 = "reset_trade s (exchange_give_items_back s w)"
  have "all_open ?w1" using assms(2) by (simp add: all_open_def)
  then have ok: "fst (session_send s q ?w1)" for q
    using Some by (intro all_open_send) simp_all
  show ?thesis
  proof (cases u)
    case None
    then show ?thesis
      using trade_invD [OF assms(1) Some] by (simp add: exchange_cancel_def get_trade_state_view Some v)
  next
    case u: (Some p)
    obtain y ys where p: "p \<noteq> s" "tview w p = Some (y, Some s, ys)" "(x, y) \<in> phases"
      using trade_invD [OF assms(1) Some] by (auto simp: v u)
    then have "x \<noteq> TRADE_STATE_NONE" "y \<noteq> TRADE_STATE_NONE" by auto
    then show ?thesis
      using p ok Some
      by (simp add: exchange_cancel_def get_trade_state_view get_exchange_user_view v u split_def
          Let_def fun_upd_twist)
  qed
qed

lemma cancel_step:
  assumes "trade_inv (tview w)" "all_open w"
  shows "trade_step (tview w) (tview (snd (exchange_cancel e s w)))"
proof (cases "\<exists>x p xs. tview w s = Some (x, Some p, xs)")
  case True
  then obtain x p xs where s: "tview w s = Some (x, Some p, xs)" by blast
  obtain y ys where "tview w p = Some (y, Some s, ys)"
    using trade_invD [OF assms(1) s] by auto
  then show ?thesis using s by (simp add: cancel_view [OF assms]) (rule trade_step.close)
next
  case False
  then have "tview (snd (exchange_cancel e s w)) = tview w"
    by (auto simp: cancel_view [OF assms] split: option.splits)
  then show ?thesis by (simp add: trade_step.stay)
qed

lemma drop_view:
  assumes "trade_inv (tview w)" "get_exchange_user s w = Some p"
  shows "trade_step (tview w) (tview (snd (drop_trade s p w)))"
proof -
  obtain x xs where s: "tview w s = Some (x, Some p, xs)"
    using assms(2) by (cases "tview w s") (auto simp: get_exchange_user_view)
  obtain y ys where p: "p \<noteq> s" "tview w p = Some (y, Some s, ys)"
    using trade_invD [OF assms(1) s] by auto
  have "tview (snd (drop_trade s p w)) = (tview w)(s \<mapsto> idle, p \<mapsto> idle)"
    using s p by (simp add: drop_trade_def)
  then show ?thesis using trade_step.close [OF s p(2)] by simp
qed

lemma tview_init [simp]:
  "s \<noteq> p \<Longrightarrow> tview (init_trade_request s p w) = (tview w)(
     s := map_option (\<lambda>(x, u, xs). (TRADE_STATE_SENDER, Some p, xs)) (tview w s),
     p := map_option (\<lambda>(x, u, xs). (TRADE_STATE_TARGET, Some s, xs)) (tview w p))"
  by (auto simp: init_trade_request_def observe_modify tv_def fun_eq_iff observe_def option.map_comp o_def)

lemma identity_view: "identity s w \<noteq> None \<Longrightarrow> tview w s \<noteq> None"
  by (cases "wsessions w s") (simp_all add: identity_def observe_def)

lemma req_step:
  assumes "trade_inv (tview w)" "all_open w"
  shows "trade_step (tview w) (tview (snd (exchange_req e s rd w)))"
proof (cases "is_trading s w")
  case True
  then show ?thesis using cancel_step [OF assms] by (simp add: exchange_req_def Let_def)
next
  case False
  define t where "t = unwrap_or 0 (fst (read_u16 rd))"
  show ?thesis
  proof (cases "tview (snd (exchange_req e s rd w)) = tview w")
    case True
    then show ?thesis by (simp add: trade_step.stay)
  next
    case changed: False
    then have "t \<noteq> s \<and> \<not> is_trading t w \<and> identity s w \<noteq> None \<and> identity t w \<noteq> None
        \<and> tview (snd (exchange_req e s rd w)) = tview (init_trade_request s t w)"
      using False unfolding exchange_req_def Let_def t_def [symmetric]
      by (auto split: option.splits if_splits)
    moreover from this obtain x xs y ys where
      "tview w s = Some (x, None, xs)" "tview w t = Some (y, None, ys)"
      using False identity_view [of s w] identity_view [of t w]
      by (fastforce simp: is_trading_view get_exchange_user_view)
    ultimately show ?thesis using trade_step.request [of s t "tview w"] by auto
  qed
qed

lemma agree_step:
  assumes "trade_inv (tview w)"
  shows "trade_step (tview w) (tview (snd (exchange_agree e s rd w)))"
proof (cases "get_exchange_user s w")
  case None
  then show ?thesis by (simp add: exchange_agree_def trade_step.stay)
next
  case (Some p)
  note drop = drop_view [OF assms Some]
  show ?thesis
  proof (cases "get_trade_state s w = TRADE_STATE_TARGET")
    case False
    then show ?thesis by (simp add: exchange_agree_def Some trade_step.stay)
  next
    case True
    then obtain xs where s: "tview w s = Some (TRADE_STATE_TARGET, Some p, xs)"
      using Some by (cases "tview w s") (auto simp: get_exchange_user_view get_trade_state_view)
    then obtain ys where p: "p \<noteq> s" "tview w p = Some (TRADE_STATE_SENDER, Some s, ys)"
      using trade_invD [OF assms s] by auto
    have decline: "tview (trade_decline s w) = (tview w)(s \<mapsto> idle, p \<mapsto> idle)"
      using s p Some by (simp add: trade_decline_def Let_def)
    have agree: "tview (trade_agree s w) =
        (tview w)(s \<mapsto> (TRADE_STATE_TRADING, Some p, xs), p \<mapsto> (TRADE_STATE_TRADING, Some s, ys))"
      using s p Some by (simp add: trade_agree_def Let_def)
    have "tview (snd (exchange_agree e s rd w)) \<in> {tview (snd (drop_trade s p w)),
        tview (trade_decline s w), tview (trade_agree s w)}"
      using Some True by (simp add: exchange_agree_def Let_def split_def)
    then show ?thesis
      using drop trade_step.close [OF s p(2)] trade_step.agree [OF s p(2)]
      unfolding decline agree by auto
  qed
qed

lemma offer_view:
  assumes "tview w s = Some (TRADE_STATE_TRADING, Some p, xs)"
    and "(if i = ITEM_GOLD then offer_gold s n w else offer_item s pos i n w) = Some (dur, serial, new, w1)"
  shows "\<exists>xs'. tview w1 = (tview w)(s \<mapsto> (TRADE_STATE_TRADING, Some p, xs'))"
proof (cases "i = ITEM_GOLD")
  case True
  then show ?thesis using assms
    by (auto simp: offer_gold_def split_def Let_def split: option.splits if_splits)
next
  case False
  then show ?thesis using assms
    by (auto simp: offer_item_def split_def Let_def fun_eq_iff split: option.splits if_splits)
qed

lemma add_cases:
  assumes w': "w' = snd (exchange_add e s rd w)"
  obtains (failed) "w' = w \<or> w' = snd (send_add_fail s w)"
    | (cancelled) "w' = snd (exchange_cancel e s w)"
    | (offered) p pos i n dur serial new w1 x where "get_exchange_user s w = Some p"
        "get_trade_state s w = TRADE_STATE_TRADING" "addable pos i n w" "\<not> window_full s w"
        "\<not> add_must_cancel e s p w"
        "(if i = ITEM_GOLD then offer_gold s n w else offer_item s pos i n w) = Some (dur, serial, new, w1)"
        "x = \<lparr>ex_item_id = i, ex_count = n, ex_durability = dur, ex_serial_num = serial,
           ex_src_pos = (if i = ITEM_GOLD then 255 else word_of_nat SLOT_MAX + pos), ex_dst_pos = 0\<rparr>"
        "wsessions w' = wsessions (if new then add_exchange_item s x w1 else w1)"
proof -
  obtain pos rd1 where r1: "read_u8 rd = (pos, rd1)" by fastforce
  obtain i rd2 where r2: "read_u32 rd1 = (i, rd2)" by fastforce
  obtain n rd3 where r3: "read_u32 rd2 = (n, rd3)" by fastforce
  let ?o = "if unwrap_or 0 i = ITEM_GOLD then offer_gold s (unwrap_or 0 n) w
    else offer_item s (unwrap_or 0 pos) (unwrap_or 0 i) (unwrap_or 0 n) w"
  show thesis
  proof (cases "w' = w \<or> w' = snd (send_add_fail s w) \<or> w' = snd (exchange_cancel e s w)")
    case True
    then show thesis using failed cancelled by blast
  next
    case False
    then obtain p dur serial new w1 where p: "get_exchange_user s w = Some p"
      "get_trade_state s w = TRADE_STATE_TRADING"
      "addable (unwrap_or 0 pos) (unwrap_or 0 i) (unwrap_or 0 n) w" "\<not> window_full s w"
      "\<not> add_must_cancel e s p w"
      and q: "\<not> (get_trade_state p w \<noteq> TRADE_STATE_TRADING \<and> get_trade_state p w \<noteq> TRADE_STATE_DECIDING)"
        "\<not> (is_mining s w \<or> is_fishing s w \<or> is_merchanting s w \<or> is_selling_merchant_preparing s w)"
      and o: "?o = Some (dur, serial, new, w1)"
      unfolding w' exchange_add_def r1 r2 r3 Let_def split
      by (auto split: option.splits if_splits)
    let ?x = "\<lparr>ex_item_id = unwrap_or 0 i, ex_count = unwrap_or 0 n, ex_durability = dur,
      ex_serial_num = serial, ex_src_pos = (if unwrap_or 0 i = ITEM_GOLD then 255
        else word_of_nat SLOT_MAX + unwrap_or 0 pos), ex_dst_pos = 0\<rparr>"
    have "wsessions w' = wsessions (if new then add_exchange_item s ?x w1 else w1)"
      unfolding w' exchange_add_def r1 r2 r3 Let_def split p(1) option.case o
        if_not_P [OF q(1)] if_not_P [OF q(2)]
      using p by (simp add: split_def session_send_def)
    then show thesis using offered [OF p o refl] by blast
  qed
qed

lemma observe_cong: "wsessions w = wsessions w' \<Longrightarrow> observe f w = observe f w'"
  by (simp add: observe_def fun_eq_iff)

lemma add_step:
  assumes "trade_inv (tview w)" "all_open w"
  shows "trade_step (tview w) (tview (snd (exchange_add e s rd w)))"
proof (rule add_cases [OF refl, of e s rd w])
  fix p pos i n dur serial new w1 x
  assume p: "get_exchange_user s w = Some p" "get_trade_state s w = TRADE_STATE_TRADING"
    and o: "(if i = ITEM_GOLD then offer_gold s n w else offer_item s pos i n w) = Some (dur, serial, new, w1)"
    and w': "wsessions (snd (exchange_add e s rd w)) = wsessions (if new then add_exchange_item s x w1 else w1)"
  obtain xs where s: "tview w s = Some (TRADE_STATE_TRADING, Some p, xs)"
    using p by (cases "tview w s") (auto simp: get_exchange_user_view get_trade_state_view)
  obtain xs' where w1: "tview w1 = (tview w)(s \<mapsto> (TRADE_STATE_TRADING, Some p, xs'))"
    using offer_view [OF s o] by blast
  show ?thesis
    unfolding observe_cong [OF w']
    using w1 trade_step.offer [of "tview w" s p xs, OF s] by (cases new) simp_all
qed (use cancel_step [OF assms, of e s] in \<open>auto intro: trade_step.stay\<close>)

lemma fail_view:
  assumes "tview w s = Some (x, Some p, xs)" "tview w p = Some (y, Some s, ys)" "p \<noteq> s"
  shows "tview (fail_exchange s p w) = (tview w)(s \<mapsto> idle, p \<mapsto> idle)"
  using assms by (simp add: fail_exchange_def Let_def)

lemma execute_view:
  assumes "tview w s = Some (x, Some p, xs)" "tview w p = Some (y, Some s, ys)" "p \<noteq> s"
  shows "tview (execute_exchange e s p w) = (tview w)(s \<mapsto> idle, p \<mapsto> idle)"
  using assms by (simp add: execute_exchange_def Let_def split_def)

lemma decide_step:
  assumes "trade_inv (tview w)"
  shows "trade_step (tview w) (tview (snd (exchange_decide e s w)))"
proof (cases "tview (snd (exchange_decide e s w)) = tview w")
  case True
  then show ?thesis by (simp add: trade_step.stay)
next
  case False
  then obtain p where p: "get_trade_state s w = TRADE_STATE_TRADING" "get_exchange_user s w = Some p"
    by (auto simp: exchange_decide_def split: option.splits if_splits)
  then obtain xs where s: "tview w s = Some (TRADE_STATE_TRADING, Some p, xs)"
    by (cases "tview w s") (auto simp: get_exchange_user_view get_trade_state_view)
  then obtain y ys where t: "p \<noteq> s" "tview w p = Some (y, Some s, ys)"
    using trade_invD [OF assms s] by auto
  let ?w1 = "set_trade_state s TRADE_STATE_DECIDING w"
  have w1: "tview ?w1 = (tview w)(s \<mapsto> (TRADE_STATE_DECIDING, Some p, xs))" using s by simp
  have s1: "tview ?w1 s = Some (TRADE_STATE_DECIDING, Some p, xs)" "tview ?w1 p = Some (y, Some s, ys)"
    using w1 t by simp_all
  have closed: "tview (fail_exchange s p ?w1) = (tview w)(s \<mapsto> idle, p \<mapsto> idle)"
    "tview (execute_exchange e s p ?w1) = (tview w)(s \<mapsto> idle, p \<mapsto> idle)"
    unfolding fail_view [OF s1 t(1)] execute_view [OF s1 t(1)] w1 by simp_all
  show ?thesis
  proof (cases "y = TRADE_STATE_TRADING")
    case True
    then have "tview (snd (exchange_decide e s w)) \<in> {tview w, tview ?w1}"
      using p t by (auto simp: exchange_decide_def get_trade_state_view)
    then show ?thesis
      using False w1 trade_step.decide [of "tview w" s p xs ys, OF s] t(2) True by auto
  next
    case other: False
    then have "y = TRADE_STATE_DECIDING" using trade_invD [OF assms s] t(2) by auto
    then have "tview (snd (exchange_decide e s w)) \<in> {tview w, tview (fail_exchange s p ?w1),
        tview (execute_exchange e s p ?w1)}"
      using p t by (auto simp: exchange_decide_def get_trade_state_view Let_def)
    then show ?thesis using False trade_step.close [OF s t(2)] unfolding closed by auto
  qed
qed

lemma handle_step:
  assumes "trade_inv (tview w)" "all_open w"
  shows "trade_step (tview w) (tview (snd (handle_exchange e st s pkt w)))"
  using req_step [OF assms] agree_step [OF assms(1)] add_step [OF assms] decide_step [OF assms(1)]
    cancel_step [OF assms]
  by (auto simp: handle_exchange_def split_def Let_def intro: trade_step.stay)

lemma open_misc [simp]:
  "observe tx_open (trade_agree s w) = observe tx_open w"
  "observe tx_open (trade_decline s w) = observe tx_open w"
  "observe tx_open (snd (drop_trade s p w)) = observe tx_open w"
  "observe tx_open (fail_exchange s p w) = observe tx_open w"
  "observe tx_open (execute_exchange e s p w) = observe tx_open w"
  by (simp_all add: trade_agree_def trade_decline_def drop_trade_def fail_exchange_def
      execute_exchange_def Let_def split_def split: option.splits)

lemma open_cancel [simp]: "observe tx_open (snd (exchange_cancel e s w)) = observe tx_open w"
  by (simp add: exchange_cancel_def Let_def split_def split: option.splits)

lemma open_offer:
  "(if i = ITEM_GOLD then offer_gold s n w else offer_item s pos i n w) = Some (dur, serial, new, w1)
    \<Longrightarrow> observe tx_open w1 = observe tx_open w"
  by (auto simp: offer_gold_def offer_item_def split_def Let_def split: option.splits if_splits)

lemma open_handle [simp]: "observe tx_open (snd (handle_exchange e st s pkt w)) = observe tx_open w"
proof -
  have "observe tx_open (snd (exchange_req e s rd w)) = observe tx_open w" for rd
    by (auto simp: exchange_req_def Let_def split: option.splits)
  moreover have "observe tx_open (snd (exchange_agree e s rd w)) = observe tx_open w" for rd
    by (auto simp: exchange_agree_def Let_def split_def split: option.splits)
  moreover have "observe tx_open (snd (exchange_decide e s w)) = observe tx_open w"
    by (auto simp: exchange_decide_def Let_def split: option.splits)
  moreover have "observe tx_open (snd (exchange_add e s rd w)) = observe tx_open w" for rd
  proof (rule add_cases [OF refl, of e s rd w])
    fix p pos i n dur serial new w1 x
    assume o: "(if i = ITEM_GOLD then offer_gold s n w else offer_item s pos i n w) = Some (dur, serial, new, w1)"
      and w': "wsessions (snd (exchange_add e s rd w)) = wsessions (if new then add_exchange_item s x w1 else w1)"
    show ?thesis
      unfolding observe_cong [OF w'] using open_offer [OF o] by (cases new) simp_all
  qed auto
  ultimately show ?thesis by (simp add: handle_exchange_def split_def Let_def)
qed

lemma cleanup_view:
  assumes "trade_inv (tview w)"
  shows "trade_step (tview w) (tview (cleanup_exchange s w))"
proof (cases "get_exchange_user s w")
  case None
  then show ?thesis by (simp add: cleanup_exchange_def is_trading_view trade_step.stay)
next
  case (Some p)
  obtain x xs where s: "tview w s = Some (x, Some p, xs)"
    using Some by (cases "tview w s") (auto simp: get_exchange_user_view)
  obtain y ys where p: "p \<noteq> s" "tview w p = Some (y, Some s, ys)"
    using trade_invD [OF assms s] by auto
  have "tview (cleanup_exchange s w) = (tview w)(s \<mapsto> idle, p \<mapsto> idle)"
    using Some s p by (simp add: cleanup_exchange_def is_trading_view Let_def)
  then show ?thesis using trade_step.close [OF s p(2)] by simp
qed

lemma open_cleanup [simp]: "observe tx_open (cleanup_exchange s w) = observe tx_open w"
  by (simp add: cleanup_exchange_def Let_def split: option.splits)

subsection \<open>The invariant of the server\<close>

inductive served :: "env \<Rightarrow> world \<Rightarrow> world \<Rightarrow> bool" for e and w0 where
  start: "served e w0 w0"
| packet: "served e w0 w \<Longrightarrow> served e w0 (snd (handle_exchange e st s pkt w))"
| leave: "served e w0 w \<Longrightarrow> served e w0 (cleanup_exchange s w)"

definition nobody_trades :: "world \<Rightarrow> bool" where
  "nobody_trades w \<longleftrightarrow> (\<forall>s v. tview w s = Some v \<longrightarrow> v = idle)"

lemma nobody_trades_inv: "nobody_trades w \<Longrightarrow> trade_inv (tview w)"
  unfolding nobody_trades_def trade_inv_def by (metis paired_simps(3))

lemma served_inv:
  assumes "served e w0 w" "trade_inv (tview w0)" "all_open w0"
  shows "trade_inv (tview w) \<and> all_open w"
  using assms
proof (induction rule: served.induct)
  case (packet w st s pkt)
  then show ?case using trade_step_inv [OF handle_step] all_open_cong [OF open_handle] by blast
next
  case (leave w s)
  then show ?case using trade_step_inv [OF cleanup_view] all_open_cong [OF open_cleanup] by blast
qed simp


lemma demo_view: "tview demo_world = [1 \<mapsto> idle, 2 \<mapsto> idle]"
  by (auto simp: observe_def demo_world_def demo_handle_def tv_def idle_def fun_eq_iff)

lemma demo_idle: "nobody_trades demo_world" "all_open demo_world"
proof -
  show "nobody_trades demo_world" unfolding nobody_trades_def demo_view by simp
  show "all_open demo_world"
    by (auto simp: all_open_def observe_def demo_world_def demo_handle_def split: if_splits)
qed




text \<open>A cancel whose own channel is already closed stops half-way: the canceller is reset, but the
  partner goes on pointing at it, with the trade state and the offers as they were.\<close>

theorem cancel_on_closed_channel_strands_partner:
  assumes "tview w s = Some (x, Some p, xs)" and "x \<noteq> TRADE_STATE_NONE"
    and "observe tx_open w s = Some False"
  shows "fst (exchange_cancel e s w) = False
    \<and> tview (snd (exchange_cancel e s w)) = (tview w)(s \<mapsto> idle)"
proof -
  let ?w1 = "reset_trade s (exchange_give_items_back s w)"
  have "observe tx_open ?w1 s = Some False" using assms(3) by simp
  then have "\<not> fst (session_send s q ?w1)" for q
    by (auto simp: session_send_def session_or_observe)
  then show ?thesis
    using assms(1,2) by (simp add: exchange_cancel_def get_trade_state_view split_def Let_def)
qed

theorem cancel_on_closed_channel_strands_partner_witness:
  defines "w \<equiv> modify_session 1 (\<lambda>h. h\<lparr>tx_open := False\<rparr>)
      (trade_agree 2 (init_trade_request 1 2 demo_world))"
  shows "get_exchange_user 1 (snd (exchange_cancel demo_env 1 w)) = None
    \<and> get_exchange_user 2 (snd (exchange_cancel demo_env 1 w)) = Some 1"
proof -
  have v: "tview w = [1 \<mapsto> (TRADE_STATE_TRADING, Some 2, []), 2 \<mapsto> (TRADE_STATE_TRADING, Some 1, [])]"
    "observe tx_open w 1 = Some False"
    by (auto simp: w_def observe_def trade_agree_def init_trade_request_def set_trade_state_def Let_def
        get_exchange_user_def session_or_def demo_world_def demo_handle_def tv_def fun_eq_iff)
  from cancel_on_closed_channel_strands_partner [of w 1 TRADE_STATE_TRADING 2 "[]" demo_env] show ?thesis
    using v by (simp add: get_exchange_user_view idle_def)
qed

end
