(* ===== verification/Exchange_Gold.thy ===== *)
theory Exchange_Gold
  imports Exchange_Refine
begin

text \<open>
  Gold in trades. A player's wealth is the gold carried plus the gold lying in the trade window; the
  handlers only move it. What a leaving player's trade does to it is stated too.
\<close>

definition offered :: "exchange_item list \<Rightarrow> nat" where
  "offered xs = (\<Sum>x \<leftarrow> filter (\<lambda>x. ex_item_id x = ITEM_GOLD) xs. unat (ex_count x))"

lemma offered_simps [simp]:
  "offered [] = 0"
  "offered (x # xs) = (if ex_item_id x = ITEM_GOLD then unat (ex_count x) else 0) + offered xs"
  "offered (xs @ ys) = offered xs + offered ys"
  by (simp_all add: offered_def)

definition wealth :: "sid \<Rightarrow> world \<Rightarrow> nat" where
  "wealth s w = gold_of s w + offered (get_exchange_items s w)"

subsection \<open>Which operations touch gold\<close>

lemma gold_of_modify: "(\<And>h. character (f h) = character h) \<Longrightarrow> gold_of t (modify_session s f w) = gold_of t w"
  by (cases "wsessions w s") (simp_all add: gold_of_def get_character_info_def)

lemma in_game_modify: "(\<And>h. character (f h) = character h) \<Longrightarrow> in_game t (modify_session s f w) = in_game t w"
  by (cases "wsessions w s") (simp_all add: in_game_def get_character_info_def)

lemma trade_ops_gold [simp]:
  "gold_of t (reset_trade s w) = gold_of t w"
  "gold_of t (set_trade_state s x w) = gold_of t w"
  "gold_of t (add_exchange_item s y w) = gold_of t w"
  "gold_of t (snd (update_exchange_item_count s i n w)) = gold_of t w"
  "gold_of t (init_trade_request s p w) = gold_of t w"
  "gold_of t (remove_from_merchant_lookers s w) = gold_of t w"
  "gold_of t (snd (update_inventory s d u w)) = gold_of t w"
  "gold_of t (send_inventory_refresh e s w) = gold_of t w"
  by (auto simp: reset_trade_def set_trade_state_def add_exchange_item_def init_trade_request_def
      update_exchange_item_count_def remove_from_merchant_lookers_def set_browsing_merchant_def
      update_inventory_def send_inventory_refresh_def Let_def gold_of_modify split: option.splits)

lemma trade_ops_in_game [simp]:
  "in_game t (reset_trade s w) = in_game t w"
  "in_game t (set_trade_state s x w) = in_game t w"
  "in_game t (add_exchange_item s y w) = in_game t w"
  "in_game t (snd (update_exchange_item_count s i n w)) = in_game t w"
  "in_game t (init_trade_request s p w) = in_game t w"
  "in_game t (remove_from_merchant_lookers s w) = in_game t w"
  "in_game t (snd (update_inventory s d u w)) = in_game t w"
  "in_game t (send_inventory_refresh e s w) = in_game t w"
  by (auto simp: reset_trade_def set_trade_state_def add_exchange_item_def init_trade_request_def
      update_exchange_item_count_def remove_from_merchant_lookers_def set_browsing_merchant_def
      update_inventory_def send_inventory_refresh_def Let_def in_game_modify split: option.splits)

lemma gold_ops_in_game [simp]:
  "in_game t (gold_gain s n w) = in_game t w" "in_game t (snd (gold_lose s n w)) = in_game t w"
  by (simp_all add: gold.owner_kept)

lemma ability_gold [simp]:
  "gold_of t (set_user_ability e s w) = gold_of t w" "in_game t (set_user_ability e s w) = in_game t w"
  by (cases "wsessions w s"; cases "wsessions w t";
      auto simp: gold_of_def in_game_def get_character_info_def set_user_ability_session
      option.map_sel split: option.splits)+

lemma sends_gold [simp]:
  "gold_of t (snd (session_send s p w)) = gold_of t w" "in_game t (snd (session_send s p w)) = in_game t w"
  "gold_of t (snd (send_cancel s w)) = gold_of t w" "in_game t (snd (send_cancel s w)) = in_game t w"
  "gold_of t (snd (send_add_fail s w)) = gold_of t w" "in_game t (snd (send_add_fail s w)) = in_game t w"
  by (simp_all add: session_send_def send_cancel_def send_add_fail_def)

lemma gold_gain_le:
  "gold_of s w \<le> 2100000000 \<Longrightarrow> in_game s w \<Longrightarrow>
    gold_of t (gold_gain s n w) = (if t = s then min 2100000000 (gold_of s w + unat n) else gold_of t w)"
  using gold.gain_balance [of t s n w] by (simp add: COIN_MAX_def)

text \<open>Handing out a list of offers, to give them back or to the partner, pays their gold.\<close>

lemma fold_gain:
  assumes step: "\<And>x w. gold_of t (g x w) = gold_of t (if ex_item_id x = ITEM_GOLD then gold_gain s (ex_count x) w else w)"
    and ig: "\<And>x w. in_game s (g x w) = in_game s w"
    and "gold_of s w \<le> 2100000000" "in_game s w"
    and all: "\<And>x w. gold_of s (g x w) = gold_of s (if ex_item_id x = ITEM_GOLD then gold_gain s (ex_count x) w else w)"
  shows "gold_of t (fold g xs w) = (if t = s then min 2100000000 (gold_of s w + offered xs) else gold_of t w)"
  using assms(3,4)
proof (induction xs arbitrary: w)
  case (Cons x xs)
  have "gold_of s (g x w) \<le> 2100000000" using Cons.prems by (simp add: all gold_gain_le)
  moreover have "in_game s (g x w)" using Cons.prems ig by simp
  ultimately have "gold_of t (fold g xs (g x w)) =
      (if t = s then min 2100000000 (gold_of s (g x w) + offered xs) else gold_of t (g x w))"
    by (rule Cons.IH)
  then show ?case using Cons.prems by (auto simp: all step gold_gain_le)
qed simp

lemma give_back_gold:
  assumes "gold_of s w \<le> 2100000000" "in_game s w"
  shows "gold_of t (exchange_give_items_back s w) =
    (if t = s then min 2100000000 (gold_of s w + offered (get_exchange_items s w)) else gold_of t w)"
  unfolding exchange_give_items_back_def
  by (rule fold_gain [OF _ _ assms]) (simp_all add: give_back_one_def)

lemma give_back_in_game [simp]: "in_game t (exchange_give_items_back s w) = in_game t w"
proof -
  have "in_game t (fold (give_back_one s) xs w) = in_game t w" for xs
    by (induction xs arbitrary: w) (simp_all add: give_back_one_def)
  then show ?thesis by (simp add: exchange_give_items_back_def)
qed

lemma receive_gold:
  assumes "gold_of s w \<le> 2100000000" "in_game s w"
  shows "gold_of t (snd (receive_all s xs w)) =
    (if t = s then min 2100000000 (gold_of s w + offered xs) else gold_of t w)"
    and "in_game t (snd (receive_all s xs w)) = in_game t w"
proof -
  define g where "g x v = (if ex_item_id x = ITEM_GOLD then gold_gain s (ex_count x) v else v)"
    for x :: exchange_item and v
  have one: "gold_of q (snd (receive_one s x acc)) = gold_of q (g x (snd acc))
    \<and> in_game q (snd (receive_one s x acc)) = in_game q (snd acc)" for q x acc
    by (simp add: receive_one_def g_def split_def Let_def split: option.splits)
  have "in_game q (snd (fold (receive_one s) xs acc)) = in_game q (snd acc)" for q acc
    by (induction xs arbitrary: acc) (simp_all add: one)
  then show "in_game t (snd (receive_all s xs w)) = in_game t w" by (simp add: receive_all_def)
  have "gold_of q (snd (fold (receive_one s) xs acc)) =
      (if q = s then min 2100000000 (gold_of s (snd acc) + offered xs) else gold_of q (snd acc))"
    if "gold_of s (snd acc) \<le> 2100000000" "in_game s (snd acc)" for q acc
    using that
  proof (induction xs arbitrary: acc)
    case (Cons x xs)
    have "gold_of s (snd (receive_one s x acc)) \<le> 2100000000" "in_game s (snd (receive_one s x acc))"
      using Cons.prems by (simp_all add: one g_def gold_gain_le)
    from Cons.IH [OF this] show ?case using Cons.prems by (auto simp: one g_def gold_gain_le)
  qed simp
  from this [of "([], w)"] assms show "gold_of t (snd (receive_all s xs w)) =
    (if t = s then min 2100000000 (gold_of s w + offered xs) else gold_of t w)"
    by (simp add: receive_all_def)
qed

lemma clear_gold [simp]:
  "gold_of t (fold (clear_source s) xs w) = gold_of t w" "in_game t (fold (clear_source s) xs w) = in_game t w"
  by (induction xs arbitrary: w) (simp_all add: clear_source_def)

subsection \<open>The checks guarantee room for the gold\<close>

lemma check_step_None: "foldl (check_step s w) None xs = None"
  by (induction xs) (simp_all add: check_step_def)

lemma u64_sum: "unat ((ucast (a :: u32) :: u64) + ucast (b :: u32)) = unat a + unat b"
proof -
  have "unat a < 2 ^ 63" "unat b < 2 ^ 63" by (rule unat_less_wider, simp)+
  then show ?thesis by (simp add: unat_word_ariths(1))
qed

lemma check_fold_gold:
  assumes "foldl (check_step s w) (Some acc) xs = Some r" "x \<in> set xs" "ex_item_id x = ITEM_GOLD"
  shows "gold_of s w + unat (ex_count x) \<le> 2100000000"
  using assms
proof (induction xs arbitrary: acc)
  case (Cons y ys)
  from Cons.prems(1) obtain acc' where y: "check_step s w (Some acc) y = Some acc'"
    by (cases "check_step s w (Some acc) y") (simp_all add: check_step_None)
  show ?case
  proof (cases "x = y")
    case True
    then show ?thesis
      using y Cons.prems(3)
      by (auto simp: check_step_def split_def gold_of_def COIN_MAX_def word_less_nat_alt u64_sum
          split: option.splits if_splits)
  next
    case False
    then show ?thesis using Cons.IH [of acc'] Cons.prems y by simp
  qed
qed simp

lemma check_exchange_gold:
  assumes "check_exchange s w" "get_exchange_user s w = Some p"
    and "length (filter (\<lambda>x. ex_item_id x = ITEM_GOLD) (get_exchange_items p w)) \<le> 1"
    and "gold_of s w \<le> 2100000000"
  shows "gold_of s w + offered (get_exchange_items p w) \<le> 2100000000"
proof (cases "filter (\<lambda>x. ex_item_id x = ITEM_GOLD) (get_exchange_items p w)")
  case Nil
  then show ?thesis using assms(4) by (simp add: offered_def)
next
  case (Cons x xs)
  then have "xs = []" using assms(3) by simp
  moreover have "x \<in> set (filter (\<lambda>x. ex_item_id x = ITEM_GOLD) (get_exchange_items p w))"
    unfolding Cons by simp
  then have "x \<in> set (get_exchange_items p w)" "ex_item_id x = ITEM_GOLD" by simp_all
  moreover have "foldl (check_step s w) (Some (0, 0)) (get_exchange_items p w) \<noteq> None"
    using assms(1,2) by (auto simp: check_exchange_def split: if_splits option.splits)
  ultimately show ?thesis
    using check_fold_gold Cons by (fastforce simp: offered_def)
qed

subsection \<open>Every handler only moves gold\<close>

definition one_gold :: "exchange_item list \<Rightarrow> bool" where
  "one_gold xs \<longleftrightarrow> length (filter (\<lambda>x. ex_item_id x = ITEM_GOLD) xs) \<le> 1"

definition gold_ok :: "world \<Rightarrow> bool" where
  \<comment> \<open>nobody's wealth is above the cap, who trades is in the game, gold is one entry of the window\<close>
  "gold_ok w \<longleftrightarrow> (\<forall>s. wealth s w \<le> 2100000000 \<and> (get_exchange_user s w \<noteq> None \<longrightarrow> in_game s w)
     \<and> one_gold (get_exchange_items s w))"

definition kept :: "world \<Rightarrow> world \<Rightarrow> bool" where
  \<comment> \<open>no wealth changed, and the other conditions hold again\<close>
  "kept w w' \<longleftrightarrow> (\<forall>t. wealth t w' = wealth t w) \<and> gold_ok w'"

definition moved :: "sid \<Rightarrow> sid \<Rightarrow> world \<Rightarrow> world \<Rightarrow> bool" where
  \<comment> \<open>wealth went from one of two players to the other\<close>
  "moved s p w w' \<longleftrightarrow> wealth s w' + wealth p w' = wealth s w + wealth p w
     \<and> (\<forall>t. t \<noteq> s \<and> t \<noteq> p \<longrightarrow> wealth t w' = wealth t w) \<and> gold_ok w'"

lemma gold_okD:
  assumes "gold_ok w"
  shows "gold_of s w \<le> 2100000000" "wealth s w \<le> 2100000000"
    "gold_of s w + offered (get_exchange_items s w) \<le> 2100000000"
    "tview w s = Some (x, Some p, xs) \<Longrightarrow> in_game s w" "one_gold (get_exchange_items s w)"
proof -
  have "wealth s w \<le> 2100000000" using assms by (simp add: gold_ok_def)
  then show "gold_of s w \<le> 2100000000" "wealth s w \<le> 2100000000"
    "gold_of s w + offered (get_exchange_items s w) \<le> 2100000000" by (simp_all add: wealth_def)
  show "one_gold (get_exchange_items s w)" using assms by (simp add: gold_ok_def)
  show "tview w s = Some (x, Some p, xs) \<Longrightarrow> in_game s w"
    using assms by (auto simp: gold_ok_def get_exchange_user_view)
qed

lemma one_gold_Nil [simp]: "one_gold []"
  by (simp add: one_gold_def)

lemma kept_refl: "gold_ok w \<Longrightarrow> kept w w"
  by (simp add: kept_def)

lemma kept_same:
  assumes "gold_ok w" "\<And>t. gold_of t w' = gold_of t w" "\<And>t. in_game t w' = in_game t w"
    and "tview w' = tview w"
  shows "kept w w'"
  using assms
  by (simp add: kept_def gold_ok_def wealth_def get_exchange_items_view get_exchange_user_view)

lemma kept_pair:
  \<comment> \<open>the trade of two players was closed and what they offered is theirs again\<close>
  assumes "gold_ok w" "tview w' = (tview w)(s \<mapsto> idle, p \<mapsto> idle)" "\<And>t. in_game t w' = in_game t w"
    and "\<And>t. gold_of t w' = (if t = s \<or> t = p then wealth t w else gold_of t w)"
  shows "kept w w'"
  using assms
  by (auto simp: kept_def gold_ok_def wealth_def get_exchange_items_view get_exchange_user_view idle_def)

lemma give_back_wealth:
  assumes "gold_of s w + offered (get_exchange_items s w) \<le> 2100000000" "in_game s w"
  shows "gold_of t (exchange_give_items_back s w) = (if t = s then wealth s w else gold_of t w)"
  using give_back_gold [of s w t] assms by (simp add: wealth_def)

lemma wealth_view: "gold_of s w' = gold_of s w \<Longrightarrow> tview w' s = tview w s \<Longrightarrow> wealth s w' = wealth s w"
  by (simp add: wealth_def get_exchange_items_view)

lemma cancel_kept:
  assumes "trade_inv (tview w)" "all_open w" "gold_ok w"
  shows "kept w (snd (exchange_cancel e s w))"
proof (cases "get_trade_state s w = TRADE_STATE_NONE")
  case True
  then show ?thesis by (simp add: exchange_cancel_def kept_refl assms(3))
next
  case False
  then obtain x u xs where s: "tview w s = Some (x, u, xs)" "x \<noteq> TRADE_STATE_NONE"
    by (cases "tview w s") (auto simp: get_trade_state_view)
  then obtain p y ys where u: "u = Some p" "p \<noteq> s" "tview w p = Some (y, Some s, ys)" "(x, y) \<in> phases"
    using trade_invD [OF assms(1) s(1)] by (cases u) auto
  then have y: "y \<noteq> TRADE_STATE_NONE" by auto
  define w3 where "w3 = send_inventory_refresh e s (snd (session_send s (exchange_packet EXCHANGE_CANCEL)
    (reset_trade s (exchange_give_items_back s w))))"
  have ok: "fst (session_send s q (reset_trade s (exchange_give_items_back s w)))" for q
    using s assms(2) by (intro all_open_send) (simp_all add: all_open_def)
  have w3: "tview w3 = (tview w)(s \<mapsto> idle)" "\<And>t. in_game t w3 = in_game t w"
    "\<And>t. gold_of t w3 = (if t = s then wealth s w else gold_of t w)"
    using s gold_okD [OF assms(3)] gold_okD(4) [OF assms(3), of s] u(1)
    by (simp_all add: w3_def give_back_wealth)
  have result: "snd (exchange_cancel e s w) = send_inventory_refresh e p
      (send_to_session p (exchange_packet EXCHANGE_CANCEL) (reset_trade p (exchange_give_items_back p w3)))"
    using False s u y ok w3(1)
    by (simp add: exchange_cancel_def split_def Let_def get_exchange_user_view w3_def [symmetric]
        get_trade_state_view)
  have p: "gold_of p w3 + offered (get_exchange_items p w3) \<le> 2100000000" "in_game p w3"
    "wealth p w3 = wealth p w"
    using w3 u gold_okD [OF assms(3), of p] by (simp_all add: get_exchange_items_view wealth_def)
  show ?thesis
    by (rule kept_pair [OF assms(3), where s = s and p = p])
      (use w3 u p in \<open>simp_all add: result give_back_wealth\<close>)
qed

lemma kept_items:
  assumes "gold_ok w" "\<And>t. gold_of t w' = gold_of t w" "\<And>t. in_game t w' = in_game t w"
    and "\<And>t. get_exchange_items t w' = get_exchange_items t w"
    and "\<And>t. get_exchange_user t w' \<noteq> None \<Longrightarrow> in_game t w"
  shows "kept w w'"
  using assms by (simp add: kept_def gold_ok_def wealth_def)

lemma traders_in_game: "gold_ok w \<Longrightarrow> get_exchange_user t w \<noteq> None \<Longrightarrow> in_game t w"
  by (simp add: gold_ok_def)

lemma empty_pair_kept:
  \<comment> \<open>closing a trade in which nothing was offered yet\<close>
  assumes "gold_ok w" "tview w s = Some (x, Some p, [])" "tview w p = Some (y, Some s, [])"
    and "tview w' = (tview w)(s \<mapsto> idle, p \<mapsto> idle)"
    and "\<And>t. gold_of t w' = gold_of t w" "\<And>t. in_game t w' = in_game t w"
  shows "kept w w'"
  by (rule kept_pair [OF assms(1,4,6)]) (use assms(2,3,5) in \<open>auto simp: wealth_def get_exchange_items_view\<close>)

lemma identity_in_game: "identity s w \<noteq> None \<Longrightarrow> in_game s w"
  by (cases "wsessions w s") (auto simp: identity_def in_game_def get_character_info_def)

lemma req_kept:
  assumes "trade_inv (tview w)" "all_open w" "gold_ok w"
  shows "kept w (snd (exchange_req e s rd w))"
proof (cases "is_trading s w")
  case True
  then show ?thesis using cancel_kept [OF assms] by (simp add: exchange_req_def Let_def)
next
  case False
  define t where "t = unwrap_or 0 (fst (read_u16 rd))"
  let ?w1 = "init_trade_request s t w" and ?w' = "snd (exchange_req e s rd w)"
  have "?w' \<in> {w, snd (send_cancel s w)}
      \<or> t \<noteq> s \<and> identity s w \<noteq> None \<and> identity t w \<noteq> None \<and> wsessions ?w' = wsessions ?w1"
    using False unfolding exchange_req_def Let_def t_def [symmetric]
    by (auto split: option.splits if_splits)
  then show ?thesis
  proof (elim disjE conjE)
    assume "?w' \<in> {w, snd (send_cancel s w)}"
    then show ?thesis using kept_refl assms(3) by (auto intro!: kept_same)
  next
    assume r: "t \<noteq> s" "identity s w \<noteq> None" "identity t w \<noteq> None" "wsessions ?w' = wsessions ?w1"
    have g: "gold_of q ?w' = gold_of q w" "in_game q ?w' = in_game q w" for q
      using trade_ops_gold(5) [of q s t w] trade_ops_in_game(5) [of q s t w] r(4)
      by (simp_all add: gold_of_def in_game_def get_character_info_def)
    have v: "tview ?w' = tview ?w1" by (rule observe_cong [OF r(4)])
    show ?thesis
      by (rule kept_items [OF assms(3) g])
        (use r traders_in_game [OF assms(3)] identity_in_game
          in \<open>auto simp: v get_exchange_items_view get_exchange_user_view fun_upd_def split: option.splits if_splits\<close>)
  qed
qed

lemma kept_cong:
  assumes "wsessions v = wsessions v'"
  shows "kept w v = kept w v'"
proof -
  have "wealth t v = wealth t v'" "in_game t v = in_game t v'"
    "get_exchange_user t v = get_exchange_user t v'" "get_exchange_items t v = get_exchange_items t v'" for t
    using assms by (simp_all add: wealth_def gold_of_def in_game_def get_character_info_def
        get_exchange_items_def get_exchange_user_def session_or_def)
  then show ?thesis by (simp add: kept_def gold_ok_def)
qed

lemma agree_kept:
  assumes "trade_inv (tview w)" "gold_ok w"
  shows "kept w (snd (exchange_agree e s rd w))"
proof (cases "get_exchange_user s w \<noteq> None \<and> get_trade_state s w = TRADE_STATE_TARGET")
  case False
  then show ?thesis using kept_refl [OF assms(2)] kept_same [OF assms(2), of "snd (send_cancel s w)"]
    by (auto simp: exchange_agree_def split: option.splits)
next
  case True
  then obtain p xs where s: "get_exchange_user s w = Some p" "tview w s = Some (TRADE_STATE_TARGET, Some p, xs)"
    by (cases "tview w s") (auto simp: get_exchange_user_view get_trade_state_view)
  have xs: "xs = []" "p \<noteq> s" using trade_invD [OF assms(1) s(2)] by auto
  obtain ys where ys: "tview w p = Some (TRADE_STATE_SENDER, Some s, ys)"
    using trade_invD [OF assms(1) s(2)] by auto
  then have p: "tview w p = Some (TRADE_STATE_SENDER, Some s, [])"
    using trade_invD [OF assms(1) ys] by auto
  let ?w' = "snd (exchange_agree e s rd w)"
  let ?drop = "snd (drop_trade s p w)" and ?yes = "remove_from_merchant_lookers s (trade_agree s w)"
  have cases: "wsessions ?w' = wsessions ?drop \<or> wsessions ?w' = wsessions (trade_decline s w)
      \<or> wsessions ?w' = wsessions ?yes"
    using True s by (simp add: exchange_agree_def Let_def split_def)
  have "kept w ?drop" "kept w (trade_decline s w)"
    by (rule empty_pair_kept [OF assms(2) s(2) [unfolded xs] p];
        use s p xs(2) in \<open>simp add: drop_trade_def trade_decline_def Let_def\<close>)+
  moreover have "kept w ?yes"
    by (rule kept_items [OF assms(2)])
      (use s p xs traders_in_game [OF assms(2)] in
        \<open>auto simp: trade_agree_def Let_def get_exchange_items_view get_exchange_user_view split: if_splits\<close>)
  ultimately show ?thesis using cases kept_cong by blast
qed

subsection \<open>Offering\<close>

lemma bump_miss:
  assumes "\<not> fst (bump_count i n xs)"
  shows "snd (bump_count i n xs) = xs" and "\<forall>x \<in> set xs. ex_item_id x \<noteq> i"
  using assms by (induction xs) (auto simp: apsnd_def map_prod_def split_def split: if_splits)

lemma bump_one_gold [simp]: "one_gold (snd (bump_count i n xs)) \<longleftrightarrow> one_gold xs"
proof -
  have "map ex_item_id (snd (bump_count i n xs)) = map ex_item_id xs" for xs
    by (induction xs) (auto simp: split_def)
  moreover have "one_gold ys \<longleftrightarrow> length (filter ((=) ITEM_GOLD) (map ex_item_id ys)) \<le> 1" for ys
    by (simp add: one_gold_def filter_map o_def eq_commute)
  ultimately show ?thesis by (simp only:)
qed

lemma bump_offered:
  "i \<noteq> ITEM_GOLD \<Longrightarrow> offered (snd (bump_count i n xs)) = offered xs"
  "fst (bump_count ITEM_GOLD n xs) \<Longrightarrow> offered xs + unat n \<le> 2100000000 \<Longrightarrow>
    offered (snd (bump_count ITEM_GOLD n xs)) = offered xs + unat n"
proof -
  show "i \<noteq> ITEM_GOLD \<Longrightarrow> offered (snd (bump_count i n xs)) = offered xs"
    by (induction xs) (auto simp: split_def)
  show "fst (bump_count ITEM_GOLD n xs) \<Longrightarrow> offered xs + unat n \<le> 2100000000 \<Longrightarrow>
    offered (snd (bump_count ITEM_GOLD n xs)) = offered xs + unat n"
    by (induction xs) (auto simp: split_def unat_saturating_add split: if_splits)
qed

lemma one_gold_snoc:
  "one_gold (xs @ [x]) \<longleftrightarrow> one_gold xs \<and> (ex_item_id x = ITEM_GOLD \<longrightarrow> (\<forall>y \<in> set xs. ex_item_id y \<noteq> ITEM_GOLD))"
  by (auto simp: one_gold_def filter_empty_conv)

lemma kept_offers:
  assumes ok: "gold_ok w" and s: "tview w s = Some (x, Some p, xs)"
    and v: "tview w' = (tview w)(s \<mapsto> (x, Some p, zs))" "one_gold zs"
    and g: "\<And>t. gold_of t w' + (if t = s then offered zs else 0) = gold_of t w + (if t = s then offered xs else 0)"
    and "\<And>t. in_game t w' = in_game t w"
  shows "kept w w'"
proof -
  have "wealth t w' = wealth t w" for t
    using g [of t] s by (auto simp: wealth_def get_exchange_items_view v split: if_splits)
  moreover have "one_gold (get_exchange_items t w')" for t
    using gold_okD(5) [OF ok, of t] v by (simp add: get_exchange_items_view)
  moreover have "get_exchange_user t w' \<noteq> None \<Longrightarrow> in_game t w" for t
    using traders_in_game [OF ok, of t] s by (auto simp: get_exchange_user_view v split: if_splits)
  ultimately show ?thesis
    using gold_okD(2) [OF ok] assms(6) by (simp add: kept_def gold_ok_def)
qed

lemma offer_gold_keeps:
  assumes ok: "gold_ok w" and s: "tview w s = Some (x, Some p, xs)"
    and o: "offer_gold s n w = Some (dur, serial, new, w1)"
    and y: "ex_item_id y = ITEM_GOLD" "ex_count y = n"
  shows "kept w (if new then add_exchange_item s y w1 else w1)"
proof -
  define found where "found = fst (bump_count ITEM_GOLD n xs)"
  obtain v where v: "update_exchange_item_count s ITEM_GOLD n w = (found, v)"
    and found: "tview v = (tview w)(s \<mapsto> (x, Some p, snd (bump_count ITEM_GOLD n xs)))"
    using s tview_bump [of s ITEM_GOLD n w]
    by (cases "wsessions w s")
      (auto simp: update_exchange_item_count_def found_def observe_def tv_def)
  obtain ch where ch: "get_character_info s w = Some ch" "n \<le> gold ch"
    and w1: "new = (\<not> found)" "w1 = snd (gold_lose s n v)"
    using o by (auto simp: offer_gold_def v not_less split: option.splits if_splits)
  have gv: "gold_of t v = gold_of t w" "in_game t v = in_game t w" for t
    using trade_ops_gold(4) [of t s ITEM_GOLD n w] trade_ops_in_game(4) [of t s ITEM_GOLD n w] v by simp_all
  have pays: "unat n \<le> gold_of s w" "in_game s w"
    using ch by (simp_all add: gold_of_def in_game_def word_le_nat_alt)
  then have "fst (gold_lose s n v)" using gold.pay_iff by (simp add: gv)
  then have gold1: "gold_of t w1 = gold_of t w - (if t = s then unat n else 0)" for t
    using gold.pay_balance [of s n v t] by (simp add: w1 gv)
  have sum: "offered xs + unat n \<le> 2100000000"
    using gold_okD(3) [OF ok, of s] pays s by (simp add: get_exchange_items_view)
  have v1: "tview w1 = (tview w)(s \<mapsto> (x, Some p, snd (bump_count ITEM_GOLD n xs)))"
    by (simp add: w1 found)
  let ?w' = "if new then add_exchange_item s y w1 else w1"
  define zs where "zs = (if found then snd (bump_count ITEM_GOLD n xs) else xs @ [y])"
  have v': "tview ?w' = (tview w)(s \<mapsto> (x, Some p, zs))"
    using bump_miss(1) [of ITEM_GOLD n xs] by (auto simp: v1 w1(1) zs_def found_def)
  have "offered zs = offered xs + unat n"
    using bump_offered(2) [of n xs] sum y by (simp add: zs_def found_def)
  moreover have "one_gold zs"
    using gold_okD(5) [OF ok, of s] s bump_miss(2) [of ITEM_GOLD n xs]
    by (auto simp: zs_def found_def one_gold_snoc get_exchange_items_view)
  moreover have "gold_of t ?w' = gold_of t w - (if t = s then unat n else 0)" "in_game t ?w' = in_game t w" for t
    by (simp_all add: gold1) (simp_all add: w1 gv)
  ultimately show ?thesis
    using pays by (intro kept_offers [OF ok s v']) auto
qed

lemma offer_item_keeps:
  assumes ok: "gold_ok w" and s: "tview w s = Some (x, Some p, xs)" and i: "i \<noteq> ITEM_GOLD"
    and o: "offer_item s pos i n w = Some (dur, serial, new, w1)"
    and y: "ex_item_id y = i"
  shows "kept w (if new then add_exchange_item s y w1 else w1)"
proof -
  have "\<exists>zs. tview w1 = (tview w)(s \<mapsto> (x, Some p, zs)) \<and> zs \<in> {xs, snd (bump_count i n xs)}"
    using o s by (auto simp: offer_item_def split_def Let_def fun_eq_iff split: option.splits if_splits)
  then obtain zs where v1: "tview w1 = (tview w)(s \<mapsto> (x, Some p, zs))"
    and zs: "offered zs = offered xs" "one_gold zs"
    using gold_okD(5) [OF ok, of s] s by (auto simp: bump_offered(1) [OF i] get_exchange_items_view)
  have g: "gold_of t w1 = gold_of t w" "in_game t w1 = in_game t w" for t
    using o by (auto simp: offer_item_def split_def Let_def split: option.splits if_splits)
  have v': "tview (if new then add_exchange_item s y w1 else w1) =
      (tview w)(s \<mapsto> (x, Some p, if new then zs @ [y] else zs))"
    by (simp add: v1)
  show ?thesis
    by (rule kept_offers [OF ok s v']) (use zs g i y in \<open>auto simp: one_gold_snoc\<close>)
qed

lemma add_kept:
  assumes "trade_inv (tview w)" "all_open w" "gold_ok w"
  shows "kept w (snd (exchange_add e s rd w))"
proof (rule add_cases [OF refl, of e s rd w])
  fix p pos i n dur serial new w1 x
  assume p: "get_exchange_user s w = Some p" "get_trade_state s w = TRADE_STATE_TRADING"
    and o: "(if i = ITEM_GOLD then offer_gold s n w else offer_item s pos i n w) = Some (dur, serial, new, w1)"
    and x: "x = \<lparr>ex_item_id = i, ex_count = n, ex_durability = dur, ex_serial_num = serial,
       ex_src_pos = (if i = ITEM_GOLD then 255 else word_of_nat SLOT_MAX + pos), ex_dst_pos = 0\<rparr>"
    and w': "wsessions (snd (exchange_add e s rd w)) = wsessions (if new then add_exchange_item s x w1 else w1)"
  obtain xs where s: "tview w s = Some (TRADE_STATE_TRADING, Some p, xs)"
    using p by (cases "tview w s") (auto simp: get_exchange_user_view get_trade_state_view)
  show ?thesis
    unfolding kept_cong [OF w']
    using offer_gold_keeps [OF assms(3) s, of n dur serial new w1 x]
      offer_item_keeps [OF assms(3) s _ _ , of i pos n dur serial new w1 x] o
    by (cases "i = ITEM_GOLD") (auto simp: x)
qed (use cancel_kept [OF assms, of e s] kept_refl [OF assms(3)] in \<open>auto intro!: kept_same [OF assms(3)]\<close>)

subsection \<open>Deciding\<close>

lemma fail_kept:
  assumes "gold_ok w" "tview w s = Some (x, Some p, xs)" "tview w p = Some (y, Some s, ys)" "p \<noteq> s"
  shows "kept w (fail_exchange s p w)"
proof -
  define q where "q = write_u8 0 (exchange_packet EXCHANGE_DONE)"
  define v where "v = exchange_give_items_back s (send_to_session p q (send_to_session s q w))"
  have s: "gold_of s w + offered (get_exchange_items s w) \<le> 2100000000" "in_game s w"
    and p: "gold_of p w + offered (get_exchange_items p w) \<le> 2100000000" "in_game p w"
    using gold_okD(3,4) [OF assms(1)] assms(2,3) by blast+
  have gv: "gold_of t v = (if t = s then wealth s w else gold_of t w)" "in_game t v = in_game t w"
    "tview v = tview w" for t
    using s by (simp_all add: v_def give_back_wealth wealth_def get_exchange_items_view)
  have gp: "gold_of t (exchange_give_items_back p v) = (if t = p then wealth p v else gold_of t v)" for t
    using p gv assms(4) by (intro give_back_wealth) (simp_all add: get_exchange_items_view)
  have result: "fail_exchange s p w = reset_trade p (reset_trade s (exchange_give_items_back p v))"
    by (simp add: fail_exchange_def Let_def v_def q_def)
  have "wealth p v = wealth p w"
    using gv assms(4) by (intro wealth_view) simp_all
  then have g: "gold_of t (fail_exchange s p w) = (if t = s \<or> t = p then wealth t w else gold_of t w)" for t
    using gv assms(4) by (simp add: result gp)
  show ?thesis
    by (rule kept_pair [OF assms(1) fail_view [OF assms(2-4)] _ g]) (simp add: result gv)
qed

lemma execute_moved:
  assumes ok: "gold_ok w" and s: "tview w s = Some (x, Some p, xs)" and p: "tview w p = Some (y, Some s, ys)"
    and "p \<noteq> s" and check: "check_exchange s w" "check_exchange p w"
  shows "moved s p w (execute_exchange e s p w)"
proof -
  let ?w' = "execute_exchange e s p w"
  have items: "get_exchange_items s w = xs" "get_exchange_items p w = ys"
    "get_exchange_user s w = Some p" "get_exchange_user p w = Some s"
    using s p by (simp_all add: get_exchange_items_view get_exchange_user_view)
  have le: "gold_of t w \<le> 2100000000" for t by (rule gold_okD(1) [OF ok])
  have ig: "in_game s w" "in_game p w" using gold_okD(4) [OF ok] s p by blast+
  have room: "gold_of s w + offered ys \<le> 2100000000" "gold_of p w + offered xs \<le> 2100000000"
    using check_exchange_gold [OF check(1) items(3) _ le] check_exchange_gold [OF check(2) items(4) _ le]
      gold_okD(5) [OF ok, of s] gold_okD(5) [OF ok, of p] by (simp_all add: items one_gold_def)
  define v where "v = snd (receive_all s ys w)"
  have gv: "gold_of t v = (if t = s then gold_of s w + offered ys else gold_of t w)"
    "in_game t v = in_game t w" for t
    using receive_gold [OF le ig(1), of t ys] room by (simp_all add: v_def)
  have gp: "gold_of t (snd (receive_all p xs v)) = (if t = p then gold_of p w + offered xs else gold_of t v)"
    "in_game t (snd (receive_all p xs v)) = in_game t w" for t
    using receive_gold [of p v t xs] room gv le ig assms(4) by simp_all
  have g: "gold_of t ?w' = (if t = s then gold_of s w + offered ys
      else if t = p then gold_of p w + offered xs else gold_of t w)" "in_game t ?w' = in_game t w" for t
    using assms(4) by (simp_all add: execute_exchange_def Let_def split_def items v_def [symmetric] gp gv)
  have view: "tview ?w' = (tview w)(s \<mapsto> idle, p \<mapsto> idle)" by (rule execute_view [OF s p assms(4)])
  have wealth: "wealth t ?w' = (if t = s then gold_of s w + offered ys
      else if t = p then gold_of p w + offered xs else wealth t w)" for t
    by (simp add: wealth_def g view get_exchange_items_view idle_def)
  moreover have "gold_ok ?w'"
    unfolding gold_ok_def
  proof (intro allI conjI impI)
    fix t
    show "wealth t ?w' \<le> 2100000000" using room gold_okD(2) [OF ok] by (simp add: wealth)
    show "one_gold (get_exchange_items t ?w')"
      using gold_okD(5) [OF ok, of t] by (simp add: view get_exchange_items_view idle_def)
    show "get_exchange_user t ?w' \<noteq> None \<Longrightarrow> in_game t ?w'"
      using traders_in_game [OF ok, of t] by (simp add: g view get_exchange_user_view idle_def split: if_splits)
  qed
  ultimately show ?thesis
    using assms(4) by (simp add: moved_def wealth_def [of s w] wealth_def [of p w] items)
qed

lemma set_state_view [simp]:
  "get_exchange_items t (set_trade_state s x w) = get_exchange_items t w"
  "get_exchange_user t (set_trade_state s x w) = get_exchange_user t w"
  by (cases "tview w s"; simp add: get_exchange_items_view get_exchange_user_view)+

lemma set_state_wealth [simp]: "wealth t (set_trade_state s x w) = wealth t w"
  by (simp add: wealth_def)

lemma set_state_kept: "gold_ok w \<Longrightarrow> kept w (set_trade_state s x w)"
  by (rule kept_items) (auto dest: traders_in_game)

lemma decide_moves:
  assumes "trade_inv (tview w)" "gold_ok w"
  shows "kept w (snd (exchange_decide e s w))
    \<or> (\<exists>p. get_exchange_user s w = Some p \<and> moved s p w (snd (exchange_decide e s w)))"
proof (cases "get_exchange_user s w \<noteq> None \<and> get_trade_state s w = TRADE_STATE_TRADING")
  case False
  then show ?thesis using kept_refl [OF assms(2)] by (auto simp: exchange_decide_def split: option.splits)
next
  case True
  then obtain p xs where s: "get_exchange_user s w = Some p" "tview w s = Some (TRADE_STATE_TRADING, Some p, xs)"
    by (cases "tview w s") (auto simp: get_exchange_user_view get_trade_state_view)
  obtain y ys where p: "p \<noteq> s" "tview w p = Some (y, Some s, ys)"
    using trade_invD [OF assms(1) s(2)] by auto
  define w1 where "w1 = set_trade_state s TRADE_STATE_DECIDING w"
  have v1: "tview w1 s = Some (TRADE_STATE_DECIDING, Some p, xs)" "tview w1 p = Some (y, Some s, ys)"
    using s p by (simp_all add: w1_def)
  have k1: "kept w w1" "gold_ok w1"
    using set_state_kept [OF assms(2)] by (simp_all add: w1_def kept_def)
  let ?w' = "snd (exchange_decide e s w)"
  have same: "wealth t w1 = wealth t w" for t by (simp add: w1_def)
  consider "wsessions ?w' = wsessions w" | "wsessions ?w' = wsessions w1" | "?w' = fail_exchange s p w1"
    | "check_exchange s w1" "check_exchange p w1" "?w' = execute_exchange e s p w1"
    using True s by (fastforce simp: exchange_decide_def Let_def w1_def)
  then show ?thesis
  proof cases
    case 1
    then show ?thesis using kept_refl [OF assms(2)] kept_cong by blast
  next
    case 2
    then show ?thesis using k1 kept_cong by blast
  next
    case 3
    have "kept w1 ?w'" unfolding 3 by (rule fail_kept [OF k1(2) v1 p(1)])
    then show ?thesis by (simp add: kept_def same)
  next
    case 4
    have "moved s p w1 ?w'" unfolding 4(3) by (rule execute_moved [OF k1(2) v1 p(1) 4(1,2)])
    then show ?thesis using s by (simp add: moved_def same)
  qed
qed

lemma handle_moves:
  assumes "trade_inv (tview w)" "all_open w" "gold_ok w"
  shows "kept w (snd (handle_exchange e st s pkt w))
    \<or> (\<exists>p. get_exchange_user s w = Some p \<and> moved s p w (snd (handle_exchange e st s pkt w)))"
  using req_kept [OF assms] agree_kept [OF assms(1,3)] add_kept [OF assms]
    decide_moves [OF assms(1,3)] cancel_kept [OF assms] kept_refl [OF assms(3)]
  by (auto simp: handle_exchange_def split_def Let_def)

subsection \<open>A running trade\<close>

definition trade_world :: world where
  \<comment> \<open>players 1 and 2 of the small world trade, and player 1 has put 300 of 1300 coins into the window\<close>
  "trade_world = add_exchange_item 1
     \<lparr>ex_item_id = ITEM_GOLD, ex_count = 300, ex_durability = 0, ex_serial_num = 0, ex_src_pos = 255,
      ex_dst_pos = 0\<rparr> (trade_agree 2 (init_trade_request 1 2 demo_world))"

lemma trade_world_view: "tview trade_world =
    [1 \<mapsto> (TRADE_STATE_TRADING, Some 2, [\<lparr>ex_item_id = ITEM_GOLD, ex_count = 300, ex_durability = 0,
       ex_serial_num = 0, ex_src_pos = 255, ex_dst_pos = 0\<rparr>]),
     2 \<mapsto> (TRADE_STATE_TRADING, Some 1, [])]"
  by (simp add: trade_world_def trade_agree_def Let_def demo_view get_exchange_user_view idle_def
      fun_upd_twist)

lemma trade_world_gold: "gold_of s trade_world = (if s = 1 \<or> s = 2 then 1000 else 0)"
  "in_game s trade_world \<longleftrightarrow> s = 1 \<or> s = 2"
proof -
  have "gold_of s trade_world = gold_of s demo_world" "in_game s trade_world = in_game s demo_world"
    by (simp_all add: trade_world_def trade_agree_def Let_def split: option.splits)
  then show "gold_of s trade_world = (if s = 1 \<or> s = 2 then 1000 else 0)"
    "in_game s trade_world \<longleftrightarrow> s = 1 \<or> s = 2"
    by (auto simp: gold_of_def in_game_def get_character_info_def demo_world_def demo_handle_def demo_char_def)
qed

lemma trade_world_ok: "trade_inv (tview trade_world)" "all_open trade_world" "gold_ok trade_world"
proof -
  show "trade_inv (tview trade_world)"
    unfolding trade_inv_def trade_world_view by (auto split: if_splits)
  have "observe tx_open trade_world = observe tx_open demo_world"
    by (simp add: trade_world_def trade_agree_def Let_def split: option.splits)
  then show "all_open trade_world" using demo_idle(2) all_open_cong by blast
  show "gold_ok trade_world"
    by (auto simp: gold_ok_def wealth_def trade_world_gold get_exchange_items_view get_exchange_user_view
        trade_world_view one_gold_def)
qed

subsection \<open>Gold is conserved, except when a player leaves\<close>

text \<open>C3: no packet of the trade handler creates or destroys gold: every player's wealth, the gold
  carried plus the gold in the trade window, stays what it was, unless the packet executes a trade, and
  then it only moves between the two partners and their sum stays. The cap of 2,100,000,000 never cuts
  anything off, and the conditions hold again for the next packet.\<close>

theorem trades_conserve_gold:
  assumes "trade_inv (tview w)" and "all_open w" and "gold_ok w"
    and "w' = snd (handle_exchange e st s pkt w)"
  shows "((\<forall>t. wealth t w' = wealth t w)
      \<or> (\<exists>p. get_exchange_user s w = Some p \<and> wealth s w' + wealth p w' = wealth s w + wealth p w
          \<and> (\<forall>t. t \<noteq> s \<and> t \<noteq> p \<longrightarrow> wealth t w' = wealth t w)))
    \<and> trade_inv (tview w') \<and> all_open w' \<and> gold_ok w'"
proof -
  have "trade_inv (tview w')" "all_open w'"
    using trade_step_inv [OF handle_step [OF assms(1,2)] assms(1)] all_open_cong [OF open_handle] assms(2)
    by (simp_all add: assms(4))
  moreover consider "kept w w'" | p where "get_exchange_user s w = Some p" "moved s p w w'"
    using handle_moves [OF assms(1-3)] assms(4) by metis
  then have "gold_ok w' \<and> ((\<forall>t. wealth t w' = wealth t w)
      \<or> (\<exists>p. get_exchange_user s w = Some p \<and> wealth s w' + wealth p w' = wealth s w + wealth p w
          \<and> (\<forall>t. t \<noteq> s \<and> t \<noteq> p \<longrightarrow> wealth t w' = wealth t w)))"
    by cases (simp_all add: kept_def moved_def)
  ultimately show ?thesis by simp
qed

theorem trades_conserve_gold_witness:
  "wealth 1 (snd (handle_exchange demo_env InGame 1 (with_data 0x30 [5]) trade_world))
     + wealth 2 (snd (handle_exchange demo_env InGame 1 (with_data 0x30 [5]) trade_world))
   = 2300"
proof -
  have "wealth 1 trade_world + wealth 2 trade_world = 2300"
    by (simp add: wealth_def trade_world_gold get_exchange_items_view trade_world_view)
  moreover have "get_exchange_user 1 trade_world = Some 2"
    by (simp add: get_exchange_user_view trade_world_view)
  moreover define w' where "w' = snd (handle_exchange demo_env InGame 1 (with_data 0x30 [5]) trade_world)"
  moreover note trades_conserve_gold [OF trade_world_ok w'_def]
  ultimately show ?thesis unfolding w'_def [symmetric] by (elim disjE conjE exE) simp_all
qed



end
