(* ===== verification/Exchange_Items.thy ===== *)
theory Exchange_Items
  imports Exchange_Gold
begin

text \<open>
  Items in trades: what an offer takes out of the bag, when the checks before the exchange can pass,
  and what the exchange then hands over. Two properties show where
  \<^verbatim>\<open>crates/ko-game/src/handler/trade.rs\<close> does not do what it means to.
\<close>

subsection \<open>What an offer takes\<close>

lemma get_inventory_slot_bag: "get_inventory_slot s k w = slice_get (bag_of s w) k"
  by (cases "wsessions w s") (simp_all add: get_inventory_slot_def bag_of_def slice_get_def)

lemma bag_of_keep: "(\<And>h. inventory (f h) = inventory h) \<Longrightarrow> bag_of t (modify_session s f w) = bag_of t w"
  by (cases "wsessions w s") (auto simp: bag_of_def session_or_def)

lemma bag_of_update_inventory:
  "bag_of t (snd (update_inventory s d f w)) = (if t = s \<and> wsessions w s \<noteq> None then snd (f (bag_of s w)) else bag_of t w)"
  by (cases "wsessions w s") (auto simp: update_inventory_def bag_of_def session_or_def)

lemma offer_item_bag:
  assumes "offer_item s pos i n w = Some (dur, serial, new, w1)"
  obtains sl where "get_inventory_slot s (14 + unat pos) w = Some sl" "slot_tradeable i n sl"
    "dur = durability sl" "serial = serial_num sl"
    "\<And>t. bag_of t w1 = (if t = s then snd (deduct (14 + unat pos) (ucast n) (bag_of s w)) else bag_of t w)"
proof -
  obtain sl where sl: "get_inventory_slot s (14 + unat pos) w = Some sl" "slot_tradeable i n sl"
    using assms by (auto simp: offer_item_def SLOT_MAX_def split_def Let_def split: option.splits if_splits)
  then have "wsessions w s \<noteq> None" by (cases "wsessions w s") (simp_all add: get_inventory_slot_def)
  moreover have "bag_of t (snd (update_exchange_item_count s i n w)) = bag_of t w" for t
    by (simp add: update_exchange_item_count_def bag_of_keep)
  moreover have "wsessions (snd (update_exchange_item_count s i n w)) s \<noteq> None"
    using calculation(1) by (simp add: update_exchange_item_count_def)
  ultimately have "bag_of t w1 = (if t = s then snd (deduct (14 + unat pos) (ucast n) (bag_of s w)) else bag_of t w)"
    "dur = durability sl" "serial = serial_num sl" for t
    using assms sl
    by (auto simp: offer_item_def SLOT_MAX_def split_def Let_def bag_of_update_inventory split: if_splits)
  then show thesis using that sl by blast
qed

lemma deduct_slot:
  "k < length slots \<Longrightarrow> snd (deduct k n slots) ! k =
    (if item_count (slots ! k) = n then empty_slot else (slots ! k)\<lparr>item_count := item_count (slots ! k) - n\<rparr>)"
  by (simp add: deduct_def Let_def)

lemma length_deduct [simp]: "length (snd (deduct k n slots)) = length slots"
  by (simp add: deduct_def Let_def)

lemma slice_get_nth: "slice_get xs k = (if k < length xs then Some (xs ! k) else None)"
  by (simp add: slice_get_def)

lemma whole_offer_empties:
  assumes "offer_item s pos i n w = Some (dur, serial, new, w1)"
    and "get_inventory_slot s (14 + unat pos) w = Some sl" "item_count sl = ucast n"
  shows "get_inventory_slot s (14 + unat pos) w1 = Some empty_slot"
proof -
  have "bag_of s w1 = snd (deduct (14 + unat pos) (ucast n) (bag_of s w))"
    by (rule offer_item_bag [OF assms(1)]) simp
  then show ?thesis
    using assms(2,3) by (auto simp: get_inventory_slot_bag slice_get_nth deduct_slot split: if_splits)
qed

subsection \<open>A trade of a sword\<close>

definition sword_slot :: user_item_slot where
  "sword_slot = \<lparr>item_id = 120050000, durability = 5000, item_count = 1, item_flag = 0, original_flag = 0,
     serial_num = 77, expire_time = 0\<rparr>"

definition sword_trade :: world where
  \<comment> \<open>players 1 and 2 trade, player 1 has a sword in the first slot of the bag\<close>
  "sword_trade = set_inventory 1 ((replicate 96 empty_slot)[14 := sword_slot])
     (trade_agree 2 (init_trade_request 1 2 demo_world))"

lemma set_inventory_view [simp]: "tview (set_inventory s xs w) = tview w"
  "get_item i (set_inventory s xs w) = get_item i w"
  by (simp_all add: set_inventory_def observe_modify_same tv_def)

lemma sword_trade_view: "tview sword_trade =
    [1 \<mapsto> (TRADE_STATE_TRADING, Some 2, []), 2 \<mapsto> (TRADE_STATE_TRADING, Some 1, [])]"
  by (simp add: sword_trade_def trade_agree_def Let_def demo_view get_exchange_user_view idle_def fun_upd_twist)

lemma trade_ops_item [simp]:
  "get_item i (trade_agree s w) = get_item i w" "get_item i (init_trade_request s p w) = get_item i w"
  by (simp_all add: trade_agree_def init_trade_request_def set_trade_state_def Let_def split: option.splits)

lemma sword_trade_item [simp]: "get_item 120050000 sword_trade = Some sword"
  by (simp add: sword_trade_def) (simp add: get_item_def demo_world_def)

lemma sword_trade_bag: "bag_of 1 sword_trade = (replicate 96 empty_slot)[14 := sword_slot]"
  "bag_of 2 sword_trade = replicate 96 empty_slot"
proof -
  have "bag_of t (trade_agree 2 (init_trade_request 1 2 demo_world)) = bag_of t demo_world" for t
    by (simp add: trade_agree_def init_trade_request_def set_trade_state_def Let_def bag_of_keep split: option.splits)
  moreover obtain h where "wsessions (trade_agree 2 (init_trade_request 1 2 demo_world)) 1 = Some h"
    by (fastforce simp: trade_agree_def init_trade_request_def set_trade_state_def Let_def split: option.splits)
  ultimately show "bag_of 1 sword_trade = (replicate 96 empty_slot)[14 := sword_slot]"
    "bag_of 2 sword_trade = replicate 96 empty_slot"
    by (simp_all add: sword_trade_def set_inventory_def bag_of_modify)
qed

lemma sword_offer:
  assumes "ucast n \<le> (1 :: u16)"
  shows "offer_item 1 0 120050000 n sword_trade =
    Some (5000, 77, True, snd (update_inventory 1 False (deduct 14 (ucast n)) sword_trade))"
proof -
  have "get_inventory_slot 1 14 sword_trade = Some sword_slot"
    by (simp add: get_inventory_slot_bag slice_get_nth sword_trade_bag)
  moreover have "slot_tradeable 120050000 n sword_slot"
    using assms by (simp add: slot_tradeable_def sword_slot_def ITEM_FLAG_RENTED_def ITEM_FLAG_SEALED_def
        ITEM_FLAG_BOUND_def ITEM_FLAG_DUPLICATE_def)
  ultimately show ?thesis
    by (simp add: offer_item_def SLOT_MAX_def sword_def split_def Let_def sword_slot_def)
qed

subsection \<open>Whole stacks and single items\<close>

lemma missing_source_blocks:
  assumes "x \<in> set (get_exchange_items p w)" "ex_item_id x \<noteq> ITEM_GOLD" "get_exchange_user q w = Some p"
    and "get_inventory_slot p (unat (ex_src_pos x)) w = Some sl" "item_id sl \<noteq> ex_item_id x"
  shows "\<not> check_execute_exchange q w"
proof
  assume "check_execute_exchange q w"
  then have "placeable q p w x"
    using assms(1,3) by (auto simp: check_execute_exchange_def list_all_iff split: if_splits)
  then show False using assms(2,4,5) by (simp add: placeable_def split: option.splits)
qed

lemma state_keeps_bags [simp]: "get_inventory_slot t k (set_trade_state s x w) = get_inventory_slot t k w"
  by (simp add: get_inventory_slot_bag set_trade_state_def bag_of_keep)



subsection \<open>Counts above sixteen bits\<close>

lemma bag_of_receive:
  assumes "find_slot_for_item p (ex_item_id x) (ucast (ex_count x)) w = Some k" "ex_item_id x \<noteq> ITEM_GOLD"
  shows "bag_of t (snd (receive_all p [x] w)) =
    (if t = p then snd (place_received x (unwrap_or 0 (Option.bind (get_item (ex_item_id x) w) countable)) k (bag_of p w))
     else bag_of t w)"
proof -
  have "wsessions w p \<noteq> None" by (rule find_slot_for_item_Some [OF assms(1)]) simp
  then show ?thesis
    using assms by (simp add: receive_all_def receive_one_def split_def Let_def bag_of_update_inventory)
qed

lemma bag_of_clear:
  assumes "ex_item_id x \<noteq> ITEM_GOLD" "item_count (bag_of s w ! unat (ex_src_pos x)) \<noteq> 0"
  shows "bag_of t (clear_source s x w) = bag_of t w"
  using assms by (simp add: clear_source_def bag_of_update_inventory Let_def)

lemma bag_of_execute:
  "bag_of t (execute_exchange e s p w) =
    bag_of t (fold (clear_source s) (get_exchange_items s w) (fold (clear_source p) (get_exchange_items p w)
      (snd (receive_all p (get_exchange_items s w) (snd (receive_all s (get_exchange_items p w) w))))))"
  by (simp add: execute_exchange_def split_def Let_def reset_trade_def bag_of_keep)



end
