(* ===== verification/Storage.thy ===== *)
theory Storage
  imports Gold
begin

text \<open>
  What a session stores outside the bag (\<^verbatim>\<open>crates/ko-game/src/world/inventory.rs\<close>, lines 98 to 110, 1353
  to 1428 and 1710 to 1910): the account's warehouse with its coins, the VIP warehouse, and the list of
  sold items that can be bought back. A closure that also draws serial numbers gets the serial counter
  with the slots. \<open>tally\<close> counts the pieces of an item in a list of slots.
\<close>

type_synonym slots = "user_item_slot list"

subsection \<open>The warehouse\<close>

definition set_warehouse :: "sid \<Rightarrow> slots \<Rightarrow> u32 \<Rightarrow> world \<Rightarrow> world" where
  "set_warehouse s items coins =
     modify_session s (\<lambda>h. h\<lparr>warehouse := items, inn_coins := coins, warehouse_loaded := True\<rparr>)"

definition is_warehouse_loaded :: "sid \<Rightarrow> world \<Rightarrow> bool" where
  "is_warehouse_loaded s w = session_or False s warehouse_loaded w"

definition get_warehouse :: "sid \<Rightarrow> world \<Rightarrow> slots" where
  "get_warehouse s w = session_or [] s warehouse w"

definition get_warehouse_slot :: "sid \<Rightarrow> nat \<Rightarrow> world \<Rightarrow> user_item_slot option" where
  "get_warehouse_slot s k w = session_or None s (\<lambda>h. slice_get (warehouse h) k) w"

definition get_inn_coins :: "sid \<Rightarrow> world \<Rightarrow> u32" where
  "get_inn_coins s w = session_or 0 s inn_coins w"

definition update_warehouse ::
  "sid \<Rightarrow> (u64 \<times> slots \<times> u32 \<Rightarrow> bool \<times> u64 \<times> slots \<times> u32) \<Rightarrow> world \<Rightarrow> bool \<times> world" where
  "update_warehouse s f w =
     (case wsessions w s of
        None \<Rightarrow> (False, w)
      | Some h \<Rightarrow>
          let (ok, n, wh, coins) = f (next_item_serial w, warehouse h, inn_coins h) in
          (ok, (modify_session s (\<lambda>h. h\<lparr>warehouse := wh, inn_coins := coins\<rparr>) w)\<lparr>next_item_serial := n\<rparr>))"

definition update_inventory_and_warehouse ::
  "sid \<Rightarrow> (u64 \<times> slots \<times> slots \<Rightarrow> bool \<times> u64 \<times> slots \<times> slots) \<Rightarrow> world \<Rightarrow> bool \<times> world" where
  \<comment> \<open>no caller of the modelled code uses the coins\<close>
  "update_inventory_and_warehouse s f w =
     (case wsessions w s of
        None \<Rightarrow> (False, w)
      | Some h \<Rightarrow>
          let (ok, n, inv, wh) = f (next_item_serial w, inventory h, warehouse h) in
          (ok, (modify_session s (\<lambda>h. h\<lparr>inventory := inv, warehouse := wh\<rparr>) w)\<lparr>next_item_serial := n\<rparr>))"

definition give_warehouse_slot :: "item_def \<Rightarrow> u32 \<Rightarrow> u16 \<Rightarrow> u32 \<Rightarrow> u64 \<times> slots \<times> u32 \<Rightarrow> bool \<times> u64 \<times> slots \<times> u32" where
  \<comment> \<open>the closure of \<open>give_warehouse_item\<close>\<close>
  "give_warehouse_slot it i cnt expiry = (\<lambda>(n, wh, coins).
     case (if sint (unwrap_or 0 (countable it)) > 0 then scan_stack wh i cnt None [0..<WAREHOUSE_MAX]
           else scan_empty wh [0..<WAREHOUSE_MAX]) of
       None \<Rightarrow> (False, n, wh, coins)
     | Some pos \<Rightarrow>
         let slot = wh ! pos; is_new = (item_id slot = 0);
             s1 = (if is_new then slot\<lparr>serial_num := n\<rparr> else slot);
             s2 = s1\<lparr>item_id := i, item_count := min (saturating_add (item_count s1) cnt) ITEMCOUNT_MAX,
                    durability := unwrap_or 0 (duration it),
                    expire_time := (if expiry > 0 then expiry else 0)\<rparr> in
         (True, if is_new then n + 1 else n, wh[pos := s2], coins))"

definition give_warehouse_item :: "unix_time \<Rightarrow> sid \<Rightarrow> u32 \<Rightarrow> u16 \<Rightarrow> u32 \<Rightarrow> world \<Rightarrow> bool \<times> world" where
  "give_warehouse_item now s i cnt days w =
     (case get_item i w of
        None \<Rightarrow> (False, w)
      | Some it \<Rightarrow> update_warehouse s (give_warehouse_slot it i cnt (expiry_from now days)) w)"

subsection \<open>The VIP warehouse\<close>

definition set_vip_warehouse :: "sid \<Rightarrow> slots \<Rightarrow> rstr \<Rightarrow> u8 \<Rightarrow> u32 \<Rightarrow> world \<Rightarrow> world" where
  "set_vip_warehouse s items password request expiry =
     modify_session s (\<lambda>h. h\<lparr>vip_warehouse := items, vip_password := password,
       vip_password_request := request, vip_vault_expiry := expiry, vip_warehouse_loaded := True\<rparr>)"

definition is_vip_warehouse_loaded :: "sid \<Rightarrow> world \<Rightarrow> bool" where
  "is_vip_warehouse_loaded s w = session_or False s vip_warehouse_loaded w"

definition get_vip_warehouse :: "sid \<Rightarrow> world \<Rightarrow> slots" where
  "get_vip_warehouse s w = session_or [] s vip_warehouse w"

definition get_vip_warehouse_slot :: "sid \<Rightarrow> nat \<Rightarrow> world \<Rightarrow> user_item_slot option" where
  "get_vip_warehouse_slot s k w = session_or None s (\<lambda>h. slice_get (vip_warehouse h) k) w"

definition get_vip_password :: "sid \<Rightarrow> world \<Rightarrow> rstr" where
  "get_vip_password s w = session_or [] s vip_password w"

definition get_vip_password_request :: "sid \<Rightarrow> world \<Rightarrow> u8" where
  "get_vip_password_request s w = session_or 0 s vip_password_request w"

definition get_vip_vault_expiry :: "sid \<Rightarrow> world \<Rightarrow> u32" where
  "get_vip_vault_expiry s w = session_or 0 s vip_vault_expiry w"

definition set_vip_password :: "sid \<Rightarrow> rstr \<Rightarrow> u8 \<Rightarrow> world \<Rightarrow> world" where
  "set_vip_password s password request =
     modify_session s (\<lambda>h. h\<lparr>vip_password := password, vip_password_request := request\<rparr>)"

definition set_vip_vault_expiry :: "sid \<Rightarrow> u32 \<Rightarrow> world \<Rightarrow> world" where
  "set_vip_vault_expiry s expiry = modify_session s (\<lambda>h. h\<lparr>vip_vault_expiry := expiry\<rparr>)"

subsection \<open>Sold items\<close>

definition set_deleted_items :: "sid \<Rightarrow> deleted_item_entry list \<Rightarrow> world \<Rightarrow> world" where
  "set_deleted_items s items = modify_session s (\<lambda>h. h\<lparr>deleted_items := items\<rparr>)"

definition get_deleted_items :: "sid \<Rightarrow> world \<Rightarrow> deleted_item_entry list" where
  "get_deleted_items s w = session_or [] s deleted_items w"

definition add_deleted_item :: "sid \<Rightarrow> deleted_item_entry \<Rightarrow> world \<Rightarrow> bool \<times> world" where
  "add_deleted_item s entry w =
     (case wsessions w s of
        None \<Rightarrow> (False, w)
      | Some h \<Rightarrow>
          if length (deleted_items h) \<ge> TRASH_ITEM_MAX then (False, w)
          else (True, modify_session s (\<lambda>h. h\<lparr>deleted_items := deleted_items h @ [entry]\<rparr>) w))"

definition remove_deleted_item :: "sid \<Rightarrow> i64 \<Rightarrow> world \<Rightarrow> world" where
  "remove_deleted_item s row =
     modify_session s (\<lambda>h. h\<lparr>deleted_items := filter (\<lambda>x. d_db_id x \<noteq> row) (deleted_items h)\<rparr>)"

definition clear_delete_item_list :: "sid \<Rightarrow> world \<Rightarrow> world" where
  "clear_delete_item_list s = modify_session s (\<lambda>h. h\<lparr>delete_item_list := Map.empty\<rparr>)"

definition set_delete_item_list :: "sid \<Rightarrow> (u8 \<rightharpoonup> nat) \<Rightarrow> world \<Rightarrow> world" where
  "set_delete_item_list s m = modify_session s (\<lambda>h. h\<lparr>delete_item_list := m\<rparr>)"

definition get_deleted_item_by_display_index :: "sid \<Rightarrow> u8 \<Rightarrow> world \<Rightarrow> (nat \<times> deleted_item_entry) option" where
  "get_deleted_item_by_display_index s k w = session_or None s (\<lambda>h.
     case delete_item_list h k of
       None \<Rightarrow> None
     | Some j \<Rightarrow> map_option (Pair j) (slice_get (deleted_items h) j)) w"

subsection \<open>Counting pieces\<close>

definition tally :: "u32 \<Rightarrow> slots \<Rightarrow> nat" where
  "tally i slots = (\<Sum>sl \<leftarrow> slots. at_slot i sl)"

lemma tally_simps [simp]:
  "tally i [] = 0" "tally i (x # xs) = at_slot i x + tally i xs" "tally i (xs @ ys) = tally i xs + tally i ys"
  by (simp_all add: tally_def)

lemma tally_update:
  "k < length xs \<Longrightarrow> tally i (xs[k := x]) + at_slot i (xs ! k) = tally i xs + at_slot i x"
  by (induction xs arbitrary: k) (auto simp: nth_Cons split: nat.splits)

lemma tally_replicate: "i \<noteq> 0 \<Longrightarrow> tally i (replicate n empty_slot) = 0"
  by (induction n) (simp_all add: at_slot_def empty_slot_def)

lemma at_slot_empty [simp]: "i \<noteq> 0 \<Longrightarrow> at_slot i empty_slot = 0"
  by (simp add: at_slot_def empty_slot_def)

lemma tally_move:
  \<comment> \<open>a slot's content moved to another slot that was empty\<close>
  assumes "j < length xs" "k < length xs" "j \<noteq> k" "item_id (xs ! k) = 0" "i \<noteq> 0"
  shows "tally i (xs[k := xs ! j, j := empty_slot]) = tally i xs"
  using tally_update [of k xs i "xs ! j"] tally_update [of j "xs[k := xs ! j]" i empty_slot] assms
  by (simp add: at_slot_def empty_slot_def)

end
