(* ===== verification/Warehouse.thy ===== *)
theory Warehouse
  imports Storage Exchange
begin

text \<open>
  The warehouse of an account: the handler of \<^verbatim>\<open>WIZ_WAREHOUSE\<close>
  (\<^verbatim>\<open>crates/ko-game/src/handler/warehouse.rs\<close>, lines 27 to 688). The rows a first opening loads come
  from \<open>env\<close>, with \<open>None\<close> for a database error; the writes back to the database are left out, and so
  is the check of a row count. The answer is \<open>False\<close> when the handler returns an error.
\<close>

definition WAREHOUSE_OPEN :: u8 where "WAREHOUSE_OPEN = 0x01"
definition WAREHOUSE_INPUT :: u8 where "WAREHOUSE_INPUT = 0x02"
definition WAREHOUSE_OUTPUT :: u8 where "WAREHOUSE_OUTPUT = 0x03"
definition WAREHOUSE_MOVE :: u8 where "WAREHOUSE_MOVE = 0x04"
definition WAREHOUSE_INVENMOVE :: u8 where "WAREHOUSE_INVENMOVE = 0x05"
definition PK_ZONE_WAREHOUSE_COST :: u32 where "PK_ZONE_WAREHOUSE_COST = 10000"
definition ITEMS_PER_PAGE :: nat where "ITEMS_PER_PAGE = 24"
definition ZONE_RONARK_LAND :: u16 where "ZONE_RONARK_LAND = 71"
definition ZONE_ARDREAM :: u16 where "ZONE_ARDREAM = 72"
definition ZONE_RONARK_LAND_BASE :: u16 where "ZONE_RONARK_LAND_BASE = 73"
definition NPC_WAREHOUSE :: u8 where "NPC_WAREHOUSE = 31"

definition is_store_open :: "sid \<Rightarrow> world \<Rightarrow> bool" where
  "is_store_open s w = session_or False s store_open w"

definition is_npc_dead :: "u32 \<Rightarrow> world \<Rightarrow> bool" where
  "is_npc_dead n w = (case npc_hp w n of None \<Rightarrow> True | Some v \<Rightarrow> sint v \<le> 0)"

definition get_npc_instance :: "u32 \<Rightarrow> world \<Rightarrow> npc_instance option" where
  "get_npc_instance n w = npc_instances w n"

definition get_npc_template :: "u16 \<Rightarrow> bool \<Rightarrow> world \<Rightarrow> npc_template option" where
  "get_npc_template p m w = npc_templates w (p, m)"

definition is_in_npc_range :: "env \<Rightarrow> sid \<Rightarrow> u32 \<Rightarrow> world \<Rightarrow> bool" where
  "is_in_npc_range e s n w =
     (case get_zone_id s w of
        None \<Rightarrow> False
      | Some z \<Rightarrow>
          (case get_npc_instance n w of
             None \<Rightarrow> False
           | Some npc \<Rightarrow> if z \<noteq> npc_zone npc then False else near_npc e w s n))"

definition build_warehouse_result :: "u8 \<Rightarrow> u8 \<Rightarrow> packet" where
  "build_warehouse_result op r = write_u8 r (write_u8 op (packet_new (as_u8 WizWarehouse)))"

definition warehouse_answer :: "sid \<Rightarrow> u8 \<Rightarrow> u8 \<Rightarrow> world \<Rightarrow> bool \<times> world" where
  "warehouse_answer s op r w = session_send s (build_warehouse_result op r) w"

definition is_pk_zone :: "u16 \<Rightarrow> bool" where
  "is_pk_zone z \<longleftrightarrow> z = ZONE_ARDREAM \<or> z = ZONE_RONARK_LAND \<or> z = ZONE_RONARK_LAND_BASE"

definition pad :: "slots \<Rightarrow> slots" where
  \<comment> \<open>\<open>while wh.len() < WAREHOUSE_MAX { wh.push(default) }\<close>\<close>
  "pad wh = wh @ replicate (WAREHOUSE_MAX - length wh) empty_slot"

subsection \<open>Opening\<close>

definition row_slot_of :: "stored_row \<Rightarrow> user_item_slot" where
  "row_slot_of r = \<lparr>item_id = row_item r, durability = row_durability r, item_count = row_count r,
     item_flag = ucast (row_flag r), original_flag = ucast (row_original_flag r),
     serial_num = row_serial r, expire_time = row_expire r\<rparr>"

definition place_row :: "stored_row \<Rightarrow> slots \<Rightarrow> slots" where
  \<comment> \<open>a negative index becomes a huge one and is skipped\<close>
  "place_row r wh = (if sint (row_slot r) \<ge> 0 \<and> nat (sint (row_slot r)) < WAREHOUSE_MAX
     then wh[nat (sint (row_slot r)) := row_slot_of r] else wh)"

definition warehouse_packet :: "env \<Rightarrow> sid \<Rightarrow> world \<Rightarrow> packet" where
  "warehouse_packet e s w =
     (let p0 = write_u32 (get_inn_coins s w) (build_warehouse_result WAREHOUSE_OPEN 1) in
      fold (\<lambda>k p.
        let slot = unwrap_or empty_slot (slice_get (get_warehouse s w) k) in
        write_u32 (expire_time slot)
          (write_unique_item_info e w (item_id slot) (serial_num slot) (my_rebirth s w)
            (write_u8 (item_flag slot) (write_u16 (item_count slot)
              (write_u16 (durability slot) (write_u32 (item_id slot) p))))))
        [0..<WAREHOUSE_MAX] p0)"

definition handle_warehouse_open ::
  "env \<Rightarrow> sid \<Rightarrow> rstr option \<Rightarrow> character_info \<Rightarrow> u16 \<Rightarrow> world \<Rightarrow> bool \<times> world" where
  "handle_warehouse_open e s account ch zone w =
     (if is_pk_zone zone \<and> gold ch < PK_ZONE_WAREHOUSE_COST
      then warehouse_answer s WAREHOUSE_OPEN 2 w
      else
        let w1 = (if is_pk_zone zone then snd (gold_lose s PK_ZONE_WAREHOUSE_COST w) else w) in
        if is_warehouse_loaded s w1 then session_send s (warehouse_packet e s w1) w1
        else case account of
          None \<Rightarrow> (True, w1)
        | Some acc \<Rightarrow>
            (case load_warehouse_items e acc of
               None \<Rightarrow> (False, w1)
             | Some rows \<Rightarrow>
                 (case load_warehouse_coins e acc of
                    None \<Rightarrow> (False, w1)
                  | Some coins \<Rightarrow>
                      let w2 = set_warehouse s (fold place_row rows (replicate WAREHOUSE_MAX empty_slot))
                                 coins w1 in
                      session_send s (warehouse_packet e s w2) w2)))"

subsection \<open>Moving pieces between the bag and the warehouse\<close>

definition store :: "item_def \<Rightarrow> u16 \<Rightarrow> user_item_slot \<Rightarrow> user_item_slot \<Rightarrow> u64 \<Rightarrow> user_item_slot \<times> u64" where
  \<comment> \<open>the destination slot after \<open>n\<close> pieces of the source slot came in, and the serial counter\<close>
  "store it n src dst serial_counter =
     (let stackable = sint (unwrap_or 0 (countable it)) > 0; was_empty = (item_id dst = 0);
          cnt = (if stackable then saturating_add (item_count dst) n else n);
          d1 = dst\<lparr>item_id := item_id src, durability := durability src, item_count := min cnt ITEMCOUNT_MAX,
                 item_flag := item_flag src, original_flag := original_flag src,
                 expire_time := expire_time src\<rparr>;
          (serial, c1) = (if serial_num src \<noteq> 0 then (serial_num src, serial_counter)
                          else (serial_counter, serial_counter + 1)) in
      if stackable then
        if item_count src = n \<and> was_empty then (d1\<lparr>serial_num := serial\<rparr>, c1)
        else if was_empty then (d1\<lparr>serial_num := c1\<rparr>, c1 + 1)
        else (d1, c1)
      else (d1\<lparr>serial_num := serial\<rparr>, c1))"

definition withdraw :: "item_def \<Rightarrow> u16 \<Rightarrow> user_item_slot \<Rightarrow> user_item_slot" where
  "withdraw it n src =
     (let c = (if sint (unwrap_or 0 (countable it)) > 0 then item_count src - n else 0) in
      if c = 0 \<or> unwrap_or 0 (countable it) = 0 then empty_slot else src\<lparr>item_count := c\<rparr>)"

definition fits :: "item_def \<Rightarrow> user_item_slot \<Rightarrow> user_item_slot \<Rightarrow> bool" where
  \<comment> \<open>the destination is empty, or a stack of the same item\<close>
  "fits it src dst \<longleftrightarrow> \<not> (item_id dst \<noteq> 0 \<and>
     (\<not> sint (unwrap_or 0 (countable it)) > 0 \<or> item_id dst \<noteq> item_id src))"

definition input_transfer ::
  "item_def \<Rightarrow> u32 \<Rightarrow> u16 \<Rightarrow> nat \<Rightarrow> nat \<Rightarrow> u64 \<times> slots \<times> slots \<Rightarrow> bool \<times> u64 \<times> slots \<times> slots" where
  "input_transfer it i n j k = (\<lambda>(c, inv, wh0).
     let wh = pad wh0 in
     case slice_get inv j of
       None \<Rightarrow> (False, c, inv, wh)
     | Some src \<Rightarrow>
         if item_id src \<noteq> i then (False, c, inv, wh)
         else if item_flag src = ITEM_FLAG_RENTED \<or> item_flag src = ITEM_FLAG_DUPLICATE
           \<or> item_flag src = ITEM_FLAG_SEALED \<or> expire_time src > 0 then (False, c, inv, wh)
         else if item_count src < n \<or> \<not> fits it src (wh ! k) then (False, c, inv, wh)
         else
           let (dst, c') = store it n src (wh ! k) c in
           (True, c', inv[j := withdraw it n src], wh[k := dst]))"

definition output_transfer ::
  "item_def \<Rightarrow> u32 \<Rightarrow> u16 \<Rightarrow> nat \<Rightarrow> nat \<Rightarrow> u64 \<times> slots \<times> slots \<Rightarrow> bool \<times> u64 \<times> slots \<times> slots" where
  "output_transfer it i n j k = (\<lambda>(c, inv, wh0).
     let wh = pad wh0 in
     case slice_get wh j of
       None \<Rightarrow> (False, c, inv, wh)
     | Some src \<Rightarrow>
         if \<not> (item_id src = i \<and> item_count src \<ge> n) then (False, c, inv, wh)
         else case slice_get inv k of
           None \<Rightarrow> (False, c, inv, wh)
         | Some dst \<Rightarrow>
             if \<not> fits it src dst then (False, c, inv, wh)
             else
               let (dst', c') = store it n src dst c in
               (True, c', inv[k := dst'], wh[j := withdraw it n src]))"

definition finish_transfer :: "env \<Rightarrow> sid \<Rightarrow> u8 \<Rightarrow> bool \<times> world \<Rightarrow> bool \<times> world" where
  \<comment> \<open>new statistics and the answer\<close>
  "finish_transfer e s op = (\<lambda>(ok, w).
     if ok then warehouse_answer s op 1 (set_user_ability e s w) else warehouse_answer s op 0 w)"

definition handle_warehouse_input ::
  "env \<Rightarrow> sid \<Rightarrow> u32 \<Rightarrow> nat \<Rightarrow> u8 \<Rightarrow> u8 \<Rightarrow> u32 \<Rightarrow> world \<Rightarrow> bool \<times> world" where
  "handle_warehouse_input e s i ref src dst n w =
     (if n = 0 then warehouse_answer s WAREHOUSE_INPUT 0 w
      else if i = ITEM_GOLD then
        (case get_character_info s w of
           None \<Rightarrow> warehouse_answer s WAREHOUSE_INPUT 0 w
         | Some ch \<Rightarrow>
             if gold ch < n \<or> (ucast (get_inn_coins s w) :: u64) + ucast n > ucast COIN_MAX
             then warehouse_answer s WAREHOUSE_INPUT 0 w
             else warehouse_answer s WAREHOUSE_INPUT 1
               (snd (update_warehouse s (\<lambda>(c, wh, coins). (True, c, wh, coins + n)) (snd (gold_lose s n w)))))
      else if unat src \<ge> HAVE_MAX \<or> ref + unat dst \<ge> WAREHOUSE_MAX then warehouse_answer s WAREHOUSE_INPUT 0 w
      else if ITEM_NO_TRADE_MIN \<le> i \<and> i \<le> ITEM_NO_TRADE_MAX then warehouse_answer s WAREHOUSE_INPUT 0 w
      else case get_item i w of
        None \<Rightarrow> warehouse_answer s WAREHOUSE_INPUT 0 w
      | Some it \<Rightarrow> finish_transfer e s WAREHOUSE_INPUT
          (update_inventory_and_warehouse s
            (input_transfer it i (ucast n) (SLOT_MAX + unat src) (ref + unat dst)) w))"

definition handle_warehouse_output ::
  "env \<Rightarrow> sid \<Rightarrow> u32 \<Rightarrow> nat \<Rightarrow> u8 \<Rightarrow> u8 \<Rightarrow> u32 \<Rightarrow> world \<Rightarrow> bool \<times> world" where
  "handle_warehouse_output e s i ref src dst n w =
     (if n = 0 then warehouse_answer s WAREHOUSE_OUTPUT 0 w
      else if i = ITEM_GOLD then
        (case get_character_info s w of
           None \<Rightarrow> warehouse_answer s WAREHOUSE_OUTPUT 0 w
         | Some ch \<Rightarrow>
             if get_inn_coins s w < n \<or> (ucast (gold ch) :: u64) + ucast n > ucast COIN_MAX
             then warehouse_answer s WAREHOUSE_OUTPUT 0 w
             else warehouse_answer s WAREHOUSE_OUTPUT 1
               (gold_gain s n (snd (update_warehouse s (\<lambda>(c, wh, coins). (True, c, wh, coins - n)) w))))
      else if ref + unat src \<ge> WAREHOUSE_MAX \<or> unat dst \<ge> HAVE_MAX then warehouse_answer s WAREHOUSE_OUTPUT 0 w
      else case get_item i w of
        None \<Rightarrow> warehouse_answer s WAREHOUSE_OUTPUT 0 w
      | Some it \<Rightarrow>
          if \<not> check_weight s i (ucast n) w then warehouse_answer s WAREHOUSE_OUTPUT 0 w
          else finish_transfer e s WAREHOUSE_OUTPUT
            (update_inventory_and_warehouse s
              (output_transfer it i (ucast n) (ref + unat src) (SLOT_MAX + unat dst)) w))"

definition move_slot :: "u32 \<Rightarrow> nat \<Rightarrow> nat \<Rightarrow> slots \<Rightarrow> bool \<times> slots" where
  \<comment> \<open>the source must hold the item and the destination be empty\<close>
  "move_slot i j k xs =
     (if item_id (xs ! j) \<noteq> i \<or> item_id (xs ! k) \<noteq> 0 then (False, xs)
      else (True, xs[k := xs ! j, j := empty_slot]))"

definition handle_warehouse_move :: "sid \<Rightarrow> u32 \<Rightarrow> nat \<Rightarrow> u8 \<Rightarrow> u8 \<Rightarrow> world \<Rightarrow> bool \<times> world" where
  "handle_warehouse_move s i ref src dst w =
     (if ref + unat src \<ge> WAREHOUSE_MAX \<or> ref + unat dst \<ge> WAREHOUSE_MAX
      then warehouse_answer s WAREHOUSE_MOVE 0 w
      else
        let (ok, w1) = update_warehouse s (\<lambda>(c, wh, coins).
              let (ok, wh') = move_slot i (ref + unat src) (ref + unat dst) (pad wh) in (ok, c, wh', coins)) w in
        warehouse_answer s WAREHOUSE_MOVE (if ok then 1 else 0) w1)"

definition handle_warehouse_invenmove :: "sid \<Rightarrow> u32 \<Rightarrow> u8 \<Rightarrow> u8 \<Rightarrow> world \<Rightarrow> bool \<times> world" where
  "handle_warehouse_invenmove s i src dst w =
     (if unat src \<ge> HAVE_MAX \<or> unat dst \<ge> HAVE_MAX then warehouse_answer s WAREHOUSE_INVENMOVE 0 w
      else
        let j = SLOT_MAX + unat src; k = SLOT_MAX + unat dst;
            (ok, w1) = update_inventory s False (\<lambda>inv.
              if j \<ge> length inv \<or> k \<ge> length inv then (False, inv) else move_slot i j k inv) w in
        warehouse_answer s WAREHOUSE_INVENMOVE (if ok then 1 else 0) w1)"

subsection \<open>The handler\<close>

definition warehouse_npc_valid :: "env \<Rightarrow> sid \<Rightarrow> u32 \<Rightarrow> world \<Rightarrow> bool" where
  "warehouse_npc_valid e s n w \<longleftrightarrow> \<not> is_npc_dead n w \<and> is_in_npc_range e s n w
     \<and> (case get_npc_instance n w of
          None \<Rightarrow> False
        | Some npc \<Rightarrow>
            (case get_npc_template (proto_id npc) (is_monster npc) w of
               None \<Rightarrow> False
             | Some tmpl \<Rightarrow> npc_type tmpl = NPC_WAREHOUSE))"

definition handle_warehouse ::
  "env \<Rightarrow> session_state \<Rightarrow> rstr option \<Rightarrow> sid \<Rightarrow> packet \<Rightarrow> world \<Rightarrow> bool \<times> world" where
  "handle_warehouse e st account s pkt w =
     (if st \<noteq> InGame then (True, w)
      else if is_player_dead s w \<or> is_trading s w \<or> is_store_open s w \<or> is_merchanting s w
        \<or> is_selling_merchant s w \<or> is_selling_merchant_preparing s w \<or> is_buying_merchant_preparing s w
        \<or> is_mining s w \<or> is_fishing s w
      then (True, w)
      else case get_character_info s w of
        None \<Rightarrow> (True, w)
      | Some ch \<Rightarrow>
          let (r1, rd1) = read_u8 (reader_new (pdata pkt)); op = unwrap_or 0 r1 in
          if session_or False s genie_active w then warehouse_answer s op 0 w
          else if op = WAREHOUSE_OPEN
          then handle_warehouse_open e s account ch (unwrap_or 0 (get_zone_id s w)) w
          else
            let (r2, rd2) = read_u32 rd1; npc = unwrap_or 0 r2 in
            if npc \<noteq> 0 \<and> \<not> warehouse_npc_valid e s npc w then warehouse_answer s op 0 w
            else
              let (r3, rd3) = read_u32 rd2; (r4, rd4) = read_u8 rd3; (r5, rd5) = read_u8 rd4;
                  (r6, rd6) = read_u8 rd5; (r7, _) = read_u32 rd6;
                  i = unwrap_or 0 r3; page = unwrap_or 0 r4; src = unwrap_or 0 r5; dst = unwrap_or 0 r6;
                  n = unwrap_or 0 r7; ref = ITEMS_PER_PAGE * unat page in
              if op = WAREHOUSE_INPUT then handle_warehouse_input e s i ref src dst n w
              else if op = WAREHOUSE_OUTPUT then handle_warehouse_output e s i ref src dst n w
              else if op = WAREHOUSE_MOVE then handle_warehouse_move s i ref src dst w
              else if op = WAREHOUSE_INVENMOVE then handle_warehouse_invenmove s i src dst w
              else (True, w))"

end
