(* ===== verification/Npc_Trade.thy ===== *)
theory Npc_Trade
  imports Storage Warehouse
begin

text \<open>
  Buying from and selling to an NPC, and buying sold items back: the handler of \<^verbatim>\<open>WIZ_ITEM_TRADE\<close>
  (\<^verbatim>\<open>crates/ko-game/src/handler/npc_trade.rs\<close>, lines 43 to 1200). The clock is an argument;
  logging and the audit-log insert are left out, and \<open>TradeItem::buy_price\<close> with them, which is
  written and never read. The handler's second range check (30 units) cannot fail after
  \<open>is_in_npc_range\<close> (11 units) and is left out.
\<close>

definition LOYALTY_SELLING_GROUP :: u32 where "LOYALTY_SELLING_GROUP = 249000"
definition TRASH_DISPLAY_MAX :: u16 where "TRASH_DISPLAY_MAX = 250"
definition NPC_MERCHANT :: u8 where "NPC_MERCHANT = 21"
definition NPC_TINKER :: u8 where "NPC_TINKER = 22"
definition NPC_LOYALTY_MERCHANT :: u8 where "NPC_LOYALTY_MERCHANT = 170"
definition NPC_PET_TRADE :: u8 where "NPC_PET_TRADE = 223"

definition TAX_EXEMPT_SCROLLS :: "u32 list" where
  "TAX_EXEMPT_SCROLLS = [379068000, 379107000, 379109000, 379110000, 379067000]"

subsection \<open>Taxes\<close>

datatype tax_zone = KingTariff | SiegeMoradon | SiegeDelos | NoTax

definition king_zones :: "u16 list" where
  \<comment> \<open>the capitals and Eslant of both nations, Bifrost, the battle, PvP, stone and party zones, by their
    numbers in \<open>types.rs\<close>, in the order of the match arm\<close>
  "king_zones = [1, 5, 6, 2, 7, 8, 11, 13, 14, 12, 15, 16, 31, 61, 62, 63, 64, 65, 66, 69, 71, 72, 73, 75,
     81, 82, 83, 84, 86, 87, 96, 97, 98, 99, 95, 89, 29, 77, 78, 18, 28, 74]"

definition moradon_zones :: "u16 list" where "moradon_zones = [21, 22, 23, 24, 25, 48]"
definition delos_zones :: "u16 list" where "delos_zones = [30, 32, 33, 35]"

definition classify_zone_tax :: "u16 \<Rightarrow> tax_zone" where
  "classify_zone_tax z =
     (if z \<in> set king_zones then KingTariff
      else if z \<in> set moradon_zones then SiegeMoradon
      else if z \<in> set delos_zones then SiegeDelos
      else NoTax)"

definition percent_of :: "u32 \<Rightarrow> u32 \<Rightarrow> u32" where
  \<comment> \<open>\<open>(base as u64 * pct as u64 / 100) as u32\<close>\<close>
  "percent_of base pct = ucast ((ucast base :: u64) * ucast pct div 100)"

definition calculate_item_tax :: "u32 \<Rightarrow> tax_zone \<Rightarrow> u8 \<Rightarrow> u16 \<Rightarrow> u32 \<times> i32" where
  "calculate_item_tax base zt king_tariff siege_tariff =
     (case zt of
        KingTariff \<Rightarrow>
          let tax = percent_of base (ucast king_tariff + 10) in (saturating_add base tax, tax)
      | NoTax \<Rightarrow> (base, 0)
      | _ \<Rightarrow>
          let adjustment = (ucast siege_tariff :: i32) - 10;
              tax = percent_of base (if sint adjustment < 0 then - adjustment else adjustment) in
          if sint adjustment < 0 then (saturating_sub base tax, - tax) else (saturating_add base tax, tax))"

definition is_tax_exempt :: "u32 \<Rightarrow> bool" where
  "is_tax_exempt i \<longleftrightarrow> i \<in> set TAX_EXEMPT_SCROLLS"

subsection \<open>Lookups\<close>

definition get_king_system :: "u8 \<Rightarrow> world \<Rightarrow> king_system option" where
  "get_king_system n w = king_systems w n"

definition update_king_system :: "u8 \<Rightarrow> (king_system \<Rightarrow> king_system) \<Rightarrow> world \<Rightarrow> world" where
  "update_king_system n f w =
     (case king_systems w n of
        None \<Rightarrow> w
      | Some k \<Rightarrow> w\<lparr>king_systems := (king_systems w)(n \<mapsto> f k)\<rparr>)"

definition item_at :: "nat \<Rightarrow> i32 list \<Rightarrow> i32" where
  "item_at k row = (if k < 24 \<and> k < length row then row ! k else 0)"

definition validate_sell_table_item :: "i32 \<Rightarrow> nat \<Rightarrow> i32 \<Rightarrow> world \<Rightarrow> bool" where
  "validate_sell_table_item grp k i w \<longleftrightarrow>
     (case item_sell_table w grp of None \<Rightarrow> False | Some rows \<Rightarrow> \<exists>row \<in> set rows. item_at k row = i)
     \<or> (case get_item i w of
          None \<Rightarrow> False
        | Some it \<Rightarrow> (case selling_group it of None \<Rightarrow> False | Some sg \<Rightarrow> sg * 1000 = grp))"

definition item_sell_percent :: "sid \<Rightarrow> world \<Rightarrow> i32" where
  \<comment> \<open>\<open>get_premium_property(sid, ItemSellPercent)\<close>\<close>
  "item_sell_percent s w =
     (let p = session_or 0 s premium_in_use w in
      if p = 0 then 0 else case premium_sell_pct w p of None \<Rightarrow> 0 | Some pct \<Rightarrow> scast pct)"

definition trash_item_enabled :: "world \<Rightarrow> bool" where
  "trash_item_enabled w = unwrap_or False (trash_item w)"

definition send_fail :: "sid \<Rightarrow> u8 \<Rightarrow> world \<Rightarrow> bool \<times> world" where
  "send_fail s code = session_send s (write_u8 code (write_u8 0 (packet_new (as_u8 WizItemTrade))))"

record trade_item =
  ti_item :: u32
  ti_pos :: u8
  ti_count :: u16

subsection \<open>Buying\<close>

fun parse_buy :: "nat \<Rightarrow> u32 \<Rightarrow> world \<Rightarrow> reader \<Rightarrow> u8 + trade_item list" where
  "parse_buy 0 grp w rd = Inr []"
| "parse_buy (Suc n) grp w rd =
     (let (r1, rd1) = read_u32 rd; (r2, rd2) = read_u8 rd1; (r3, rd3) = read_u16 rd2;
          (r4, rd4) = read_u8 rd3; (r5, rd5) = read_u8 rd4;
          i = unwrap_or 0 r1; pos = unwrap_or 0 r2; cnt = unwrap_or 0 r3;
          line = unwrap_or 0 r4; index = unwrap_or 0 r5 in
      if i = 0 \<or> cnt = 0 \<or> unat pos \<ge> HAVE_MAX \<or> cnt \<ge> ITEMCOUNT_MAX then Inl 20
      else if line \<ge> 12 \<or> index \<ge> 24 then Inl 21
      else if \<not> validate_sell_table_item grp (unat index) i w then Inl 22
      else case parse_buy n grp w rd5 of
             Inl code \<Rightarrow> Inl code
           | Inr items \<Rightarrow> Inr (\<lparr>ti_item = i, ti_pos = pos, ti_count = cnt\<rparr> # items))"

record totals =
  total_price :: u64
  total_weight :: u32
  total_king_tax :: u64
  total_siege_tax :: i64

definition no_totals :: totals where
  "no_totals = \<lparr>total_price = 0, total_weight = 0, total_king_tax = 0, total_siege_tax = 0\<rparr>"

definition slot_takes :: "sid \<Rightarrow> trade_item \<Rightarrow> item_def \<Rightarrow> world \<Rightarrow> u8 option" where
  \<comment> \<open>the error of the destination check, if any\<close>
  "slot_takes s it d w =
     (let slot = unwrap_or empty_slot (get_inventory_slot s (SLOT_MAX + unat (ti_pos it)) w);
          c = unwrap_or 0 (countable d) in
      if item_id slot = 0 then None
      else if item_id slot \<noteq> ti_item it then Some 28
      else if c = 0 \<or> ti_count it = 0 then Some 29
      else if sint c > 0 \<and> ti_count it + item_count slot > ITEMCOUNT_MAX then Some 4
      else None)"

definition price_one ::
  "sid \<Rightarrow> bool \<Rightarrow> tax_zone \<Rightarrow> u8 \<Rightarrow> u16 \<Rightarrow> world \<Rightarrow> trade_item \<Rightarrow> totals \<Rightarrow> u8 + totals" where
  "price_one s loyal zt king siege w it t =
     (case get_item (ti_item it) w of
        None \<Rightarrow> Inl 24
      | Some d \<Rightarrow>
          let unit_price = (scast (unwrap_or 0 (if loyal then np_buy_price d else buy_price d)) :: u64);
              base = unit_price * ucast (ti_count it) in
          if base > ucast COIN_MAX then Inl 25
          else
            let taxed = \<not> loyal \<and> \<not> is_tax_exempt (ti_item it);
                (p, tax) = calculate_item_tax (ucast base) zt king siege;
                price = (if taxed then ucast p else base);
                kt = (if taxed \<and> zt = KingTariff \<and> sint tax > 0 then total_king_tax t + ucast tax
                      else total_king_tax t);
                st = (if taxed \<and> (zt = SiegeMoradon \<or> zt = SiegeDelos) \<and> sint tax > 0
                      then total_siege_tax t + scast tax else total_siege_tax t) in
            if price > ucast COIN_MAX then Inl 26
            else if total_price t + price > ucast COIN_MAX then Inl 27
            else
              let weight' = saturating_mul (scast (unwrap_or 0 (weight d)) :: u32) (ucast (ti_count it));
                  tw = saturating_add (total_weight t) weight';
                  stats = get_equipped_stats s w in
              if saturating_add tw (item_weight stats) > max_weight stats then Inl 4
              else case slot_takes s it d w of
                Some code \<Rightarrow> Inl code
              | None \<Rightarrow> Inr \<lparr>total_price = total_price t + price, total_weight = tw,
                  total_king_tax = kt, total_siege_tax = st\<rparr>)"

fun price_all ::
  "sid \<Rightarrow> bool \<Rightarrow> tax_zone \<Rightarrow> u8 \<Rightarrow> u16 \<Rightarrow> world \<Rightarrow> trade_item list \<Rightarrow> totals \<Rightarrow> u8 + totals" where
  "price_all s loyal zt king siege w [] t = Inr t"
| "price_all s loyal zt king siege w (it # its) t =
     (case price_one s loyal zt king siege w it t of
        Inl code \<Rightarrow> Inl code
      | Inr t' \<Rightarrow> price_all s loyal zt king siege w its t')"

definition bought :: "item_def \<Rightarrow> trade_item \<Rightarrow> u64 \<Rightarrow> slots \<Rightarrow> bool \<times> slots" where
  "bought d it serial bg =
     (let k = SLOT_MAX + unat (ti_pos it) in
      if k \<ge> length bg then (False, bg)
      else
        let sl = bg ! k; is_new = (item_id sl = 0);
            c = min (item_count sl + ti_count it) ITEMCOUNT_MAX in
        (True, bg[k := sl\<lparr>item_id := ti_item it,
           item_count := (if unwrap_or 0 (countable d) = 0 then 1 else c),
           durability := (if durability sl = 0 then unwrap_or 0 (duration d) else durability sl),
           serial_num := (if is_new then serial else serial_num sl)\<rparr>]))"

definition give_bought :: "sid \<Rightarrow> trade_item \<Rightarrow> world \<Rightarrow> world" where
  "give_bought s it w =
     (if ti_item it = 0 then w
      else case get_item (ti_item it) w of
        None \<Rightarrow> w
      | Some d \<Rightarrow>
          let (serial, w1) = generate_item_serial w in
          snd (update_inventory s False (bought d it serial) w1))"

definition collect_tax :: "tax_zone \<Rightarrow> u8 \<Rightarrow> totals \<Rightarrow> world \<Rightarrow> world" where
  "collect_tax zt ntn t w =
     (let w1 = (if total_king_tax t > 0 \<and> zt = KingTariff
            then update_king_system ntn (\<lambda>k. k\<lparr>
              national_treasury := min (saturating_add (national_treasury k)
                (ucast (total_king_tax t * 80 div 100))) COIN_MAX,
              territory_tax := min (saturating_add (territory_tax k)
                (ucast (total_king_tax t * 20 div 100))) COIN_MAX\<rparr>) w
            else w);
          sw = siege_war w1 in
      if sint (total_siege_tax t) > 0 \<and> master_knights sw > 0
      then
        let tax = (ucast (ucast (total_siege_tax t) :: u32) :: u64);
            dungeon = ucast (tax * 80 div 100) :: i32; share = ucast (tax * 10 div 100) :: i32;
            sw1 = sw\<lparr>dungeon_charge := saturating_add_i32 (dungeon_charge sw) dungeon\<rparr> in
        w1\<lparr>siege_war := (case zt of
             SiegeMoradon \<Rightarrow> sw1\<lparr>moradon_tax := saturating_add_i32 (moradon_tax sw1) share\<rparr>
           | SiegeDelos \<Rightarrow> sw1\<lparr>delos_tax := saturating_add_i32 (delos_tax sw1) share\<rparr>
           | _ \<Rightarrow> sw1)\<rparr>
      else w1)"

definition pay_purchase :: "sid \<Rightarrow> bool \<Rightarrow> u64 \<Rightarrow> world \<Rightarrow> world" where
  "pay_purchase s loyal amount w =
     (if loyal then update_character_stats s (\<lambda>c. c\<lparr>loyalty := saturating_sub (loyalty c) (ucast amount)\<rparr>) w
      else modify_session s (\<lambda>h. h\<lparr>dr_gm_total_sold := dr_gm_total_sold h + amount\<rparr>)
             (snd (gold_lose s (ucast amount) w)))"

definition buy_answer :: "sid \<Rightarrow> bool \<Rightarrow> u32 \<Rightarrow> u64 \<Rightarrow> world \<Rightarrow> packet" where
  "buy_answer s loyal grp amount w =
     (let money = (case get_character_info s w of
            None \<Rightarrow> 0 | Some c \<Rightarrow> if loyal then loyalty c else gold c);
          p = write_u32 (ucast amount) (write_u32 money (write_u8 1 (packet_new (as_u8 WizItemTrade)))) in
      if loyal then write_u8 (ucast grp) p else p)"

definition weight_change :: "sid \<Rightarrow> world \<Rightarrow> packet" where
  "weight_change s w = write_u32 (item_weight (get_equipped_stats s w)) (packet_new (as_u8 WizWeightChange))"

definition siege_tariff :: "tax_zone \<Rightarrow> world \<Rightarrow> u16" where
  "siege_tariff zt w =
     (case zt of SiegeMoradon \<Rightarrow> moradon_tariff (siege_war w) | SiegeDelos \<Rightarrow> delos_tariff (siege_war w)
      | _ \<Rightarrow> 10)"

definition finish_buy ::
  "env \<Rightarrow> sid \<Rightarrow> u32 \<Rightarrow> bool \<Rightarrow> tax_zone \<Rightarrow> u8 \<Rightarrow> trade_item list \<Rightarrow> totals \<Rightarrow> world \<Rightarrow> bool \<times> world" where
  \<comment> \<open>payment, goods, new statistics, tax revenue, answers\<close>
  "finish_buy e s grp loyal zt ntn items t w =
     (let w1 = pay_purchase s loyal (total_price t) w;
          w2 = set_user_ability e s (fold (give_bought s) items w1);
          w3 = collect_tax zt ntn t w2;
          (ok, w4) = session_send s (weight_change s w3) w3 in
      if \<not> ok then (False, w4)
      else session_send s (buy_answer s loyal grp (total_price t) w4) w4)"

definition handle_buy :: "env \<Rightarrow> sid \<Rightarrow> reader \<Rightarrow> u8 \<Rightarrow> u32 \<Rightarrow> bool \<Rightarrow> world \<Rightarrow> bool \<times> world" where
  \<comment> \<open>two entries with the same place are refused with code 23\<close>
  "handle_buy e s rd n grp loyal w =
     (case parse_buy (unat n) grp w rd of
        Inl code \<Rightarrow> send_fail s code w
      | Inr items \<Rightarrow>
          if \<not> distinct (map ti_pos items) then send_fail s 23 w
          else
            let (zone, ntn) = session_or (0, 0) s (\<lambda>h. (zone_id h,
                  case character h of None \<Rightarrow> 0 | Some c \<Rightarrow> nation c)) w;
                zt = (if loyal then NoTax else classify_zone_tax zone);
                king = (case get_king_system ntn w of None \<Rightarrow> 0 | Some k \<Rightarrow> territory_tariff k) in
            (case price_all s loyal zt king (siege_tariff zt w) w items no_totals of
               Inl code \<Rightarrow> send_fail s code w
             | Inr t \<Rightarrow>
                 (case get_character_info s w of
                    None \<Rightarrow> send_fail s 1 w
                  | Some ch \<Rightarrow>
                      if ucast (total_price t) > (if loyal then loyalty ch else gold ch)
                      then send_fail s 3 w
                      else finish_buy e s grp loyal zt ntn items t w)))"

subsection \<open>Selling\<close>

fun parse_sell :: "nat \<Rightarrow> reader \<Rightarrow> trade_item list" where
  "parse_sell 0 rd = []"
| "parse_sell (Suc n) rd =
     (let (r1, rd1) = read_u32 rd; (r2, rd2) = read_u8 rd1; (r3, rd3) = read_u16 rd2 in
      \<lparr>ti_item = unwrap_or 0 r1, ti_pos = unwrap_or 0 r2, ti_count = unwrap_or 0 r3\<rparr> # parse_sell n rd3)"

definition sale_price :: "item_def \<Rightarrow> bool \<Rightarrow> u16 \<Rightarrow> u64" where
  \<comment> \<open>\<open>premium\<close>: the seller has a premium with a sale percentage\<close>
  "sale_price d premium n =
     (let buy = scast (unwrap_or 0 (buy_price d)) :: u64; divisor = (if premium then 4 else 6);
          npc = saturating_mul (scast (unwrap_or 0 (sell_npc_price d)) :: u64) (ucast n);
          ordinary = (if unwrap_or 0 (sell_price d) \<noteq> 1 then saturating_mul (buy div divisor) (ucast n)
            else saturating_mul buy (ucast n)) in
      if unwrap_or 0 (sell_npc_type d) = 1 \<and> npc > 0 then npc else ordinary)"

definition sell_one :: "sid \<Rightarrow> world \<Rightarrow> trade_item \<Rightarrow> u64 \<Rightarrow> u8 + u64" where
  "sell_one s w it amount =
     (case get_item (ti_item it) w of
        None \<Rightarrow> Inl 2
      | Some d \<Rightarrow>
          if ITEM_NO_TRADE_MIN \<le> ti_item it \<and> ti_item it \<le> ITEM_NO_TRADE_MAX
            \<or> unwrap_or 0 (race d) = RACE_UNTRADEABLE then Inl 2
          else case get_inventory_slot s (SLOT_MAX + unat (ti_pos it)) w of
            None \<Rightarrow> Inl 2
          | Some sl \<Rightarrow>
              if item_id sl \<noteq> ti_item it then Inl 2
              else if item_flag sl = ITEM_FLAG_SEALED \<or> item_flag sl = ITEM_FLAG_RENTED
                \<or> item_flag sl = ITEM_FLAG_DUPLICATE \<or> expire_time sl > 0 then Inl 2
              else if item_count sl < ti_count it then Inl 3
              else
                let amount' = amount + sale_price d (sint (item_sell_percent s w) > 0) (ti_count it) in
                (case get_character_info s w of
                   None \<Rightarrow> Inl 1
                 | Some ch \<Rightarrow> if ucast (gold ch) + amount' > ucast COIN_MAX then Inl 3 else Inr amount'))"

fun sell_all :: "sid \<Rightarrow> world \<Rightarrow> trade_item list \<Rightarrow> u64 \<Rightarrow> u8 + u64" where
  "sell_all s w [] amount = Inr amount"
| "sell_all s w (it # its) amount =
     (case sell_one s w it amount of Inl code \<Rightarrow> Inl code | Inr amount' \<Rightarrow> sell_all s w its amount')"

definition sold_slot :: "item_def option \<Rightarrow> trade_item \<Rightarrow> slots \<Rightarrow> bool \<times> slots" where
  "sold_slot d it bg =
     (let k = SLOT_MAX + unat (ti_pos it);
          knd = unwrap_or 0 (Option.bind d kind); c = unwrap_or 0 (Option.bind d countable) in
      if k \<ge> length bg then (False, bg)
      else if knd = ITEM_KIND_UNIQUE \<and> c = 0 \<or> ti_count it \<ge> item_count (bg ! k)
      then (True, bg[k := empty_slot])
      else (True, bg[k := (bg ! k)\<lparr>item_count := item_count (bg ! k) - ti_count it\<rparr>]))"

definition record_trash_item :: "env \<Rightarrow> sid \<Rightarrow> deleted_item_entry \<Rightarrow> world \<Rightarrow> world" where
  "record_trash_item e s entry w =
     (case get_character_info s w of
        None \<Rightarrow> w
      | Some ch \<Rightarrow>
          (case insert_trash e w (ch_name ch) entry of
             None \<Rightarrow> w
           | Some row \<Rightarrow> snd (add_deleted_item s (entry\<lparr>d_db_id := row\<rparr>) w)))"

definition trash_entry :: "unix_time \<Rightarrow> user_item_slot \<Rightarrow> deleted_item_entry" where
  "trash_entry now sl = \<lparr>d_db_id = 0, d_item_id = item_id sl, d_count = ucast (item_count sl),
     d_delete_time = now + 72 * 60, d_duration = durability sl, d_serial_num = serial_num sl,
     d_flag = item_flag sl\<rparr>"

definition take_sold :: "env \<Rightarrow> unix_time \<Rightarrow> sid \<Rightarrow> trade_item \<Rightarrow> world \<Rightarrow> world" where
  "take_sold e now s it w =
     (if ti_item it = 0 then w
      else
        let d = get_item (ti_item it) w;
            snapshot = get_inventory_slot s (SLOT_MAX + unat (ti_pos it)) w;
            w1 = snd (update_inventory s False (sold_slot d it) w) in
        if trash_item_enabled w1
        then (case (d, snapshot) of
                (Some d, Some sl) \<Rightarrow>
                  if unwrap_or 0 (countable d) = 0 \<and> expire_time sl = 0
                  then record_trash_item e s (trash_entry now sl) w1 else w1
              | _ \<Rightarrow> w1)
        else w1)"

definition sell_answer :: "sid \<Rightarrow> u64 \<Rightarrow> world \<Rightarrow> packet" where
  "sell_answer s amount w =
     write_u32 (ucast amount) (write_u32 (case get_character_info s w of None \<Rightarrow> 0 | Some c \<Rightarrow> gold c)
       (write_u8 1 (packet_new (as_u8 WizItemTrade))))"

definition handle_sell :: "env \<Rightarrow> unix_time \<Rightarrow> sid \<Rightarrow> reader \<Rightarrow> u8 \<Rightarrow> world \<Rightarrow> bool \<times> world" where
  "handle_sell e now s rd n w =
     (let items = parse_sell (unat n) rd in
      case sell_all s w items 0 of
        Inl code \<Rightarrow> send_fail s code w
      | Inr amount \<Rightarrow>
          let w1 = fold (take_sold e now s) items (gold_gain s (ucast amount) w);
              w2 = set_user_ability e s w1 in
          session_send s (sell_answer s amount w2) w2)"

subsection \<open>Buying back\<close>

definition repurchase_price :: "item_def \<Rightarrow> deleted_item_entry \<Rightarrow> u32" where
  "repurchase_price d x =
     (let p = saturating_mul (saturating_mul (scast (unwrap_or 0 (buy_price d)) :: u64) (ucast (d_count x))) 30 in
      if p > ucast COIN_MAX then COIN_MAX else ucast p)"

fun repurchase_rows ::
  "unix_time \<Rightarrow> world \<Rightarrow> nat \<Rightarrow> deleted_item_entry list \<Rightarrow> u16 \<times> packet \<times> (u8 \<rightharpoonup> nat) \<Rightarrow> u16 \<times> packet \<times> (u8 \<rightharpoonup> nat)" where
  \<comment> \<open>\<open>k\<close> is the position in the list of sold items, \<open>shown\<close> the number of rows so far\<close>
  "repurchase_rows now w k [] acc = acc"
| "repurchase_rows now w k (x # xs) (shown, p, m) =
     (if now \<ge> d_delete_time x then repurchase_rows now w (Suc k) xs (shown, p, m)
      else if shown \<ge> TRASH_DISPLAY_MAX then (shown, p, m)
      else case get_item (d_item_id x) w of
        None \<Rightarrow> repurchase_rows now w (Suc k) xs (shown, p, m)
      | Some d \<Rightarrow>
          repurchase_rows now w (Suc k) xs (shown + 1,
            write_u8 (ucast (shown + 1)) (write_u32 (d_delete_time x) (write_u32 (repurchase_price d x)
              (write_u32 (d_item_id x) p))),
            m(ucast shown \<mapsto> k)))"

definition send_repurchase_list :: "unix_time \<Rightarrow> sid \<Rightarrow> bool \<Rightarrow> world \<Rightarrow> bool \<times> world" where
  \<comment> \<open>the count, at the end of the first five bytes, is patched afterwards\<close>
  "send_repurchase_list now s refreshed w =
     (let w1 = clear_delete_item_list s w;
          p0 = write_u16 0 (write_u8 1 (write_u8 (if refreshed then 4 else 1) (write_u8 5
                 (packet_new (as_u8 WizItemTrade)))));
          (shown, p, m) = repurchase_rows now w1 0 (get_deleted_items s w1) (0, p0, Map.empty);
          p' = p\<lparr>pdata := (pdata p)[3 := to_le 2 shown ! 0, 4 := to_le 2 shown ! 1]\<rparr>;
          w2 = set_delete_item_list s m w1 in
      session_send s p' w2)"

definition send_repurchase_fail :: "sid \<Rightarrow> world \<Rightarrow> bool \<times> world" where
  "send_repurchase_fail s =
     session_send s (write_u8 2 (write_u8 2 (write_u8 5 (packet_new (as_u8 WizItemTrade)))))"

definition stack_change :: "unix_time \<Rightarrow> u32 \<Rightarrow> u32 \<Rightarrow> u16 \<Rightarrow> u8 \<Rightarrow> bool \<Rightarrow> unix_time \<Rightarrow> packet" where
  "stack_change now i cnt dur pos is_new expiry =
     write_u32 (if expiry > now then expiry else 0) (write_u32 0 (write_u16 dur
       (write_u8 (if is_new then 100 else 0) (write_u32 cnt (write_u32 i (write_u8 pos (write_u8 1
         (write_u16 1 (packet_new (as_u8 WizItemCountChange))))))))))"

definition restored :: "item_def \<Rightarrow> deleted_item_entry \<Rightarrow> nat \<Rightarrow> u32 \<Rightarrow> slots \<Rightarrow> bool \<times> slots" where
  "restored d x k i bg =
     (if k \<ge> length bg then (False, bg)
      else
        let c = (if unwrap_or 0 (kind d) = ITEM_KIND_UNIQUE \<or> unwrap_or 0 (countable d) = 0 then 1
                 else ucast (min (d_count x) 65535)) in
        (True, bg[k := (bg ! k)\<lparr>item_id := i, item_count := min c ITEMCOUNT_MAX, durability := d_duration x,
           serial_num := d_serial_num x, item_flag := d_flag x, original_flag := 0, expire_time := 0\<rparr>]))"

definition finish_buyback ::
  "env \<Rightarrow> unix_time \<Rightarrow> sid \<Rightarrow> u32 \<Rightarrow> item_def \<Rightarrow> deleted_item_entry \<Rightarrow> nat \<Rightarrow> world \<Rightarrow> bool \<times> world" where
  "finish_buyback e now s i d x k w =
     (let w1 = set_user_ability e s (snd (update_inventory s False (restored d x k i) w));
          w2 = remove_deleted_item s (d_db_id x) (snd (gold_lose s (repurchase_price d x) w1));
          (ok, w3) = session_send s (write_u32 i (write_u16 0 (write_u8 1 (write_u8 2 (write_u8 5
            (packet_new (as_u8 WizItemTrade))))))) w2 in
      if \<not> ok then (False, w3)
      else
        let sl = unwrap_or empty_slot (get_inventory_slot s k w3) in
        session_send s (stack_change now i (ucast (item_count sl)) (durability sl)
          (saturating_sub (word_of_nat k) (word_of_nat SLOT_MAX)) True 0) w3)"

definition buyback_item :: "env \<Rightarrow> unix_time \<Rightarrow> sid \<Rightarrow> reader \<Rightarrow> world \<Rightarrow> bool \<times> world" where
  "buyback_item e now s rd w =
     (let (r1, rd1) = read_u8 rd; (r2, rd2) = read_u32 rd1; index = unwrap_or 0 r1; i = unwrap_or 0 r2 in
      case get_deleted_item_by_display_index s index w of
        None \<Rightarrow> send_repurchase_fail s w
      | Some (_, x) \<Rightarrow>
          (case get_item i w of
             None \<Rightarrow> send_repurchase_fail s w
           | Some d \<Rightarrow>
               if d_item_id x \<noteq> i \<or> now \<ge> d_delete_time x then send_repurchase_fail s w
               else case get_character_info s w of
                 None \<Rightarrow> send_repurchase_fail s w
               | Some ch \<Rightarrow>
                   let stats = get_equipped_stats s w;
                       wt = saturating_mul (scast (unwrap_or 0 (weight d))) (d_count x) in
                   if gold ch < repurchase_price d x \<or> saturating_add wt (item_weight stats) > max_weight stats
                   then send_repurchase_fail s w
                   else case find_slot_for_item s (d_item_id x) (ucast (min (d_count x) 65535)) w of
                     None \<Rightarrow> send_repurchase_fail s w
                   | Some k \<Rightarrow>
                       if item_id (unwrap_or empty_slot (get_inventory_slot s k w)) \<noteq> 0
                       then send_repurchase_fail s w
                       else finish_buyback e now s i d x k w))"

definition handle_repurchase :: "env \<Rightarrow> unix_time \<Rightarrow> sid \<Rightarrow> reader \<Rightarrow> world \<Rightarrow> bool \<times> world" where
  "handle_repurchase e now s rd w =
     (if \<not> trash_item_enabled w then (True, w)
      else if get_character_info s w = None \<or> is_player_dead s w \<or> is_trading s w \<or> is_merchanting s w
        \<or> is_selling_merchant_preparing s w \<or> is_mining s w \<or> is_fishing s w
      then (True, w)
      else
        let (r1, rd1) = read_u8 rd; op = unwrap_or 0 r1 in
        if op = 4 then send_repurchase_list now s True w
        else if op = 2 then buyback_item e now s rd1 w
        else if op = 3 then (True, clear_delete_item_list s w)
        else (True, w))"

subsection \<open>The handler\<close>

definition shop_npc :: "env \<Rightarrow> sid \<Rightarrow> u32 \<Rightarrow> u32 \<Rightarrow> world \<Rightarrow> bool" where
  \<comment> \<open>the NPC is alive, near, a merchant, and sells this group\<close>
  "shop_npc e s n grp w \<longleftrightarrow>
     (case get_npc_instance n w of
        None \<Rightarrow> False
      | Some npc \<Rightarrow> \<not> is_npc_dead n w \<and> is_in_npc_range e s n w
          \<and> (case get_npc_template (proto_id npc) (is_monster npc) w of
               None \<Rightarrow> False
             | Some tmpl \<Rightarrow> npc_type tmpl \<in> {NPC_MERCHANT, NPC_TINKER, NPC_LOYALTY_MERCHANT, NPC_PET_TRADE}
                 \<and> tmpl_selling_group tmpl = grp))"

definition handle_npc_trade :: "env \<Rightarrow> session_state \<Rightarrow> unix_time \<Rightarrow> sid \<Rightarrow> packet \<Rightarrow> world \<Rightarrow> bool \<times> world" where
  "handle_npc_trade e st now s pkt w =
     (if st \<noteq> InGame then (True, w)
      else if get_character_info s w = None \<or> is_player_dead s w \<or> is_trading s w \<or> is_merchanting s w
        \<or> is_selling_merchant_preparing s w \<or> is_buying_merchant_preparing s w \<or> is_mining s w \<or> is_fishing s w
      then send_fail s 1 w
      else
        let (r1, rd1) = read_u8 (reader_new (pdata pkt)); ty = unwrap_or 0 r1 in
        if ty = 5 then handle_repurchase e now s rd1 w
        else if ty \<noteq> 1 \<and> ty \<noteq> 2 then (True, w)
        else
          let (r2, rd2) = read_u32 rd1; (r3, rd3) = read_u32 rd2;
              grp = unwrap_or 0 r2; n = (ucast (ucast (unwrap_or 0 r3) :: u16) :: u32) in
          if \<not> shop_npc e s n grp w then send_fail s 1 w
          else if ty = 2 \<and> grp = LOYALTY_SELLING_GROUP then send_fail s 1 w
          else
            let (r4, rd4) = read_u8 rd3; cnt = unwrap_or 0 r4 in
            if cnt = 0 \<or> cnt > 24 then send_fail s 1 w
            else if ty = 1 then handle_buy e s rd4 cnt grp (grp = LOYALTY_SELLING_GROUP) w
            else handle_sell e now s rd4 cnt w)"

end
