(* ===== verification/Warehouse_Safe.thy ===== *)
theory Warehouse_Safe
  imports Warehouse Exchange_Gold
begin

text \<open>
  What the packets of \<open>handle_warehouse\<close> preserve: the coins of a player and the inn together, the
  pieces of every item in bag and warehouse together, and the well-formedness of both lists.
\<close>

definition funds :: "sid \<Rightarrow> world \<Rightarrow> nat" where
  "funds s w = gold_of s w + unat (get_inn_coins s w)"

definition pieces :: "sid \<Rightarrow> u32 \<Rightarrow> world \<Rightarrow> nat" where
  "pieces s i w = tally i (bag_of s w) + tally i (get_warehouse s w)"

definition vault_ok :: "sid \<Rightarrow> world \<Rightarrow> bool" where
  "vault_ok s w \<longleftrightarrow> slots_ok (bag_of s w) \<and> slots_ok (get_warehouse s w)"

subsection \<open>One transfer between two slots\<close>

definition lossless :: "item_def \<Rightarrow> u16 \<Rightarrow> user_item_slot \<Rightarrow> user_item_slot \<Rightarrow> bool" where
  \<comment> \<open>the destination has room for the pieces, and a single item moves with its whole count\<close>
  "lossless it n src dst \<longleftrightarrow>
     (if sint (unwrap_or 0 (countable it)) > 0 then unat (item_count dst) + unat n \<le> 9999
      else n = item_count src)"

lemma store_slot:
  "item_id (fst (store it n src dst c)) = item_id src"
  "item_count (fst (store it n src dst c)) =
     min (if sint (unwrap_or 0 (countable it)) > 0 then saturating_add (item_count dst) n else n) ITEMCOUNT_MAX"
  by (simp_all add: store_def Let_def)

lemma unat_stored:
  "unat (item_count (fst (store it n src dst c))) =
     min (if sint (unwrap_or 0 (countable it)) > 0 then unat (item_count dst) + unat n else unat n) 9999"
proof -
  have "unat (item_count dst) < 2 ^ 16" "unat n < 2 ^ 16" by (rule unat_less_wider, simp)+
  then show ?thesis
    by (auto simp: store_slot ITEMCOUNT_MAX_def min_def word_le_nat_alt unat_saturating_add)
qed

lemma withdraw_slot:
  "n \<le> item_count src \<Longrightarrow> i \<noteq> 0 \<Longrightarrow> at_slot i (withdraw it n src) =
     (if item_id src = i \<and> sint (unwrap_or 0 (countable it)) > 0
      then unat (item_count src) - unat n else 0)"
  by (auto simp: withdraw_def Let_def at_slot_def empty_slot_def unat_sub word_le_nat_alt)

definition slot_ok :: "user_item_slot \<Rightarrow> bool" where
  "slot_ok sl \<longleftrightarrow> item_count sl \<le> ITEMCOUNT_MAX \<and> (item_id sl = 0 \<longrightarrow> item_count sl = 0)"

lemma slots_ok_all: "slots_ok xs \<longleftrightarrow> (\<forall>sl \<in> set xs. slot_ok sl)"
  by (simp add: slots_ok_def slot_ok_def)

lemma transfer_slot:
  assumes "fits it src dst" "n \<le> item_count src" "slot_ok src" "slot_ok dst" "i \<noteq> 0"
  shows "at_slot i (fst (store it n src dst c)) + at_slot i (withdraw it n src) \<le> at_slot i src + at_slot i dst"
    and "lossless it n src dst \<Longrightarrow>
      at_slot i (fst (store it n src dst c)) + at_slot i (withdraw it n src) = at_slot i src + at_slot i dst"
proof -
  let ?s = "sint (unwrap_or 0 (countable it)) > 0"
  have le: "unat n \<le> unat (item_count src)" "unat (item_count src) \<le> 9999"
    using assms(2,3) by (simp_all add: slot_ok_def word_le_nat_alt ITEMCOUNT_MAX_def)
  have e: "item_id dst = 0 \<Longrightarrow> unat (item_count dst) = 0"
    using assms(4) by (simp add: slot_ok_def)
  have a: "at_slot i (fst (store it n src dst c)) + at_slot i (withdraw it n src) =
    (if item_id src = i
     then (if ?s then min (unat (item_count dst) + unat n) 9999 + (unat (item_count src) - unat n) else min (unat n) 9999)
     else 0)"
    using withdraw_slot [OF assms(2,5), of it]
    by (simp add: unat_stored store_slot(1) at_slot_def [of i "fst (store it n src dst c)"])
  have b: "at_slot i src + at_slot i dst =
    (if item_id src = i then unat (item_count src) + unat (item_count dst) else at_slot i dst)"
    using assms(1,5) e by (auto simp: fits_def at_slot_def)
  have d: "item_id src \<noteq> i \<Longrightarrow> at_slot i dst = 0"
    using assms(1,5) by (auto simp: fits_def at_slot_def)
  have s: "item_id src = i \<Longrightarrow> \<not> ?s \<Longrightarrow> unat (item_count dst) = 0"
    using assms(1,5) e by (auto simp: fits_def)
  show "at_slot i (fst (store it n src dst c)) + at_slot i (withdraw it n src) \<le> at_slot i src + at_slot i dst"
    unfolding a b using le d s by auto
  show "at_slot i (fst (store it n src dst c)) + at_slot i (withdraw it n src) = at_slot i src + at_slot i dst"
    if "lossless it n src dst"
    unfolding a b using le d s that by (auto simp: lossless_def)
qed

lemma store_ok: "fits it src dst \<Longrightarrow> n \<le> item_count src \<Longrightarrow> slot_ok src \<Longrightarrow> slot_ok dst
    \<Longrightarrow> slot_ok (fst (store it n src dst c))"
  by (auto simp: slot_ok_def store_slot fits_def saturating_add_def)

lemma withdraw_ok: "n \<le> item_count src \<Longrightarrow> slot_ok src \<Longrightarrow> slot_ok (withdraw it n src)"
proof -
  assume a: "n \<le> item_count src" "slot_ok src"
  then have "item_count src - n \<le> ITEMCOUNT_MAX"
    by (auto simp: slot_ok_def word_le_nat_alt unat_sub)
  moreover have "item_id src = 0 \<Longrightarrow> item_count src - n = 0"
    using a by (simp add: slot_ok_def)
  ultimately show ?thesis by (auto simp: withdraw_def Let_def slot_ok_def empty_slot_def ITEMCOUNT_MAX_def)
qed

subsection \<open>One transfer between bag and warehouse\<close>

lemma pad_get: "k < length wh \<Longrightarrow> pad wh ! k = wh ! k" "length wh \<le> k \<Longrightarrow> k < 192 \<Longrightarrow> pad wh ! k = empty_slot"
  by (auto simp: pad_def nth_append WAREHOUSE_MAX_def)

lemma length_pad [simp]: "length (pad wh) = max 192 (length wh)"
  by (simp add: pad_def WAREHOUSE_MAX_def)

lemma tally_pad [simp]: "i \<noteq> 0 \<Longrightarrow> tally i (pad wh) = tally i wh"
  by (simp add: pad_def tally_replicate)

lemma slot_ok_empty [simp]: "slot_ok empty_slot"
  by (simp add: slot_ok_def empty_slot_def)

lemma slots_ok_pad [simp]: "slots_ok (pad wh) \<longleftrightarrow> slots_ok wh"
  by (auto simp: pad_def slots_ok_all)

lemma slots_ok_set: "slots_ok xs \<Longrightarrow> slot_ok x \<Longrightarrow> slots_ok (xs[k := x])"
  using set_update_subset_insert [of xs k x] by (auto simp: slots_ok_all)

lemma tally_pair:
  assumes "j < length xs" "k < length ys"
    and "at_slot i x + at_slot i y \<le> at_slot i (xs ! j) + at_slot i (ys ! k)"
  shows "tally i (xs[j := x]) + tally i (ys[k := y]) \<le> tally i xs + tally i ys"
  using tally_update [OF assms(1), of i x] tally_update [OF assms(2), of i y] assms(3) by linarith

lemma tally_pair_eq:
  assumes "j < length xs" "k < length ys"
    and "at_slot i x + at_slot i y = at_slot i (xs ! j) + at_slot i (ys ! k)"
  shows "tally i (xs[j := x]) + tally i (ys[k := y]) = tally i xs + tally i ys"
  using tally_update [OF assms(1), of i x] tally_update [OF assms(2), of i y] assms(3) by linarith

lemma input_transfer_cases:
  assumes "k < 192"
  shows "input_transfer it i n j k (c, bg, wh) = (False, c, bg, pad wh)
    \<or> (\<exists>dst c'. j < length bg \<and> item_id (bg ! j) = i \<and> n \<le> item_count (bg ! j) \<and> fits it (bg ! j) (pad wh ! k)
      \<and> dst = fst (store it n (bg ! j) (pad wh ! k) c)
      \<and> input_transfer it i n j k (c, bg, wh) = (True, c', bg[j := withdraw it n (bg ! j)], (pad wh)[k := dst]))"
  by (cases "j < length bg")
    (auto simp: input_transfer_def Let_def split_def slice_get_def not_less)

lemma output_transfer_cases:
  assumes "j < 192"
  shows "output_transfer it i n j k (c, bg, wh) = (False, c, bg, pad wh)
    \<or> (\<exists>dst c'. k < length bg \<and> item_id (pad wh ! j) = i \<and> n \<le> item_count (pad wh ! j)
      \<and> fits it (pad wh ! j) (bg ! k) \<and> dst = fst (store it n (pad wh ! j) (bg ! k) c)
      \<and> output_transfer it i n j k (c, bg, wh) =
        (True, c', bg[k := dst], (pad wh)[j := withdraw it n (pad wh ! j)]))"
  using assms by (cases "k < length bg") (auto simp: output_transfer_def Let_def split_def slice_get_def)

definition shuffled :: "slots \<times> slots \<Rightarrow> slots \<times> slots \<Rightarrow> bool" where
  \<comment> \<open>no item gained a piece, over both lists, and both stay well formed\<close>
  "shuffled x y \<longleftrightarrow> (slots_ok (fst x) \<and> slots_ok (snd x) \<longrightarrow> slots_ok (fst y) \<and> slots_ok (snd y)
     \<and> (\<forall>i. i \<noteq> 0 \<longrightarrow> tally i (fst y) + tally i (snd y) \<le> tally i (fst x) + tally i (snd x)))"

lemma slot_ok_nth: "slots_ok xs \<Longrightarrow> k < length xs \<Longrightarrow> slot_ok (xs ! k)"
  by (simp add: slots_ok_all)

lemma transfer_shuffles:
  assumes "fits it (xs ! j) (ys ! k)" "n \<le> item_count (xs ! j)" "j < length xs" "k < length ys"
  shows "shuffled (xs, ys) (xs[j := withdraw it n (xs ! j)], ys[k := fst (store it n (xs ! j) (ys ! k) c)])"
proof -
  let ?x = "withdraw it n (xs ! j)" and ?y = "fst (store it n (xs ! j) (ys ! k) c)"
  have "tally i (xs[j := ?x]) + tally i (ys[k := ?y]) \<le> tally i xs + tally i ys"
    if "slots_ok xs" "slots_ok ys" "i \<noteq> 0" for i
    using transfer_slot(1) [OF assms(1,2) slot_ok_nth [OF that(1) assms(3)] slot_ok_nth [OF that(2) assms(4)] that(3), of c]
    by (intro tally_pair assms) (simp add: add.commute)
  then show ?thesis
    using assms by (simp add: shuffled_def slots_ok_set withdraw_ok store_ok slot_ok_nth)
qed

lemma transfer_keeps_all:
  assumes "fits it (xs ! j) (ys ! k)" "n \<le> item_count (xs ! j)" "j < length xs" "k < length ys"
    and "slots_ok xs" "slots_ok ys" "lossless it n (xs ! j) (ys ! k)" "i \<noteq> 0"
  shows "tally i (xs[j := withdraw it n (xs ! j)]) + tally i (ys[k := fst (store it n (xs ! j) (ys ! k) c)])
    = tally i xs + tally i ys"
  using tally_pair_eq [OF assms(3,4)] transfer_slot(2) [OF assms(1,2)] assms
  by (simp add: slot_ok_nth add.commute)

lemma shuffled_pad: "shuffled (bg, wh) (bg, pad wh)" "shuffled (bg, pad wh) y \<Longrightarrow> shuffled (bg, wh) y"
  by (auto simp: shuffled_def)

lemma shuffled_swap: "shuffled (x, y) (x', y') \<longleftrightarrow> shuffled (y, x) (y', x')"
  by (auto simp: shuffled_def add.commute)

lemma input_transfer_shuffles:
  assumes "k < 192"
  shows "shuffled (bg, wh) (snd (snd (input_transfer it i n j k (c, bg, wh))))"
  using input_transfer_cases [OF assms, of it i n j c bg wh]
proof (elim disjE exE conjE)
  assume "input_transfer it i n j k (c, bg, wh) = (False, c, bg, pad wh)"
  then show ?thesis by (simp add: shuffled_pad)
next
  fix dst c'
  assume "j < length bg" "n \<le> item_count (bg ! j)" "fits it (bg ! j) (pad wh ! k)"
    "dst = fst (store it n (bg ! j) (pad wh ! k) c)"
    "input_transfer it i n j k (c, bg, wh) = (True, c', bg[j := withdraw it n (bg ! j)], (pad wh)[k := dst])"
  then show ?thesis using assms by (simp add: shuffled_pad(2) transfer_shuffles)
qed

lemma output_transfer_shuffles:
  assumes "j < 192"
  shows "shuffled (bg, wh) (snd (snd (output_transfer it i n j k (c, bg, wh))))"
  using output_transfer_cases [OF assms, of it i n k c bg wh]
proof (elim disjE exE conjE)
  assume "output_transfer it i n j k (c, bg, wh) = (False, c, bg, pad wh)"
  then show ?thesis by (simp add: shuffled_pad)
next
  fix dst c'
  assume a: "k < length bg" "n \<le> item_count (pad wh ! j)" "fits it (pad wh ! j) (bg ! k)"
    "dst = fst (store it n (pad wh ! j) (bg ! k) c)"
    "output_transfer it i n j k (c, bg, wh) = (True, c', bg[k := dst], (pad wh)[j := withdraw it n (pad wh ! j)])"
  then have "shuffled (pad wh, bg) ((pad wh)[j := withdraw it n (pad wh ! j)], bg[k := dst])"
    using assms by (simp add: transfer_shuffles)
  then show ?thesis unfolding a(5) by (simp add: shuffled_pad(2) shuffled_swap)
qed

subsection \<open>What a packet may change\<close>

definition vault_step :: "sid \<Rightarrow> world \<Rightarrow> world \<Rightarrow> bool" where
  "vault_step s w w' \<longleftrightarrow> (\<forall>t. t \<noteq> s \<longrightarrow> wsessions w' t = wsessions w t)
     \<and> is_warehouse_loaded s w' = is_warehouse_loaded s w
     \<and> shuffled (bag_of s w, get_warehouse s w) (bag_of s w', get_warehouse s w')"

lemma vault_send [simp]:
  "get_warehouse t (snd (session_send s p w)) = get_warehouse t w"
  "get_inn_coins t (snd (session_send s p w)) = get_inn_coins t w"
  "is_warehouse_loaded t (snd (session_send s p w)) = is_warehouse_loaded t w"
  "bag_of t (snd (session_send s p w)) = bag_of t w"
  "wsessions (snd (session_send s p w)) = wsessions w"
  "funds t (snd (session_send s p w)) = funds t w"
  by (simp_all add: session_send_def get_warehouse_def get_inn_coins_def is_warehouse_loaded_def funds_def)

lemma vault_answer [simp]:
  "get_warehouse t (snd (warehouse_answer s x y w)) = get_warehouse t w"
  "get_inn_coins t (snd (warehouse_answer s x y w)) = get_inn_coins t w"
  "is_warehouse_loaded t (snd (warehouse_answer s x y w)) = is_warehouse_loaded t w"
  "bag_of t (snd (warehouse_answer s x y w)) = bag_of t w"
  "wsessions (snd (warehouse_answer s x y w)) = wsessions w"
  "funds t (snd (warehouse_answer s x y w)) = funds t w"
  "gold_of t (snd (warehouse_answer s x y w)) = gold_of t w"
  by (simp_all add: warehouse_answer_def)

lemma vault_ability [simp]:
  "get_warehouse t (set_user_ability e s w) = get_warehouse t w"
  "get_inn_coins t (set_user_ability e s w) = get_inn_coins t w"
  "is_warehouse_loaded t (set_user_ability e s w) = is_warehouse_loaded t w"
  by (simp_all add: get_warehouse_def get_inn_coins_def is_warehouse_loaded_def)

lemma shuffled_refl [simp]: "shuffled x x"
  by (simp add: shuffled_def)

lemma vault_step_refl: "vault_step s w w"
  by (simp add: vault_step_def)

lemma vault_step_answer [simp]: "vault_step s w (snd (warehouse_answer s x y w')) = vault_step s w w'"
  by (simp add: vault_step_def)

lemma vault_step_send [simp]: "vault_step s w (snd (session_send s p w')) = vault_step s w w'"
  by (simp add: vault_step_def)

lemma ability_others [simp]: "t \<noteq> s \<Longrightarrow> wsessions (set_user_ability e s w) t = wsessions w t"
  by (simp add: set_user_ability_session split: option.splits)

lemma vault_step_finish [simp]: "vault_step s w (snd (finish_transfer e s x r)) = vault_step s w (snd r)"
  by (cases r) (simp add: finish_transfer_def vault_step_def)

lemma vault_fields:
  "wsessions w s = Some h \<Longrightarrow> bag_of s w = inventory h" "wsessions w s = Some h \<Longrightarrow> get_warehouse s w = warehouse h"
  "wsessions w s = Some h \<Longrightarrow> is_warehouse_loaded s w = warehouse_loaded h"
  by (simp_all add: bag_of_def get_warehouse_def is_warehouse_loaded_def)

lemma both_step:
  assumes "\<And>c bg wh. shuffled (bg, wh) (snd (snd (f (c, bg, wh))))"
  shows "vault_step s w (snd (update_inventory_and_warehouse s f w))"
proof (cases "wsessions w s")
  case None
  then show ?thesis by (simp add: update_inventory_and_warehouse_def vault_step_refl)
next
  case (Some h)
  obtain ok n bg wh where f: "f (next_item_serial w, inventory h, warehouse h) = (ok, n, bg, wh)"
    by (metis prod_cases4)
  then show ?thesis
    using assms [of "inventory h" "warehouse h" "next_item_serial w"] Some
    by (simp add: update_inventory_and_warehouse_def vault_step_def vault_fields)
qed

lemma warehouse_step:
  assumes "\<And>c bg wh coins. shuffled (bg, wh) (bg, fst (snd (snd (f (c, wh, coins)))))"
  shows "vault_step s w (snd (update_warehouse s f w))"
proof (cases "wsessions w s")
  case None
  then show ?thesis by (simp add: update_warehouse_def vault_step_refl)
next
  case (Some h)
  obtain ok n wh coins where f: "f (next_item_serial w, warehouse h, inn_coins h) = (ok, n, wh, coins)"
    by (metis prod_cases4)
  then show ?thesis
    using assms [of "inventory h" "warehouse h" "next_item_serial w" "inn_coins h"] Some
    by (simp add: update_warehouse_def vault_step_def vault_fields)
qed

lemma bag_step:
  assumes "\<And>bg wh. shuffled (bg, wh) (snd (f bg), wh)"
  shows "vault_step s w (snd (update_inventory s d f w))"
  using assms by (cases "wsessions w s") (auto simp: update_inventory_def vault_step_def vault_fields)

lemma gold_ops_vault [simp]:
  "get_warehouse t (snd (gold_lose s n w)) = get_warehouse t w" "get_warehouse t (gold_gain s n w) = get_warehouse t w"
  "get_inn_coins t (snd (gold_lose s n w)) = get_inn_coins t w" "get_inn_coins t (gold_gain s n w) = get_inn_coins t w"
  "is_warehouse_loaded t (snd (gold_lose s n w)) = is_warehouse_loaded t w"
  "is_warehouse_loaded t (gold_gain s n w) = is_warehouse_loaded t w"
  "bag_of t (snd (gold_lose s n w)) = bag_of t w" "bag_of t (gold_gain s n w) = bag_of t w"
  by (auto simp: gold_lose_def gold_gain_def Let_def get_warehouse_def get_inn_coins_def is_warehouse_loaded_def
      bag_of_def update_character_stats_def session_or_modify split: option.splits)

lemma gold_ops_others [simp]:
  "t \<noteq> s \<Longrightarrow> wsessions (snd (gold_lose s n w)) t = wsessions w t"
  "t \<noteq> s \<Longrightarrow> wsessions (gold_gain s n w) t = wsessions w t"
  by (auto simp: gold_lose_def gold_gain_def Let_def update_character_stats_def split: option.splits)

lemma gold_ops_step [simp]:
  "vault_step s w (snd (gold_lose s n w'))= vault_step s w w'"
  "vault_step s w (gold_gain s n w') = vault_step s w w'"
  by (simp_all add: vault_step_def)

lemma shuffled_trans: "shuffled x y \<Longrightarrow> shuffled y z \<Longrightarrow> shuffled x z"
  by (auto simp: shuffled_def intro: order_trans)

lemma vault_step_trans: "vault_step s w1 w2 \<Longrightarrow> vault_step s w2 w3 \<Longrightarrow> vault_step s w1 w3"
proof -
  assume "vault_step s w1 w2" "vault_step s w2 w3"
  moreover from this have "shuffled (bag_of s w1, get_warehouse s w1) (bag_of s w3, get_warehouse s w3)"
    unfolding vault_step_def by (blast intro: shuffled_trans)
  ultimately show ?thesis by (simp add: vault_step_def)
qed

lemma moved_tally:
  "j < length xs \<Longrightarrow> k < length xs \<Longrightarrow> item_id (xs ! k) = 0 \<Longrightarrow> u \<noteq> 0 \<Longrightarrow>
    tally u (xs[k := xs ! j, j := empty_slot]) \<le> tally u xs"
  using tally_update [of k xs u empty_slot] by (cases "j = k") (simp_all add: tally_move)

lemma move_slot_shuffles:
  assumes "j < length xs" "k < length xs"
  shows "shuffled (xs, ys) (snd (move_slot i j k xs), ys)"
proof (cases "item_id (xs ! j) \<noteq> i \<or> item_id (xs ! k) \<noteq> 0")
  case True
  then show ?thesis by (simp add: move_slot_def)
next
  case False
  then have "snd (move_slot i j k xs) = xs[k := xs ! j, j := empty_slot]" by (simp add: move_slot_def)
  then show ?thesis
    using assms False by (simp add: shuffled_def moved_tally slots_ok_set slot_ok_nth)
qed

lemma move_padded_shuffles:
  assumes "j < 192" "k < 192"
  shows "shuffled (bg, wh) (bg, snd (move_slot i j k (pad wh)))"
  by (rule shuffled_pad(2), subst shuffled_swap, rule move_slot_shuffles) (use assms in simp_all)

lemma input_step: "vault_step s w (snd (handle_warehouse_input e s i ref src dst n w))"
proof -
  have "vault_step s w (snd (update_warehouse s (\<lambda>(c, wh, coins). (True, c, wh, coins + n)) (snd (gold_lose s n w))))"
    by (rule vault_step_trans [of _ _ "snd (gold_lose s n w)"]) (auto intro!: warehouse_step simp: vault_step_refl)
  moreover have "vault_step s w (snd (update_inventory_and_warehouse s
      (input_transfer it i m j (ref + unat dst)) w))" if "ref + unat dst < 192" for it m j
    by (rule both_step) (rule input_transfer_shuffles [OF that])
  ultimately show ?thesis
    by (auto simp: handle_warehouse_input_def vault_step_refl WAREHOUSE_MAX_def split: option.splits)
qed

lemma output_step: "vault_step s w (snd (handle_warehouse_output e s i ref src dst n w))"
proof -
  have "vault_step s w (snd (update_warehouse s (\<lambda>(c, wh, coins). (True, c, wh, coins - n)) w))"
    by (rule warehouse_step) simp
  moreover have "vault_step s w (snd (update_inventory_and_warehouse s
      (output_transfer it i m (ref + unat src) k) w))" if "ref + unat src < 192" for it m k
    by (rule both_step) (rule output_transfer_shuffles [OF that])
  ultimately show ?thesis
    by (auto simp: handle_warehouse_output_def vault_step_refl WAREHOUSE_MAX_def split: option.splits)
qed

lemma move_step: "vault_step s w (snd (handle_warehouse_move s i ref src dst w))"
proof -
  have "vault_step s w (snd (update_warehouse s (\<lambda>(c, wh, coins).
      let (ok, wh') = move_slot i j k (pad wh) in (ok, c, wh', coins)) w))" if "j < 192" "k < 192" for j k
    using move_padded_shuffles [OF that] by (intro warehouse_step) (simp add: split_def Let_def)
  then show ?thesis
    by (auto simp: handle_warehouse_move_def vault_step_refl WAREHOUSE_MAX_def split_def Let_def)
qed

lemma invenmove_step: "vault_step s w (snd (handle_warehouse_invenmove s i src dst w))"
proof -
  have "vault_step s w (snd (update_inventory s False (\<lambda>xs.
      if j \<ge> length xs \<or> k \<ge> length xs then (False, xs) else move_slot i j k xs) w))" for j k
    by (rule bag_step) (auto intro: move_slot_shuffles)
  then show ?thesis
    by (auto simp: handle_warehouse_invenmove_def vault_step_refl split_def Let_def)
qed

lemma open_step:
  "is_warehouse_loaded s w \<Longrightarrow> vault_step s w (snd (handle_warehouse_open e s account ch zone w))"
  by (simp add: handle_warehouse_open_def Let_def vault_step_refl)

lemmas vault_steps = input_step output_step move_step invenmove_step open_step vault_step_refl

lemma warehouse_packet_step:
  assumes "is_warehouse_loaded s w"
  shows "vault_step s w (snd (handle_warehouse e st account s pkt w))"
  using assms by (auto simp: handle_warehouse_def Let_def split_def vault_steps split: option.splits)

subsection \<open>Coins\<close>

definition coins_kept :: "sid \<Rightarrow> nat \<Rightarrow> world \<Rightarrow> world \<Rightarrow> bool" where
  "coins_kept s fee w w' \<longleftrightarrow> funds s w' + fee = funds s w
     \<and> (gold_of s w \<le> 2100000000 \<and> unat (get_inn_coins s w) \<le> 2100000000
        \<longrightarrow> gold_of s w' \<le> 2100000000 \<and> unat (get_inn_coins s w') \<le> 2100000000)"

lemma coins_same:
  "gold_of s w' = gold_of s w \<Longrightarrow> get_inn_coins s w' = get_inn_coins s w \<Longrightarrow> coins_kept s 0 w w'"
  by (simp add: coins_kept_def funds_def)

lemma coins_refl: "coins_kept s 0 w w"
  by (simp add: coins_same)

lemma coins_answer [simp]: "coins_kept s f w (snd (warehouse_answer s x y w')) = coins_kept s f w w'"
  by (simp add: coins_kept_def)

lemma coins_send [simp]: "coins_kept s f w (snd (session_send s p w')) = coins_kept s f w w'"
  by (simp add: coins_kept_def)

lemma coins_finish [simp]: "coins_kept s f w (snd (finish_transfer e s x r)) = coins_kept s f w (snd r)"
  by (cases r) (simp add: finish_transfer_def coins_kept_def funds_def)

lemma inn_coins_modify: "(\<And>h. inn_coins (f h) = inn_coins h) \<Longrightarrow> get_inn_coins t (modify_session s f w) = get_inn_coins t w"
  by (simp add: get_inn_coins_def session_or_modify)

lemma both_coins: "coins_kept s 0 w (snd (update_inventory_and_warehouse s f w))"
  by (rule coins_same)
    (auto simp: update_inventory_and_warehouse_def gold_of_modify inn_coins_modify Let_def split_def
      gold_of_def get_character_info_def get_inn_coins_def session_or_def split: option.splits)

lemma bag_coins: "coins_kept s 0 w (snd (update_inventory s d f w))"
  by (rule coins_same) (auto simp: update_inventory_def inn_coins_modify gold_of_modify split: option.splits)

lemma serial_fields [simp]:
  "gold_of t (w\<lparr>next_item_serial := n\<rparr>) = gold_of t w" "session_or d t f (w\<lparr>next_item_serial := n\<rparr>) = session_or d t f w"
  by (simp_all add: gold_of_def get_character_info_def session_or_def)

lemma update_warehouse_gold [simp]: "gold_of t (snd (update_warehouse s f w)) = gold_of t w"
  by (auto simp: update_warehouse_def gold_of_modify split_def Let_def split: option.splits)

lemma update_warehouse_coins:
  "in_game s w \<Longrightarrow> get_inn_coins s (snd (update_warehouse s f w)) =
     snd (snd (snd (f (next_item_serial w, get_warehouse s w, get_inn_coins s w))))"
  by (auto simp: update_warehouse_def get_inn_coins_def get_warehouse_def in_game_def get_character_info_def
      session_or_modify split_def Let_def split: option.splits bind_splits)

lemma deposit_coins:
  assumes "in_game s w" "unat n \<le> gold_of s w" "unat (get_inn_coins s w) + unat n \<le> 2100000000"
  shows "coins_kept s 0 w (snd (update_warehouse s (\<lambda>(c, wh, coins). (True, c, wh, coins + n)) (snd (gold_lose s n w))))"
proof -
  have "fst (gold_lose s n w)" using assms by (simp add: gold.pay_iff)
  then have "gold_of s (snd (gold_lose s n w)) = gold_of s w - unat n" by (simp add: gold.pay_balance)
  moreover have "unat (get_inn_coins s w + n) = unat (get_inn_coins s w) + unat n"
    using assms(3) by (simp add: unat_word_ariths(1))
  ultimately show ?thesis
    using assms by (auto simp: coins_kept_def funds_def update_warehouse_coins)
qed

lemma withdraw_coins:
  assumes "in_game s w" "n \<le> get_inn_coins s w" "gold_of s w + unat n \<le> 2100000000"
  shows "coins_kept s 0 w (gold_gain s n (snd (update_warehouse s (\<lambda>(c, wh, coins). (True, c, wh, coins - n)) w)))"
proof -
  let ?w = "snd (update_warehouse s (\<lambda>(c, wh, coins). (True, c, wh, coins - n)) w)"
  have "in_game s ?w"
    using assms(1) by (cases "wsessions w s") (simp_all add: update_warehouse_def in_game_def get_character_info_def)
  then have "gold_of s (gold_gain s n ?w) = gold_of s w + unat n"
    using gold.gain_balance [of s s n ?w] assms(3) by (simp add: COIN_MAX_def)
  moreover have "unat (get_inn_coins s w - n) = unat (get_inn_coins s w) - unat n"
    using assms(2) by (simp add: unat_sub word_le_nat_alt)
  ultimately show ?thesis
    using assms by (auto simp: coins_kept_def funds_def update_warehouse_coins word_le_nat_alt)
qed

lemma coin_bounds:
  "(ucast (a :: u32) :: u64) + ucast n \<le> ucast COIN_MAX \<longleftrightarrow> unat a + unat n \<le> 2100000000" for n :: u32
  by (simp add: word_le_nat_alt u64_sum COIN_MAX_def)

lemma input_coins: "coins_kept s 0 w (snd (handle_warehouse_input e s i ref src dst n w))"
  by (auto simp: handle_warehouse_input_def coins_refl both_coins coin_bounds not_less
      intro!: deposit_coins split: option.splits)
    (auto simp: in_game_def gold_of_def word_le_nat_alt)

lemma output_coins: "coins_kept s 0 w (snd (handle_warehouse_output e s i ref src dst n w))"
  by (auto simp: handle_warehouse_output_def coins_refl both_coins coin_bounds not_less
      intro!: withdraw_coins split: option.splits)
    (auto simp: in_game_def gold_of_def word_le_nat_alt)

lemma move_coins: "coins_kept s 0 w (snd (handle_warehouse_move s i ref src dst w))"
proof -
  have "coins_kept s 0 w (snd (update_warehouse s (\<lambda>(c, wh, coins).
      let (ok, wh') = move_slot i j k (pad wh) in (ok, c, wh', coins)) w))" for j k
  proof (rule coins_same)
    show "get_inn_coins s (snd (update_warehouse s (\<lambda>(c, wh, coins).
      let (ok, wh') = move_slot i j k (pad wh) in (ok, c, wh', coins)) w)) = get_inn_coins s w"
      by (auto simp: update_warehouse_def get_inn_coins_def session_or_modify split_def Let_def split: option.splits)
  qed simp
  then show ?thesis by (auto simp: handle_warehouse_move_def coins_refl split_def Let_def)
qed

lemma invenmove_coins: "coins_kept s 0 w (snd (handle_warehouse_invenmove s i src dst w))"
  by (auto simp: handle_warehouse_invenmove_def coins_refl bag_coins split_def Let_def)

lemma open_coins:
  assumes "is_warehouse_loaded s w" "get_character_info s w = Some ch"
  shows "coins_kept s 0 w (snd (handle_warehouse_open e s account ch zone w))
    \<or> is_pk_zone zone \<and> coins_kept s 10000 w (snd (handle_warehouse_open e s account ch zone w))"
proof -
  have "coins_kept s 10000 w (snd (gold_lose s PK_ZONE_WAREHOUSE_COST w))"
    if "\<not> gold ch < PK_ZONE_WAREHOUSE_COST"
  proof -
    have le: "10000 \<le> gold_of s w"
      using that assms(2) by (simp add: gold_of_def PK_ZONE_WAREHOUSE_COST_def word_le_nat_alt word_less_nat_alt)
    then have "fst (gold_lose s PK_ZONE_WAREHOUSE_COST w)"
      using assms(2) by (simp add: gold.pay_iff in_game_def PK_ZONE_WAREHOUSE_COST_def)
    then have "gold_of s (snd (gold_lose s PK_ZONE_WAREHOUSE_COST w)) = gold_of s w - 10000"
      by (simp add: gold.pay_balance PK_ZONE_WAREHOUSE_COST_def)
    then show ?thesis using le by (auto simp: coins_kept_def funds_def)
  qed
  then show ?thesis
    using assms by (simp add: handle_warehouse_open_def Let_def coins_refl)
qed

lemma warehouse_packet_coins:
  assumes "is_warehouse_loaded s w"
  shows "coins_kept s 0 w (snd (handle_warehouse e st account s pkt w))
    \<or> unwrap_or 0 (fst (read_u8 (reader_new (pdata pkt)))) = WAREHOUSE_OPEN
      \<and> is_pk_zone (unwrap_or 0 (get_zone_id s w))
      \<and> coins_kept s 10000 w (snd (handle_warehouse e st account s pkt w))"
  using open_coins [OF assms, of _ e account "unwrap_or 0 (get_zone_id s w)"]
  by (auto simp: handle_warehouse_def Let_def split_def coins_refl input_coins output_coins move_coins
      invenmove_coins split: option.splits)

subsection \<open>One deposit and one withdrawal\<close>

definition storable :: "u32 \<Rightarrow> world \<Rightarrow> bool" where
  "storable i w \<longleftrightarrow> i \<noteq> 0 \<and> i \<noteq> ITEM_GOLD \<and> \<not> (ITEM_NO_TRADE_MIN \<le> i \<and> i \<le> ITEM_NO_TRADE_MAX)
     \<and> get_item i w \<noteq> None"

definition unlocked :: "user_item_slot \<Rightarrow> bool" where
  "unlocked sl \<longleftrightarrow> item_flag sl \<noteq> ITEM_FLAG_RENTED \<and> item_flag sl \<noteq> ITEM_FLAG_DUPLICATE
     \<and> item_flag sl \<noteq> ITEM_FLAG_SEALED \<and> expire_time sl = 0"

definition with_slots :: "sid \<Rightarrow> slots \<Rightarrow> slots \<Rightarrow> u64 \<Rightarrow> world \<Rightarrow> world" where
  "with_slots s bg wh n w = (modify_session s (\<lambda>h. h\<lparr>inventory := bg, warehouse := wh\<rparr>) w)\<lparr>next_item_serial := n\<rparr>"

lemma with_slots_fields:
  assumes "wsessions w s = Some h"
  shows "bag_of s (snd (finish_transfer e s x (True, with_slots s bg wh n w))) = bg"
    and "get_warehouse s (snd (finish_transfer e s x (True, with_slots s bg wh n w))) = wh"
    and "get_item u (snd (finish_transfer e s x (True, with_slots s bg wh n w))) = get_item u w"
    and "\<exists>h'. wsessions (snd (finish_transfer e s x (True, with_slots s bg wh n w))) s = Some h'
      \<and> inventory h' = bg \<and> warehouse h' = wh"
proof -
  let ?w = "snd (finish_transfer e s x (True, with_slots s bg wh n w))"
  show "get_item u ?w = get_item u w"
    by (simp add: finish_transfer_def with_slots_def warehouse_answer_def session_send_def get_item_def [of _ "_\<lparr>next_item_serial := _\<rparr>"])
      (simp add: get_item_def)
  have "bag_of s (with_slots s bg wh n w) = bg" "get_warehouse s (with_slots s bg wh n w) = wh"
    using assms by (simp_all add: with_slots_def bag_of_def get_warehouse_def session_or_modify)
  then show bw: "bag_of s ?w = bg" "get_warehouse s ?w = wh"
    by (simp_all add: finish_transfer_def)
  have "wsessions ?w s \<noteq> None"
    using assms by (simp add: finish_transfer_def with_slots_def set_user_ability_session split: option.splits)
  then show "\<exists>h'. wsessions ?w s = Some h' \<and> inventory h' = bg \<and> warehouse h' = wh"
    using bw by (auto simp: vault_fields)
qed

lemma deposit_succeeds:
  assumes "wsessions w s = Some h" "storable i w" "get_item i w = Some it"
    and "unat src < 28" "14 + unat src < length (inventory h)" "ref + unat dst < 192"
    and "item_id (inventory h ! (14 + unat src)) = i" "unlocked (inventory h ! (14 + unat src))"
    and "n \<noteq> 0" "ucast n \<le> item_count (inventory h ! (14 + unat src))"
    and "fits it (inventory h ! (14 + unat src)) (pad (warehouse h) ! (ref + unat dst))"
  obtains c where "handle_warehouse_input e s i ref src dst n w = finish_transfer e s WAREHOUSE_INPUT (True,
    with_slots s ((inventory h)[14 + unat src := withdraw it (ucast n) (inventory h ! (14 + unat src))])
      ((pad (warehouse h))[ref + unat dst := fst (store it (ucast n) (inventory h ! (14 + unat src))
        (pad (warehouse h) ! (ref + unat dst)) (next_item_serial w))]) c w)"
proof -
  obtain d c where dc: "store it (ucast n) (inventory h ! (14 + unat src))
      (pad (warehouse h) ! (ref + unat dst)) (next_item_serial w) = (d, c)" by fastforce
  then have "input_transfer it i (ucast n) (14 + unat src) (ref + unat dst) (next_item_serial w, inventory h, warehouse h) =
    (True, c, (inventory h)[14 + unat src := withdraw it (ucast n) (inventory h ! (14 + unat src))],
     (pad (warehouse h))[ref + unat dst := d])"
    using assms by (simp add: input_transfer_def slice_get_def unlocked_def Let_def not_less)
  then show ?thesis
    using assms(1-6,9) dc
    by (intro that [of c]) (auto simp: handle_warehouse_input_def storable_def bag_consts WAREHOUSE_MAX_def
        update_inventory_and_warehouse_def with_slots_def)
qed

lemma withdrawal_succeeds:
  assumes "wsessions w s = Some h" "storable i w" "get_item i w = Some it" "check_weight s i (ucast n) w"
    and "unat dst < 28" "14 + unat dst < length (inventory h)" "ref + unat src < 192"
    and "item_id (pad (warehouse h) ! (ref + unat src)) = i"
    and "n \<noteq> 0" "ucast n \<le> item_count (pad (warehouse h) ! (ref + unat src))"
    and "fits it (pad (warehouse h) ! (ref + unat src)) (inventory h ! (14 + unat dst))"
  obtains c where "handle_warehouse_output e s i ref src dst n w = finish_transfer e s WAREHOUSE_OUTPUT (True,
    with_slots s ((inventory h)[14 + unat dst := fst (store it (ucast n) (pad (warehouse h) ! (ref + unat src))
        (inventory h ! (14 + unat dst)) (next_item_serial w))])
      ((pad (warehouse h))[ref + unat src := withdraw it (ucast n) (pad (warehouse h) ! (ref + unat src))]) c w)"
proof -
  obtain d c where dc: "store it (ucast n) (pad (warehouse h) ! (ref + unat src))
      (inventory h ! (14 + unat dst)) (next_item_serial w) = (d, c)" by fastforce
  then have "output_transfer it i (ucast n) (ref + unat src) (14 + unat dst) (next_item_serial w, inventory h, warehouse h) =
    (True, c, (inventory h)[14 + unat dst := d],
     (pad (warehouse h))[ref + unat src := withdraw it (ucast n) (pad (warehouse h) ! (ref + unat src))])"
    using assms by (simp add: output_transfer_def slice_get_def Let_def)
  then show ?thesis
    using assms(1-7,9) dc
    by (intro that [of c]) (simp add: handle_warehouse_output_def storable_def bag_consts WAREHOUSE_MAX_def
        update_inventory_and_warehouse_def with_slots_def)
qed

lemma narrow_widen: "ucast (ucast (x :: u16) :: u32) = x"
  by transfer simp

lemma whole_slot:
  \<comment> \<open>a slot moved with its whole count to an empty place arrives unchanged\<close>
  assumes "item_count src = n" "n \<le> ITEMCOUNT_MAX" "serial_num src \<noteq> 0"
  shows "fst (store it n src empty_slot c) = src" "withdraw it n src = empty_slot" "fits it src empty_slot"
proof -
  have "unat n < 2 ^ 16" by (rule unat_less_wider) simp
  then show "fst (store it n src empty_slot c) = src"
    using assms by (cases src) (simp add: store_def empty_slot_def Let_def saturating_add_def)
  show "withdraw it n src = empty_slot" "fits it src empty_slot"
    using assms by (simp_all add: withdraw_def fits_def empty_slot_def)
qed

subsection \<open>What the warehouse guarantees\<close>

text \<open>C21: no packet to an opened warehouse makes pieces: of every item, bag and warehouse together hold
  at most as many pieces afterwards as before, both stay well formed, and no other player's session changes.\<close>

theorem warehouse_makes_no_pieces:
  assumes "is_warehouse_loaded s w" "slots_ok (bag_of s w)" "slots_ok (get_warehouse s w)" "i \<noteq> 0" "t \<noteq> s"
  shows "let w' = snd (handle_warehouse e st account s pkt w) in
    tally i (bag_of s w') + tally i (get_warehouse s w') \<le> tally i (bag_of s w) + tally i (get_warehouse s w)
    \<and> slots_ok (bag_of s w') \<and> slots_ok (get_warehouse s w') \<and> wsessions w' t = wsessions w t"
  using warehouse_packet_step [OF assms(1), of e st account pkt] assms
  by (simp add: vault_step_def shuffled_def)

lemma demo_vault:
  "is_warehouse_loaded 1 demo_world" "get_warehouse 1 demo_world = replicate 192 empty_slot"
  by (simp_all add: is_warehouse_loaded_def get_warehouse_def demo_handle_def)

theorem warehouse_makes_no_pieces_witness:
  "let w' = snd (handle_warehouse demo_env InGame None 1 (packet_new 0x6a) demo_world) in
    tally 5 (bag_of 1 w') + tally 5 (get_warehouse 1 w') = 0"
proof -
  have "slots_ok (bag_of 1 demo_world)" "slots_ok (get_warehouse 1 demo_world)"
    by (simp_all add: demo_vault slots_ok_empty)
  from warehouse_makes_no_pieces [OF demo_vault(1) this, of 5 2 demo_env InGame None "packet_new 0x6a"]
  show ?thesis by (simp add: demo_vault tally_replicate Let_def)
qed

text \<open>C22: no packet to an opened warehouse makes or loses coins: gold and inn coins together stay the
  same, except that opening in a PK zone costs 10,000; and neither passes 2,100,000,000.\<close>

theorem warehouse_keeps_coins:
  assumes "is_warehouse_loaded s w" "gold_of s w \<le> 2100000000" "unat (get_inn_coins s w) \<le> 2100000000"
  shows "let w' = snd (handle_warehouse e st account s pkt w);
             fee = gold_of s w + unat (get_inn_coins s w) - (gold_of s w' + unat (get_inn_coins s w')) in
    gold_of s w' + unat (get_inn_coins s w') + fee = gold_of s w + unat (get_inn_coins s w)
    \<and> (fee = 0 \<or> fee = 10000 \<and> unwrap_or 0 (fst (read_u8 (reader_new (pdata pkt)))) = WAREHOUSE_OPEN
        \<and> is_pk_zone (unwrap_or 0 (get_zone_id s w)))
    \<and> gold_of s w' \<le> 2100000000 \<and> unat (get_inn_coins s w') \<le> 2100000000"
  using warehouse_packet_coins [OF assms(1), of e st account pkt] assms
  by (auto simp: coins_kept_def funds_def Let_def)

theorem warehouse_keeps_coins_witness:
  "let w' = snd (handle_warehouse demo_env InGame None 1 (packet_new 0x6a) demo_world) in
    gold_of 1 w' + unat (get_inn_coins 1 w') = 1000"
proof -
  have "gold_of 1 demo_world = 1000" "get_inn_coins 1 demo_world = 0" "get_zone_id 1 demo_world = Some 21"
    by (simp_all add: gold_of_def get_character_info_def get_inn_coins_def demo_handle_def demo_char_def
        get_zone_id_def with_session_def)
  then show ?thesis
    using warehouse_keeps_coins [OF demo_vault(1), of demo_env InGame None "packet_new 0x6a"]
    by (simp add: Let_def is_pk_zone_def ZONE_RONARK_LAND_def ZONE_ARDREAM_def ZONE_RONARK_LAND_BASE_def)
qed

text \<open>A deposit onto a stack of the same item fills it up to 9,999 pieces; what does not fit is gone.
  Bag and warehouse together lose exactly the excess, which is nothing when the pieces fit.\<close>

theorem deposit_loses_excess:
  assumes "wsessions w s = Some h" "storable i w" "get_item i w = Some it" "sint (unwrap_or 0 (countable it)) > 0"
    and "slots_ok (inventory h)" "slots_ok (warehouse h)" "length (warehouse h) = 192"
    and "unat src < 28" "14 + unat src < length (inventory h)" "ref + unat dst < 192"
    and "item_id (inventory h ! (14 + unat src)) = i" "unlocked (inventory h ! (14 + unat src))"
    and "n \<noteq> 0" "unat n < 2 ^ 16" "ucast n \<le> item_count (inventory h ! (14 + unat src))"
    and "item_id (warehouse h ! (ref + unat dst)) \<in> {0, i}"
  shows "pieces s i (snd (handle_warehouse_input e s i ref src dst n w))
      + (unat (item_count (warehouse h ! (ref + unat dst))) + unat n - 9999) = pieces s i w"
proof -
  let ?j = "14 + unat src" and ?k = "ref + unat dst" and ?n = "ucast n :: u16"
  let ?x = "withdraw it ?n (inventory h ! ?j)"
  let ?y = "fst (store it ?n (inventory h ! ?j) (warehouse h ! ?k) (next_item_serial w))"
  have pad: "pad (warehouse h) = warehouse h" using assms(7) by (simp add: pad_def WAREHOUSE_MAX_def)
  have fit: "fits it (inventory h ! ?j) (pad (warehouse h) ! ?k)"
    using assms by (auto simp: fits_def pad)
  obtain c where eq: "handle_warehouse_input e s i ref src dst n w = finish_transfer e s WAREHOUSE_INPUT
      (True, with_slots s ((inventory h)[?j := ?x]) ((warehouse h)[?k := ?y]) c w)"
    using deposit_succeeds [OF assms(1-3,8-13,15) fit, of e] by (auto simp: pad)
  have n: "unat ?n = unat n" using assms(14) by (simp add: unsigned_ucast_eq take_bit_nat_eq_self)
  have i0: "i \<noteq> 0" using assms(2) by (simp add: storable_def)
  have "at_slot i ?x + unat n = at_slot i (inventory h ! ?j)"
    using withdraw_slot [OF assms(15) i0, of it] assms(4,11,15) n
    by (simp add: at_slot_def word_le_nat_alt)
  moreover have "item_id (warehouse h ! ?k) = 0 \<Longrightarrow> item_count (warehouse h ! ?k) = 0"
    using slot_ok_nth [OF assms(6), of ?k] assms(7,10) by (simp add: slot_ok_def)
  then have "at_slot i (warehouse h ! ?k) = unat (item_count (warehouse h ! ?k))"
    using assms(16) i0 by (auto simp: at_slot_def)
  then have "at_slot i ?y + (unat (item_count (warehouse h ! ?k)) + unat n - 9999)
      = at_slot i (warehouse h ! ?k) + unat n"
    using assms(4,11) n by (simp add: at_slot_def [of i ?y] store_slot(1) unat_stored)
  ultimately show ?thesis
    using tally_update [OF assms(9), of i ?x] tally_update [of ?k "warehouse h" i ?y] assms(1,7,10)
    by (simp add: pieces_def eq with_slots_fields [OF assms(1)] vault_fields)
qed

definition potions :: "u16 \<Rightarrow> user_item_slot" where
  "potions n = empty_slot\<lparr>item_id := 389010000, item_count := n, serial_num := 77\<rparr>"

definition vault_world :: "u16 \<Rightarrow> u16 \<Rightarrow> world" where
  \<comment> \<open>potions in the first bag slot and in the first place of the warehouse\<close>
  "vault_world n m = modify_session 1 (\<lambda>h. h\<lparr>inventory := (inventory h)[14 := potions n],
     warehouse := (if m = 0 then warehouse h else (warehouse h)[0 := potions m])\<rparr>) demo_world"

definition vault_handle :: "u16 \<Rightarrow> u16 \<Rightarrow> session_handle" where
  "vault_handle n m = demo_handle\<lparr>inventory := (replicate 96 empty_slot)[14 := potions n],
     warehouse := (if m = 0 then replicate 192 empty_slot else (replicate 192 empty_slot)[0 := potions m])\<rparr>"

lemma vault_world:
  "wsessions (vault_world n m) 1 = Some (vault_handle n m)" "storable 389010000 (vault_world n m)"
  "get_item 389010000 (vault_world n m) = Some potion" "sint (unwrap_or 0 (countable potion)) > 0"
  "unlocked (potions n)"
  by (simp_all add: vault_world_def vault_handle_def demo_handle_def storable_def get_item_def demo_world_def
      ITEM_GOLD_def ITEM_NO_TRADE_MIN_def ITEM_NO_TRADE_MAX_def modify_session_def potion_def unlocked_def
      potions_def empty_slot_def ITEM_FLAG_RENTED_def ITEM_FLAG_DUPLICATE_def ITEM_FLAG_SEALED_def)

lemma vault_handle_slots:
  "inventory (vault_handle n m) = (replicate 96 empty_slot)[14 := potions n]"
  "m \<noteq> 0 \<Longrightarrow> warehouse (vault_handle n m) = (replicate 192 empty_slot)[0 := potions m]"
  "warehouse (vault_handle n 0) = replicate 192 empty_slot"
  by (simp_all add: vault_handle_def)

lemma potions_ok: "n \<le> 9999 \<Longrightarrow> slot_ok (potions n)"
  by (simp add: slot_ok_def potions_def ITEMCOUNT_MAX_def empty_slot_def)

theorem deposit_loses_excess_witness:
  "pieces 1 389010000 (snd (handle_warehouse_input demo_env 1 389010000 0 0 0 3000 (vault_world 5000 9000))) + 2001
    = pieces 1 389010000 (vault_world 5000 9000)"
proof -
  have "slots_ok (inventory (vault_handle 5000 9000))" "slots_ok (warehouse (vault_handle 5000 9000))"
    by (simp_all add: vault_handle_slots slots_ok_set slots_ok_empty potions_ok)
  from deposit_loses_excess [OF vault_world(1-4) this, of 0 0 0 3000 demo_env] show ?thesis
    by (simp add: vault_handle_slots vault_world(5)) (simp add: potions_def)
qed


definition roomy_env :: env where
  "roomy_env = demo_env\<lparr>ability := \<lambda>_ _. (default_stats\<lparr>max_weight := 1000\<rparr>, 100, 100)\<rparr>"

lemma roomy_weight:
  assumes "w = snd (finish_transfer roomy_env 1 x (True, with_slots 1 (replicate 96 empty_slot) wh n (vault_world 7 0)))"
  shows "check_weight 1 389010000 7 w"
proof -
  let ?c = "with_slots 1 (replicate 96 empty_slot) wh n (vault_world 7 0)"
  have "get_character_info 1 ?c \<noteq> None" "wsessions ?c 1 \<noteq> None"
    by (simp_all add: with_slots_def get_character_info_def vault_world vault_handle_def demo_handle_def)
  then obtain h where h: "wsessions w 1 = Some h" "equipped h = default_stats\<lparr>max_weight := 1000\<rparr>"
    by (auto simp: assms finish_transfer_def set_user_ability_session roomy_env_def)
  have g: "get_item 389010000 w = Some potion" "bag_of 1 w = replicate 96 empty_slot"
    unfolding assms by (simp_all add: with_slots_fields [OF vault_world(1)] vault_world)
  then have "item_id (inventory h ! 14) = 0" "14 < length (inventory h)"
    using h by (simp_all add: vault_fields empty_slot_def)
  then have "find_slot_for_item 1 389010000 7 w \<noteq> None"
    using find_slot_room [OF h(1) g(1) vault_world(4), of 14] by simp
  then show ?thesis
    using h g by (simp add: check_weight_def default_stats_def potion_def)
qed


end
