(* ===== verification/Npc_Trade_Safe.thy ===== *)
theory Npc_Trade_Safe
  imports Npc_Trade Warehouse_Safe
begin

text \<open>
  What buying, selling and buying back guarantee: the tax is the percentage it should be, a purchase is
  all or nothing and charges what it announces, and two ways of selling that pay for nothing.
\<close>

subsection \<open>Taxes\<close>

lemma unat_percent_of:
  assumes "unat base * unat pct div 100 < 2 ^ 32"
  shows "unat (percent_of base pct) = unat base * unat pct div 100"
proof -
  have "unat base < 2 ^ 32" "unat pct < 2 ^ 32" by (rule unat_less_wider, simp)+
  then have "unat base * unat pct < 2 ^ 32 * 2 ^ 32" by (intro mult_strict_mono) auto
  then have "unat ((ucast base :: u64) * ucast pct div 100) = unat base * unat pct div 100"
    by (simp add: unat_div_distrib unat_word_ariths(2))
  then show ?thesis using assms by (simp add: percent_of_def unsigned_ucast_eq take_bit_nat_eq_self)
qed

lemma sint_small: "unat (x :: i32) < 2 ^ 31 \<Longrightarrow> sint x = int (unat x)"
proof -
  assume "unat x < 2 ^ 31"
  then have "int (unat x) < 2 ^ 31" by (simp del: of_nat_unat)
  then have "uint x < 2 ^ 31" "- (2 ^ 31) \<le> uint x" using uint_ge_0 [of x] by (simp, linarith)
  then show ?thesis by (simp add: sint_uint signed_take_bit_int_eq_self)
qed

lemma sint_small_minus: "unat (x :: i32) < 2 ^ 31 \<Longrightarrow> sint (- x) = - int (unat x)"
proof -
  assume a: "unat x < 2 ^ 31"
  then have "int (unat x) < 2 ^ 31" by (simp del: of_nat_unat)
  then have "- uint x < 2 ^ 31" "- (2 ^ 31) \<le> - uint x" using uint_ge_0 [of x] by (linarith, simp)
  moreover have "sint x = uint x" using sint_small [OF a] by simp
  ultimately show ?thesis by (simp add: sint_word_ariths signed_take_bit_int_eq_self)
qed

lemma percent_bound: "(b :: nat) \<le> 2100000000 \<Longrightarrow> p \<le> 20 \<Longrightarrow> b * p div 100 \<le> 420000000 \<and> b * p div 100 \<le> b"
proof -
  assume "b \<le> 2100000000" "p \<le> 20"
  then have "b * p \<le> 2100000000 * 20" "b * p \<le> b * 100" by (intro mult_le_mono; simp)+
  then show ?thesis by linarith
qed

lemma add_tax: "unat base + unat (tax :: u32) < 2 ^ 32 \<Longrightarrow> unat (saturating_add base tax) = unat base + unat tax"
  by (simp add: saturating_add_def unat_word_ariths(1))

lemma siege_adjustment:
  fixes siege :: u16
  assumes "unat siege \<le> 20"
  shows "sint ((ucast siege :: i32) - 10) = int (unat siege) - 10"
    and "unat (if sint ((ucast siege :: i32) - 10) < 0 then - ((ucast siege :: i32) - 10) else (ucast siege :: i32) - 10)
      = (if unat siege < 10 then 10 - unat siege else unat siege - 10)"
proof -
  let ?s = "ucast siege :: i32"
  have u: "unat ?s = unat siege" by simp
  show d: "sint (?s - 10) = int (unat siege) - 10"
  proof (cases "unat siege < 10")
    case True
    then have "unat (10 - ?s) = 10 - unat siege" by (simp add: unat_sub word_le_nat_alt u)
    then have "sint (- (10 - ?s)) = - int (10 - unat siege)" using sint_small_minus [of "10 - ?s"] by simp
    then show ?thesis using True by simp
  next
    case False
    then have "unat (?s - 10) = unat siege - 10" by (simp add: unat_sub word_le_nat_alt u)
    then have "sint (?s - 10) = int (unat siege - 10)"
      using sint_small [of "?s - 10"] assms by (simp del: of_nat_unat)
    then show ?thesis using False by simp
  qed
  have "sint (?s - 10) < 0 \<longleftrightarrow> unat siege < 10" unfolding d by linarith
  then show "unat (if sint (?s - 10) < 0 then - (?s - 10) else ?s - 10)
      = (if unat siege < 10 then 10 - unat siege else unat siege - 10)"
    by (simp add: unat_sub word_le_nat_alt u)
qed

text \<open>Within the ranges the server stores (king tariff 0 to 10, on top of 10 percent; siege tariff 0 to 20,
  with 10 as neutral) the taxed price of any price up to 2,100,000,000 is the price plus the tax,
  and the tax is exactly the percentage rounded down, a discount below a siege tariff of 10.\<close>

theorem tax_is_percentage:
  assumes "unat base \<le> 2100000000" "unat king \<le> 10" "unat siege \<le> 20"
  shows "case calculate_item_tax base zt king siege of (p, tax) \<Rightarrow>
    int (unat p) = int (unat base) + sint tax
    \<and> sint tax = (case zt of
        KingTariff \<Rightarrow> int (unat base * (unat king + 10) div 100)
      | NoTax \<Rightarrow> 0
      | _ \<Rightarrow> if unat siege < 10 then - int (unat base * (10 - unat siege) div 100)
             else int (unat base * (unat siege - 10) div 100))"
proof -
  have king: "unat (ucast king + 10 :: u32) = unat king + 10"
    using assms(2) by (simp add: unat_word_ariths(1))
  have pct: "unat (percent_of base p) = unat base * unat p div 100 \<and> unat (percent_of base p) \<le> 420000000
      \<and> unat (percent_of base p) \<le> unat base" if "unat p \<le> 20" for p
    using percent_bound [OF assms(1) that] unat_percent_of [of base p] by simp
  note adj = siege_adjustment [OF assms(3)]
  let ?d = "(ucast siege :: i32) - 10"
  have "unat (if sint ?d < 0 then - ?d else ?d) \<le> 20"
    using assms(3) unfolding adj(2) by (simp split: if_split) linarith
  note siege = pct [OF this] and kp = pct [of "ucast king + 10"]
  show ?thesis
  proof (cases zt)
    case KingTariff
    then show ?thesis
      using kp assms(1,2) king by (simp add: calculate_item_tax_def Let_def add_tax sint_small del: of_nat_unat)
  next
    case SiegeMoradon
    show ?thesis
    proof (cases "unat siege < 10")
      case True
      then show ?thesis
        using \<open>zt = SiegeMoradon\<close> siege assms(1) adj
        by (simp add: calculate_item_tax_def Let_def sint_small_minus unat_saturating_sub of_nat_diff del: of_nat_unat)
    next
      case False
      then show ?thesis
        using \<open>zt = SiegeMoradon\<close> siege assms(1) adj
        by (simp add: calculate_item_tax_def Let_def add_tax sint_small del: of_nat_unat)
    qed
  next
    case SiegeDelos
    show ?thesis
    proof (cases "unat siege < 10")
      case True
      then show ?thesis
        using \<open>zt = SiegeDelos\<close> siege assms(1) adj
        by (simp add: calculate_item_tax_def Let_def sint_small_minus unat_saturating_sub of_nat_diff del: of_nat_unat)
    next
      case False
      then show ?thesis
        using \<open>zt = SiegeDelos\<close> siege assms(1) adj
        by (simp add: calculate_item_tax_def Let_def add_tax sint_small del: of_nat_unat)
    qed
  next
    case NoTax
    then show ?thesis by (simp add: calculate_item_tax_def)
  qed
qed

theorem tax_is_percentage_witness:
  "case calculate_item_tax 5000 SiegeMoradon 0 4 of (p, tax) \<Rightarrow> int (unat p) = 5000 + sint tax \<and> sint tax = - 300"
  using tax_is_percentage [of 5000 0 4 SiegeMoradon] by (simp add: case_prod_beta)

subsection \<open>Pricing a purchase\<close>

lemma parse_buy_item:
  "parse_buy n grp w rd = Inr items \<Longrightarrow> it \<in> set items \<Longrightarrow>
    ti_item it \<noteq> 0 \<and> ti_count it \<noteq> 0 \<and> ti_count it < ITEMCOUNT_MAX \<and> unat (ti_pos it) < 28"
proof (induction n arbitrary: rd items)
  case (Suc n)
  from Suc.prems(1) obtain i p c rd' items' where
    "items = \<lparr>ti_item = i, ti_pos = p, ti_count = c\<rparr> # items'" "parse_buy n grp w rd' = Inr items'"
    "i \<noteq> 0" "c \<noteq> 0" "c < ITEMCOUNT_MAX" "unat p < 28"
    by (auto simp: Let_def split_def HAVE_MAX_def not_le split: if_splits sum.splits)
  then show ?case using Suc.IH Suc.prems(2) by auto
qed simp

definition item_price :: "bool \<Rightarrow> tax_zone \<Rightarrow> u8 \<Rightarrow> u16 \<Rightarrow> world \<Rightarrow> trade_item \<Rightarrow> u64" where
  \<comment> \<open>what one entry of a purchase costs\<close>
  "item_price loyal zt king siege w it =
     (case get_item (ti_item it) w of
        None \<Rightarrow> 0
      | Some d \<Rightarrow>
          let base = (scast (unwrap_or 0 (if loyal then np_buy_price d else buy_price d)) :: u64) * ucast (ti_count it) in
          if \<not> loyal \<and> \<not> is_tax_exempt (ti_item it)
          then ucast (fst (calculate_item_tax (ucast base) zt king siege)) else base)"

lemma price_one_Inr:
  assumes "price_one s loyal zt king siege w it t = Inr t'"
  shows "total_price t' = total_price t + item_price loyal zt king siege w it"
    and "item_price loyal zt king siege w it \<le> ucast COIN_MAX" "total_price t' \<le> ucast COIN_MAX"
    and "\<exists>d. get_item (ti_item it) w = Some d \<and> slot_takes s it d w = None"
  using assms by (auto simp: price_one_def item_price_def Let_def split_def not_less
      split: option.splits if_splits)

lemma add_prices:
  "a \<le> ucast COIN_MAX \<Longrightarrow> b \<le> ucast COIN_MAX \<Longrightarrow> unat (a + b :: u64) = unat a + unat b"
  by (simp add: COIN_MAX_def word_le_nat_alt unat_word_ariths(1))

lemma price_all_Inr:
  assumes "price_all s loyal zt king siege w items t = Inr t'" "total_price t \<le> ucast COIN_MAX"
  shows "unat (total_price t') = unat (total_price t)
      + (\<Sum>it \<leftarrow> items. unat (item_price loyal zt king siege w it))"
    and "total_price t' \<le> ucast COIN_MAX"
    and "\<forall>it \<in> set items. \<exists>d. get_item (ti_item it) w = Some d \<and> slot_takes s it d w = None"
  using assms
proof (induction items arbitrary: t)
  case (Cons it items)
  {
    case 1
    then obtain u where u: "price_one s loyal zt king siege w it t = Inr u"
      "price_all s loyal zt king siege w items u = Inr t'" by (auto split: sum.splits)
    with price_one_Inr [OF u(1)] Cons.IH(1) [OF u(2)] 1(2) show ?case by (simp add: add_prices)
  next
    case 2
    then show ?case using Cons.IH(2) price_one_Inr(3) by (auto split: sum.splits)
  next
    case 3
    then show ?case using Cons.IH(3) price_one_Inr(3,4) by (fastforce split: sum.splits)
  }
qed auto

subsection \<open>Handing over the goods\<close>

definition bought_slot :: "item_def \<Rightarrow> trade_item \<Rightarrow> u64 \<Rightarrow> user_item_slot \<Rightarrow> user_item_slot" where
  "bought_slot d it serial sl = sl\<lparr>item_id := ti_item it,
     item_count := (if unwrap_or 0 (countable d) = 0 then 1
       else min (item_count sl + ti_count it) ITEMCOUNT_MAX),
     durability := (if durability sl = 0 then unwrap_or 0 (duration d) else durability sl),
     serial_num := (if item_id sl = 0 then serial else serial_num sl)\<rparr>"

lemma give_bought_effect:
  assumes "wsessions w s = Some h" "get_item (ti_item it) w = Some d" "ti_item it \<noteq> 0"
    and "14 + unat (ti_pos it) < length (inventory h)"
  shows "wsessions (give_bought s it w) s = Some (h\<lparr>inventory := (inventory h)[14 + unat (ti_pos it) :=
      bought_slot d it (next_item_serial w) (inventory h ! (14 + unat (ti_pos it)))]\<rparr>)"
  using assms
  by (simp add: give_bought_def generate_item_serial_def update_inventory_def bought_def SLOT_MAX_def
      bought_slot_def Let_def get_item_def)

lemma give_bought_frame [simp]:
  "get_item i (give_bought s it w) = get_item i w"
  "gold_of t (give_bought s it w) = gold_of t w"
  "in_game t (give_bought s it w) = in_game t w"
  "t \<noteq> s \<Longrightarrow> wsessions (give_bought s it w) t = wsessions w t"
  by (auto simp: give_bought_def generate_item_serial_def update_inventory_def Let_def get_item_def
      gold_of_modify in_game_modify in_game_def gold_of_def get_character_info_def split: option.splits)

lemma fold_bought_frame [simp]:
  "get_item i (fold (give_bought s) items w) = get_item i w"
  "gold_of t (fold (give_bought s) items w) = gold_of t w"
  "in_game t (fold (give_bought s) items w) = in_game t w"
  "t \<noteq> s \<Longrightarrow> wsessions (fold (give_bought s) items w) t = wsessions w t"
  by (induction items arbitrary: w) simp_all

lemma fold_bought:
  assumes "wsessions w s = Some h" "distinct (map ti_pos items)"
    and "\<forall>it \<in> set items. ti_item it \<noteq> 0 \<and> get_item (ti_item it) w \<noteq> None
      \<and> 14 + unat (ti_pos it) < length (inventory h)"
  shows "\<exists>bg. wsessions (fold (give_bought s) items w) s = Some (h\<lparr>inventory := bg\<rparr>)
    \<and> length (bg) = length (inventory h)
    \<and> (\<forall>k. k \<notin> (\<lambda>it. 14 + unat (ti_pos it)) ` set items \<longrightarrow> bg ! k = inventory h ! k)
    \<and> (\<forall>it \<in> set items. \<exists>d serial. get_item (ti_item it) w = Some d
        \<and> bg ! (14 + unat (ti_pos it)) = bought_slot d it serial (inventory h ! (14 + unat (ti_pos it))))"
  using assms
proof (induction items arbitrary: w h)
  case (Cons it items)
  let ?k = "14 + unat (ti_pos it)"
  obtain d where d: "get_item (ti_item it) w = Some d" using Cons.prems(3) by auto
  let ?h = "h\<lparr>inventory := (inventory h)[?k := bought_slot d it (next_item_serial w) (inventory h ! ?k)]\<rparr>"
  have s: "wsessions (give_bought s it w) s = Some ?h"
    using Cons.prems by (intro give_bought_effect d) auto
  obtain bg where h': "wsessions (fold (give_bought s) items (give_bought s it w)) s = Some (?h\<lparr>inventory := bg\<rparr>)"
    "length (bg) = length (inventory h)"
    "\<And>k. k \<notin> (\<lambda>it. 14 + unat (ti_pos it)) ` set items \<Longrightarrow> bg ! k = inventory ?h ! k"
    "\<And>x. x \<in> set items \<Longrightarrow> \<exists>d serial. get_item (ti_item x) w = Some d
        \<and> bg ! (14 + unat (ti_pos x)) = bought_slot d x serial (inventory ?h ! (14 + unat (ti_pos x)))"
    using Cons.IH [OF s] Cons.prems(2,3) by auto
  have ne: "x \<in> set items \<Longrightarrow> unat (ti_pos x) \<noteq> unat (ti_pos it)" for x
    using Cons.prems(2) by (auto simp: image_iff word_unat_eq_iff)
  have "\<exists>d serial. get_item (ti_item x) w = Some d
        \<and> bg ! (14 + unat (ti_pos x)) = bought_slot d x serial (inventory h ! (14 + unat (ti_pos x)))"
    if "x \<in> set (it # items)" for x
  proof (cases "x = it")
    case True
    have "?k \<notin> (\<lambda>it. 14 + unat (ti_pos it)) ` set items" using ne by (simp add: image_iff) metis
    then show ?thesis using h'(3) [of ?k] Cons.prems(3) d True by auto
  next
    case False
    then have "x \<in> set items" using that by simp
    then show ?thesis using h'(4) [of x] ne [of x] by auto
  qed
  then show ?case using h'(1-3) by (intro exI [of _ bg]) auto
next
  case Nil
  then show ?case by (intro exI [of _ "inventory h"]) (cases h, simp)
qed

definition loyalty_of :: "sid \<Rightarrow> world \<Rightarrow> nat" where
  "loyalty_of s w = (case get_character_info s w of None \<Rightarrow> 0 | Some c \<Rightarrow> unat (loyalty c))"

definition countables_ok :: "world \<Rightarrow> bool" where
  "countables_ok w \<longleftrightarrow> (\<forall>i d. get_item i w = Some d \<longrightarrow> 0 \<le> sint (unwrap_or 0 (countable d)))"

definition delivered :: "sid \<Rightarrow> trade_item list \<Rightarrow> world \<Rightarrow> world \<Rightarrow> bool" where
  \<comment> \<open>every bought entry lies in its place: one piece of a single item, else the pieces on top of the stack;
    the other slots are as before\<close>
  "delivered s items w w' \<longleftrightarrow> length (bag_of s w') = length (bag_of s w)
     \<and> (\<forall>k. k \<notin> (\<lambda>it. 14 + unat (ti_pos it)) ` set items \<longrightarrow> bag_of s w' ! k = bag_of s w ! k)
     \<and> (\<forall>it \<in> set items. \<exists>d. get_item (ti_item it) w = Some d
         \<and> item_id (bag_of s w' ! (14 + unat (ti_pos it))) = ti_item it
         \<and> unat (item_count (bag_of s w' ! (14 + unat (ti_pos it)))) =
           (if unwrap_or 0 (countable d) = 0 then 1
            else unat (item_count (bag_of s w ! (14 + unat (ti_pos it)))) + unat (ti_count it)))"

lemma room_for_bought:
  assumes "slot_takes s it d w = None" "get_inventory_slot s (14 + unat (ti_pos it)) w = Some sl"
    and "slot_ok sl" "ti_count it < ITEMCOUNT_MAX" "0 \<le> sint (unwrap_or 0 (countable d))" "unwrap_or 0 (countable d) \<noteq> 0"
  shows "unat (min (item_count sl + ti_count it) ITEMCOUNT_MAX) = unat (item_count sl) + unat (ti_count it)"
proof -
  have le: "unat (item_count sl) \<le> 9999" "unat (ti_count it) < 9999"
    using assms(3,4) by (simp_all add: slot_ok_def ITEMCOUNT_MAX_def word_le_nat_alt word_less_nat_alt)
  then have sum: "unat (item_count sl + ti_count it) = unat (item_count sl) + unat (ti_count it)"
    by (simp add: unat_word_ariths(1))
  have "item_count sl + ti_count it \<le> ITEMCOUNT_MAX"
  proof (cases "item_id sl = 0")
    case True
    then show ?thesis using assms(3,4) by (simp add: slot_ok_def)
  next
    case False
    have "sint (unwrap_or 0 (countable d)) \<noteq> 0" using assms(6) by (simp only: signed_eq_0_iff) simp
    then have "0 < sint (unwrap_or 0 (countable d))" using assms(5) by linarith
    then show ?thesis
      using assms(1,2) False by (auto simp: slot_takes_def SLOT_MAX_def Let_def not_less add.commute split: if_splits)
  qed
  then show ?thesis using sum by (simp add: min_def)
qed

lemma delivered_fold:
  assumes "wsessions w s = Some h" "wsessions w1 s = Some h1" "inventory h1 = inventory h"
    and "\<And>i. get_item i w1 = get_item i w" "distinct (map ti_pos items)"
    and "slots_ok (inventory h)" "42 \<le> length (inventory h)" "countables_ok w"
    and "\<And>it. it \<in> set items \<Longrightarrow> ti_item it \<noteq> 0 \<and> ti_count it < ITEMCOUNT_MAX \<and> unat (ti_pos it) < 28"
    and "\<forall>it \<in> set items. \<exists>d. get_item (ti_item it) w = Some d \<and> slot_takes s it d w = None"
  shows "delivered s items w (fold (give_bought s) items w1)"
proof -
  have "\<forall>it \<in> set items. ti_item it \<noteq> 0 \<and> get_item (ti_item it) w1 \<noteq> None
      \<and> 14 + unat (ti_pos it) < length (inventory h1)"
    using assms(3,4,7,9,10) by fastforce
  from fold_bought [OF assms(2,5) this] obtain bg where bg:
    "wsessions (fold (give_bought s) items w1) s = Some (h1\<lparr>inventory := bg\<rparr>)" "length bg = length (inventory h)"
    "\<forall>k. k \<notin> (\<lambda>it. 14 + unat (ti_pos it)) ` set items \<longrightarrow> bg ! k = inventory h ! k"
    "\<forall>it \<in> set items. \<exists>d serial. get_item (ti_item it) w = Some d
        \<and> bg ! (14 + unat (ti_pos it)) = bought_slot d it serial (inventory h ! (14 + unat (ti_pos it)))"
    by (auto simp: assms(3,4))
  have "\<exists>d. get_item (ti_item it) w = Some d \<and> item_id (bg ! (14 + unat (ti_pos it))) = ti_item it
      \<and> unat (item_count (bg ! (14 + unat (ti_pos it)))) = (if unwrap_or 0 (countable d) = 0 then 1
            else unat (item_count (inventory h ! (14 + unat (ti_pos it)))) + unat (ti_count it))"
    if it: "it \<in> set items" for it
  proof -
    let ?sl = "inventory h ! (14 + unat (ti_pos it))"
    obtain d serial where d: "get_item (ti_item it) w = Some d" "slot_takes s it d w = None"
      "bg ! (14 + unat (ti_pos it)) = bought_slot d it serial ?sl"
      using bg(4) assms(10) it by fastforce
    have k: "14 + unat (ti_pos it) < length (inventory h)" using assms(7) assms(9) [OF it] by simp
    then have "get_inventory_slot s (14 + unat (ti_pos it)) w = Some ?sl"
      using assms(1) by (simp add: get_inventory_slot_def)
    moreover have "slot_ok ?sl" using assms(6) k by (rule slot_ok_nth)
    moreover have "0 \<le> sint (unwrap_or 0 (countable d))" using assms(8) d(1) by (auto simp: countables_ok_def)
    ultimately show ?thesis
      using room_for_bought [OF d(2)] assms(9) [OF it] d(1,3) by (auto simp: bought_slot_def)
  qed
  then show ?thesis
    unfolding delivered_def vault_fields(1) [OF assms(1)] vault_fields(1) [OF bg(1)] using bg(2,3) by simp
qed

subsection \<open>The whole purchase\<close>

lemma collect_tax_sessions [simp]: "wsessions (collect_tax zt ntn t w) = wsessions w"
  by (simp add: collect_tax_def update_king_system_def Let_def split: option.splits tax_zone.splits)

lemma sessions_fields:
  assumes "wsessions w' = wsessions w"
  shows "gold_of s w' = gold_of s w" "loyalty_of s w' = loyalty_of s w" "bag_of s w' = bag_of s w"
    "get_character_info s w' = get_character_info s w" "session_or d s f w' = session_or d s f w"
  using assms by (simp_all add: gold_of_def loyalty_of_def bag_of_def session_or_def get_character_info_def)

lemma loyalty_frame [simp]:
  "loyalty_of t (set_user_ability e s w) = loyalty_of t w"
  "loyalty_of t (give_bought s it w) = loyalty_of t w"
proof -
  show "loyalty_of t (set_user_ability e s w) = loyalty_of t w"
    by (cases "wsessions w s"; cases "wsessions w t";
      auto simp: loyalty_of_def get_character_info_def set_user_ability_session option.map_sel split: option.splits)
  show "loyalty_of t (give_bought s it w) = loyalty_of t w"
    by (auto simp: loyalty_of_def give_bought_def generate_item_serial_def update_inventory_def Let_def
      get_character_info_def split: option.splits)
qed

lemma fold_loyalty [simp]: "loyalty_of t (fold (give_bought s) items w) = loyalty_of t w"
  by (induction items arbitrary: w) simp_all

lemma send_fail_sessions [simp]: "wsessions (snd (send_fail s c w)) = wsessions w"
  by (simp add: send_fail_def)

lemma pay_purchase_effect:
  assumes "wsessions w s = Some h" "character h = Some ch"
    and "unat amount \<le> (if loyal then loyalty_of s w else gold_of s w)"
  shows "\<exists>h1. wsessions (pay_purchase s loyal amount w) s = Some h1 \<and> inventory h1 = inventory h"
    and "get_item i (pay_purchase s loyal amount w) = get_item i w"
    and "gold_of s (pay_purchase s loyal amount w) = gold_of s w - (if loyal then 0 else unat amount)"
    and "loyalty_of s (pay_purchase s loyal amount w) = loyalty_of s w - (if loyal then unat amount else 0)"
proof -
  have le: "unat amount < 2 ^ 32"
  proof -
    have "unat (loyalty ch) < 2 ^ 32" "unat (gold ch) < 2 ^ 32" by (rule unat_less_wider, simp)+
    then show ?thesis
      using assms by (auto simp: loyalty_of_def gold_of_def get_character_info_def split: if_splits)
  qed
  then have n: "unat (ucast amount :: u32) = unat amount"
    by (simp add: unsigned_ucast_eq take_bit_nat_eq_self)
  have lose: "snd (gold_lose s (ucast amount) w) = send_to_session s (gold_change 2 (ucast amount) (gold ch - ucast amount))
      (update_character_stats s (\<lambda>c. c\<lparr>gold := gold c - ucast amount\<rparr>) w)" if "\<not> loyal"
    using assms that n by (simp add: gold_lose_def get_character_info_def gold_of_def word_le_nat_alt)
  show "\<exists>h1. wsessions (pay_purchase s loyal amount w) s = Some h1 \<and> inventory h1 = inventory h"
    using assms lose by (auto simp: pay_purchase_def update_character_stats_def)
  show "get_item i (pay_purchase s loyal amount w) = get_item i w"
    using lose by (auto simp: pay_purchase_def update_character_stats_def)
  show "gold_of s (pay_purchase s loyal amount w) = gold_of s w - (if loyal then 0 else unat amount)"
  proof (cases loyal)
    case True
    then show ?thesis using assms by (simp add: pay_purchase_def gold_of_update gold_of_def [of s w] get_character_info_def)
  next
    case False
    then have "fst (gold_lose s (ucast amount) w)"
      using assms n by (simp add: gold.pay_iff in_game_def get_character_info_def)
    then show ?thesis using False n by (simp add: pay_purchase_def gold_of_modify gold.pay_balance)
  qed
  show "loyalty_of s (pay_purchase s loyal amount w) = loyalty_of s w - (if loyal then unat amount else 0)"
    using assms n lose by (auto simp: pay_purchase_def loyalty_of_def update_character_stats_def get_character_info_def
        unat_saturating_sub)
qed

definition price_for :: "sid \<Rightarrow> bool \<Rightarrow> world \<Rightarrow> trade_item \<Rightarrow> nat" where
  \<comment> \<open>the price of an entry where the buyer stands, with the tariff of the buyer's nation\<close>
  "price_for s loyal w it =
     (let zt = (if loyal then NoTax else classify_zone_tax (session_or 0 s zone_id w));
          king = (case get_king_system (session_or 0 s (\<lambda>h. case character h of None \<Rightarrow> 0 | Some c \<Rightarrow> nation c) w) w of
            None \<Rightarrow> 0 | Some k \<Rightarrow> territory_tariff k) in
      unat (item_price loyal zt king (siege_tariff zt w) w it))"

lemma delivered_sessions: "wsessions w2 = wsessions w1 \<Longrightarrow> delivered s items w w2 = delivered s items w w1"
proof -
  assume "wsessions w2 = wsessions w1"
  from sessions_fields(3) [OF this, of s] show ?thesis by (simp only: delivered_def)
qed

lemma delivered_ability [simp]: "delivered s items w (set_user_ability e s w1) = delivered s items w w1"
  by (simp add: delivered_def)

lemma finish_buy_sessions:
  "wsessions (snd (finish_buy e s grp loyal zt ntn items t w)) =
     wsessions (set_user_ability e s (fold (give_bought s) items (pay_purchase s loyal (total_price t) w)))"
  by (simp add: finish_buy_def Let_def split_def)

definition purchase :: "sid \<Rightarrow> bool \<Rightarrow> trade_item list \<Rightarrow> nat \<Rightarrow> world \<Rightarrow> world \<Rightarrow> bool" where
  \<comment> \<open>the goods are in the bag and the amount is paid in gold or, to a loyalty merchant, in loyalty points\<close>
  "purchase s loyal items amount w w' \<longleftrightarrow> amount \<le> 2100000000 \<and> delivered s items w w'
     \<and> gold_of s w' + (if loyal then 0 else amount) = gold_of s w
     \<and> loyalty_of s w' + (if loyal then amount else 0) = loyalty_of s w"

lemma finish_buy_purchase:
  assumes "wsessions w s = Some h" "character h = Some ch"
    and "\<not> ucast (total_price t) > (if loyal then loyalty ch else gold ch)" "total_price t \<le> ucast COIN_MAX"
    and "distinct (map ti_pos items)" "slots_ok (inventory h)" "42 \<le> length (inventory h)" "countables_ok w"
    and "\<And>it. it \<in> set items \<Longrightarrow> ti_item it \<noteq> 0 \<and> ti_count it < ITEMCOUNT_MAX \<and> unat (ti_pos it) < 28"
    and "\<forall>it \<in> set items. \<exists>d. get_item (ti_item it) w = Some d \<and> slot_takes s it d w = None"
  shows "purchase s loyal items (unat (total_price t)) w (snd (finish_buy e s grp loyal zt ntn items t w))"
proof -
  have le: "unat (total_price t) \<le> 2100000000"
    using assms(4) by (simp add: word_le_nat_alt COIN_MAX_def)
  then have "unat (ucast (total_price t) :: u32) = unat (total_price t)"
    by (simp add: unsigned_ucast_eq take_bit_nat_eq_self)
  then have pay: "unat (total_price t) \<le> (if loyal then loyalty_of s w else gold_of s w)"
    using assms(1-3) by (auto simp: loyalty_of_def gold_of_def get_character_info_def word_less_nat_alt not_less)
  note effect = pay_purchase_effect [OF assms(1,2) pay]
  obtain h1 where h1: "wsessions (pay_purchase s loyal (total_price t) w) s = Some h1" "inventory h1 = inventory h"
    using effect(1) by blast
  have "delivered s items w (fold (give_bought s) items (pay_purchase s loyal (total_price t) w))"
    by (rule delivered_fold [OF assms(1) h1 effect(2) assms(5-10)])
  then show ?thesis
    using le pay unfolding purchase_def delivered_sessions [OF finish_buy_sessions] sessions_fields(1,2) [OF finish_buy_sessions]
      delivered_ability fold_bought_frame fold_loyalty ability_gold loyalty_frame effect(3,4)
    by (auto split: if_splits)
qed

lemma handle_buy_accepted:
  fixes loyal :: bool and h :: session_handle and w :: world
  assumes h: "wsessions w s = Some h"
  defines "zt \<equiv> (if loyal then NoTax else classify_zone_tax (zone_id h))"
  defines "ntn \<equiv> (case character h of None \<Rightarrow> 0 | Some c \<Rightarrow> nation c)"
  defines "king \<equiv> (case get_king_system ntn w of None \<Rightarrow> 0 | Some k \<Rightarrow> territory_tariff k)"
  assumes changed: "wsessions (snd (handle_buy e s rd n grp loyal w)) \<noteq> wsessions w"
  obtains items t ch where "parse_buy (unat n) grp w rd = Inr items" "distinct (map ti_pos items)"
    "price_all s loyal zt king (siege_tariff zt w) w items no_totals = Inr t" "character h = Some ch"
    "\<not> ucast (total_price t) > (if loyal then loyalty ch else gold ch)"
    "handle_buy e s rd n grp loyal w = finish_buy e s grp loyal zt ntn items t w"
proof -
  have c: "get_character_info s w = character h" by (simp add: get_character_info_def h)
  have eq: "handle_buy e s rd n grp loyal w =
    (case parse_buy (unat n) grp w rd of
        Inl code \<Rightarrow> send_fail s code w
      | Inr items \<Rightarrow>
          if \<not> distinct (map ti_pos items) then send_fail s 23 w
          else (case price_all s loyal zt king (siege_tariff zt w) w items no_totals of
               Inl code \<Rightarrow> send_fail s code w
             | Inr t \<Rightarrow>
                 (case character h of
                    None \<Rightarrow> send_fail s 1 w
                  | Some ch \<Rightarrow>
                      if ucast (total_price t) > (if loyal then loyalty ch else gold ch)
                      then send_fail s 3 w
                      else finish_buy e s grp loyal zt ntn items t w)))"
    unfolding handle_buy_def session_or_Some [OF h] c Let_def prod.case zt_def king_def ntn_def by (rule refl)
  obtain items where b1: "parse_buy (unat n) grp w rd = Inr items" "distinct (map ti_pos items)"
    using changed unfolding eq by (cases "parse_buy (unat n) grp w rd") (auto split: if_splits)
  obtain t where b2: "price_all s loyal zt king (siege_tariff zt w) w items no_totals = Inr t"
    using changed b1 unfolding eq by (cases "price_all s loyal zt king (siege_tariff zt w) w items no_totals") auto
  obtain ch where b3: "character h = Some ch"
    using changed b1 b2 unfolding eq by (cases "character h") auto
  have b4: "\<not> ucast (total_price t) > (if loyal then loyalty ch else gold ch)"
    using changed b1 b2 b3 unfolding eq by auto
  then have "handle_buy e s rd n grp loyal w = finish_buy e s grp loyal zt ntn items t w"
    using b1 b2 b3 unfolding eq by simp
  then show thesis using that b1 b2 b3 b4 by blast
qed

text \<open>C19: a purchase is all or nothing. Either no session changes, or all entries were parsed, priced and
  found to fit: then every entry lies in its place and the buyer paid exactly the sum of the prices, at
  most 2,100,000,000, in gold or in loyalty points. A single item is charged by its count and
  delivered once.\<close>

theorem buy_all_or_nothing:
  assumes "slots_ok (bag_of s w)" "42 \<le> length (bag_of s w)" "countables_ok w"
  shows "let w' = snd (handle_buy e s rd n grp loyal w) in wsessions w' = wsessions w
    \<or> (\<exists>items. parse_buy (unat n) grp w rd = Inr items
        \<and> purchase s loyal items (\<Sum>it \<leftarrow> items. price_for s loyal w it) w w')"
proof (cases "wsessions (snd (handle_buy e s rd n grp loyal w)) = wsessions w")
  case False
  obtain h where h: "wsessions w s = Some h"
    using assms(2) by (auto simp: bag_of_def session_or_def split: option.splits)
  define zt where "zt = (if loyal then NoTax else classify_zone_tax (zone_id h))"
  define ntn where "ntn = (case character h of None \<Rightarrow> 0 | Some c \<Rightarrow> nation c)"
  define king where "king = (case get_king_system ntn w of None \<Rightarrow> 0 | Some k \<Rightarrow> territory_tariff k)"
  from handle_buy_accepted [OF h False, folded zt_def ntn_def king_def]
  obtain items t ch where b: "parse_buy (unat n) grp w rd = Inr items" "distinct (map ti_pos items)"
    "price_all s loyal zt king (siege_tariff zt w) w items no_totals = Inr t" "character h = Some ch"
    "\<not> ucast (total_price t) > (if loyal then loyalty ch else gold ch)"
    "handle_buy e s rd n grp loyal w = finish_buy e s grp loyal zt ntn items t w" .
  have price: "price_for s loyal w it = unat (item_price loyal zt king (siege_tariff zt w) w it)" for it
    unfolding price_for_def session_or_Some [OF h] Let_def zt_def ntn_def king_def by (rule refl)
  have t: "total_price no_totals \<le> ucast COIN_MAX" by (simp add: no_totals_def)
  note p = price_all_Inr [OF b(3) t]
  have "purchase s loyal items (unat (total_price t)) w (snd (finish_buy e s grp loyal zt ntn items t w))"
    using assms h parse_buy_item [OF b(1)] p b by (intro finish_buy_purchase) (auto simp: vault_fields)
  moreover have "unat (total_price t) = (\<Sum>it \<leftarrow> items. price_for s loyal w it)"
    using p(1) by (simp add: price no_totals_def)
  ultimately show ?thesis using b(1,6) by simp
qed simp

subsection \<open>Selling\<close>

lemma record_trash_frame [simp]:
  "bag_of t (record_trash_item e s x w) = bag_of t w"
  "gold_of t (record_trash_item e s x w) = gold_of t w"
  "get_item i (record_trash_item e s x w) = get_item i w"
  by (auto simp: record_trash_item_def add_deleted_item_def bag_of_modify gold_of_modify vault_fields split: option.splits)

lemma update_inventory_frame [simp]:
  "gold_of t (snd (update_inventory s d f w)) = gold_of t w"
  "get_item i (snd (update_inventory s d f w)) = get_item i w"
  by (auto simp: update_inventory_def gold_of_modify split: option.splits)

lemma bag_of_update: "wsessions w s = Some h \<Longrightarrow>
    bag_of s (snd (update_inventory s d f w)) = snd (f (bag_of s w))"
  by (simp add: update_inventory_def bag_of_modify vault_fields)

lemma take_sold_frame [simp]:
  "gold_of t (take_sold e now s it w) = gold_of t w"
  "get_item i (take_sold e now s it w) = get_item i w"
  by (auto simp: take_sold_def Let_def split: option.splits)

lemma take_sold_bag:
  "wsessions w s = Some h \<Longrightarrow> ti_item it \<noteq> 0 \<Longrightarrow>
    bag_of s (take_sold e now s it w) = snd (sold_slot (get_item (ti_item it) w) it (bag_of s w))"
  by (auto simp: take_sold_def Let_def bag_of_update split: option.splits)

lemma sold_slot_whole:
  assumes "14 + unat (ti_pos it) < length bg" "item_count (bg ! (14 + unat (ti_pos it))) \<le> ti_count it"
  shows "snd (sold_slot d it bg) = bg[14 + unat (ti_pos it) := empty_slot]"
  using assms by (simp add: sold_slot_def Let_def SLOT_MAX_def)

lemma take_sold_session: "wsessions w s \<noteq> None \<Longrightarrow> wsessions (take_sold e now s it w) s \<noteq> None"
  by (auto simp: take_sold_def Let_def update_inventory_def record_trash_item_def add_deleted_item_def
      split: option.splits)

lemma repeated_take:
  assumes "wsessions w s \<noteq> None" "ti_item it \<noteq> 0" "14 + unat (ti_pos it) < length (bag_of s w)"
    and "item_count (bag_of s w ! (14 + unat (ti_pos it))) \<le> ti_count it"
  shows "bag_of s (fold (take_sold e now s) (replicate (Suc m) it) w) = (bag_of s w)[14 + unat (ti_pos it) := empty_slot]"
  using assms
proof (induction m arbitrary: w)
  case 0
  then show ?case by (auto simp: take_sold_bag sold_slot_whole)
next
  case (Suc m)
  let ?w = "take_sold e now s it w"
  have b: "bag_of s ?w = (bag_of s w)[14 + unat (ti_pos it) := empty_slot]"
    using Suc.prems by (auto simp: take_sold_bag sold_slot_whole)
  have "bag_of s (fold (take_sold e now s) (replicate (Suc m) it) ?w) = (bag_of s ?w)[14 + unat (ti_pos it) := empty_slot]"
    using Suc.prems by (intro Suc.IH) (simp_all add: take_sold_session b empty_slot_def)
  then show ?case using b by simp
qed

definition sellable :: "sid \<Rightarrow> trade_item \<Rightarrow> item_def \<Rightarrow> world \<Rightarrow> bool" where
  \<comment> \<open>the checks of a sale that do not depend on the price\<close>
  "sellable s it d w \<longleftrightarrow> get_item (ti_item it) w = Some d \<and> ti_item it \<noteq> 0
     \<and> \<not> (ITEM_NO_TRADE_MIN \<le> ti_item it \<and> ti_item it \<le> ITEM_NO_TRADE_MAX)
     \<and> unwrap_or 0 (race d) \<noteq> RACE_UNTRADEABLE \<and> 14 + unat (ti_pos it) < length (bag_of s w)
     \<and> item_id (bag_of s w ! (14 + unat (ti_pos it))) = ti_item it
     \<and> unlocked (bag_of s w ! (14 + unat (ti_pos it)))
     \<and> ti_count it \<le> item_count (bag_of s w ! (14 + unat (ti_pos it)))"

lemma sell_one_Inr:
  assumes "sellable s it d w" "in_game s w"
    and "gold_of s w + unat amount + unat (sale_price d (sint (item_sell_percent s w) > 0) (ti_count it)) \<le> 2100000000"
  shows "sell_one s w it amount = Inr (amount + sale_price d (sint (item_sell_percent s w) > 0) (ti_count it))"
proof -
  let ?p = "sale_price d (sint (item_sell_percent s w) > 0) (ti_count it)"
  obtain h ch where h: "wsessions w s = Some h" "character h = Some ch"
    using assms(2) by (cases "wsessions w s") (auto simp: in_game_def get_character_info_def)
  then have c: "get_character_info s w = Some ch" by (simp add: get_character_info_def)
  have g: "unat (gold ch) + unat amount + unat ?p \<le> 2100000000"
    using assms(3) h by (simp add: gold_of_def get_character_info_def)
  then have "unat (amount + ?p) = unat amount + unat ?p" by (simp add: unat_word_ariths(1))
  then have "unat ((ucast (gold ch) :: u64) + (amount + ?p)) = unat (gold ch) + unat amount + unat ?p"
    using g by (simp add: unat_word_ariths(1))
  then have "\<not> ucast (gold ch) + (amount + ?p) > ucast COIN_MAX"
    using g by (simp add: word_less_nat_alt COIN_MAX_def)
  then show ?thesis
    using assms(1) h by (auto simp: sell_one_def sellable_def unlocked_def get_inventory_slot_def SLOT_MAX_def
        slice_get_def c vault_fields)
qed

lemma sell_repeated:
  assumes "sellable s it d w" "in_game s w"
    and "gold_of s w + unat amount + m * unat (sale_price d (sint (item_sell_percent s w) > 0) (ti_count it)) \<le> 2100000000"
  shows "\<exists>amount'. sell_all s w (replicate m it) amount = Inr amount' \<and> unat amount' =
    unat amount + m * unat (sale_price d (sint (item_sell_percent s w) > 0) (ti_count it))"
  using assms(3)
proof (induction m arbitrary: amount)
  case (Suc m)
  let ?p = "sale_price d (sint (item_sell_percent s w) > 0) (ti_count it)"
  have "gold_of s w + unat amount + unat ?p \<le> 2100000000" using Suc.prems by simp
  moreover from this have "unat (amount + ?p) = unat amount + unat ?p" by (simp add: unat_word_ariths(1))
  ultimately show ?case
    using Suc.IH [of "amount + ?p"] Suc.prems by (simp add: sell_one_Inr [OF assms(1,2)] add.assoc)
qed simp

lemma gold_gain_frame [simp]:
  "get_item i (gold_gain s a w) = get_item i w"
  "wsessions (gold_gain s a w) t = None \<longleftrightarrow> wsessions w t = None"
  by (auto simp: gold_gain_def Let_def update_character_stats_def)

lemma fold_sold_frame [simp]: "gold_of t (fold (take_sold e now s) its w) = gold_of t w"
  by (induction its arbitrary: w) simp_all

lemma session_of_bag: "k < length (bag_of s w) \<Longrightarrow> wsessions w s \<noteq> None"
  by (auto simp: bag_of_def session_or_def split: option.splits)

lemma handle_sell_accepted:
  assumes "sell_all s w (parse_sell (unat n) rd) 0 = Inr amount" "in_game s w"
    and "gold_of s w + unat amount \<le> 2100000000"
  shows "gold_of s (snd (handle_sell e now s rd n w)) = gold_of s w + unat amount"
    and "bag_of s (snd (handle_sell e now s rd n w)) =
      bag_of s (fold (take_sold e now s) (parse_sell (unat n) rd) (gold_gain s (ucast amount) w))"
proof -
  have "unat (ucast amount :: u32) = unat amount"
    using assms(3) by (simp add: unsigned_ucast_eq take_bit_nat_eq_self)
  then have "gold_of s (gold_gain s (ucast amount) w) = gold_of s w + unat amount"
    using assms(2,3) gold.gain_balance [of s s "ucast amount" w] by (simp add: COIN_MAX_def)
  then show "gold_of s (snd (handle_sell e now s rd n w)) = gold_of s w + unat amount"
    by (simp add: handle_sell_def assms(1) Let_def)
  show "bag_of s (snd (handle_sell e now s rd n w)) =
      bag_of s (fold (take_sold e now s) (parse_sell (unat n) rd) (gold_gain s (ucast amount) w))"
    by (simp add: handle_sell_def assms(1) Let_def)
qed

text \<open>C20: a sale pays for every entry of the list, but takes each bag slot only once: listing the same
  full slot \<open>n\<close> times pays its price \<open>n\<close> times, and the bag loses that one slot.\<close>

theorem repeated_entry_paid_again:
  assumes "sellable s it d w" "in_game s w" "parse_sell (unat n) rd = replicate (unat n) it" "0 < unat n"
    and "ti_count it = item_count (bag_of s w ! (14 + unat (ti_pos it)))"
    and "p = unat (sale_price d (sint (item_sell_percent s w) > 0) (ti_count it))"
    and "gold_of s w + unat n * p \<le> 2100000000"
  shows "gold_of s (snd (handle_sell e now s rd n w)) = gold_of s w + unat n * p
    \<and> bag_of s (snd (handle_sell e now s rd n w)) = (bag_of s w)[14 + unat (ti_pos it) := empty_slot]"
proof -
  obtain amount where a: "sell_all s w (parse_sell (unat n) rd) 0 = Inr amount" "unat amount = unat n * p"
    using sell_repeated [OF assms(1,2), of 0 "unat n"] assms(3,6,7) by auto
  note acc = handle_sell_accepted [OF a(1) assms(2), of e now]
  obtain m where m: "unat n = Suc m" using assms(4) by (cases "unat n") auto
  have k: "14 + unat (ti_pos it) < length (bag_of s w)" "ti_item it \<noteq> 0"
    using assms(1) by (simp_all add: sellable_def)
  have "bag_of s (fold (take_sold e now s) (replicate (Suc m) it) (gold_gain s (ucast amount) w))
      = (bag_of s (gold_gain s (ucast amount) w))[14 + unat (ti_pos it) := empty_slot]"
    by (rule repeated_take) (use k session_of_bag [OF k(1)] assms(5) in simp_all)
  then show ?thesis using acc assms(3,7) a(2) m by simp
qed

definition sale_bytes :: "trade_item \<Rightarrow> bytes" where
  \<comment> \<open>how the client writes one entry\<close>
  "sale_bytes it = to_le 4 (ti_item it) @ [ti_pos it] @ to_le 2 (ti_count it)"

lemma parse_sales:
  "parse_sell (length items) \<lparr>rd_data = pre @ concat (map sale_bytes items) @ rest, rd_pos = length pre\<rparr> = items"
proof (induction items arbitrary: pre)
  case (Cons it items)
  have "parse_sell (Suc (length items)) \<lparr>rd_data = pre @ concat (map sale_bytes (it # items)) @ rest, rd_pos = length pre\<rparr>
    = it # parse_sell (length items) \<lparr>rd_data = (pre @ sale_bytes it) @ concat (map sale_bytes items) @ rest,
        rd_pos = length (pre @ sale_bytes it)\<rparr>"
    by (simp add: sale_bytes_def read_u32_def read_u16_def read_u8_def read_le_def nth_append add.commute)
  also have "\<dots> = it # items" by (simp only: Cons)
  finally show ?case by (simp del: parse_sell.simps)
qed simp

lemma vault_world_gold: "gold_of 1 (vault_world n m) = 1000" "in_game 1 (vault_world n m)"
  by (simp_all add: gold_of_def in_game_def get_character_info_def vault_world vault_handle_def demo_handle_def demo_char_def)

lemma potion_price: "sale_price potion False n = ucast n * 10"
proof -
  have "unat n < 65536" using unsigned_less [of n] by simp
  moreover from this have "unat (ucast n :: u64) = unat n" by (simp add: unsigned_ucast_eq take_bit_nat_eq_self)
  ultimately show ?thesis by (simp add: sale_price_def potion_def saturating_mul_def Let_def mult.commute)
qed

lemma vault_bag: "bag_of 1 (vault_world n m) = (replicate 96 empty_slot)[14 := potions n]"
  by (simp add: vault_fields [OF vault_world(1)] vault_handle_slots)

lemma vault_premium: "item_sell_percent 1 (vault_world n m) = 0"
  by (simp add: item_sell_percent_def vault_world vault_handle_def demo_handle_def)

theorem repeated_entry_paid_again_witness:
  "gold_of 1 (snd (handle_sell demo_env 0 1 (reader_new (concat (replicate 3 (sale_bytes
      \<lparr>ti_item = 389010000, ti_pos = 0, ti_count = 7\<rparr>)))) 3 (vault_world 7 0))) = 1000 + 3 * 70"
proof -
  let ?it = "\<lparr>ti_item = 389010000, ti_pos = 0, ti_count = 7\<rparr>"
  have "sellable 1 ?it potion (vault_world 7 0)"
    using vault_world(5) by (simp add: sellable_def vault_world vault_bag potion_def ITEM_NO_TRADE_MIN_def
        ITEM_NO_TRADE_MAX_def RACE_UNTRADEABLE_def) (simp add: potions_def)
  moreover have "parse_sell 3 (reader_new (concat (replicate 3 (sale_bytes ?it)))) = replicate 3 ?it"
    using parse_sales [of "replicate 3 ?it" "[]" "[]"] by (simp add: reader_new_def map_replicate)
  moreover have "unat (sale_price potion False 7) = 70" by (simp add: potion_price)
  ultimately show ?thesis
    using repeated_entry_paid_again [of 1 ?it potion "vault_world 7 0" 3 "reader_new (concat (replicate 3 (sale_bytes ?it)))"
        70 demo_env 0]
    by (simp add: vault_world_gold vault_bag vault_premium) (simp add: potions_def)
qed

lemma deleted_frame [simp]:
  "get_deleted_items t (set_user_ability e s w) = get_deleted_items t w"
  "get_deleted_items t (snd (session_send s p w)) = get_deleted_items t w"
  "get_deleted_items t (gold_gain s a w) = get_deleted_items t w"
  "get_deleted_items t (snd (gold_lose s a w)) = get_deleted_items t w"
  "get_deleted_items t (snd (update_inventory s d f w)) = get_deleted_items t w"
  by (auto simp: get_deleted_items_def session_send_def gold_gain_def gold_lose_def Let_def update_character_stats_def
      session_or_modify update_inventory_def split: option.splits)

lemma trash_enabled_frame [simp]:
  "trash_item_enabled (gold_gain s a w) = trash_item_enabled w"
  "trash_item_enabled (snd (update_inventory s d f w)) = trash_item_enabled w"
  by (simp_all add: trash_item_enabled_def gold_gain_def Let_def update_inventory_def update_character_stats_def
      modify_session_def send_to_session_def split: option.splits)

lemma record_trash_deleted:
  assumes "in_game s w" "length (get_deleted_items s w) < 10000" "\<And>w x y. insert_trash e w x y \<noteq> None"
  shows "\<exists>row. get_deleted_items s (record_trash_item e s x w) = get_deleted_items s w @ [x\<lparr>d_db_id := row\<rparr>]"
proof -
  obtain h ch where h: "wsessions w s = Some h" "character h = Some ch"
    using assms(1) by (cases "wsessions w s") (auto simp: in_game_def get_character_info_def)
  then have c: "get_character_info s w = Some ch" by (simp add: get_character_info_def)
  obtain row where "insert_trash e w (ch_name ch) x = Some row" using assms(3) by blast
  then show ?thesis
    using assms(2) h by (auto simp: record_trash_item_def c add_deleted_item_def get_deleted_items_def TRASH_ITEM_MAX_def
        session_or_modify)
qed

lemma price_of_nothing [simp]: "sale_price d b 0 = 0"
  by (simp add: sale_price_def saturating_mul_def Let_def)

text \<open>An entry that sells zero pieces of a single item passes the checks: the item stays in the bag, no
  gold is paid, and the item is entered with its serial number into the list of sold items, from which
  it can be bought back as a second copy.\<close>

theorem sale_of_nothing_lists_item:
  assumes "sellable s it d w" "in_game s w" "parse_sell (unat n) rd = [it]" "ti_count it = 0"
    and "unwrap_or 0 (countable d) = 0" "unwrap_or 0 (kind d) \<noteq> ITEM_KIND_UNIQUE" "trash_item_enabled w"
    and "sl = bag_of s w ! (14 + unat (ti_pos it))" "item_count sl \<noteq> 0" "gold_of s w \<le> 2100000000"
    and "length (get_deleted_items s w) < 10000" "\<And>w x y. insert_trash e w x y \<noteq> None"
    and "w' = snd (handle_sell e now s rd n w)"
  shows "gold_of s w' = gold_of s w \<and> bag_of s w' = bag_of s w
    \<and> (\<exists>row. get_deleted_items s w' = get_deleted_items s w @ [trash_entry now sl\<lparr>d_db_id := row\<rparr>])"
proof -
  have k: "14 + unat (ti_pos it) < length (bag_of s w)" "ti_item it \<noteq> 0" "get_item (ti_item it) w = Some d"
    "expire_time sl = 0"
    using assms(1,8) by (simp_all add: sellable_def unlocked_def)
  have a: "sell_all s w (parse_sell (unat n) rd) 0 = Inr 0"
    using sell_one_Inr [OF assms(1,2), of 0] assms(3,4,10) by simp
  note acc = handle_sell_accepted [OF a assms(2), of e now]
  let ?w = "gold_gain s 0 w"
  obtain h where h: "wsessions ?w s = Some h" using session_of_bag [OF k(1)] by (metis gold_gain_frame(2) option.exhaust)
  have same: "snd (sold_slot (Some d) it (bag_of s w)) = bag_of s w"
    using k(1) assms(4-6,8,9) by (auto simp: sold_slot_def Let_def SLOT_MAX_def word_le_nat_alt unat_eq_0)
  have "bag_of s (take_sold e now s it ?w) = bag_of s w"
    using take_sold_bag [OF h k(2)] k(3) same by simp
  moreover have "get_inventory_slot s (SLOT_MAX + unat (ti_pos it)) ?w = Some sl"
    using h k(1) assms(8) vault_fields(1) [OF h] by (simp add: get_inventory_slot_def SLOT_MAX_def)
  then have "take_sold e now s it ?w = record_trash_item e s (trash_entry now sl) (snd (update_inventory s False (sold_slot (Some d) it) ?w))"
    using k(2-4) assms(5,7) by (simp add: take_sold_def)
  then have "\<exists>row. get_deleted_items s (take_sold e now s it ?w) = get_deleted_items s w @ [trash_entry now sl\<lparr>d_db_id := row\<rparr>]"
    using record_trash_deleted [of s "snd (update_inventory s False (sold_slot (Some d) it) ?w)" e "trash_entry now sl"]
      assms(2,11,12) by simp
  moreover have "get_deleted_items s w' = get_deleted_items s (take_sold e now s it ?w)"
    unfolding assms(13) handle_sell_def a Let_def using assms(3) by simp
  ultimately show ?thesis
    using acc assms(3,10,13) by simp
qed

subsection \<open>Buying back\<close>

definition restored_slot :: "item_def \<Rightarrow> deleted_item_entry \<Rightarrow> user_item_slot" where
  \<comment> \<open>the slot a sold item comes back as\<close>
  "restored_slot d x = \<lparr>item_id = d_item_id x, durability = d_duration x,
     item_count = (if unwrap_or 0 (kind d) = ITEM_KIND_UNIQUE \<or> unwrap_or 0 (countable d) = 0 then 1
       else min (ucast (min (d_count x) 65535)) ITEMCOUNT_MAX),
     item_flag = d_flag x, original_flag = 0, serial_num = d_serial_num x, expire_time = 0\<rparr>"

lemma restored_slot:
  assumes "k < length bg"
  shows "snd (restored d x k (d_item_id x) bg) = bg[k := restored_slot d x]"
proof -
  have "min (1 :: u16) ITEMCOUNT_MAX = 1" by (simp add: ITEMCOUNT_MAX_def min_def)
  then show ?thesis
    using assms by (cases "bg ! k") (simp add: restored_def restored_slot_def Let_def)
qed

lemma remove_deleted:
  "get_deleted_items s (remove_deleted_item s r w) = filter (\<lambda>y. d_db_id y \<noteq> r) (get_deleted_items s w)"
  by (cases "wsessions w s") (simp_all add: remove_deleted_item_def get_deleted_items_def session_or_def)

lemma finish_buyback_effect:
  assumes "wsessions w s = Some h" "k < length (inventory h)" "in_game s w" "unat (repurchase_price d x) \<le> gold_of s w"
    and w'_def: "w' = snd (finish_buyback e now s (d_item_id x) d x k w)"
  shows "bag_of s w' = (bag_of s w)[k := restored_slot d x]"
    and "gold_of s w' + unat (repurchase_price d x) = gold_of s w"
    and "get_deleted_items s w' = filter (\<lambda>y. d_db_id y \<noteq> d_db_id x) (get_deleted_items s w)"
proof -
  let ?w1 = "set_user_ability e s (snd (update_inventory s False (restored d x k (d_item_id x)) w))"
  let ?w2 = "remove_deleted_item s (d_db_id x) (snd (gold_lose s (repurchase_price d x) ?w1))"
  have w': "wsessions w' = wsessions ?w2"
    by (simp add: w'_def finish_buyback_def Let_def split_def)
  have lose: "fst (gold_lose s (repurchase_price d x) ?w1)"
    using assms(3,4) by (simp add: gold.pay_iff)
  have "bag_of s ?w2 = bag_of s (snd (gold_lose s (repurchase_price d x) ?w1))"
    by (auto simp: remove_deleted_item_def bag_of_def session_or_modify)
  then show "bag_of s w' = (bag_of s w)[k := restored_slot d x]"
    using assms(1,2) sessions_fields(3) [OF w', of s]
    by (simp add: bag_of_update restored_slot vault_fields)
  have "gold_of s ?w2 = gold_of s w - unat (repurchase_price d x)"
    using gold.pay_balance [OF lose, of s] by (simp add: remove_deleted_item_def gold_of_modify)
  then show "gold_of s w' + unat (repurchase_price d x) = gold_of s w"
    using assms(4) sessions_fields(1) [OF w', of s] by simp
  have deleted: "get_deleted_items s w' = get_deleted_items s ?w2"
    by (simp only: get_deleted_items_def sessions_fields(5) [OF w'])
  show "get_deleted_items s w' = filter (\<lambda>y. d_db_id y \<noteq> d_db_id x) (get_deleted_items s w)"
    unfolding deleted remove_deleted by simp
qed

lemma repurchase_fail_sessions [simp]: "wsessions (snd (send_repurchase_fail s w)) = wsessions w"
  by (simp add: send_repurchase_fail_def)

text \<open>Buying back is all or nothing. Either no session changes, or the chosen entry was shown, is of the
  named item and has not run out: then it lies in a bag slot that was empty, its price is paid exactly,
  and it is gone from the list.\<close>

theorem buyback_all_or_nothing:
  "let w' = snd (buyback_item e now s rd w) in wsessions w' = wsessions w
    \<or> (\<exists>index j x d k. get_deleted_item_by_display_index s index w = Some (j, x) \<and> get_item (d_item_id x) w = Some d
        \<and> now < d_delete_time x \<and> 14 \<le> k \<and> k < 42 \<and> k < length (bag_of s w) \<and> item_id (bag_of s w ! k) = 0
        \<and> bag_of s w' = (bag_of s w)[k := restored_slot d x]
        \<and> gold_of s w' + unat (repurchase_price d x) = gold_of s w
        \<and> get_deleted_items s w' = filter (\<lambda>y. d_db_id y \<noteq> d_db_id x) (get_deleted_items s w))"
proof (cases "wsessions (snd (buyback_item e now s rd w)) = wsessions w")
  case False
  define index where "index = unwrap_or 0 (fst (read_u8 rd))"
  define i where "i = unwrap_or 0 (fst (read_u32 (snd (read_u8 rd))) :: u32 option)"
  let ?cost = "\<lambda>d x. saturating_add (saturating_mul (scast (unwrap_or 0 (weight d))) (d_count x))
    (item_weight (get_equipped_stats s w)) > max_weight (get_equipped_stats s w)"
  have eq: "buyback_item e now s rd w = (case get_deleted_item_by_display_index s index w of
        None \<Rightarrow> send_repurchase_fail s w
      | Some (_, x) \<Rightarrow>
          (case get_item i w of
             None \<Rightarrow> send_repurchase_fail s w
           | Some d \<Rightarrow>
               if d_item_id x \<noteq> i \<or> now \<ge> d_delete_time x then send_repurchase_fail s w
               else case get_character_info s w of
                 None \<Rightarrow> send_repurchase_fail s w
               | Some ch \<Rightarrow>
                   if gold ch < repurchase_price d x \<or> ?cost d x then send_repurchase_fail s w
                   else case find_slot_for_item s (d_item_id x) (ucast (min (d_count x) 65535)) w of
                     None \<Rightarrow> send_repurchase_fail s w
                   | Some k \<Rightarrow>
                       if item_id (unwrap_or empty_slot (get_inventory_slot s k w)) \<noteq> 0
                       then send_repurchase_fail s w
                       else finish_buyback e now s i d x k w))"
    unfolding buyback_item_def index_def i_def Let_def by (simp add: split_def)
  obtain j x where b1: "get_deleted_item_by_display_index s index w = Some (j, x)"
    using False unfolding eq by (cases "get_deleted_item_by_display_index s index w") auto
  obtain d where b2: "get_item i w = Some d" "d_item_id x = i" "now < d_delete_time x"
    using False b1 unfolding eq by (cases "get_item i w") (auto split: if_splits)
  obtain ch where b3: "get_character_info s w = Some ch" "\<not> gold ch < repurchase_price d x" "\<not> ?cost d x"
    using False b1 b2 unfolding eq by (cases "get_character_info s w") (auto split: if_splits)
  obtain k where b4: "find_slot_for_item s (d_item_id x) (ucast (min (d_count x) 65535)) w = Some k"
    "item_id (unwrap_or empty_slot (get_inventory_slot s k w)) = 0"
    using False b1 b2 b3 unfolding eq
    by (cases "find_slot_for_item s (d_item_id x) (ucast (min (d_count x) 65535)) w") (auto split: if_splits)
  have "buyback_item e now s rd w = finish_buyback e now s i d x k w"
    using b1 b2 b3 b4 unfolding eq by auto
  note b = b1 b2 b3(1,2) b4 this
  from b(7) obtain h where h: "wsessions w s = Some h" "14 \<le> k" "k < 42" "k < length (inventory h)"
    by (rule find_slot_for_item_Some)
  have "in_game s w" "unat (repurchase_price d x) \<le> gold_of s w"
    using b(5,6) by (simp_all add: in_game_def gold_of_def word_less_nat_alt)
  note effect = finish_buyback_effect [OF h(1,4) this refl, of e now]
  have "item_id (inventory h ! k) = 0"
    using b(8) h(1,4) by (simp add: get_inventory_slot_def slice_get_def)
  then show ?thesis
    unfolding b(9) Let_def b(3) [symmetric] vault_fields(1) [OF h(1)]
    using effect b(1-4) h by (intro disjI2 exI [where x = index] exI [where x = j]) (auto simp: vault_fields)
qed simp

subsection \<open>Instances\<close>

definition sword_slot :: user_item_slot where
  "sword_slot = empty_slot\<lparr>item_id := 120050000, item_count := 1, durability := 4000, serial_num := 99\<rparr>"

definition rich_handle :: session_handle where
  \<comment> \<open>a sword in the first bag slot, 50,000 coins and room to carry\<close>
  "rich_handle = demo_handle\<lparr>inventory := (replicate 96 empty_slot)[14 := sword_slot],
     character := Some (demo_char\<lparr>gold := 50000\<rparr>), equipped := default_stats\<lparr>max_weight := 1000\<rparr>\<rparr>"

definition rich_world :: world where
  "rich_world = modify_session 1 (\<lambda>_. rich_handle) demo_world"

lemma rich_world:
  "wsessions rich_world 1 = Some rich_handle" "bag_of 1 rich_world = (replicate 96 empty_slot)[14 := sword_slot]"
  "gold_of 1 rich_world = 50000" "in_game 1 rich_world" "get_deleted_items 1 rich_world = []"
  "get_item 120050000 rich_world = Some sword" "get_item 389010000 rich_world = Some potion"
  "item_sell_percent 1 rich_world = 0" "trash_item_enabled rich_world" "get_equipped_stats 1 rich_world = default_stats\<lparr>max_weight := 1000\<rparr>"
  by (simp_all add: rich_world_def rich_handle_def demo_handle_def bag_of_def gold_of_def in_game_def get_character_info_def
      demo_char_def get_deleted_items_def get_item_def session_or_modify item_sell_percent_def trash_item_enabled_def
      get_equipped_stats_def)
    (simp_all add: demo_world_def modify_session_def)

lemma no_swords_sold:
  "parse_sell 1 (reader_new (sale_bytes \<lparr>ti_item = 120050000, ti_pos = 0, ti_count = 0\<rparr>)) =
     [\<lparr>ti_item = 120050000, ti_pos = 0, ti_count = 0\<rparr>]"
  using parse_sales [of "[\<lparr>ti_item = 120050000, ti_pos = 0, ti_count = 0\<rparr>]" "[]" "[]"] by (simp add: reader_new_def)

theorem sale_of_nothing_lists_item_witness:
  "\<exists>row. get_deleted_items 1 (snd (handle_sell demo_env 0 1 (reader_new (sale_bytes
      \<lparr>ti_item = 120050000, ti_pos = 0, ti_count = 0\<rparr>)) 1 rich_world)) = [trash_entry 0 sword_slot\<lparr>d_db_id := row\<rparr>]"
proof -
  let ?it = "\<lparr>ti_item = 120050000, ti_pos = 0, ti_count = 0\<rparr>"
  have "sellable 1 ?it sword rich_world"
    by (simp add: sellable_def rich_world ITEM_NO_TRADE_MIN_def ITEM_NO_TRADE_MAX_def RACE_UNTRADEABLE_def unlocked_def
        sword_def) (simp add: sword_slot_def empty_slot_def ITEM_FLAG_RENTED_def ITEM_FLAG_DUPLICATE_def ITEM_FLAG_SEALED_def)
  moreover have "insert_trash demo_env w x y \<noteq> None" for w x y by (simp add: demo_env_def)
  ultimately show ?thesis
    using sale_of_nothing_lists_item [of 1 ?it sword rich_world 1 "reader_new (sale_bytes ?it)" sword_slot demo_env _ 0] no_swords_sold
    by (simp add: rich_world sword_def ITEM_KIND_UNIQUE_def) (simp add: sword_slot_def)
qed

definition purchase_bytes :: "trade_item \<Rightarrow> u8 \<Rightarrow> u8 \<Rightarrow> bytes" where
  "purchase_bytes it line index = to_le 4 (ti_item it) @ [ti_pos it] @ to_le 2 (ti_count it) @ [line, index]"

lemma parse_one_purchase:
  assumes "ti_item it \<noteq> 0" "ti_count it \<noteq> 0" "unat (ti_pos it) < 28" "ti_count it < ITEMCOUNT_MAX"
    and "line < 12" "index < 24" "validate_sell_table_item grp (unat index) (ti_item it) w"
  shows "parse_buy 1 grp w (reader_new (purchase_bytes it line index)) = Inr [it]"
proof -
  have "\<not> 12 \<le> line" "\<not> 24 \<le> index" "\<not> ITEMCOUNT_MAX \<le> ti_count it" using assms by (simp_all add: not_le)
  then show ?thesis
    using assms unfolding One_nat_def
    by (simp add: purchase_bytes_def reader_new_def read_u32_def read_u16_def read_u8_def read_le_def nth_append HAVE_MAX_def)
qed

definition two_potions :: trade_item where
  "two_potions = \<lparr>ti_item = 389010000, ti_pos = 3, ti_count = 2\<rparr>"

lemma price_two_potions:
  "price_one 1 False SiegeMoradon 0 10 rich_world two_potions no_totals =
    Inr \<lparr>total_price = 120, total_weight = 4, total_king_tax = 0, total_siege_tax = 0\<rparr>"
  by (simp add: price_one_def two_potions_def rich_world potion_def is_tax_exempt_def TAX_EXEMPT_SCROLLS_def
      COIN_MAX_def calculate_item_tax_def percent_of_def saturating_add_def saturating_mul_def no_totals_def default_stats_def
      Let_def slot_takes_def get_inventory_slot_def rich_handle_def SLOT_MAX_def
      slice_get_def empty_slot_def)

lemma rich_world_ok: "slots_ok (bag_of 1 rich_world)" "42 \<le> length (bag_of 1 rich_world)" "countables_ok rich_world"
proof -
  have "slot_ok sword_slot" by (simp add: slot_ok_def sword_slot_def ITEMCOUNT_MAX_def)
  then show "slots_ok (bag_of 1 rich_world)" by (simp add: rich_world slots_ok_set slots_ok_empty)
  show "42 \<le> length (bag_of 1 rich_world)" by (simp add: rich_world)
  show "countables_ok rich_world"
    by (auto simp: countables_ok_def get_item_def rich_world_def demo_world_def modify_session_def potion_def sword_def
        split: if_splits)
qed

lemma buy_two_potions:
  "handle_buy demo_env 1 (reader_new (purchase_bytes two_potions 0 0)) 1 253000 False rich_world =
   finish_buy demo_env 1 253000 False SiegeMoradon 1 [two_potions]
     \<lparr>total_price = 120, total_weight = 4, total_king_tax = 0, total_siege_tax = 0\<rparr> rich_world"
proof -
  have "validate_sell_table_item 253000 (unat (0 :: u8)) 389010000 rich_world"
    by (simp add: validate_sell_table_item_def rich_world potion_def)
  then have "parse_buy 1 253000 rich_world (reader_new (purchase_bytes two_potions 0 0)) = Inr [two_potions]"
    by (intro parse_one_purchase) (simp_all add: two_potions_def ITEMCOUNT_MAX_def)
  moreover have "get_king_system 1 rich_world = None" "siege_tariff SiegeMoradon rich_world = 10"
    by (simp_all add: get_king_system_def siege_tariff_def rich_world_def demo_world_def modify_session_def)
  moreover have "zone_id rich_handle = 21" "character rich_handle = Some (demo_char\<lparr>gold := 50000\<rparr>)" "nation demo_char = 1"
    by (simp_all add: rich_handle_def demo_handle_def demo_char_def)
  moreover have "classify_zone_tax 21 = SiegeMoradon"
    by (simp add: classify_zone_tax_def king_zones_def moradon_zones_def)
  ultimately show ?thesis
    using price_two_potions
    by (simp add: handle_buy_def rich_world Let_def get_character_info_def)
qed

theorem buy_all_or_nothing_witness:
  "let w' = snd (handle_buy demo_env 1 (reader_new (purchase_bytes two_potions 0 0)) 1 253000 False rich_world) in
   gold_of 1 w' = 50000 - 120 \<and> item_id (bag_of 1 w' ! 17) = 389010000 \<and> unat (item_count (bag_of 1 w' ! 17)) = 2"
proof -
  let ?w = "snd (handle_buy demo_env 1 (reader_new (purchase_bytes two_potions 0 0)) 1 253000 False rich_world)"
  have paid: "gold_of 1 ?w = 50000 - 120"
  proof -
    have "gold_of 1 (pay_purchase 1 False 120 rich_world) = 50000 - 120"
      using pay_purchase_effect(3) [OF rich_world(1), of "demo_char\<lparr>gold := 50000\<rparr>" 120 False]
      by (simp add: rich_handle_def rich_world)
    then show ?thesis
      unfolding buy_two_potions sessions_fields(1) [OF finish_buy_sessions] by simp
  qed
  then have "wsessions ?w \<noteq> wsessions rich_world"
    using sessions_fields(1) [of ?w rich_world 1] rich_world(3) by auto
  then obtain items where items: "parse_buy 1 253000 rich_world (reader_new (purchase_bytes two_potions 0 0)) = Inr items"
    "purchase 1 False items (\<Sum>it \<leftarrow> items. price_for 1 False rich_world it) rich_world ?w"
    using buy_all_or_nothing [OF rich_world_ok, of demo_env "reader_new (purchase_bytes two_potions 0 0)" 1 253000 False]
    by (auto simp: Let_def)
  have "validate_sell_table_item 253000 (unat (0 :: u8)) 389010000 rich_world"
    by (simp add: validate_sell_table_item_def rich_world potion_def)
  then have "parse_buy 1 253000 rich_world (reader_new (purchase_bytes two_potions 0 0)) = Inr [two_potions]"
    by (intro parse_one_purchase) (simp_all add: two_potions_def ITEMCOUNT_MAX_def)
  then have "items = [two_potions]" using items(1) by simp
  then have "delivered 1 [two_potions] rich_world ?w" using items(2) by (simp add: purchase_def)
  then show ?thesis
    using paid by (simp add: delivered_def two_potions_def rich_world potion_def empty_slot_def)
qed

end
