(* ===== verification/Smd.thy ===== *)
theory Smd
  imports Rust_Str
begin

text \<open>
  The parser of map files (\<^verbatim>\<open>crates/ko-protocol/src/smd.rs\<close>, lines 19 to 386) and the map
  queries of \<^verbatim>\<open>MapData\<close> (\<^verbatim>\<open>crates/ko-game/src/zone.rs\<close>, lines 226 to 298) that do not compute in
  floating point. A parser takes the file and the cursor; an \<open>f32\<close> is its 32 bits. Two results of \<open>f32\<close>
  arithmetic are arguments: the number of collision cells along a side of given length, and whether
  the declared width agrees with the grid.
\<close>

datatype smd_error = UnexpectedEof | InvalidData

type_synonym 'a parser = "bytes \<Rightarrow> nat \<Rightarrow> smd_error + 'a \<times> nat"

record float_ops =
  cells_along :: "u32 \<Rightarrow> i32"
    \<comment> \<open>\<open>(length / CELL_MAIN_SIZE as f32).ceil() as i32\<close>\<close>
  width_agrees :: "i32 \<Rightarrow> u32 \<Rightarrow> u32 \<Rightarrow> bool"
    \<comment> \<open>not \<open>((map_size - 1) as f32 * unit_dist - map_width).abs() > 1.0\<close>\<close>

record warp_info =
  warp_id :: i16
  warp_name :: rstr
  announce :: rstr
  pay :: u32
  dest_zone :: i16
  dest_x :: u32
  dest_y :: u32
  dest_z :: u32
  radius :: u32
  warp_nation :: i16

record regene_event =
  pos_x :: u32
  pos_y :: u32
  pos_z :: u32
  area_z :: u32
  area_x :: u32
  point_id :: i32

record smd_file =
  map_size :: i32
  unit_dist :: u32
  map_width :: u32
  map_height :: u32
  event_grid :: "i16 list"
  warps :: "warp_info list"
  regene_events :: "regene_event list"

definition CELL_MAIN_DEVIDE :: nat where "CELL_MAIN_DEVIDE = 4"
definition WARP_INFO_SIZE :: nat where "WARP_INFO_SIZE = 320"
definition OBJECT_EVENT_SIZE :: nat where "OBJECT_EVENT_SIZE = 24"

subsection \<open>Reading\<close>

definition ret :: "'a \<Rightarrow> 'a parser" where
  "ret x d p = Inr (x, p)"

definition and_then :: "'a parser \<Rightarrow> ('a \<Rightarrow> 'b parser) \<Rightarrow> 'b parser" where
  \<comment> \<open>\<open>?\<close>: an error ends the parse\<close>
  "and_then m f d p = (case m d p of Inl e \<Rightarrow> Inl e | Inr (x, p') \<Rightarrow> f x d p')"

definition read_bytes :: "nat \<Rightarrow> bytes parser" where
  \<comment> \<open>\<open>read_exact\<close>\<close>
  "read_bytes n d p = (if p + n \<le> length d then Inr (take n (drop p d), p + n) else Inl UnexpectedEof)"

definition seek :: "nat \<Rightarrow> unit parser" where
  \<comment> \<open>a cursor may move past the end; the next read then fails\<close>
  "seek n d p = Inr ((), p + n)"

definition fail_with :: "smd_error \<Rightarrow> 'a parser" where
  "fail_with e d p = Inl e"

definition rd_i16 :: "i16 parser" where "rd_i16 = and_then (read_bytes 2) (\<lambda>b. ret (from_le b))"
definition rd_i32 :: "i32 parser" where "rd_i32 = and_then (read_bytes 4) (\<lambda>b. ret (from_le b))"
definition rd_u32 :: "u32 parser" where "rd_u32 = and_then (read_bytes 4) (\<lambda>b. ret (from_le b))"
definition rd_f32 :: "u32 parser" where "rd_f32 = and_then (read_bytes 4) (\<lambda>b. ret (from_le b))"

subsection \<open>Lossy UTF-8\<close>

text \<open>
  \<open>String::from_utf8_lossy\<close>: every maximal prefix of a well-formed sequence that is not completed becomes
  one replacement character.
\<close>

definition REPLACEMENT :: rchar where "REPLACEMENT = 0xFFFD"

definition lead_width :: "u8 \<Rightarrow> nat" where
  "lead_width b = (if b < 0x80 then 1 else if 0xC2 \<le> b \<and> b \<le> 0xDF then 2
     else if 0xE0 \<le> b \<and> b \<le> 0xEF then 3 else if 0xF0 \<le> b \<and> b \<le> 0xF4 then 4 else 0)"

definition second_ok :: "u8 \<Rightarrow> u8 \<Rightarrow> bool" where
  \<comment> \<open>the range of a sequence's second byte\<close>
  "second_ok b c \<longleftrightarrow>
     (if b = 0xE0 then 0xA0 \<le> c \<and> c \<le> 0xBF
      else if b = 0xED then 0x80 \<le> c \<and> c \<le> 0x9F
      else if b = 0xF0 then 0x90 \<le> c \<and> c \<le> 0xBF
      else if b = 0xF4 then 0x80 \<le> c \<and> c \<le> 0x8F
      else 0x80 \<le> c \<and> c \<le> 0xBF)"

definition continues :: "u8 \<Rightarrow> bool" where
  "continues c \<longleftrightarrow> 0x80 \<le> c \<and> c \<le> 0xBF"

definition good_prefix :: "bytes \<Rightarrow> nat" where
  \<comment> \<open>how many bytes at the front form a sequence or a prefix of one, at least one\<close>
  "good_prefix bs =
     (case bs of
        [] \<Rightarrow> 0
      | b # r \<Rightarrow>
          (case r of
             c # r2 \<Rightarrow>
               if lead_width b \<ge> 2 \<and> second_ok b c
               then (case r2 of
                       x # r3 \<Rightarrow>
                         if lead_width b \<ge> 3 \<and> continues x
                         then (case r3 of
                                 y # _ \<Rightarrow> if lead_width b \<ge> 4 \<and> continues y then 4 else 3
                               | [] \<Rightarrow> 3)
                         else 2
                     | [] \<Rightarrow> 2)
               else 1
           | [] \<Rightarrow> 1))"

function from_utf8_lossy :: "bytes \<Rightarrow> rstr" where
  "from_utf8_lossy bs =
     (if bs = [] then []
      else (case utf8_decode (take (good_prefix bs) bs) of Some [c] \<Rightarrow> c | _ \<Rightarrow> REPLACEMENT)
        # from_utf8_lossy (drop (good_prefix bs) bs))"
  by pat_completeness auto
termination
  by (relation "measure length") (auto simp: good_prefix_def split: list.splits)

declare from_utf8_lossy.simps [simp del]

definition read_null_terminated :: "bytes \<Rightarrow> rstr" where
  "read_null_terminated buf = from_utf8_lossy (takeWhile (\<lambda>b. b \<noteq> 0) buf)"

subsection \<open>Sections of the file\<close>

definition skip_counted :: "nat \<Rightarrow> i32 \<Rightarrow> unit parser" where
  \<comment> \<open>a positive count of elements of the given sz\<close>
  "skip_counted sz n = (if sint n > 0 then seek (nat (sint n) * sz) else ret ())"

fun skip_sub_cells :: "nat \<Rightarrow> unit parser" where
  "skip_sub_cells 0 = ret ()"
| "skip_sub_cells (Suc n) = and_then rd_i32 (\<lambda>polys. and_then (skip_counted 12 polys) (\<lambda>_. skip_sub_cells n))"

definition skip_cell :: "unit parser" where
  "skip_cell = and_then rd_u32 (\<lambda>exists.
     if exists = 0 then ret ()
     else and_then rd_i32 (\<lambda>shapes. and_then (skip_counted 2 shapes) (\<lambda>_.
       skip_sub_cells (CELL_MAIN_DEVIDE * CELL_MAIN_DEVIDE))))"

fun skip_cells :: "nat \<Rightarrow> unit parser" where
  "skip_cells 0 = ret ()"
| "skip_cells (Suc n) = and_then skip_cell (\<lambda>_. skip_cells n)"

definition skip_collision_data :: "float_ops \<Rightarrow> (u32 \<times> u32) parser" where
  "skip_collision_data fo =
     and_then rd_f32 (\<lambda>width. and_then rd_f32 (\<lambda>len. and_then rd_i32 (\<lambda>faces.
       if sint faces < 0 then fail_with InvalidData
       else and_then (seek (nat (sint faces) * 3 * 12)) (\<lambda>_.
         and_then (skip_cells (nat (sint (cells_along fo len)) * nat (sint (cells_along fo width)))) (\<lambda>_.
           ret (width, len))))))"

fun read_grid :: "nat \<Rightarrow> i16 list parser" where
  "read_grid 0 = ret []"
| "read_grid (Suc n) = and_then rd_i16 (\<lambda>v. and_then (read_grid n) (\<lambda>vs. ret (v # vs)))"

fun read_regenes :: "nat \<Rightarrow> nat \<Rightarrow> regene_event list parser" where
  \<comment> \<open>\<open>i\<close> is the index of the next spawn point\<close>
  "read_regenes 0 i = ret []"
| "read_regenes (Suc n) i =
     and_then rd_f32 (\<lambda>x. and_then rd_f32 (\<lambda>y. and_then rd_f32 (\<lambda>z. and_then rd_f32 (\<lambda>az. and_then rd_f32 (\<lambda>ax.
       and_then (read_regenes n (Suc i)) (\<lambda>es.
         ret (\<lparr>pos_x = x, pos_y = y, pos_z = z, area_z = az, area_x = ax, point_id = word_of_nat i\<rparr> # es)))))))"

definition slice :: "nat \<Rightarrow> nat \<Rightarrow> bytes \<Rightarrow> bytes" where
  "slice a b buf = take (b - a) (drop a buf)"

definition warp_of :: "bytes \<Rightarrow> warp_info" where
  "warp_of buf = \<lparr>warp_id = from_le (slice 0 2 buf), warp_name = read_null_terminated (slice 2 34 buf),
     announce = read_null_terminated (slice 34 290 buf), pay = from_le (slice 292 296 buf),
     dest_zone = from_le (slice 296 298 buf), dest_x = from_le (slice 300 304 buf),
     dest_y = from_le (slice 304 308 buf), dest_z = from_le (slice 308 312 buf),
     radius = from_le (slice 312 316 buf), warp_nation = from_le (slice 316 318 buf)\<rparr>"

fun read_warps :: "nat \<Rightarrow> warp_info list parser" where
  \<comment> \<open>the list ends early at the end of the file; warp id 0 is skipped\<close>
  "read_warps 0 d p = Inr ([], p)"
| "read_warps (Suc n) d p =
     (case read_bytes WARP_INFO_SIZE d p of
        Inl _ \<Rightarrow> Inr ([], p)
      | Inr (buf, p') \<Rightarrow>
          if warp_id (warp_of buf) = 0 then read_warps n d p'
          else and_then (read_warps n) (\<lambda>ws. ret (warp_of buf # ws)) d p')"

definition read_warp_list :: "warp_info list parser" where
  \<comment> \<open>a file that ends before the count has no warps; \<open>read_exact\<close> on a cursor fails in no other way\<close>
  "read_warp_list d p =
     (case rd_i32 d p of
        Inl _ \<Rightarrow> Inr ([], p)
      | Inr (n, p') \<Rightarrow> read_warps (nat (sint n)) d p')"

definition parse_smd :: "float_ops \<Rightarrow> smd_file parser" where
  "parse_smd fo =
     and_then rd_i32 (\<lambda>sz. and_then rd_f32 (\<lambda>ud.
       if sint sz \<le> 0 \<or> sint sz > 10000 then fail_with InvalidData
       else and_then (seek (nat (sint sz) * nat (sint sz) * 4)) (\<lambda>_.
         and_then (skip_collision_data fo) (\<lambda>(width, height).
           if \<not> width_agrees fo sz ud width then fail_with InvalidData
           else and_then rd_i32 (\<lambda>objects.
             if sint objects < 0 then fail_with InvalidData
             else and_then (seek (nat (sint objects) * OBJECT_EVENT_SIZE)) (\<lambda>_.
               and_then (read_grid (nat (sint sz) * nat (sint sz))) (\<lambda>grid.
                 and_then rd_i32 (\<lambda>regenes. and_then (read_regenes (nat (sint regenes)) 0) (\<lambda>events.
                   and_then read_warp_list (\<lambda>ws.
                     ret \<lparr>map_size = sz, unit_dist = ud, map_width = width, map_height = height,
                       event_grid = grid, warps = ws, regene_events = events\<rparr>))))))))))"

definition load_smd :: "float_ops \<Rightarrow> bytes \<Rightarrow> smd_error + smd_file" where
  "load_smd fo d = (case parse_smd fo d 0 of Inl e \<Rightarrow> Inl e | Inr (f, _) \<Rightarrow> Inr f)"

subsection \<open>Queries\<close>

definition get_event_id :: "smd_file \<Rightarrow> int \<Rightarrow> int \<Rightarrow> i16 option" where
  \<comment> \<open>\<open>None\<close> is a panic: the index is outside of the grid\<close>
  "get_event_id f x z =
     (if x < 0 \<or> x \<ge> sint (map_size f) \<or> z < 0 \<or> z \<ge> sint (map_size f) then Some (-1)
      else slice_get (event_grid f) (nat x * nat (sint (map_size f)) + nat z))"

definition is_movable :: "smd_file \<Rightarrow> int \<Rightarrow> int \<Rightarrow> bool" where
  "is_movable f x z \<longleftrightarrow> get_event_id f x z = Some 0"

definition get_warp :: "smd_file \<Rightarrow> i16 \<Rightarrow> warp_info option" where
  "get_warp f i = List.find (\<lambda>x. warp_id x = i) (warps f)"

definition trunc_div :: "int \<Rightarrow> int \<Rightarrow> int" where
  \<comment> \<open>Rust's \<open>/\<close>, for a positive divisor\<close>
  "trunc_div a b = (if a \<ge> 0 then a div b else - (- a div b))"

definition get_warp_list :: "smd_file \<Rightarrow> i32 \<Rightarrow> warp_info list" where
  "get_warp_list f grp = filter (\<lambda>x. trunc_div (sint (warp_id x)) 10 = sint grp) (warps f)"

end
