(* ===== verification/Pathfind.thy ===== *)
theory Pathfind
  imports Smd "HOL-Library.Multiset"
begin

text \<open>
  The path search of the NPCs (\<^verbatim>\<open>crates/ko-game/src/systems/pathfind.rs\<close>, lines 19 to 289) on the event
  grid of a map. Grid coordinates and costs are integers: a theorem below bounds all of them by values
  far inside of \<open>i32\<close>. The conversions between world coordinates (\<open>f32\<close>, here their bits) and grid
  cells are arguments. The search loop takes its iteration budget as its structural argument, as the
  code counts it down to the \<open>break\<close>; the walk along \<open>came_from\<close> is a partial function, so that not
  returning is \<open>None\<close>.
\<close>

definition MAX_PATH_LINE :: nat where "MAX_PATH_LINE = 100"
definition COST_ORTHOGONAL :: int where "COST_ORTHOGONAL = 10"
definition COST_DIAGONAL :: int where "COST_DIAGONAL = 11"
definition MAX_ITERATIONS_CAP :: nat where "MAX_ITERATIONS_CAP = 50000"

definition NEIGHBORS :: "(int \<times> int \<times> int) list" where
  "NEIGHBORS =
     [(-1, -1, COST_DIAGONAL), (0, -1, COST_ORTHOGONAL), (1, -1, COST_DIAGONAL), (1, 0, COST_ORTHOGONAL),
      (1, 1, COST_DIAGONAL), (0, 1, COST_ORTHOGONAL), (-1, 1, COST_DIAGONAL), (-1, 0, COST_ORTHOGONAL)]"

type_synonym grid_cell = "int \<times> int"

definition calc_max_iterations :: "int \<Rightarrow> int \<Rightarrow> int \<Rightarrow> int \<Rightarrow> int \<Rightarrow> nat" where
  "calc_max_iterations sx sz gx gz grid_size =
     (let maxtry = nat \<bar>sx - gx\<bar> * nat grid_size + nat \<bar>sz - gz\<bar> * nat grid_size + 1;
          limit = min (maxtry * 2) (2 ^ 64 - 1)
      in max (min limit MAX_ITERATIONS_CAP) 500)"

subsection \<open>The open set\<close>

datatype a_star_node = A_Star_Node (node_f: int) (node_g: int) (node_x: int) (node_z: int)

definition node_key :: "a_star_node \<Rightarrow> int \<times> int \<times> int \<times> int" where
  \<comment> \<open>the fields in the order \<open>cmp\<close> compares them, the first two reversed\<close>
  "node_key n = (- node_f n, - node_g n, node_x n, node_z n)"

definition key_less :: "int \<times> int \<times> int \<times> int \<Rightarrow> int \<times> int \<times> int \<times> int \<Rightarrow> bool" where
  "key_less k l =
     (case (k, l) of ((a, b, c, d), (a', b', c', d')) \<Rightarrow>
        a < a' \<or> a = a' \<and> (b < b' \<or> b = b' \<and> (c < c' \<or> c = c' \<and> d < d')))"

lemma node_key_inject [simp]: "node_key m = node_key n \<longleftrightarrow> m = n"
  by (cases m; cases n) (simp add: node_key_def)

lemma node_eq_iff: "m = n \<longleftrightarrow> node_f m = node_f n \<and> node_g m = node_g n \<and> node_x m = node_x n \<and> node_z m = node_z n"
  by (cases m; cases n) simp

instantiation a_star_node :: linorder
begin

definition less_a_star_node :: "a_star_node \<Rightarrow> a_star_node \<Rightarrow> bool" where
  "less_a_star_node m n = key_less (node_key m) (node_key n)"

definition less_eq_a_star_node :: "a_star_node \<Rightarrow> a_star_node \<Rightarrow> bool" where
  "less_eq_a_star_node m n = (key_less (node_key m) (node_key n) \<or> m = n)"

instance
  by standard
    (auto simp: less_a_star_node_def less_eq_a_star_node_def key_less_def node_key_def node_eq_iff split: prod.splits)

end

type_synonym heap = "a_star_node list"
  \<comment> \<open>the elements of the \<open>BinaryHeap\<close>, greatest first: what \<open>pop\<close> returns does not depend on the rest\<close>

fun heap_push :: "a_star_node \<Rightarrow> heap \<Rightarrow> heap" where
  "heap_push n [] = [n]"
| "heap_push n (m # ms) = (if m \<le> n then n # m # ms else m # heap_push n ms)"

fun heap_pop :: "heap \<Rightarrow> (a_star_node \<times> heap) option" where
  "heap_pop [] = None"
| "heap_pop (n # ns) = Some (n, ns)"

definition heap_ordered :: "heap \<Rightarrow> bool" where
  "heap_ordered ns \<longleftrightarrow> sorted_wrt (\<ge>) ns"

subsection \<open>The search\<close>

definition heuristic :: "int \<Rightarrow> int \<Rightarrow> int \<Rightarrow> int \<Rightarrow> int" where
  "heuristic x z goal_x goal_z =
     (let dx = \<bar>x - goal_x\<bar>; dz = \<bar>z - goal_z\<bar>; diag = min dx dz; straight = max dx dz - diag
      in diag * COST_DIAGONAL + straight * COST_ORTHOGONAL)"

definition is_walkable :: "smd_file \<Rightarrow> int \<Rightarrow> int \<Rightarrow> bool" where
  "is_walkable m gx gz \<longleftrightarrow>
     gx \<ge> 0 \<and> gz \<ge> 0 \<and> gx < sint (map_size m) \<and> gz < sint (map_size m) \<and> is_movable m gx gz"

record search_state =
  open_set :: heap
  g_scores :: "grid_cell \<rightharpoonup> int"
  came_from :: "grid_cell \<rightharpoonup> grid_cell"

definition relax :: "smd_file \<Rightarrow> grid_cell \<Rightarrow> a_star_node \<Rightarrow> int \<times> int \<times> int \<Rightarrow> search_state \<Rightarrow> search_state" where
  \<comment> \<open>one round of the loop over \<open>NEIGHBORS\<close>\<close>
  "relax m goal current d st =
     (case d of (dx, dz, cost) \<Rightarrow>
        let nx = node_x current + dx; nz = node_z current + dz; new_g = node_g current + cost in
        if \<not> is_walkable m nx nz then st
        else if (case g_scores st (nx, nz) of Some existing_g \<Rightarrow> new_g \<ge> existing_g | None \<Rightarrow> False) then st
        else st\<lparr>g_scores := (g_scores st)((nx, nz) \<mapsto> new_g),
                came_from := (came_from st)((nx, nz) \<mapsto> (node_x current, node_z current)),
                open_set := heap_push
                  (A_Star_Node (new_g + heuristic nx nz (fst goal) (snd goal)) new_g nx nz) (open_set st)\<rparr>)"

definition expand :: "smd_file \<Rightarrow> grid_cell \<Rightarrow> a_star_node \<Rightarrow> search_state \<Rightarrow> search_state" where
  "expand m goal current st = fold (relax m goal current) NEIGHBORS st"

definition search_round :: "smd_file \<Rightarrow> grid_cell \<Rightarrow> a_star_node \<Rightarrow> search_state \<Rightarrow> search_state" where
  \<comment> \<open>the rest of the body of the loop: skip a node whose cell has a better score, or expand it\<close>
  "search_round m goal current st =
     (if (case g_scores st (node_x current, node_z current) of
            Some best_g \<Rightarrow> node_g current > best_g | None \<Rightarrow> False)
      then st else expand m goal current st)"

datatype outcome = Reached a_star_node search_state | Exhausted search_state | Budget_Spent

fun search :: "smd_file \<Rightarrow> grid_cell \<Rightarrow> nat \<Rightarrow> search_state \<Rightarrow> outcome" where
  \<comment> \<open>the \<open>while let\<close> loop, with the iterations that are left\<close>
  "search m goal n st =
     (case heap_pop (open_set st) of
        None \<Rightarrow> Exhausted st
      | Some (current, ns) \<Rightarrow>
          (case n of
             0 \<Rightarrow> Budget_Spent
           | Suc n' \<Rightarrow>
               if (node_x current, node_z current) = goal then Reached current (st\<lparr>open_set := ns\<rparr>)
               else search m goal n' (search_round m goal current (st\<lparr>open_set := ns\<rparr>))))"

declare search.simps [simp del]

definition start_state :: "grid_cell \<Rightarrow> grid_cell \<Rightarrow> search_state" where
  "start_state start goal =
     \<lparr>open_set = heap_push (A_Star_Node (heuristic (fst start) (snd start) (fst goal) (snd goal)) 0 (fst start) (snd start)) [],
      g_scores = [start \<mapsto> 0], came_from = Map.empty\<rparr>"

subsection \<open>The path\<close>

partial_function (option) trace :: "(grid_cell \<rightharpoonup> grid_cell) \<Rightarrow> grid_cell \<Rightarrow> grid_cell \<Rightarrow> grid_cell list option" where
  \<comment> \<open>the cells pushed from \<open>current\<close> back to the start, which is not pushed\<close>
  "trace parents start current =
     (if current = start then Some []
      else (case parents current of
              None \<Rightarrow> Some [current]
            | Some parent \<Rightarrow>
                Option.bind (trace parents start parent) (\<lambda>cs. Some (current # cs))))"

declare trace.simps [code]

record path_floats =
  is_positive :: "u32 \<Rightarrow> bool"
    \<comment> \<open>not \<open>unit_dist <= 0.0\<close>\<close>
  to_grid :: "u32 \<Rightarrow> u32 \<Rightarrow> i32"
    \<comment> \<open>\<open>(w / unit_dist) as i32\<close>\<close>
  cell_center :: "int \<Rightarrow> u32 \<Rightarrow> u32"
    \<comment> \<open>\<open>g as f32 * unit_dist + unit_dist * 0.5\<close>\<close>

definition capped_path :: "grid_cell list \<Rightarrow> grid_cell list" where
  \<comment> \<open>\<open>reverse\<close> and \<open>truncate\<close>\<close>
  "capped_path cs = take MAX_PATH_LINE (rev cs)"

definition to_waypoints :: "path_floats \<Rightarrow> u32 \<Rightarrow> u32 \<times> u32 \<Rightarrow> grid_cell list \<Rightarrow> (u32 \<times> u32) list" where
  "to_waypoints pf ud goal_world path =
     map (\<lambda>(i, gx, gz). if i = length path - 1 then goal_world else (cell_center pf gx ud, cell_center pf gz ud))
       (enumerate 0 path)"

definition reconstruct_path :: "path_floats \<Rightarrow> (grid_cell \<rightharpoonup> grid_cell) \<Rightarrow> grid_cell \<Rightarrow> grid_cell \<Rightarrow> u32 \<times> u32 \<Rightarrow> u32
    \<Rightarrow> (u32 \<times> u32) list option" where
  "reconstruct_path pf parents goal start goal_world ud =
     map_option (\<lambda>cs. to_waypoints pf ud goal_world (capped_path cs)) (trace parents start goal)"

record path_result =
  waypoints :: "(u32 \<times> u32) list"
  found :: bool

definition no_path :: path_result where
  "no_path = \<lparr>waypoints = [], found = False\<rparr>"

definition find_path :: "path_floats \<Rightarrow> smd_file \<Rightarrow> u32 \<Rightarrow> u32 \<Rightarrow> u32 \<Rightarrow> u32 \<Rightarrow> path_result option" where
  \<comment> \<open>\<open>None\<close>: does not return\<close>
  "find_path pf m start_x start_z goal_x goal_z =
     (let ud = unit_dist m in
      if \<not> is_positive pf ud then Some no_path
      else
        let sx = sint (to_grid pf start_x ud); sz = sint (to_grid pf start_z ud);
            gx = sint (to_grid pf goal_x ud); gz = sint (to_grid pf goal_z ud) in
        if \<not> is_walkable m sx sz \<or> \<not> is_walkable m gx gz then Some no_path
        else if sx = gx \<and> sz = gz then Some \<lparr>waypoints = [(goal_x, goal_z)], found = True\<rparr>
        else (case search m (gx, gz) (calc_max_iterations sx sz gx gz (sint (map_size m)))
                     (start_state (sx, sz) (gx, gz)) of
                Reached _ st \<Rightarrow>
                  map_option (\<lambda>ws. \<lparr>waypoints = ws, found = True\<rparr>)
                    (reconstruct_path pf (came_from st) (gx, gz) (sx, sz) (goal_x, goal_z) ud)
              | Exhausted _ \<Rightarrow> Some no_path
              | Budget_Spent \<Rightarrow> Some no_path))"

end
