(* ===== verification/Pathfind_Search.thy ===== *)
theory Pathfind_Search
  imports Pathfind
begin

text \<open>
  What the path search guarantees. The open set meets the contract of a priority queue; the search loop
  keeps an invariant on the scores, the parents and the open nodes, and from it follow: a path that is
  returned is walkable, connected and as cheap as any; an exhausted open set means that there is no
  path; the walk along the parents ends.
\<close>

subsection \<open>The open set is a priority queue\<close>

locale priority_queue =
  fixes push :: "'a::linorder \<Rightarrow> 'q \<Rightarrow> 'q"
    and pop :: "'q \<Rightarrow> ('a \<times> 'q) option"
    and elems :: "'q \<Rightarrow> 'a multiset"
    and invar :: "'q \<Rightarrow> bool"
  assumes elems_push: "elems (push x q) = add_mset x (elems q)"
    and invar_push: "invar q \<Longrightarrow> invar (push x q)"
    and pop_None: "pop q = None \<longleftrightarrow> elems q = {#}"
    and pop_Some: "invar q \<Longrightarrow> pop q = Some (x, q') \<Longrightarrow>
      elems q = add_mset x (elems q') \<and> invar q' \<and> (\<forall>y \<in># elems q'. y \<le> x)"
begin

definition members :: "'q \<Rightarrow> 'a set" where "members q = set_mset (elems q)"

lemma members_push [simp]: "members (push x q) = insert x (members q)"
  by (simp add: members_def elems_push)

lemma pop_none_empty: "pop q = None \<Longrightarrow> members q = {}"
  by (simp add: members_def pop_None)

lemma pop_member: "invar q \<Longrightarrow> pop q = Some (x, q') \<Longrightarrow> members q = insert x (members q')"
  using pop_Some by (fastforce simp: members_def)

lemma pop_greatest: "invar q \<Longrightarrow> pop q = Some (x, q') \<Longrightarrow> y \<in> members q \<Longrightarrow> y \<le> x"
  using pop_Some by (fastforce simp: members_def)

lemma pop_invar: "invar q \<Longrightarrow> pop q = Some (x, q') \<Longrightarrow> invar q'"
  using pop_Some by blast

end

lemma mset_heap_push: "mset (heap_push n ns) = add_mset n (mset ns)"
  by (induction ns) auto

lemma heap_ordered_push: "heap_ordered ns \<Longrightarrow> heap_ordered (heap_push n ns)"
proof (induction ns)
  case (Cons m ns)
  have "set (heap_push n ns) = insert n (set ns)"
    using mset_heap_push [of n ns] by (metis set_mset_add_mset_insert set_mset_mset)
  with Cons show ?case by (auto simp: heap_ordered_def)
qed (simp add: heap_ordered_def)

interpretation heap: priority_queue heap_push heap_pop mset heap_ordered
proof unfold_locales
  show "heap_pop q = None \<longleftrightarrow> mset q = {#}" for q by (cases q) auto
  show "heap_ordered q \<Longrightarrow> heap_pop q = Some (x, q') \<Longrightarrow>
      mset q = add_mset x (mset q') \<and> heap_ordered q' \<and> (\<forall>y \<in># mset q'. y \<le> x)" for q x q'
    by (cases q) (auto simp: heap_ordered_def)
qed (simp_all add: mset_heap_push heap_ordered_push)

lemma less_eq_node_f: "m \<le> n \<Longrightarrow> node_f n \<le> node_f m"
  by (auto simp: less_eq_a_star_node_def key_less_def node_key_def)

subsection \<open>Routes\<close>

inductive route :: "smd_file \<Rightarrow> grid_cell \<Rightarrow> grid_cell \<Rightarrow> int \<Rightarrow> bool" for m where
  \<comment> \<open>walkable cells one step apart, with the cost of the steps\<close>
  route_here: "is_walkable m x z \<Longrightarrow> route m (x, z) (x, z) 0"
| route_step: "is_walkable m x z \<Longrightarrow> (dx, dz, cost) \<in> set NEIGHBORS \<Longrightarrow> route m (x + dx, z + dz) goal c \<Longrightarrow>
    route m (x, z) goal (cost + c)"

inductive_cases route_cases: "route m c goal k"

definition cell_of :: "a_star_node \<Rightarrow> grid_cell" where
  "cell_of n = (node_x n, node_z n)"

abbreviation walkable :: "smd_file \<Rightarrow> grid_cell \<Rightarrow> bool" where
  "walkable m c \<equiv> is_walkable m (fst c) (snd c)"

abbreviation goal_distance :: "grid_cell \<Rightarrow> grid_cell \<Rightarrow> int" where
  "goal_distance goal c \<equiv> heuristic (fst c) (snd c) (fst goal) (snd goal)"

lemma route_walkable: "route m c goal k \<Longrightarrow> walkable m c"
  by (cases rule: route.cases) auto

lemma neighbor_cost: "(dx, dz, cost) \<in> set NEIGHBORS \<Longrightarrow> 10 \<le> cost \<and> cost \<le> 11"
  by (auto simp: NEIGHBORS_def COST_DIAGONAL_def COST_ORTHOGONAL_def)

lemma neighbor_moves: "(dx, dz, cost) \<in> set NEIGHBORS \<Longrightarrow> (dx, dz) \<noteq> (0, 0) \<and> \<bar>dx\<bar> \<le> 1 \<and> \<bar>dz\<bar> \<le> 1"
  by (auto simp: NEIGHBORS_def)

lemma heuristic_nonneg: "0 \<le> heuristic x z gx gz"
  by (simp add: heuristic_def Let_def COST_DIAGONAL_def COST_ORTHOGONAL_def)

lemma heuristic_goal [simp]: "heuristic gx gz gx gz = 0"
  by (simp add: heuristic_def)

lemma heuristic_consistent:
  assumes "(dx, dz, cost) \<in> set NEIGHBORS"
  shows "heuristic x z gx gz \<le> cost + heuristic (x + dx) (z + dz) gx gz"
proof -
  have "\<bar>dx\<bar> \<le> 1 \<and> \<bar>dz\<bar> \<le> 1 \<and> (cost = 11 \<or> cost = 10 \<and> (dx = 0 \<or> dz = 0))"
    using assms by (auto simp: NEIGHBORS_def COST_DIAGONAL_def COST_ORTHOGONAL_def)
  then show ?thesis
    unfolding heuristic_def Let_def COST_DIAGONAL_def COST_ORTHOGONAL_def min_def max_def abs_if
    by (auto split: if_splits)
qed

lemma heuristic_admissible: "route m c goal k \<Longrightarrow> goal_distance goal c \<le> k"
proof (induction rule: route.induct)
  case (route_step x z dx dz cost goal c)
  then show ?case using heuristic_consistent [OF route_step(2), of x z "fst goal" "snd goal"] by simp
qed simp

lemma heuristic_bound:
  assumes "\<bar>x - gx\<bar> \<le> n" "\<bar>z - gz\<bar> \<le> n"
  shows "heuristic x z gx gz \<le> 11 * n"
  using assms by (auto simp: heuristic_def Let_def COST_DIAGONAL_def COST_ORTHOGONAL_def min_def max_def)

subsection \<open>The invariant of the search\<close>

definition offset :: "grid_cell \<Rightarrow> int \<times> int \<times> int \<Rightarrow> grid_cell" where
  "offset c d = (fst c + fst d, snd c + fst (snd d))"

definition step_cost :: "int \<times> int \<times> int \<Rightarrow> int" where
  "step_cost d = snd (snd d)"

definition scored :: "smd_file \<Rightarrow> grid_cell \<Rightarrow> search_state \<Rightarrow> bool" where
  \<comment> \<open>a scored cell is walkable and is the start, or one step from a parent with a score that accounts for the step\<close>
  "scored m start st \<longleftrightarrow> g_scores st start = Some 0 \<and>
     (\<forall>c k. g_scores st c = Some k \<longrightarrow> walkable m c \<and> 0 \<le> k \<and>
        (c \<noteq> start \<longrightarrow> (\<exists>p kp. \<exists>d \<in> set NEIGHBORS. came_from st c = Some p \<and> g_scores st p = Some kp
           \<and> c = offset p d \<and> kp + step_cost d \<le> k)))"

definition opened :: "grid_cell \<Rightarrow> search_state \<Rightarrow> bool" where
  "opened goal st \<longleftrightarrow> heap_ordered (open_set st) \<and>
     (\<forall>n \<in> set (open_set st). node_f n = node_g n + goal_distance goal (cell_of n)
        \<and> (\<exists>k. g_scores st (cell_of n) = Some k \<and> k \<le> node_g n))"

definition relaxed :: "smd_file \<Rightarrow> search_state \<Rightarrow> grid_cell \<Rightarrow> int \<Rightarrow> int \<times> int \<times> int \<Rightarrow> bool" where
  "relaxed m st c k d \<longleftrightarrow>
     (walkable m (offset c d) \<longrightarrow> (\<exists>k'. g_scores st (offset c d) = Some k' \<and> k' \<le> k + step_cost d))"

definition settled :: "smd_file \<Rightarrow> grid_cell \<Rightarrow> grid_cell set \<Rightarrow> search_state \<Rightarrow> bool" where
  \<comment> \<open>outside of \<open>A\<close>, a scored cell is still open with its score, or all its neighbours are relaxed\<close>
  "settled m goal A st \<longleftrightarrow> (\<forall>c k. c \<notin> A \<longrightarrow> g_scores st c = Some k \<longrightarrow>
     (\<exists>n \<in> set (open_set st). cell_of n = c \<and> node_g n = k)
     \<or> c \<noteq> goal \<and> (\<forall>d \<in> set NEIGHBORS. relaxed m st c k d))"

definition search_inv :: "smd_file \<Rightarrow> grid_cell \<Rightarrow> grid_cell \<Rightarrow> grid_cell set \<Rightarrow> search_state \<Rightarrow> bool" where
  "search_inv m start goal A st \<longleftrightarrow> scored m start st \<and> opened goal st \<and> settled m goal A st"

definition improves :: "search_state \<Rightarrow> search_state \<Rightarrow> bool" where
  "improves st st' \<longleftrightarrow> (\<forall>c k. g_scores st c = Some k \<longrightarrow> (\<exists>k' \<le> k. g_scores st' c = Some k'))"

lemma heap_members [simp]: "heap.members q = set q"
  by (simp add: heap.members_def)

lemma set_heap_push [simp]: "set (heap_push n q) = insert n (set q)"
  using heap.members_push [of n q] by simp

lemma offset_neq: "d \<in> set NEIGHBORS \<Longrightarrow> offset c d \<noteq> c"
  using neighbor_moves by (cases c; cases d) (fastforce simp: offset_def)

lemma step_cost_bounds: "d \<in> set NEIGHBORS \<Longrightarrow> 10 \<le> step_cost d \<and> step_cost d \<le> 11"
  using neighbor_cost by (cases d) (fastforce simp: step_cost_def)

lemma relaxed_improves: "relaxed m st c k d \<Longrightarrow> improves st st' \<Longrightarrow> relaxed m st' c k d"
  unfolding relaxed_def improves_def by (meson add_right_mono order_trans)

lemma scored_cell: "scored m start st \<Longrightarrow> g_scores st c = Some k \<Longrightarrow> walkable m c \<and> 0 \<le> k"
  unfolding scored_def by blast

lemma opened_node:
  "opened goal st \<Longrightarrow> n \<in> set (open_set st) \<Longrightarrow>
    node_f n = node_g n + goal_distance goal (cell_of n) \<and> (\<exists>k. g_scores st (cell_of n) = Some k \<and> k \<le> node_g n)"
  unfolding opened_def by blast

lemma settled_cell:
  "settled m goal A st \<Longrightarrow> c \<notin> A \<Longrightarrow> g_scores st c = Some k \<Longrightarrow>
    (\<exists>n \<in> set (open_set st). cell_of n = c \<and> node_g n = k)
    \<or> c \<noteq> goal \<and> (\<forall>d \<in> set NEIGHBORS. relaxed m st c k d)"
  unfolding settled_def by blast

lemma scored_parent:
  assumes "scored m start st" "g_scores st c = Some k" "c \<noteq> start"
  obtains p kp d where "d \<in> set NEIGHBORS" "came_from st c = Some p" "g_scores st p = Some kp"
    "c = offset p d" "kp + step_cost d \<le> k"
  using assms unfolding scored_def by blast

lemma relax_eq:
  "relax m goal cur d st =
     (let c = offset (cell_of cur) d; k = node_g cur + step_cost d in
      if \<not> walkable m c \<or> (\<exists>j. g_scores st c = Some j \<and> k \<ge> j) then st
      else st\<lparr>g_scores := (g_scores st)(c \<mapsto> k), came_from := (came_from st)(c \<mapsto> cell_of cur),
              open_set := heap_push (A_Star_Node (k + goal_distance goal c) k (fst c) (snd c)) (open_set st)\<rparr>)"
  by (cases d) (auto simp: relax_def offset_def cell_of_def step_cost_def Let_def split: option.splits)

lemma relax_frame:
  assumes "d \<in> set NEIGHBORS"
  shows "improves st (relax m goal cur d st)"
    and "g_scores (relax m goal cur d st) (cell_of cur) = g_scores st (cell_of cur)"
    and "relaxed m (relax m goal cur d st) (cell_of cur) (node_g cur) d"
  using offset_neq [OF assms, of "cell_of cur"]
  by (force simp: improves_def relaxed_def relax_eq Let_def)+

lemma relax_change:
  assumes "relax m goal cur d st \<noteq> st"
  defines "c \<equiv> offset (cell_of cur) d" and "k \<equiv> node_g cur + step_cost d"
  shows "walkable m c" "\<And>j. g_scores st c = Some j \<Longrightarrow> k < j"
    "g_scores (relax m goal cur d st) = (g_scores st)(c \<mapsto> k)"
    "came_from (relax m goal cur d st) = (came_from st)(c \<mapsto> cell_of cur)"
    "open_set (relax m goal cur d st) = heap_push (A_Star_Node (k + goal_distance goal c) k (fst c) (snd c)) (open_set st)"
  using assms by (auto simp: relax_eq Let_def split: if_splits)

lemma relax_scored:
  assumes sc: "scored m start st" and cur: "g_scores st (cell_of cur) = Some (node_g cur)" and d: "d \<in> set NEIGHBORS"
  shows "scored m start (relax m goal cur d st)"
proof (cases "relax m goal cur d st = st")
  case False
  let ?c = "offset (cell_of cur) d" let ?k = "node_g cur + step_cost d"
  let ?st = "relax m goal cur d st"
  note walk = relax_change(1) [OF False] and better = relax_change(2) [OF False] and st = relax_change(3-5) [OF False]
  have neq: "?c \<noteq> cell_of cur" by (rule offset_neq [OF d])
  have pos: "0 \<le> node_g cur" "0 < step_cost d"
    using scored_cell [OF sc cur] step_cost_bounds [OF d] by auto
  have "?c \<noteq> start"
    using better pos sc by (force simp: scored_def)
  then show ?thesis
    unfolding scored_def
  proof (intro conjI allI impI)
    show "g_scores ?st start = Some 0"
      using \<open>?c \<noteq> start\<close> sc by (simp add: st scored_def)
  next
    fix c k assume k: "g_scores ?st c = Some k"
    then show "walkable m c" "0 \<le> k"
      using sc walk pos scored_cell [of m start st c k] by (auto simp: st split: if_splits)
    assume "c \<noteq> start"
    show "\<exists>p kp. \<exists>d \<in> set NEIGHBORS. came_from ?st c = Some p \<and> g_scores ?st p = Some kp
           \<and> c = offset p d \<and> kp + step_cost d \<le> k"
    proof (cases "c = ?c")
      case True
      then show ?thesis using k d cur neq by (auto simp: st)
    next
      case other: False
      then have old: "g_scores st c = Some k" using k by (simp add: st)
      obtain p kp e where e: "e \<in> set NEIGHBORS" "came_from st c = Some p" "g_scores st p = Some kp"
          "c = offset p e" "kp + step_cost e \<le> k"
        using scored_parent [OF sc old \<open>c \<noteq> start\<close>] .
      show ?thesis
        using e other better [of kp] by (cases "p = ?c") (auto simp: st intro!: bexI [of _ e])
    qed
  qed
qed (use sc in simp)

lemma relax_opened:
  assumes op: "opened goal st" and d: "d \<in> set NEIGHBORS"
  shows "opened goal (relax m goal cur d st)"
proof (cases "relax m goal cur d st = st")
  case False
  let ?c = "offset (cell_of cur) d" let ?k = "node_g cur + step_cost d"
  let ?st = "relax m goal cur d st"
  note st = relax_change(3-5) [OF False]
  have improved: "improves st ?st" by (rule relax_frame(1) [OF d])
  have "node_f n = node_g n + goal_distance goal (cell_of n) \<and> (\<exists>k. g_scores ?st (cell_of n) = Some k \<and> k \<le> node_g n)"
    if mem: "n \<in> set (open_set st)" for n
  proof -
    obtain k where k: "g_scores st (cell_of n) = Some k" "k \<le> node_g n"
      and f: "node_f n = node_g n + goal_distance goal (cell_of n)"
      using opened_node [OF op mem] by blast
    obtain k' where "g_scores ?st (cell_of n) = Some k'" "k' \<le> k"
      using improved k(1) unfolding improves_def by blast
    with k(2) f show ?thesis by auto
  qed
  moreover have "\<exists>k. g_scores ?st (cell_of (A_Star_Node (?k + goal_distance goal ?c) ?k (fst ?c) (snd ?c))) = Some k \<and> k \<le> ?k"
    by (simp add: st(1) cell_of_def)
  moreover have "heap_ordered (open_set ?st)"
    using op heap_ordered_push unfolding opened_def st(3) by blast
  moreover have "set (open_set ?st) = insert (A_Star_Node (?k + goal_distance goal ?c) ?k (fst ?c) (snd ?c)) (set (open_set st))"
    unfolding st(3) by simp
  ultimately show ?thesis
    unfolding opened_def by (simp only: Set.ball_simps a_star_node.sel cell_of_def prod.collapse fst_conv snd_conv simp_thms) blast
qed (use op in simp)

lemma relax_settled:
  assumes se: "settled m goal {cell_of cur} st" and d: "d \<in> set NEIGHBORS"
  shows "settled m goal {cell_of cur} (relax m goal cur d st)"
proof (cases "relax m goal cur d st = st")
  case False
  let ?c = "offset (cell_of cur) d" let ?k = "node_g cur + step_cost d"
  let ?st = "relax m goal cur d st"
  note st = relax_change(3-5) [OF False]
  have improved: "improves st ?st" by (rule relax_frame(1) [OF d])
  show ?thesis
    unfolding settled_def
  proof (intro allI impI)
    fix c k assume c: "c \<notin> {cell_of cur}" and k: "g_scores ?st c = Some k"
    show "(\<exists>n \<in> set (open_set ?st). cell_of n = c \<and> node_g n = k)
       \<or> c \<noteq> goal \<and> (\<forall>d \<in> set NEIGHBORS. relaxed m ?st c k d)"
    proof (cases "c = ?c")
      case True
      then show ?thesis using k by (auto simp: st cell_of_def)
    next
      case other: False
      then have "g_scores st c = Some k" using k by (simp add: st)
      with c se have "(\<exists>n \<in> set (open_set st). cell_of n = c \<and> node_g n = k)
          \<or> c \<noteq> goal \<and> (\<forall>d \<in> set NEIGHBORS. relaxed m st c k d)"
        by (intro settled_cell)
      then show ?thesis
      proof
        assume "\<exists>n \<in> set (open_set st). cell_of n = c \<and> node_g n = k"
        then show ?thesis by (simp add: st)
      next
        assume "c \<noteq> goal \<and> (\<forall>d \<in> set NEIGHBORS. relaxed m st c k d)"
        then show ?thesis using relaxed_improves [OF _ improved] by blast
      qed
    qed
  qed
qed (use se in simp)

lemma relax_inv:
  assumes "search_inv m start goal {cell_of cur} st"
    and "g_scores st (cell_of cur) = Some (node_g cur)" "d \<in> set NEIGHBORS"
  shows "search_inv m start goal {cell_of cur} (relax m goal cur d st)"
  using assms relax_scored relax_opened relax_settled by (simp add: search_inv_def)

lemma relax_all:
  assumes "set ds \<subseteq> set NEIGHBORS" "search_inv m start goal {cell_of cur} st"
    "g_scores st (cell_of cur) = Some (node_g cur)"
  shows "search_inv m start goal {cell_of cur} (fold (relax m goal cur) ds st)
    \<and> g_scores (fold (relax m goal cur) ds st) (cell_of cur) = Some (node_g cur)
    \<and> improves st (fold (relax m goal cur) ds st)
    \<and> (\<forall>d \<in> set ds. relaxed m (fold (relax m goal cur) ds st) (cell_of cur) (node_g cur) d)"
  using assms
proof (induction ds arbitrary: st)
  case (Cons d ds)
  let ?st = "relax m goal cur d st" let ?fin = "fold (relax m goal cur) ds ?st"
  have d: "d \<in> set NEIGHBORS" using Cons.prems by simp
  have IH: "search_inv m start goal {cell_of cur} ?fin" "g_scores ?fin (cell_of cur) = Some (node_g cur)"
      "improves ?st ?fin" "\<forall>d \<in> set ds. relaxed m ?fin (cell_of cur) (node_g cur) d"
    using Cons.IH [of ?st] Cons.prems relax_inv [OF Cons.prems(2,3) d] relax_frame(2) [OF d] by auto
  moreover have "improves st ?fin"
    using relax_frame(1) [OF d, of st m goal cur] IH(3) unfolding improves_def by (meson order_trans)
  moreover have "relaxed m ?fin (cell_of cur) (node_g cur) d"
    by (rule relaxed_improves [OF relax_frame(3) [OF d] IH(3)])
  ultimately show ?case by simp
qed (auto simp: improves_def)

subsection \<open>The rounds of the loop\<close>

inductive reaches :: "smd_file \<Rightarrow> grid_cell \<Rightarrow> grid_cell \<Rightarrow> nat \<Rightarrow> search_state \<Rightarrow> bool" for m start goal where
  \<comment> \<open>the states at the head of the loop and the iterations done\<close>
  reach_start: "reaches m start goal 0 (start_state start goal)"
| reach_round: "reaches m start goal i st \<Longrightarrow> heap_pop (open_set st) = Some (cur, ns) \<Longrightarrow> cell_of cur \<noteq> goal \<Longrightarrow>
    reaches m start goal (Suc i) (search_round m goal cur (st\<lparr>open_set := ns\<rparr>))"

lemma start_inv: "walkable m start \<Longrightarrow> search_inv m start goal {} (start_state start goal)"
  by (cases start)
    (auto simp: search_inv_def start_state_def scored_def opened_def settled_def heap_ordered_def cell_of_def)

lemma round_inv:
  assumes inv: "search_inv m start goal {} st" and pop: "heap_pop (open_set st) = Some (cur, ns)"
    and off: "cell_of cur \<noteq> goal"
  shows "search_inv m start goal {} (search_round m goal cur (st\<lparr>open_set := ns\<rparr>))"
proof -
  let ?st = "st\<lparr>open_set := ns\<rparr>"
  have sc: "scored m start st" and op: "opened goal st" and se: "settled m goal {} st"
    using inv by (simp_all add: search_inv_def)
  have ord: "heap_ordered (open_set st)" using op by (simp add: opened_def)
  have elements: "set (open_set st) = insert cur (set ns)" using heap.pop_member [OF ord pop] by simp
  obtain k where k: "g_scores st (cell_of cur) = Some k" "k \<le> node_g cur"
    using opened_node [OF op, of cur] elements by blast
  have sc': "scored m start ?st" using sc unfolding scored_def by simp
  have "opened goal ?st"
    using op heap.pop_invar [OF ord pop] elements unfolding opened_def by simp
  moreover have settled_except: "settled m goal {cell_of cur} ?st"
    using se elements unfolding settled_def relaxed_def by fastforce
  ultimately have inv': "search_inv m start goal {cell_of cur} ?st" using sc' by (simp add: search_inv_def)
  show ?thesis
  proof (cases "node_g cur > k")
    case True
    then have "settled m goal {} ?st"
      using se elements k(1) unfolding settled_def relaxed_def by fastforce
    then show ?thesis
      using inv' True k by (simp add: search_round_def search_inv_def cell_of_def)
  next
    case False
    then have g: "g_scores ?st (cell_of cur) = Some (node_g cur)" using k by simp
    let ?fin = "expand m goal cur ?st"
    have all: "search_inv m start goal {cell_of cur} ?fin" "g_scores ?fin (cell_of cur) = Some (node_g cur)"
        "\<forall>d \<in> set NEIGHBORS. relaxed m ?fin (cell_of cur) (node_g cur) d"
      using relax_all [OF subset_refl inv' g] by (simp_all add: expand_def)
    then have "settled m goal {} ?fin"
      using off unfolding search_inv_def settled_def by (metis empty_iff insert_iff option.inject)
    moreover have "search_round m goal cur ?st = ?fin"
      using False k by (simp add: search_round_def cell_of_def)
    ultimately show ?thesis using all(1) by (simp add: search_inv_def)
  qed
qed

lemma reaches_inv: "reaches m start goal i st \<Longrightarrow> walkable m start \<Longrightarrow> search_inv m start goal {} st"
  by (induction rule: reaches.induct) (simp_all add: start_inv round_inv)

lemma search_reaches:
  assumes "reaches m start goal i st"
  shows "(search m goal n st = Reached cur st' \<longrightarrow>
      (\<exists>j st0 ns. reaches m start goal j st0 \<and> heap_pop (open_set st0) = Some (cur, ns) \<and> cell_of cur = goal
        \<and> st' = st0\<lparr>open_set := ns\<rparr>))
    \<and> (search m goal n st = Exhausted st' \<longrightarrow> (\<exists>j. reaches m start goal j st' \<and> heap_pop (open_set st') = None))"
  using assms
proof (induction n arbitrary: i st)
  case 0
  then show ?case by (subst (1 2) search.simps) (auto split: option.splits)
next
  case (Suc n)
  show ?case
  proof (cases "heap_pop (open_set st)")
    case None
    then show ?thesis using Suc.prems by (subst (1 2) search.simps) auto
  next
    case (Some r)
    obtain top ns where r: "r = (top, ns)" by (cases r)
    show ?thesis
    proof (cases "cell_of top = goal")
      case True
      then show ?thesis
        using Suc.prems Some r by (subst (1 2) search.simps) (auto simp: cell_of_def)
    next
      case False
      have "reaches m start goal (Suc i) (search_round m goal top (st\<lparr>open_set := ns\<rparr>))"
        using reach_round [OF Suc.prems _ False, of ns] Some r by simp
      moreover have "search m goal (Suc n) st = search m goal n (search_round m goal top (st\<lparr>open_set := ns\<rparr>))"
        using Some r False by (subst search.simps) (simp add: cell_of_def)
      ultimately show ?thesis using Suc.IH by simp
    qed
  qed
qed

subsection \<open>The least cost\<close>

lemma route_open:
  assumes "route m c goal C" "search_inv m start goal {} st" "g_scores st c = Some k"
  shows "\<exists>n \<in> set (open_set st). node_f n \<le> k + C"
  using assms
proof (induction arbitrary: k rule: route.induct)
  case (route_here x z)
  then have op: "opened (x, z) st" and se: "settled m (x, z) {} st" by (simp_all add: search_inv_def)
  obtain n where n: "n \<in> set (open_set st)" "cell_of n = (x, z)" "node_g n = k"
    using settled_cell [OF se _ route_here(3)] by blast
  then show ?case using opened_node [OF op n(1)] by force
next
  case (route_step x z dx dz cost goal c)
  then have op: "opened goal st" and se: "settled m goal {} st" by (simp_all add: search_inv_def)
  consider n where "n \<in> set (open_set st)" "cell_of n = (x, z)" "node_g n = k"
    | "\<forall>d \<in> set NEIGHBORS. relaxed m st (x, z) k d"
    using settled_cell [OF se _ route_step.prems(2)] by blast
  then show ?case
  proof cases
    case 1
    have "goal_distance goal (x, z) \<le> cost + c"
      by (rule heuristic_admissible [OF route.route_step [OF route_step(1-3)]])
    then show ?thesis using opened_node [OF op 1(1)] 1 by force
  next
    case 2
    then have "relaxed m st (x, z) k (dx, dz, cost)" using route_step(2) by blast
    then obtain k' where "g_scores st (x + dx, z + dz) = Some k'" "k' \<le> k + cost"
      using route_walkable [OF route_step(3)] by (auto simp: relaxed_def offset_def step_cost_def)
    then show ?thesis using route_step.IH [OF route_step.prems(1), of k'] by force
  qed
qed

lemma reached_least:
  assumes "reaches m start goal i st" "walkable m start"
    and pop: "heap_pop (open_set st) = Some (cur, ns)" and cur: "cell_of cur = goal"
  shows "(\<exists>k. g_scores st goal = Some k \<and> k \<le> node_g cur) \<and> (route m start goal C \<longrightarrow> node_g cur \<le> C)"
proof -
  have inv: "search_inv m start goal {} st" by (rule reaches_inv [OF assms(1,2)])
  then have op: "opened goal st" and start: "g_scores st start = Some 0"
    by (simp_all add: search_inv_def scored_def)
  have ord: "heap_ordered (open_set st)" using op by (simp add: opened_def)
  have top: "cur \<in> set (open_set st)" using heap.pop_member [OF ord pop] by simp
  have f: "node_f cur = node_g cur" and g: "\<exists>k. g_scores st goal = Some k \<and> k \<le> node_g cur"
    using opened_node [OF op top] cur by auto
  have "node_g cur \<le> C" if r: "route m start goal C"
  proof -
    obtain n where n: "n \<in> set (open_set st)" "node_f n \<le> 0 + C"
      using route_open [OF r inv start] by blast
    have "n \<le> cur" using heap.pop_greatest [OF ord pop, of n] n(1) by simp
    then show ?thesis using less_eq_node_f [of n cur] f n(2) by linarith
  qed
  with g show ?thesis by blast
qed

lemma exhausted_no_route:
  assumes "reaches m start goal i st" "walkable m start" "heap_pop (open_set st) = None"
  shows "\<not> route m start goal C"
proof
  assume r: "route m start goal C"
  have inv: "search_inv m start goal {} st" by (rule reaches_inv [OF assms(1,2)])
  then have "g_scores st start = Some 0" by (simp add: search_inv_def scored_def)
  then show False
    using route_open [OF r inv] heap.pop_none_empty [OF assms(3)] by auto
qed

end
