(* ===== verification/Smd_Parse.thy ===== *)
theory Smd_Parse
  imports Smd
begin

text \<open>
  What the map parser guarantees: a map it accepts is square and every query on it stays inside of the
  grid, and it reads back what the file format lays down. \<open>reads m bs x\<close> says that the parser \<open>m\<close> takes
  exactly the bytes \<open>bs\<close> and returns \<open>x\<close>, wherever they stand in the file.
\<close>

subsection \<open>Parsers that take exactly some bytes\<close>

definition reads :: "'a parser \<Rightarrow> bytes \<Rightarrow> 'a \<Rightarrow> bool" where
  "reads m bs x \<longleftrightarrow> (\<forall>pre post. m (pre @ bs @ post) (length pre) = Inr (x, length pre + length bs))"

lemma reads_ret: "reads (ret x) [] x"
  by (simp add: reads_def ret_def)

lemma reads_and_then:
  assumes "reads m bs x" "reads (f x) cs y"
  shows "reads (and_then m f) (bs @ cs) y"
  unfolding reads_def
proof (intro allI)
  fix pre post
  have "m (pre @ (bs @ cs) @ post) (length pre) = Inr (x, length pre + length bs)"
    using assms(1) by (simp add: reads_def)
  moreover have "f x (pre @ (bs @ cs) @ post) (length pre + length bs) = Inr (y, length pre + length (bs @ cs))"
    using assms(2) [unfolded reads_def, rule_format, of "pre @ bs" post] by (simp add: add.assoc)
  ultimately show "and_then m f (pre @ (bs @ cs) @ post) (length pre) = Inr (y, length pre + length (bs @ cs))"
    by (simp add: and_then_def)
qed

lemma reads_bytes: "length bs = n \<Longrightarrow> reads (read_bytes n) bs bs"
  by (simp add: reads_def read_bytes_def)

lemma reads_seek: "length bs = n \<Longrightarrow> reads (seek n) bs ()"
  by (simp add: reads_def seek_def)

lemma reads_le:
  "reads rd_i16 (to_le 2 v) v" "reads rd_i32 (to_le 4 x) x" "reads rd_u32 (to_le 4 x) x" "reads rd_f32 (to_le 4 x) x"
  using reads_and_then [OF reads_bytes reads_ret, of _ _ "\<lambda>b. from_le b"]
  by (auto simp: rd_i16_def rd_i32_def rd_u32_def rd_f32_def intro!: reads_bytes reads_ret
      reads_and_then [where cs = "[]", simplified])

lemma count_word: "n < 2 ^ 31 \<Longrightarrow> nat (sint (word_of_nat n :: i32)) = n"
  by (simp add: sint_uint uint_word_of_int_eq of_nat_take_bit signed_take_bit_int_eq_self take_bit_nat_eq_self unsigned_of_nat)

subsection \<open>The layout of a file\<close>

type_synonym counted = "i32 \<times> bytes"
  \<comment> \<open>a count and the bytes of that many elements\<close>

definition counted_ok :: "nat \<Rightarrow> counted \<Rightarrow> bool" where
  "counted_ok sz c \<longleftrightarrow> length (snd c) = nat (sint (fst c)) * sz"

definition counted_bytes :: "counted \<Rightarrow> bytes" where
  "counted_bytes c = to_le 4 (fst c) @ snd c"

type_synonym cell_layout = "(counted \<times> counted list) option"
  \<comment> \<open>shape indices and the polygons of the sub-cells, if the cell exists\<close>

definition cell_ok :: "cell_layout \<Rightarrow> bool" where
  "cell_ok c \<longleftrightarrow> (case c of None \<Rightarrow> True
     | Some (shapes, polys) \<Rightarrow> counted_ok 2 shapes \<and> length polys = 16 \<and> list_all (counted_ok 12) polys)"

definition cell_bytes :: "cell_layout \<Rightarrow> bytes" where
  "cell_bytes c = (case c of None \<Rightarrow> to_le 4 (0 :: u32)
     | Some (shapes, polys) \<Rightarrow> to_le 4 (1 :: u32) @ counted_bytes shapes @ concat (map counted_bytes polys))"

definition padded :: "nat \<Rightarrow> rstr \<Rightarrow> bytes" where
  "padded n t = map word_of_nat t @ replicate (n - length t) 0"

definition name_ok :: "nat \<Rightarrow> rstr \<Rightarrow> bool" where
  \<comment> \<open>ASCII without NUL that fits its field\<close>
  "name_ok n t \<longleftrightarrow> length t \<le> n \<and> list_all (\<lambda>c. 0 < c \<and> c < 128) t"

definition warp_bytes :: "warp_info \<Rightarrow> bytes" where
  "warp_bytes x = to_le 2 (warp_id x) @ padded 32 (warp_name x) @ padded 256 (announce x) @ [0, 0]
     @ to_le 4 (pay x) @ to_le 2 (dest_zone x) @ [0, 0] @ to_le 4 (dest_x x) @ to_le 4 (dest_y x)
     @ to_le 4 (dest_z x) @ to_le 4 (radius x) @ to_le 2 (warp_nation x) @ [0, 0]"

definition warp_ok :: "warp_info \<Rightarrow> bool" where
  "warp_ok x \<longleftrightarrow> warp_id x \<noteq> 0 \<and> name_ok 32 (warp_name x) \<and> name_ok 256 (announce x)"

definition event_bytes :: "regene_event \<Rightarrow> bytes" where
  "event_bytes x = to_le 4 (pos_x x) @ to_le 4 (pos_y x) @ to_le 4 (pos_z x) @ to_le 4 (area_z x) @ to_le 4 (area_x x)"

record smd_layout =
  heights :: bytes
  collision_faces :: counted
  collision_cells :: "cell_layout list"
  objects :: counted

definition smd_bytes :: "smd_layout \<Rightarrow> smd_file \<Rightarrow> bytes" where
  \<comment> \<open>the file of a map, with the parts the parser skips\<close>
  "smd_bytes l f = to_le 4 (map_size f) @ to_le 4 (unit_dist f) @ heights l
     @ to_le 4 (map_width f) @ to_le 4 (map_height f) @ counted_bytes (collision_faces l)
     @ concat (map cell_bytes (collision_cells l)) @ counted_bytes (objects l)
     @ concat (map (to_le 2) (event_grid f))
     @ to_le 4 (word_of_nat (length (regene_events f)) :: i32) @ concat (map event_bytes (regene_events f))
     @ to_le 4 (word_of_nat (length (warps f)) :: i32) @ concat (map warp_bytes (warps f))"

definition layout_ok :: "float_ops \<Rightarrow> smd_layout \<Rightarrow> smd_file \<Rightarrow> bool" where
  "layout_ok fo l f \<longleftrightarrow>
     (let n = nat (sint (map_size f)) in
      0 < sint (map_size f) \<and> sint (map_size f) \<le> 10000 \<and> length (heights l) = n * n * 4
      \<and> 0 \<le> sint (fst (collision_faces l)) \<and> counted_ok 36 (collision_faces l)
      \<and> length (collision_cells l) = nat (sint (cells_along fo (map_height f))) * nat (sint (cells_along fo (map_width f)))
      \<and> list_all cell_ok (collision_cells l) \<and> width_agrees fo (map_size f) (unit_dist f) (map_width f)
      \<and> 0 \<le> sint (fst (objects l)) \<and> counted_ok 24 (objects l)
      \<and> length (event_grid f) = n * n
      \<and> length (regene_events f) < 2 ^ 31 \<and> map point_id (regene_events f) = map word_of_nat [0..<length (regene_events f)]
      \<and> length (warps f) < 2 ^ 31 \<and> list_all warp_ok (warps f))"

subsection \<open>Each section is read back\<close>

lemma reads_counted: "counted_ok sz c \<Longrightarrow> reads (skip_counted sz (fst c)) (snd c) ()"
  by (cases "sint (fst c) > 0") (auto simp: skip_counted_def counted_ok_def reads_ret intro!: reads_seek)

lemma reads_sub_cells:
  "list_all (counted_ok 12) polys \<Longrightarrow> reads (skip_sub_cells (length polys)) (concat (map counted_bytes polys)) ()"
proof (induction polys)
  case (Cons c polys)
  then show ?case
    by (auto simp: counted_bytes_def intro!: reads_and_then reads_le reads_counted)
qed (simp add: reads_ret)

lemma reads_cell: "cell_ok c \<Longrightarrow> reads skip_cell (cell_bytes c) ()"
proof (cases c)
  case None
  have "reads skip_cell (to_le 4 (0 :: u32) @ []) ()"
    unfolding skip_cell_def by (rule reads_and_then [OF reads_le(3)]) (simp add: reads_ret)
  then show ?thesis using None by (simp add: cell_bytes_def)
next
  case (Some sp)
  obtain shapes polys where sp: "sp = (shapes, polys)" by (cases sp)
  assume "cell_ok c"
  then have ok: "counted_ok 2 shapes" "length polys = 16" "list_all (counted_ok 12) polys"
    using Some sp by (auto simp: cell_ok_def)
  have sub: "reads (skip_sub_cells (CELL_MAIN_DEVIDE * CELL_MAIN_DEVIDE)) (concat (map counted_bytes polys)) ()"
    using reads_sub_cells [OF ok(3)] ok(2) by (simp add: CELL_MAIN_DEVIDE_def)
  have "reads (and_then rd_i32 (\<lambda>n. and_then (skip_counted 2 n) (\<lambda>_. skip_sub_cells (CELL_MAIN_DEVIDE * CELL_MAIN_DEVIDE))))
      (to_le 4 (fst shapes) @ snd shapes @ concat (map counted_bytes polys)) ()"
    by (intro reads_and_then [OF reads_le(2)] reads_and_then [OF reads_counted [OF ok(1)]] sub)
  then have "reads skip_cell (to_le 4 (1 :: u32) @ to_le 4 (fst shapes) @ snd shapes @ concat (map counted_bytes polys)) ()"
    unfolding skip_cell_def by (intro reads_and_then [OF reads_le(3)]) simp
  then show ?thesis by (simp add: Some sp cell_bytes_def counted_bytes_def)
qed

lemma reads_cells: "list_all cell_ok cs \<Longrightarrow> reads (skip_cells (length cs)) (concat (map cell_bytes cs)) ()"
  by (induction cs) (auto simp: reads_ret intro!: reads_and_then reads_cell)

lemma reads_grid: "reads (read_grid (length vs)) (concat (map (to_le 2) vs)) vs"
proof (induction vs)
  case (Cons v vs)
  have "reads (read_grid (Suc (length vs))) (to_le 2 v @ concat (map (to_le 2) vs) @ []) (v # vs)"
    unfolding read_grid.simps by (intro reads_and_then [OF reads_le(1)] reads_and_then [OF Cons.IH] reads_ret)
  then show ?case by simp
qed (simp add: reads_ret)

lemma reads_events:
  "map point_id es = map word_of_nat [i..<i + length es] \<Longrightarrow>
    reads (read_regenes (length es) i) (concat (map event_bytes es)) es"
proof (induction es arbitrary: i)
  case (Cons e es)
  have "[i..<i + length (e # es)] = i # [Suc i..<Suc i + length es]"
    by (simp add: upt_conv_Cons del: upt_Suc)
  then have id: "point_id e = word_of_nat i" and es: "map point_id es = map word_of_nat [Suc i..<Suc i + length es]"
    using Cons.prems by (simp_all del: upt_Suc)
  have "reads (read_regenes (Suc (length es)) i) (to_le 4 (pos_x e) @ to_le 4 (pos_y e) @ to_le 4 (pos_z e)
      @ to_le 4 (area_z e) @ to_le 4 (area_x e) @ concat (map event_bytes es) @ [])
      (\<lparr>pos_x = pos_x e, pos_y = pos_y e, pos_z = pos_z e, area_z = area_z e, area_x = area_x e, point_id = word_of_nat i\<rparr> # es)"
    unfolding read_regenes.simps
    by (intro reads_and_then [OF reads_le(4)] reads_and_then [OF Cons.IH [OF es]] reads_ret)
  moreover have "\<lparr>pos_x = pos_x e, pos_y = pos_y e, pos_z = pos_z e, area_z = area_z e, area_x = area_x e, point_id = word_of_nat i\<rparr> = e"
    using id by (cases e) simp
  ultimately show ?case by (simp add: event_bytes_def [of e])
qed (simp add: reads_ret)

lemma lossy_ascii: "list_all (\<lambda>c. c < 128) t \<Longrightarrow> from_utf8_lossy (map word_of_nat t) = t"
proof (induction t)
  case (Cons c t)
  have small: "(word_of_nat c :: u8) < 0x80" and c: "unat (word_of_nat c :: u8) = c"
    using Cons.prems by (simp_all add: word_less_nat_alt)
  then have "good_prefix (map word_of_nat (c # t)) = 1"
    by (simp add: good_prefix_def lead_width_def split: list.split)
  then show ?case
    using Cons c by (subst from_utf8_lossy.simps) (simp add: Let_def)
qed (simp add: from_utf8_lossy.simps)

lemma read_padded: assumes "name_ok n t" shows "read_null_terminated (padded n t) = t"
proof -
  have "c \<in> set t \<Longrightarrow> (word_of_nat c :: u8) \<noteq> 0" for c
    using assms by (auto simp: name_ok_def list_all_iff word_unat_eq_iff)
  then have "takeWhile (\<lambda>b. b \<noteq> 0) (padded n t) = map word_of_nat t"
    by (auto simp: padded_def takeWhile_append takeWhile_replicate)
  moreover have "list_all (\<lambda>c. c < 128) t"
    using assms by (auto simp: name_ok_def list_all_iff)
  ultimately show ?thesis by (simp add: read_null_terminated_def lossy_ascii)
qed

lemma length_padded: "name_ok n t \<Longrightarrow> length (padded n t) = n"
  by (simp add: padded_def name_ok_def)

lemma length_warp_bytes: "warp_ok x \<Longrightarrow> length (warp_bytes x) = WARP_INFO_SIZE"
  by (simp add: warp_bytes_def warp_ok_def length_padded WARP_INFO_SIZE_def)

lemma warp_of_bytes: "warp_ok x \<Longrightarrow> warp_of (warp_bytes x) = x"
  by (simp add: warp_of_def warp_bytes_def slice_def warp_ok_def length_padded read_padded)

lemma reads_warps: "list_all warp_ok ws \<Longrightarrow> reads (read_warps (length ws)) (concat (map warp_bytes ws)) ws"
proof (induction ws)
  case (Cons x ws)
  then have ok: "warp_ok x" and id: "warp_id x \<noteq> 0" by (auto simp: warp_ok_def)
  have tail: "reads (and_then (read_warps (length ws)) (\<lambda>ws. ret (x # ws))) (concat (map warp_bytes ws) @ []) (x # ws)"
    by (intro reads_and_then [OF Cons.IH] reads_ret) (use Cons.prems in simp)
  show ?case
    unfolding reads_def
  proof (intro allI)
    fix pre post
    have "read_bytes WARP_INFO_SIZE (pre @ concat (map warp_bytes (x # ws)) @ post) (length pre)
        = Inr (warp_bytes x, length pre + WARP_INFO_SIZE)"
      using reads_bytes [OF length_warp_bytes [OF ok]] length_warp_bytes [OF ok]
      by (simp add: reads_def)
    then show "read_warps (length (x # ws)) (pre @ concat (map warp_bytes (x # ws)) @ post) (length pre)
        = Inr (x # ws, length pre + length (concat (map warp_bytes (x # ws))))"
      using tail [unfolded reads_def, rule_format, of "pre @ warp_bytes x" post]
      by (simp add: warp_of_bytes [OF ok] id length_warp_bytes [OF ok] add.assoc)
  qed
qed (simp add: reads_def)

lemma reads_warp_list:
  assumes "list_all warp_ok ws" "length ws < 2 ^ 31"
  shows "reads read_warp_list (to_le 4 (word_of_nat (length ws) :: i32) @ concat (map warp_bytes ws)) ws"
  unfolding reads_def
proof (intro allI)
  fix pre post
  let ?n = "word_of_nat (length ws) :: i32"
  have "rd_i32 (pre @ to_le 4 ?n @ concat (map warp_bytes ws) @ post) (length pre) = Inr (?n, length pre + 4)"
    using reads_le(2) by (simp add: reads_def)
  then show "read_warp_list (pre @ (to_le 4 ?n @ concat (map warp_bytes ws)) @ post) (length pre)
      = Inr (ws, length pre + length (to_le 4 ?n @ concat (map warp_bytes ws)))"
    using reads_warps [OF assms(1), unfolded reads_def, rule_format, of "pre @ to_le 4 ?n" post]
    by (simp add: read_warp_list_def count_word [OF assms(2)] add.assoc)
qed

lemma reads_objects: "counted_ok 24 c \<Longrightarrow> reads (seek (nat (sint (fst c)) * OBJECT_EVENT_SIZE)) (snd c) ()"
  by (rule reads_seek) (simp add: counted_ok_def OBJECT_EVENT_SIZE_def)

lemma reads_collision_data:
  assumes "layout_ok fo l f"
  shows "reads (skip_collision_data fo)
      (to_le 4 (map_width f) @ to_le 4 (map_height f) @ to_le 4 (fst (collision_faces l))
        @ snd (collision_faces l) @ concat (map cell_bytes (collision_cells l)) @ [])
      (map_width f, map_height f)"
proof -
  have faces: "\<not> sint (fst (collision_faces l)) < 0"
      "length (snd (collision_faces l)) = nat (sint (fst (collision_faces l))) * 3 * 12"
    using assms by (simp_all add: layout_ok_def Let_def counted_ok_def)
  have cells: "reads (skip_cells (nat (sint (cells_along fo (map_height f))) * nat (sint (cells_along fo (map_width f)))))
      (concat (map cell_bytes (collision_cells l))) ()"
    using assms reads_cells [of "collision_cells l"] by (simp add: layout_ok_def Let_def)
  show ?thesis
    unfolding skip_collision_data_def
    by (intro reads_and_then [OF reads_le(4)] reads_and_then [OF reads_le(2)], simp only: faces if_False)
      (intro reads_and_then [OF reads_seek [OF faces(2)]] reads_and_then [OF cells] reads_ret)
qed

lemma reads_map:
  assumes ok: "layout_ok fo l f"
  shows "reads (parse_smd fo) (smd_bytes l f) f"
proof -
  let ?n = "nat (sint (map_size f))"
  have size: "\<not> (sint (map_size f) \<le> 0 \<or> sint (map_size f) > 10000)"
    and agree: "width_agrees fo (map_size f) (unit_dist f) (map_width f)"
    and objects: "\<not> sint (fst (objects l)) < 0" "counted_ok 24 (objects l)"
    and heights: "length (heights l) = ?n * ?n * 4"
    and events: "length (regene_events f) < 2 ^ 31"
      "map point_id (regene_events f) = map word_of_nat [0..<0 + length (regene_events f)]"
    and warps: "list_all warp_ok (warps f)" "length (warps f) < 2 ^ 31"
    and grid: "length (event_grid f) = ?n * ?n"
    using ok by (simp_all add: layout_ok_def Let_def)
  have all: "reads (parse_smd fo) (to_le 4 (map_size f) @ to_le 4 (unit_dist f) @ heights l
     @ (to_le 4 (map_width f) @ to_le 4 (map_height f) @ to_le 4 (fst (collision_faces l))
        @ snd (collision_faces l) @ concat (map cell_bytes (collision_cells l)) @ [])
     @ to_le 4 (fst (objects l)) @ snd (objects l)
     @ concat (map (to_le 2) (event_grid f))
     @ to_le 4 (word_of_nat (length (regene_events f)) :: i32) @ concat (map event_bytes (regene_events f))
     @ (to_le 4 (word_of_nat (length (warps f)) :: i32) @ concat (map warp_bytes (warps f))) @ [])
     \<lparr>map_size = map_size f, unit_dist = unit_dist f, map_width = map_width f, map_height = map_height f,
       event_grid = event_grid f, warps = warps f, regene_events = regene_events f\<rparr>"
    unfolding parse_smd_def
    apply (rule reads_and_then [OF reads_le(2)])
    apply (rule reads_and_then [OF reads_le(4)])
    apply (simp only: size if_False)
    apply (rule reads_and_then [OF reads_seek [OF heights]])
    apply (rule reads_and_then [OF reads_collision_data [OF ok]])
    apply (simp only: prod.case agree not_True_eq_False if_False)
    apply (rule reads_and_then [OF reads_le(2)])
    apply (simp only: objects(1) if_False)
    apply (rule reads_and_then [OF reads_objects [OF objects(2)]])
    apply (rule reads_and_then [OF reads_grid [of "event_grid f", unfolded grid]])
    apply (rule reads_and_then [OF reads_le(2)])
    apply (simp only: count_word [OF events(1)])
    apply (rule reads_and_then [OF reads_events [OF events(2)]])
    apply (rule reads_and_then [OF reads_warp_list [OF warps]])
    apply (rule reads_ret)
    done
  moreover have "\<lparr>map_size = map_size f, unit_dist = unit_dist f, map_width = map_width f, map_height = map_height f,
       event_grid = event_grid f, warps = warps f, regene_events = regene_events f\<rparr> = f"
    by (cases f) simp
  ultimately show ?thesis by (simp add: smd_bytes_def counted_bytes_def)
qed

subsection \<open>A map that is accepted\<close>

lemma and_then_Inr [simp]:
  "and_then m f d p = Inr r \<longleftrightarrow> (\<exists>x p'. m d p = Inr (x, p') \<and> f x d p' = Inr r)"
  by (auto simp: and_then_def split: sum.splits)

lemma ret_Inr [simp]: "ret x d p = Inr r \<longleftrightarrow> r = (x, p)"
  by (auto simp: ret_def)

lemma fail_Inr [simp]: "fail_with e d p \<noteq> Inr r"
  by (simp add: fail_with_def)

lemma read_grid_length: "read_grid n d p = Inr (vs, p') \<Longrightarrow> length vs = n"
  by (induction n arbitrary: p vs) auto

lemma read_warps_ids: "read_warps n d p = Inr (ws, p') \<Longrightarrow> \<forall>x \<in> set ws. warp_id x \<noteq> 0"
  by (induction n arbitrary: p ws) (auto split: sum.splits if_splits prod.splits)

lemma read_warps_total: "\<exists>r. read_warps n d p = Inr r"
proof (induction n arbitrary: p)
  case (Suc n)
  show ?case
  proof (cases "read_bytes WARP_INFO_SIZE d p")
    case (Inr r)
    then show ?thesis
      using Suc.IH [of "snd r"] by (cases r) (auto simp: and_then_def)
  qed simp
qed simp

lemma parsed_shape:
  assumes "load_smd fo d = Inr f"
  shows "0 < sint (map_size f)" "sint (map_size f) \<le> 10000"
    "length (event_grid f) = nat (sint (map_size f)) * nat (sint (map_size f))"
    "x \<in> set (warps f) \<Longrightarrow> warp_id x \<noteq> 0"
proof -
  obtain p where parse: "parse_smd fo d 0 = Inr (f, p)"
    using assms by (auto simp: load_smd_def split: sum.splits)
  then have shape: "0 < sint (map_size f) \<and> sint (map_size f) \<le> 10000
      \<and> (\<exists>p1 p2. read_grid (nat (sint (map_size f)) * nat (sint (map_size f))) d p1 = Inr (event_grid f, p2))
      \<and> (\<exists>p1 p2. read_warp_list d p1 = Inr (warps f, p2))"
    by (auto simp: parse_smd_def split: if_splits prod.splits) blast+
  then show "0 < sint (map_size f)" "sint (map_size f) \<le> 10000"
    "length (event_grid f) = nat (sint (map_size f)) * nat (sint (map_size f))"
    by (auto dest: read_grid_length)
  show "x \<in> set (warps f) \<Longrightarrow> warp_id x \<noteq> 0"
    using shape read_warps_ids by (fastforce simp: read_warp_list_def split: sum.splits prod.splits)
qed

subsection \<open>Properties\<close>


definition demo_ops :: float_ops where
  "demo_ops = \<lparr>cells_along = (\<lambda>w. if w = 0 then 0 else 1), width_agrees = (\<lambda>sz ud w. w = ud)\<rparr>"

definition demo_map :: smd_file where
  "demo_map = \<lparr>map_size = 2, unit_dist = 4, map_width = 4, map_height = 4, event_grid = [0, 1, 7, 0],
     warps = [\<lparr>warp_id = 11, warp_name = [65, 66], announce = [], pay = 9, dest_zone = 21, dest_x = 1,
       dest_y = 2, dest_z = 3, radius = 4, warp_nation = -1\<rparr>],
     regene_events = [\<lparr>pos_x = 1, pos_y = 2, pos_z = 3, area_z = 4, area_x = 5, point_id = 0\<rparr>]\<rparr>"

definition demo_layout :: smd_layout where
  "demo_layout = \<lparr>heights = replicate 16 1, collision_faces = (1, replicate 36 2),
     collision_cells = [Some ((1, [5, 6]), replicate 16 (0, []))], objects = (1, replicate 24 3)\<rparr>"

lemma demo_ok: "layout_ok demo_ops demo_layout demo_map"
  by (simp add: layout_ok_def demo_ops_def demo_map_def demo_layout_def counted_ok_def cell_ok_def warp_ok_def
      name_ok_def list_all_iff Let_def)


text \<open>A map that the parser accepts is square with a side from 1 to 10,000, and no query indexes
  its event grid out of bounds: inside of the square the event of the cell is returned, outside of it
  \<open>-1\<close>, so nothing outside of the map is movable.\<close>

theorem parsed_map_never_panics:
  assumes "load_smd fo d = Inr f"
  shows "get_event_id f x z =
      Some (if 0 \<le> x \<and> x < sint (map_size f) \<and> 0 \<le> z \<and> z < sint (map_size f)
            then event_grid f ! (nat x * nat (sint (map_size f)) + nat z) else -1)
    \<and> (is_movable f x z \<longrightarrow> 0 \<le> x \<and> x < sint (map_size f) \<and> 0 \<le> z \<and> z < sint (map_size f))"
proof -
  let ?n = "nat (sint (map_size f))"
  have grid: "length (event_grid f) = ?n * ?n" and pos: "0 < sint (map_size f)"
    using parsed_shape [OF assms] by simp_all
  have "nat x * ?n + nat z < ?n * ?n" if "0 \<le> x" "x < sint (map_size f)" "0 \<le> z" "z < sint (map_size f)"
  proof -
    have "nat x < ?n" "nat z < ?n" using that by simp_all
    then have row: "nat x + 1 \<le> ?n" by linarith
    have "nat x * ?n + nat z < (nat x + 1) * ?n" using \<open>nat z < ?n\<close> by simp
    also have "\<dots> \<le> ?n * ?n" using mult_le_mono1 [OF row] .
    finally show ?thesis .
  qed
  then show ?thesis
    using grid by (auto simp: get_event_id_def is_movable_def slice_get_def)
qed

lemma parsed_map_never_panics_witness: "get_event_id demo_map 1 0 = Some 7 \<and> \<not> is_movable demo_map 2 0"
  using parsed_map_never_panics [of demo_ops "smd_bytes demo_layout demo_map" demo_map 1 0]
    parsed_map_never_panics [of demo_ops "smd_bytes demo_layout demo_map" demo_map 2 0]
    reads_map [OF demo_ok, unfolded reads_def, rule_format, of "[]" "[]"]
  by (simp add: load_smd_def demo_map_def)

end
