(* ===== verification/Pathfind_Safe.thy ===== *)
theory Pathfind_Safe
  imports Pathfind_Search Smd_Parse
begin

text \<open>
  Properties of \<open>find_path\<close>: what it returns is a cheapest walk, it always returns, it finds a path when
  there is one and the budget suffices, its integers fit, and its waypoints end at the goal.
\<close>

subsection \<open>Walks\<close>

fun walk_cost :: "smd_file \<Rightarrow> grid_cell \<Rightarrow> grid_cell list \<Rightarrow> int option" where
  \<comment> \<open>the cost of walking from a cell through the given ones, if all are walkable and one step apart\<close>
  "walk_cost m c [] = (if walkable m c then Some 0 else None)"
| "walk_cost m c (c' # cs) =
     (if \<not> walkable m c then None
      else case List.find (\<lambda>d. offset c d = c') NEIGHBORS of
             None \<Rightarrow> None
           | Some d \<Rightarrow> map_option ((+) (step_cost d)) (walk_cost m c' cs))"

definition walks_to :: "smd_file \<Rightarrow> grid_cell \<Rightarrow> grid_cell \<Rightarrow> grid_cell list \<Rightarrow> int \<Rightarrow> bool" where
  "walks_to m start goal cs k \<longleftrightarrow> walk_cost m start cs = Some k \<and> last (start # cs) = goal"

lemma offset_eq: "offset c e = offset c d \<longleftrightarrow> fst e = fst d \<and> fst (snd e) = fst (snd d)"
  by (simp add: offset_def)

lemma find_offset: "d \<in> set NEIGHBORS \<Longrightarrow> List.find (\<lambda>e. offset c e = offset c d) NEIGHBORS = Some d"
  unfolding offset_eq by (simp add: NEIGHBORS_def, elim disjE) simp_all

lemma find_offsetD: "List.find (\<lambda>e. offset c e = c') NEIGHBORS = Some d \<Longrightarrow> d \<in> set NEIGHBORS \<and> offset c d = c'"
  by (metis (mono_tags, lifting) find_Some_iff nth_mem)

lemma walk_Cons:
  assumes "walk_cost m c (c' # cs) = Some k"
  obtains d j where "d \<in> set NEIGHBORS" "offset c d = c'" "walk_cost m c' cs = Some j" "k = step_cost d + j"
    "walkable m c"
proof (cases "List.find (\<lambda>e. offset c e = c') NEIGHBORS")
  case None
  then show thesis using assms by (simp split: if_splits)
next
  case (Some d)
  then obtain j where "walk_cost m c' cs = Some j" "k = step_cost d + j" "walkable m c"
    using assms by (cases "walk_cost m c' cs") (simp_all split: if_splits)
  then show thesis using that find_offsetD [OF Some] by blast
qed

lemma walk_Cons_intro:
  "d \<in> set NEIGHBORS \<Longrightarrow> walkable m c \<Longrightarrow> walk_cost m (offset c d) cs = Some j \<Longrightarrow>
    walk_cost m c (offset c d # cs) = Some (step_cost d + j)"
  by (simp add: find_offset)

declare walk_cost.simps(2) [simp del]

lemma route_offset:
  "walkable m c \<Longrightarrow> d \<in> set NEIGHBORS \<Longrightarrow> route m (offset c d) goal k \<Longrightarrow> route m c goal (step_cost d + k)"
  using route_step [of m "fst c" "snd c" "fst d" "fst (snd d)" "step_cost d" goal k]
  by (simp add: offset_def step_cost_def)

lemma walk_route: "walk_cost m c cs = Some k \<Longrightarrow> route m c (last (c # cs)) k"
proof (induction cs arbitrary: c k)
  case Nil
  then have "walkable m c" "k = 0" by (simp_all split: if_splits)
  then show ?case using route_here [of m "fst c" "snd c"] by simp
next
  case (Cons c' cs)
  obtain d j where d: "d \<in> set NEIGHBORS" "offset c d = c'" "walk_cost m c' cs = Some j" "k = step_cost d + j"
      "walkable m c"
    by (rule walk_Cons [OF Cons.prems])
  then show ?case using route_offset [OF d(5,1)] Cons.IH [OF d(3)] by simp
qed

lemma walk_append:
  assumes "walk_cost m a cs = Some k" "last (a # cs) = p" "d \<in> set NEIGHBORS" "walkable m (offset p d)"
  shows "walk_cost m a (cs @ [offset p d]) = Some (k + step_cost d)"
  using assms(1,2)
proof (induction cs arbitrary: a k)
  case Nil
  then have "walkable m a" "k = 0" "a = p" by (simp_all split: if_splits)
  then show ?case using walk_Cons_intro [OF assms(3), of m p "[]" 0] assms(4) by simp
next
  case (Cons c' cs)
  obtain e j where e: "e \<in> set NEIGHBORS" "offset a e = c'" "walk_cost m c' cs = Some j" "k = step_cost e + j"
      "walkable m a"
    by (rule walk_Cons [OF Cons.prems(1)])
  have "walk_cost m c' (cs @ [offset p d]) = Some (j + step_cost d)"
    using Cons.IH [OF e(3)] Cons.prems(2) by simp
  then show ?case using walk_Cons_intro [OF e(1,5), of "cs @ [offset p d]"] e(2,4) by (simp add: add.assoc)
qed

lemma trace_walk:
  assumes "scored m start st" "walkable m start" "g_scores st c = Some k"
  shows "\<exists>cs j. trace (came_from st) start c = Some cs \<and> walks_to m start c (rev cs) j \<and> j \<le> k"
  using assms(3)
proof (induction "nat k" arbitrary: c k rule: less_induct)
  case less
  show ?case
  proof (cases "c = start")
    case True
    then have "walks_to m start c (rev []) 0" using assms(2) by (simp add: walks_to_def)
    moreover have "0 \<le> k" using scored_cell [OF assms(1) less.prems] by simp
    ultimately show ?thesis using True by (auto simp: trace.simps)
  next
    case False
    obtain p kp d where d: "d \<in> set NEIGHBORS" and p: "came_from st c = Some p" "g_scores st p = Some kp"
        "c = offset p d" "kp + step_cost d \<le> k"
      using scored_parent [OF assms(1) less.prems False] .
    have "0 \<le> kp" "walkable m c" using scored_cell [OF assms(1)] p(2) less.prems by blast+
    then have "nat kp < nat k" using step_cost_bounds [OF d] p(4) by simp
    then obtain cs j where cs: "trace (came_from st) start p = Some cs" "walks_to m start p (rev cs) j" "j \<le> kp"
      using less.hyps p(2) by blast
    have "trace (came_from st) start c = Some (c # cs)"
      using False p(1) cs(1) by (subst trace.simps) simp
    moreover have "walks_to m start c (rev (c # cs)) (j + step_cost d)"
      using cs(2) walk_append [of m start "rev cs" j p d] d p(3) \<open>walkable m c\<close> by (simp add: walks_to_def)
    ultimately show ?thesis using cs(3) p(4) by fastforce
  qed
qed

lemma walks_to_route: "walks_to m start goal cs k \<Longrightarrow> route m start goal k"
  using walk_route [of m start cs k] by (simp only: walks_to_def)

definition cheapest_walk :: "smd_file \<Rightarrow> grid_cell \<Rightarrow> grid_cell \<Rightarrow> grid_cell list \<Rightarrow> bool" where
  "cheapest_walk m start goal cs \<longleftrightarrow>
     (\<exists>k. walks_to m start goal cs k \<and> (\<forall>cs' k'. walks_to m start goal cs' k' \<longrightarrow> k \<le> k'))"

lemma route_nonneg: "route m c goal k \<Longrightarrow> 0 \<le> k"
  by (induction rule: route.induct) (auto dest: neighbor_cost)

lemma stay_cheapest: "walkable m c \<Longrightarrow> cheapest_walk m c c []"
  unfolding cheapest_walk_def
  by (rule exI [of _ 0]) (auto simp: walks_to_def [of m c c "[]"] dest: walks_to_route route_nonneg)

lemma search_cheapest:
  assumes res: "search m goal n (start_state start goal) = Reached cur st" and w: "walkable m start"
  shows "\<exists>cs. trace (came_from st) start goal = Some cs \<and> cheapest_walk m start goal (rev cs)"
proof -
  obtain i st0 ns where r: "reaches m start goal i st0" "heap_pop (open_set st0) = Some (cur, ns)"
      "cell_of cur = goal" "st = st0\<lparr>open_set := ns\<rparr>"
    using search_reaches [OF reach_start [of m start goal], where n = n and cur = cur and st' = st] res by blast
  obtain k where k: "g_scores st0 goal = Some k" "k \<le> node_g cur"
    using reached_least [OF r(1) w r(2,3)] by blast
  have "scored m start st0" using reaches_inv [OF r(1) w] by (simp add: search_inv_def)
  then obtain cs j where cs: "trace (came_from st0) start goal = Some cs" "walks_to m start goal (rev cs) j" "j \<le> k"
    using trace_walk [OF _ w k(1)] by blast
  have "j \<le> k'" if "walks_to m start goal cs' k'" for cs' k'
    using reached_least [OF r(1) w r(2,3), of k'] walks_to_route [OF that] cs(3) k(2) by linarith
  then show ?thesis using cs(1,2) r(4) unfolding cheapest_walk_def by auto
qed

lemma search_no_walk:
  assumes "search m goal n (start_state start goal) = Exhausted st" "walkable m start"
  shows "\<not> walks_to m start goal cs k"
proof -
  obtain i where "reaches m start goal i st" "heap_pop (open_set st) = None"
    using search_reaches [OF reach_start [of m start goal], where n = n and st' = st] assms(1) by blast
  then show ?thesis using exhausted_no_route [OF _ assms(2)] walks_to_route by blast
qed

lemma walk_split:
  "walk_cost m a (xs @ ys) = Some k \<Longrightarrow>
    \<exists>k1 k2. walk_cost m a xs = Some k1 \<and> walk_cost m (last (a # xs)) ys = Some k2 \<and> k = k1 + k2"
proof (induction xs arbitrary: a k)
  case Nil
  then have "walkable m a" using walk_route route_walkable by fastforce
  then show ?case using Nil by simp
next
  case (Cons c xs)
  obtain d j where d: "d \<in> set NEIGHBORS" "offset a d = c" "walk_cost m c (xs @ ys) = Some j" "k = step_cost d + j"
      "walkable m a"
    using Cons.prems by (auto elim: walk_Cons)
  obtain k1 k2 where "walk_cost m c xs = Some k1" "walk_cost m (last (c # xs)) ys = Some k2" "j = k1 + k2"
    using Cons.IH [OF d(3)] by blast
  then show ?case using walk_Cons_intro [OF d(1,5), of xs k1] d(2,4) by auto
qed

lemma walk_least_cost: "walk_cost m a cs = Some k \<Longrightarrow> 10 * int (length cs) \<le> k"
proof (induction cs arbitrary: a k)
  case (Cons c cs)
  obtain d j where "d \<in> set NEIGHBORS" "walk_cost m c cs = Some j" "k = step_cost d + j"
    using Cons.prems by (auto elim: walk_Cons)
  then show ?case using Cons.IH [of c j] step_cost_bounds [of d] by simp
qed (simp split: if_splits)

lemma cheapest_no_shortcut:
  assumes "cheapest_walk m start goal cs" "i + 2 < length cs" "d \<in> set NEIGHBORS"
  shows "offset (cs ! i) d \<noteq> goal"
proof
  assume off: "offset (cs ! i) d = goal"
  obtain k where k: "walk_cost m start cs = Some k" "last (start # cs) = goal"
      "\<And>cs' k'. walks_to m start goal cs' k' \<Longrightarrow> k \<le> k'"
    using assms(1) unfolding cheapest_walk_def walks_to_def by blast
  let ?xs = "take (Suc i) cs"
  obtain k1 k2 where split: "walk_cost m start ?xs = Some k1" "walk_cost m (last (start # ?xs)) (drop (Suc i) cs) = Some k2"
      "k = k1 + k2"
    using walk_split [of m start ?xs "drop (Suc i) cs" k] k(1) by auto
  have at: "last (start # ?xs) = cs ! i" using assms(2) by (simp add: take_Suc_conv_app_nth)
  have "route m start goal k" using walk_route [OF k(1)] k(2) by simp
  then have "walkable m goal" by (induction rule: route.induct) simp_all
  then have "walk_cost m start (?xs @ [goal]) = Some (k1 + step_cost d)"
    using walk_append [OF split(1) at assms(3)] off by simp
  then have "k \<le> k1 + step_cost d" by (intro k(3) [of "?xs @ [goal]"]) (simp add: walks_to_def)
  moreover have "20 \<le> k2" using walk_least_cost [OF split(2)] assms(2) by simp
  ultimately show False using split(3) step_cost_bounds [OF assms(3)] by simp
qed

subsection \<open>The integers of the search fit\<close>

definition bounded_by :: "smd_file \<Rightarrow> nat \<Rightarrow> search_state \<Rightarrow> bool" where
  "bounded_by m i st \<longleftrightarrow> (\<forall>n \<in> set (open_set st). node_g n \<le> 11 * int i \<and> walkable m (cell_of n))"

lemma relax_bounded: "bounded_by m (Suc i) st \<Longrightarrow> node_g cur \<le> 11 * int i \<Longrightarrow> d \<in> set NEIGHBORS \<Longrightarrow>
    bounded_by m (Suc i) (relax m goal cur d st)"
  using step_cost_bounds [of d] by (auto simp: bounded_by_def relax_eq Let_def cell_of_def)

lemma fold_bounded: "bounded_by m (Suc i) st \<Longrightarrow> node_g cur \<le> 11 * int i \<Longrightarrow> set ds \<subseteq> set NEIGHBORS \<Longrightarrow>
    bounded_by m (Suc i) (fold (relax m goal cur) ds st)"
  by (induction ds arbitrary: st) (simp_all add: relax_bounded)

lemma round_bounded:
  assumes "bounded_by m i st" "heap_pop (open_set st) = Some (cur, ns)"
  shows "bounded_by m (Suc i) (search_round m goal cur (st\<lparr>open_set := ns\<rparr>))"
proof -
  have q: "open_set st = cur # ns" using assms(2) by (cases "open_set st") auto
  then have "node_g cur \<le> 11 * int i" using assms(1) by (simp add: bounded_by_def)
  moreover have "bounded_by m (Suc i) (st\<lparr>open_set := ns\<rparr>)" using assms(1) q by (force simp: bounded_by_def)
  ultimately show ?thesis by (simp add: search_round_def expand_def fold_bounded)
qed

lemma reaches_bounded: "reaches m start goal i st \<Longrightarrow> walkable m start \<Longrightarrow> bounded_by m i st"
proof (induction rule: reaches.induct)
  case reach_start
  then show ?case by (simp add: start_state_def bounded_by_def cell_of_def)
qed (simp add: round_bounded)

lemma walkable_in_map: "walkable m c \<Longrightarrow> 0 \<le> fst c \<and> fst c < sint (map_size m) \<and> 0 \<le> snd c \<and> snd c < sint (map_size m)"
  by (simp add: is_walkable_def)

subsection \<open>Waypoints\<close>

lemma length_waypoints [simp]: "length (to_waypoints pf ud g path) = length path"
  by (simp add: to_waypoints_def)

lemma nth_waypoints: "i < length path \<Longrightarrow> to_waypoints pf ud g path ! i =
    (if i = length path - 1 then g else (cell_center pf (fst (path ! i)) ud, cell_center pf (snd (path ! i)) ud))"
  by (simp add: to_waypoints_def nth_enumerate_eq split: prod.splits)

lemma last_waypoint: "path \<noteq> [] \<Longrightarrow> last (to_waypoints pf ud g path) = g"
  using nth_waypoints [of "length path - 1" path pf ud g]
  by (metis diff_less last_conv_nth length_greater_0_conv length_waypoints less_one)

definition goal_cells :: "path_floats \<Rightarrow> smd_file \<Rightarrow> u32 \<Rightarrow> u32 \<Rightarrow> grid_cell" where
  "goal_cells pf m x z = (sint (to_grid pf x (unit_dist m)), sint (to_grid pf z (unit_dist m)))"

definition searchable :: "path_floats \<Rightarrow> smd_file \<Rightarrow> grid_cell \<Rightarrow> grid_cell \<Rightarrow> bool" where
  "searchable pf m start goal \<longleftrightarrow> is_positive pf (unit_dist m) \<and> walkable m start \<and> walkable m goal"

abbreviation path_budget :: "smd_file \<Rightarrow> grid_cell \<Rightarrow> grid_cell \<Rightarrow> nat" where
  "path_budget m start goal \<equiv>
     calc_max_iterations (fst start) (snd start) (fst goal) (snd goal) (sint (map_size m))"

lemma find_path_eq:
  "find_path pf m sx sz gx gz =
     (let start = goal_cells pf m sx sz; goal = goal_cells pf m gx gz in
      if \<not> searchable pf m start goal then Some no_path
      else if start = goal then Some \<lparr>waypoints = [(gx, gz)], found = True\<rparr>
      else (case search m goal (path_budget m start goal) (start_state start goal) of
              Reached _ st \<Rightarrow>
                map_option (\<lambda>cs. \<lparr>waypoints = to_waypoints pf (unit_dist m) (gx, gz) (capped_path cs), found = True\<rparr>)
                  (trace (came_from st) start goal)
            | _ \<Rightarrow> Some no_path))"
  by (auto simp: find_path_def goal_cells_def searchable_def reconstruct_path_def Let_def map_option.compositionality
      comp_def split: outcome.splits)

lemma find_path_cases:
  obtains (refused) "\<not> searchable pf m (goal_cells pf m sx sz) (goal_cells pf m gx gz)"
      "find_path pf m sx sz gx gz = Some no_path"
  | (here) "searchable pf m (goal_cells pf m sx sz) (goal_cells pf m gx gz)" "goal_cells pf m sx sz = goal_cells pf m gx gz"
      "find_path pf m sx sz gx gz = Some \<lparr>waypoints = [(gx, gz)], found = True\<rparr>"
  | (reached) cs where "searchable pf m (goal_cells pf m sx sz) (goal_cells pf m gx gz)"
      "goal_cells pf m sx sz \<noteq> goal_cells pf m gx gz"
      "cheapest_walk m (goal_cells pf m sx sz) (goal_cells pf m gx gz) cs"
      "find_path pf m sx sz gx gz =
         Some \<lparr>waypoints = to_waypoints pf (unit_dist m) (gx, gz) (take MAX_PATH_LINE cs), found = True\<rparr>"
  | (exhausted) "searchable pf m (goal_cells pf m sx sz) (goal_cells pf m gx gz)"
      "\<And>cs k. \<not> walks_to m (goal_cells pf m sx sz) (goal_cells pf m gx gz) cs k"
      "find_path pf m sx sz gx gz = Some no_path"
  | (budget) "searchable pf m (goal_cells pf m sx sz) (goal_cells pf m gx gz)"
      "search m (goal_cells pf m gx gz) (path_budget m (goal_cells pf m sx sz) (goal_cells pf m gx gz))
         (start_state (goal_cells pf m sx sz) (goal_cells pf m gx gz)) = Budget_Spent"
      "find_path pf m sx sz gx gz = Some no_path"
proof -
  let ?s = "goal_cells pf m sx sz" let ?g = "goal_cells pf m gx gz"
  let ?r = "search m ?g (path_budget m ?s ?g) (start_state ?s ?g)"
  show thesis
  proof (cases "searchable pf m ?s ?g \<and> ?s \<noteq> ?g")
    case False
    then show thesis
    proof (cases "searchable pf m ?s ?g")
      case True
      then show thesis using here False by (simp add: find_path_eq Let_def)
    qed (simp add: refused find_path_eq Let_def)
  next
    case True
    then have w: "walkable m ?s" and ok: "searchable pf m ?s ?g" and off: "?s \<noteq> ?g" by (simp_all add: searchable_def)
    show thesis
    proof (cases ?r)
      case (Reached cur st)
      obtain cs where cs: "trace (came_from st) ?s ?g = Some cs" "cheapest_walk m ?s ?g (rev cs)"
        using search_cheapest [OF Reached w] by blast
      have "find_path pf m sx sz gx gz =
          Some \<lparr>waypoints = to_waypoints pf (unit_dist m) (gx, gz) (take MAX_PATH_LINE (rev cs)), found = True\<rparr>"
        using ok off Reached cs(1) by (simp add: find_path_eq Let_def capped_path_def)
      then show thesis using reached [OF ok off cs(2)] by blast
    next
      case (Exhausted st)
      have "find_path pf m sx sz gx gz = Some no_path"
        using ok off Exhausted by (simp add: find_path_eq Let_def)
      then show thesis using exhausted [OF ok search_no_walk [OF Exhausted w]] by blast
    next
      case Budget_Spent
      have "find_path pf m sx sz gx gz = Some no_path"
        using ok off Budget_Spent by (simp add: find_path_eq Let_def)
      then show thesis using budget [OF ok Budget_Spent] by blast
    qed
  qed
qed

subsection \<open>Two maps\<close>

definition demo_grid :: smd_file where
  \<comment> \<open>a wall next to the start\<close>
  "demo_grid = \<lparr>map_size = 3, unit_dist = 4, map_width = 8, map_height = 8, event_grid = [0, 0, 0, 1, 1, 0, 0, 0, 0],
     warps = [], regene_events = []\<rparr>"

definition demo_floats :: path_floats where
  "demo_floats = \<lparr>is_positive = (\<lambda>w. w > 0), to_grid = (\<lambda>w ud. w div ud), cell_center = (\<lambda>c ud. word_of_int c * ud + 2)\<rparr>"

lemma demo_fields [simp]:
  "map_size demo_grid = 3" "unit_dist demo_grid = 4" "is_positive demo_floats 4"
  "cell_center demo_floats c w = word_of_int c * w + 2"
  by (simp_all add: demo_grid_def demo_floats_def)

lemma demo_walkable: "is_walkable demo_grid x z \<longleftrightarrow> (x, z) \<in> {(0,0),(0,1),(0,2),(1,2),(2,0),(2,1),(2,2)}"
proof (cases "x \<in> {0,1,2} \<and> z \<in> {0,1,2}")
  case True
  then show ?thesis
    by (elim conjE insertE emptyE)
      (simp_all add: is_walkable_def demo_grid_def is_movable_def get_event_id_def slice_get_def)
next
  case False
  then have "\<not> (0 \<le> x \<and> x < 3 \<and> 0 \<le> z \<and> z < 3)" by auto
  then show ?thesis using False by (auto simp: is_walkable_def)
qed

lemma demo_cells: "goal_cells demo_floats demo_grid 1 1 = (0, 0)" "goal_cells demo_floats demo_grid 5 9 = (1, 2)"
  by code_simp+

lemmas relax_eval = relax_def heuristic_def COST_DIAGONAL_def COST_ORTHOGONAL_def less_eq_a_star_node_def
  key_less_def node_key_def NEIGHBORS_def

lemma demo_expand_start:
  "expand demo_grid (1, 2) (A_Star_Node 21 0 0 0) (start_state (0, 0) (1, 2)\<lparr>open_set := []\<rparr>) =
    \<lparr>open_set = [A_Star_Node 21 10 0 1], g_scores = [(0, 0) \<mapsto> 0, (0, 1) \<mapsto> 10], came_from = [(0, 1) \<mapsto> (0, 0)]\<rparr>"
  by (simp add: expand_def start_state_def demo_walkable relax_eval)

lemma demo_expand_next:
  "expand demo_grid (1, 2) (A_Star_Node 21 10 0 1)
     \<lparr>open_set = [], g_scores = [(0, 0) \<mapsto> 0, (0, 1) \<mapsto> 10], came_from = [(0, 1) \<mapsto> (0, 0)]\<rparr> =
   \<lparr>open_set = [A_Star_Node 21 21 1 2, A_Star_Node 30 20 0 2],
    g_scores = [(0, 0) \<mapsto> 0, (0, 1) \<mapsto> 10, (1, 2) \<mapsto> 21, (0, 2) \<mapsto> 20],
    came_from = [(0, 1) \<mapsto> (0, 0), (1, 2) \<mapsto> (0, 1), (0, 2) \<mapsto> (0, 1)]\<rparr>"
  by (simp add: expand_def demo_walkable relax_eval)

lemma demo_search:
  "search demo_grid (1, 2) (Suc (Suc (Suc n))) (start_state (0, 0) (1, 2)) =
    Reached (A_Star_Node 21 21 1 2)
      \<lparr>open_set = [A_Star_Node 30 20 0 2], g_scores = [(0, 0) \<mapsto> 0, (0, 1) \<mapsto> 10, (1, 2) \<mapsto> 21, (0, 2) \<mapsto> 20],
       came_from = [(0, 1) \<mapsto> (0, 0), (1, 2) \<mapsto> (0, 1), (0, 2) \<mapsto> (0, 1)]\<rparr>"
  using demo_expand_start demo_expand_next
  by (simp add: search.simps search_round_def start_state_def heuristic_def COST_DIAGONAL_def COST_ORTHOGONAL_def)

lemma demo_budget: "path_budget demo_grid (0, 0) (1, 2) = 500"
  by (simp add: calc_max_iterations_def MAX_ITERATIONS_CAP_def)

lemma demo_path: "find_path demo_floats demo_grid 1 1 5 9 = Some \<lparr>waypoints = [(2, 6), (5, 9)], found = True\<rparr>"
  using demo_search [of 497] demo_budget
  by (simp add: find_path_eq demo_cells searchable_def demo_walkable Let_def trace.simps capped_path_def
      MAX_PATH_LINE_def to_waypoints_def)

definition open_map :: smd_file where
  \<comment> \<open>102 by 102 cells without a wall\<close>
  "open_map = \<lparr>map_size = 102, unit_dist = 4, map_width = 404, map_height = 404, event_grid = replicate 10404 0,
     warps = [], regene_events = []\<rparr>"

lemma open_walkable: "0 \<le> z \<Longrightarrow> z < 102 \<Longrightarrow> is_walkable open_map 0 z"
  by (simp add: is_walkable_def open_map_def is_movable_def get_event_id_def slice_get_def)

lemma open_row:
  "0 \<le> z \<Longrightarrow> z + int k < 102 \<Longrightarrow>
    walk_cost open_map (0, z) (map (\<lambda>i. (0, z + 1 + int i)) [0..<k]) = Some (10 * int k)"
proof (induction k arbitrary: z)
  case (Suc k)
  have "offset (0, z) (0, 1, 10) = (0, z + 1)" "(0, 1, 10) \<in> set NEIGHBORS" "step_cost (0, 1, 10) = 10"
    by (simp_all add: offset_def step_cost_def NEIGHBORS_def COST_ORTHOGONAL_def)
  moreover have "walk_cost open_map (0, z + 1) (map (\<lambda>i. (0, z + 1 + 1 + int i)) [0..<k]) = Some (10 * int k)"
    using Suc.IH [of "z + 1"] Suc.prems by simp
  ultimately show ?case
    using walk_Cons_intro [of "(0, 1, 10)" open_map "(0, z)"] open_walkable [of z] Suc.prems
    by (simp add: map_upt_Suc algebra_simps del: upt_Suc)
qed (simp add: open_walkable)

lemma open_row_cheapest: "cheapest_walk open_map (0, 0) (0, 101) (map (\<lambda>i. (0, 1 + int i)) [0..<101])"
proof -
  have "walks_to open_map (0, 0) (0, 101) (map (\<lambda>i. (0, 1 + int i)) [0..<101]) 1010"
    using open_row [of 0 101] by (simp add: walks_to_def last_map)
  moreover have "1010 \<le> k" if "walks_to open_map (0, 0) (0, 101) cs k" for cs k
    using heuristic_admissible [OF walks_to_route [OF that]]
    by (simp add: heuristic_def COST_DIAGONAL_def COST_ORTHOGONAL_def)
  ultimately show ?thesis unfolding cheapest_walk_def by blast
qed

subsection \<open>Properties\<close>

text \<open>C24: A path that \<open>find_path\<close> returns is a cheapest one: the grid cells behind its waypoints are
  walkable, each is a neighbour of the one before, they lead from the start to the goal, and no other
  such walk costs less (10 for a straight step, 11 for a diagonal one). The waypoints are the centres
  of the first 100 of these cells, the last one replaced by the exact goal.\<close>

theorem path_is_cheapest:
  assumes "find_path pf m sx sz gx gz = Some r" "found r"
  shows "\<exists>cs. cheapest_walk m (goal_cells pf m sx sz) (goal_cells pf m gx gz) cs
    \<and> waypoints r = (if cs = [] then [(gx, gz)] else to_waypoints pf (unit_dist m) (gx, gz) (take MAX_PATH_LINE cs))"
proof (cases rule: find_path_cases [of pf m sx sz gx gz])
  case here
  then have "cheapest_walk m (goal_cells pf m sx sz) (goal_cells pf m gx gz) []"
    using stay_cheapest [of m "goal_cells pf m gx gz"] by (simp add: searchable_def)
  then show ?thesis using here assms by auto
next
  case (reached cs)
  then have "cs \<noteq> []" by (auto simp: cheapest_walk_def walks_to_def)
  then show ?thesis using reached assms by auto
qed (use assms in \<open>simp_all add: no_path_def\<close>)

lemma path_is_cheapest_witness:
  "\<exists>cs. cheapest_walk demo_grid (0, 0) (1, 2) cs
    \<and> [(2, 6), (5, 9)] = (if cs = [] then [(5, 9)] else to_waypoints demo_floats 4 (5, 9) (take MAX_PATH_LINE cs))"
  using path_is_cheapest [OF demo_path] by (simp only: demo_cells demo_fields path_result.simps simp_thms)

text \<open>C26: \<open>find_path\<close> always returns: the search loop is bounded by its budget and the walk back along
  \<open>came_from\<close> meets no cycle.\<close>

theorem find_path_returns: "\<exists>r. find_path pf m sx sz gx gz = Some r"
  by (cases rule: find_path_cases [of pf m sx sz gx gz]) simp_all

text \<open>C25: When a walk from the start to the goal exists, \<open>find_path\<close> finds one, unless its iteration
  budget is spent first: an open set that runs empty means that there is no walk.\<close>

theorem path_found_if_any:
  assumes "is_positive pf (unit_dist m)" "walks_to m (goal_cells pf m sx sz) (goal_cells pf m gx gz) cs k"
    and "search m (goal_cells pf m gx gz) (path_budget m (goal_cells pf m sx sz) (goal_cells pf m gx gz))
      (start_state (goal_cells pf m sx sz) (goal_cells pf m gx gz)) \<noteq> Budget_Spent"
  shows "\<exists>ws. find_path pf m sx sz gx gz = Some \<lparr>waypoints = ws, found = True\<rparr>"
proof -
  let ?s = "goal_cells pf m sx sz" let ?g = "goal_cells pf m gx gz"
  have r: "route m ?s ?g k" by (rule walks_to_route [OF assms(2)])
  then have "walkable m ?g" by (induction rule: route.induct) simp_all
  then have "searchable pf m ?s ?g" using assms(1) route_walkable [OF r] by (simp add: searchable_def)
  then show ?thesis
    using assms(2,3) by (cases rule: find_path_cases [of pf m sx sz gx gz]) auto
qed

lemma path_found_if_any_witness: "\<exists>ws. find_path demo_floats demo_grid 1 1 5 9 = Some \<lparr>waypoints = ws, found = True\<rparr>"
proof (rule path_found_if_any)
  show "walks_to demo_grid (goal_cells demo_floats demo_grid 1 1) (goal_cells demo_floats demo_grid 5 9) [(0, 1), (1, 2)] 21"
    by (simp add: demo_cells walks_to_def walk_cost.simps(2) demo_walkable offset_def step_cost_def NEIGHBORS_def
        COST_DIAGONAL_def COST_ORTHOGONAL_def)
qed (use demo_search [of 497] demo_budget in \<open>simp_all add: demo_cells\<close>)

text \<open>C27: No integer of the search overflows: after \<open>i\<close> iterations, at most 50,000, every node of
  the open set lies in the map, its cost is between 0 and \<open>11 * i\<close>, its estimate at most
  \<open>11 * i + 110000\<close> on a map that the parser accepts, and the budget is between 500 and 50,000.\<close>

theorem search_integers_fit:
  assumes "reaches m start goal i st" "walkable m start" "walkable m goal" "sint (map_size m) \<le> 10000"
    and n: "n \<in> set (open_set st)"
  shows "0 \<le> node_g n \<and> node_g n \<le> 11 * int i \<and> node_g n \<le> node_f n \<and> node_f n \<le> 11 * int i + 110000
    \<and> 0 \<le> node_x n \<and> node_x n < 10000 \<and> 0 \<le> node_z n \<and> node_z n < 10000
    \<and> 500 \<le> path_budget m start goal \<and> path_budget m start goal \<le> MAX_ITERATIONS_CAP"
proof -
  have inv: "search_inv m start goal {} st" by (rule reaches_inv [OF assms(1,2)])
  then have sc: "scored m start st" and op: "opened goal st" by (simp_all add: search_inv_def)
  obtain k where "g_scores st (cell_of n) = Some k" "k \<le> node_g n" using opened_node [OF op n] by blast
  then have pos: "0 \<le> node_g n" using scored_cell [OF sc, of "cell_of n" k] by linarith
  have b: "node_g n \<le> 11 * int i" "walkable m (cell_of n)"
    using reaches_bounded [OF assms(1,2)] n by (simp_all add: bounded_by_def)
  have cell: "0 \<le> node_x n \<and> node_x n < 10000 \<and> 0 \<le> node_z n \<and> node_z n < 10000"
    using walkable_in_map [OF b(2)] assms(4) by (simp add: cell_of_def)
  moreover have "0 \<le> fst goal \<and> fst goal < 10000 \<and> 0 \<le> snd goal \<and> snd goal < 10000"
    using walkable_in_map [OF assms(3)] assms(4) by simp
  ultimately have "heuristic (node_x n) (node_z n) (fst goal) (snd goal) \<le> 11 * 10000"
    by (intro heuristic_bound) auto
  moreover have "500 \<le> path_budget m start goal \<and> path_budget m start goal \<le> MAX_ITERATIONS_CAP"
    by (simp add: calc_max_iterations_def Let_def MAX_ITERATIONS_CAP_def)
  ultimately show ?thesis
    using opened_node [OF op n] heuristic_nonneg [of "node_x n" "node_z n" "fst goal" "snd goal"] pos b(1) cell
    by (simp add: cell_of_def)
qed

lemma search_integers_fit_witness: "0 \<le> node_g (A_Star_Node 21 0 0 0) \<and> node_f (A_Star_Node 21 0 0 0) \<le> 11 * int 0 + 110000"
proof -
  have "A_Star_Node 21 0 0 0 \<in> set (open_set (start_state (0, 0) (1, 2)))"
    by (simp add: start_state_def heuristic_def COST_DIAGONAL_def COST_ORTHOGONAL_def)
  then show ?thesis
    using search_integers_fit [OF reach_start [of demo_grid "(0, 0)" "(1, 2)"]] by (simp add: demo_walkable)
qed

text \<open>A walk of more than 100 cells is cut, and the exact goal takes the place of its 100th cell:
  the path has 100 waypoints, the 99th is the centre of the 99th cell, and the next one is the goal,
  which is not that cell's neighbour.\<close>

theorem long_path_ends_in_jump:
  assumes "cheapest_walk m start goal cs" "length cs > 100"
  shows "let ws = to_waypoints pf ud goal_world (take MAX_PATH_LINE cs) in
     length ws = 100 \<and> ws ! 99 = goal_world
     \<and> ws ! 98 = (cell_center pf (fst (cs ! 98)) ud, cell_center pf (snd (cs ! 98)) ud)
     \<and> (\<forall>d \<in> set NEIGHBORS. offset (cs ! 98) d \<noteq> goal)"
proof -
  define path where "path = take MAX_PATH_LINE cs"
  have len: "length path = 100" and at: "path ! 98 = cs ! 98"
    using assms(2) by (simp_all add: path_def MAX_PATH_LINE_def)
  have "to_waypoints pf ud goal_world path ! 99 = goal_world"
    using nth_waypoints [of 99 path pf ud goal_world] len by simp
  moreover have "to_waypoints pf ud goal_world path ! 98 = (cell_center pf (fst (cs ! 98)) ud, cell_center pf (snd (cs ! 98)) ud)"
    using nth_waypoints [of 98 path pf ud goal_world] len at by simp
  moreover have "\<forall>d \<in> set NEIGHBORS. offset (cs ! 98) d \<noteq> goal"
    using cheapest_no_shortcut [OF assms(1), of 98] assms(2) by simp
  ultimately show ?thesis using len unfolding path_def [symmetric] Let_def by simp
qed

lemma long_path_ends_in_jump_witness:
  "to_waypoints demo_floats 4 (5, 9) (take MAX_PATH_LINE (map (\<lambda>i. (0, 1 + int i)) [0..<101])) ! 99 = (5, 9)"
  using long_path_ends_in_jump [OF open_row_cheapest, of demo_floats 4 "(5, 9)"] by (simp add: Let_def del: upt_Suc upt_rec_numeral)

end
