(* ===== verification/Party.thy ===== *)
theory Party
  imports Inventory
begin

text \<open>
  Parties (\<^verbatim>\<open>crates/ko-game/src/handler/party.rs\<close>, lines 43 to 1215; the party table of
  \<^verbatim>\<open>world/social.rs\<close>, lines 230 to 426; \<^verbatim>\<open>Party\<close> of \<^verbatim>\<open>world/types.rs\<close>, lines 2939 to 3045). A handler
  is a function from world to world; \<open>None\<close> is the panic of \<open>check_exist_item\<close> on a bag that is too
  short. The clock reading, in milliseconds, is an argument.
\<close>

definition ZONE_BORDER_DEFENSE_WAR :: u16 where "ZONE_BORDER_DEFENSE_WAR = 84"
definition ZONE_CHAOS_DUNGEON :: u16 where "ZONE_CHAOS_DUNGEON = 85"
definition ZONE_DELOS :: u16 where "ZONE_DELOS = 30"
definition ZONE_DUNGEON_DEFENCE :: u16 where "ZONE_DUNGEON_DEFENCE = 89"
definition ZONE_JURAID_MOUNTAIN :: u16 where "ZONE_JURAID_MOUNTAIN = 87"
definition ZONE_PRISON :: u16 where "ZONE_PRISON = 92"
definition ZONE_ARENA :: u16 where "ZONE_ARENA = 48"
definition ZONE_BLOOD_DON_ARENA :: u16 where "ZONE_BLOOD_DON_ARENA = 52"
definition ZONE_DELOS_CASTELLAN :: u16 where "ZONE_DELOS_CASTELLAN = 35"
definition ZONE_DRAKI_TOWER :: u16 where "ZONE_DRAKI_TOWER = 95"
definition ZONE_ELMORAD_ESLANT :: u16 where "ZONE_ELMORAD_ESLANT = 12"
definition ZONE_ELMORAD_ESLANT2 :: u16 where "ZONE_ELMORAD_ESLANT2 = 15"
definition ZONE_ELMORAD_ESLANT3 :: u16 where "ZONE_ELMORAD_ESLANT3 = 16"
definition ZONE_FORGOTTEN_TEMPLE :: u16 where "ZONE_FORGOTTEN_TEMPLE = 55"
definition ZONE_GOBLIN_ARENA :: u16 where "ZONE_GOBLIN_ARENA = 53"
definition ZONE_KARUS_ESLANT :: u16 where "ZONE_KARUS_ESLANT = 11"
definition ZONE_KARUS_ESLANT2 :: u16 where "ZONE_KARUS_ESLANT2 = 13"
definition ZONE_KARUS_ESLANT3 :: u16 where "ZONE_KARUS_ESLANT3 = 14"
definition ZONE_MORADON :: u16 where "ZONE_MORADON = 21"
definition ZONE_MORADON2 :: u16 where "ZONE_MORADON2 = 22"
definition ZONE_MORADON3 :: u16 where "ZONE_MORADON3 = 23"
definition ZONE_MORADON4 :: u16 where "ZONE_MORADON4 = 24"
definition ZONE_MORADON5 :: u16 where "ZONE_MORADON5 = 25"
definition ZONE_OLD_MORADON :: u16 where "ZONE_OLD_MORADON = 29"
definition ZONE_ORC_ARENA :: u16 where "ZONE_ORC_ARENA = 51"
definition ZONE_STONE1 :: u16 where "ZONE_STONE1 = 81"
definition ZONE_STONE2 :: u16 where "ZONE_STONE2 = 82"
definition ZONE_STONE3 :: u16 where "ZONE_STONE3 = 83"
definition ZONE_UNDER_CASTLE :: u16 where "ZONE_UNDER_CASTLE = 86"

definition MAX_PARTY_USERS :: nat where "MAX_PARTY_USERS = 8"
definition SEEKING_PARTY_ITEM :: u32 where "SEEKING_PARTY_ITEM = 914057000"
definition STATE_CHANGE_PARTY_LEADER :: u8 where "STATE_CHANGE_PARTY_LEADER = 6"

definition PARTY_CREATE :: u8 where "PARTY_CREATE = 0x01"
definition PARTY_PERMIT :: u8 where "PARTY_PERMIT = 0x02"
definition PARTY_INSERT :: u8 where "PARTY_INSERT = 0x03"
definition PARTY_REMOVE :: u8 where "PARTY_REMOVE = 0x04"
definition PARTY_DELETE :: u8 where "PARTY_DELETE = 0x05"
definition PARTY_HPCHANGE :: u8 where "PARTY_HPCHANGE = 0x06"
definition PARTY_CLASSCHANGE :: u8 where "PARTY_CLASSCHANGE = 0x08"
definition PARTY_PROMOTE :: u8 where "PARTY_PROMOTE = 0x1C"
definition PARTY_COMMAND_PROMATE :: u8 where "PARTY_COMMAND_PROMATE = 0x1E"
definition PARTY_TARGET_NUMBER :: u8 where "PARTY_TARGET_NUMBER = 0x1F"
definition PARTY_ALERT :: u8 where "PARTY_ALERT = 0x20"

definition PARTY_ERR_DECLINED :: i16 where "PARTY_ERR_DECLINED = -1"
definition PARTY_ERR_LEVEL :: i16 where "PARTY_ERR_LEVEL = -2"
definition PARTY_ERR_NATION :: i16 where "PARTY_ERR_NATION = -3"
definition PARTY_ERR_ZONE :: i16 where "PARTY_ERR_ZONE = -5"
definition PARTY_ERR_OFFLINE :: i16 where "PARTY_ERR_OFFLINE = -6"
definition PARTY_ERR_GENERIC :: i16 where "PARTY_ERR_GENERIC = -7"
definition PARTY_ERR_ZONE_RESTRICTED :: i16 where "PARTY_ERR_ZONE_RESTRICTED = -9"
definition PARTY_ERR_SEEKING_ITEM :: i16 where "PARTY_ERR_SEEKING_ITEM = -10"

definition is_partner_party_zone :: "u16 \<Rightarrow> bool" where
  "is_partner_party_zone z \<longleftrightarrow> List.member
     [ZONE_MORADON, ZONE_MORADON2, ZONE_MORADON3, ZONE_MORADON4,
       ZONE_MORADON5, ZONE_ARENA, ZONE_ORC_ARENA, ZONE_BLOOD_DON_ARENA,
       ZONE_GOBLIN_ARENA, ZONE_FORGOTTEN_TEMPLE, ZONE_UNDER_CASTLE, ZONE_STONE1,
       ZONE_STONE2, ZONE_STONE3, ZONE_DELOS_CASTELLAN, ZONE_DRAKI_TOWER,
       ZONE_OLD_MORADON, ZONE_KARUS_ESLANT, ZONE_KARUS_ESLANT2, ZONE_KARUS_ESLANT3,
       ZONE_ELMORAD_ESLANT, ZONE_ELMORAD_ESLANT2, ZONE_ELMORAD_ESLANT3] z"

definition is_party_restricted_zone :: "u16 \<Rightarrow> bool" where
  "is_party_restricted_zone z \<longleftrightarrow> List.member [ZONE_CHAOS_DUNGEON, ZONE_PRISON, ZONE_DUNGEON_DEFENCE] z"

definition is_level_check_relaxed_zone :: "u16 \<Rightarrow> bool" where
  "is_level_check_relaxed_zone z \<longleftrightarrow> List.member [ZONE_BORDER_DEFENSE_WAR, ZONE_JURAID_MOUNTAIN] z"

definition is_level_compatible :: "u8 \<Rightarrow> u8 \<Rightarrow> bool" where
  "is_level_compatible level_a level_b =
     (let a = uint level_a; b = uint level_b in
      b \<le> a + 8 \<and> b \<ge> a - 8 \<or> b \<le> a * 3 div 2 \<and> b \<ge> a * 2 div 3)"

subsection \<open>A party\<close>

definition party_new :: "u16 \<Rightarrow> sid \<Rightarrow> party" where
  "party_new pid leader = \<lparr>party_no = pid, members = Some leader # replicate (MAX_PARTY_USERS - 1) None,
     item_routing = 0, target_number_id = -1, command_leader_sid = Some leader\<rparr>"

definition leader_sid :: "party \<Rightarrow> sid option" where
  "leader_sid p = members p ! 0"

definition member_count :: "party \<Rightarrow> nat" where
  "member_count p = length (filter (\<lambda>m. m \<noteq> None) (members p))"

definition is_full :: "party \<Rightarrow> bool" where
  "is_full p \<longleftrightarrow> member_count p \<ge> MAX_PARTY_USERS"

definition party_contains :: "party \<Rightarrow> sid \<Rightarrow> bool" where
  "party_contains p s \<longleftrightarrow> Some s \<in> set (members p)"

primrec fill_first :: "sid \<Rightarrow> sid option list \<Rightarrow> sid option list option" where
  \<comment> \<open>the first empty slot\<close>
  "fill_first s [] = None"
| "fill_first s (m # ms) =
     (if m = None then Some (Some s # ms) else map_option ((#) m) (fill_first s ms))"

definition add_member :: "party \<Rightarrow> sid \<Rightarrow> bool \<times> party" where
  "add_member p s =
     (if party_contains p s then (False, p)
      else case fill_first s (members p) of
             None \<Rightarrow> (False, p)
           | Some ms \<Rightarrow> (True, p\<lparr>members := ms\<rparr>))"

primrec clear_first :: "sid \<Rightarrow> sid option list \<Rightarrow> sid option list option" where
  "clear_first s [] = None"
| "clear_first s (m # ms) =
     (if m = Some s then Some (None # ms) else map_option ((#) m) (clear_first s ms))"

definition remove_member :: "party \<Rightarrow> sid \<Rightarrow> bool \<times> party" where
  "remove_member p s =
     (case clear_first s (members p) of None \<Rightarrow> (False, p) | Some ms \<Rightarrow> (True, p\<lparr>members := ms\<rparr>))"

definition is_leader :: "party \<Rightarrow> sid \<Rightarrow> bool" where
  "is_leader p s \<longleftrightarrow> members p ! 0 = Some s"

definition is_command_leader :: "party \<Rightarrow> sid \<Rightarrow> bool" where
  "is_command_leader p s \<longleftrightarrow> command_leader_sid p = Some s"

primrec index_of :: "'a \<Rightarrow> 'a list \<Rightarrow> nat option" where
  \<comment> \<open>\<open>iter().position\<close>\<close>
  "index_of x [] = None"
| "index_of x (y # ys) = (if y = x then Some 0 else map_option Suc (index_of x ys))"

definition find_slot :: "party \<Rightarrow> sid \<Rightarrow> nat option" where
  "find_slot p s = index_of (Some s) (members p)"

definition swap_leader :: "party \<Rightarrow> nat \<Rightarrow> party" where
  "swap_leader p i =
     (if i > 0 \<and> i < MAX_PARTY_USERS
      then p\<lparr>members := (members p)[0 := members p ! i, i := members p ! 0]\<rparr> else p)"

subsection \<open>The party table\<close>

definition get_party :: "u16 \<Rightarrow> world \<Rightarrow> party option" where
  "get_party pid w = parties w pid"

definition update_party :: "u16 \<Rightarrow> (party \<Rightarrow> party) \<Rightarrow> world \<Rightarrow> world" where
  "update_party pid f w = (case parties w pid of None \<Rightarrow> w | Some p \<Rightarrow> w\<lparr>parties := (parties w)(pid \<mapsto> f p)\<rparr>)"

definition set_party_id :: "sid \<Rightarrow> u16 option \<Rightarrow> world \<Rightarrow> world" where
  "set_party_id s pid = update_character_stats s (\<lambda>ch. ch\<lparr>party_id := pid\<rparr>)"

definition alloc_party_id :: "world \<Rightarrow> u16 \<times> world" where
  \<comment> \<open>\<open>fetch_add\<close> wraps around; 0 is skipped\<close>
  "alloc_party_id w =
     (let pid = (if next_party_id w = 0 then 1 else next_party_id w) in (pid, w\<lparr>next_party_id := pid + 1\<rparr>))"

definition create_party :: "sid \<Rightarrow> world \<Rightarrow> u16 \<times> world" where
  "create_party leader w =
     (let (pid, w1) = alloc_party_id w in
      (pid, set_party_id leader (Some pid) (w1\<lparr>parties := (parties w1)(pid \<mapsto> party_new pid leader)\<rparr>)))"

definition add_party_member :: "u16 \<Rightarrow> sid \<Rightarrow> world \<Rightarrow> bool \<times> world" where
  "add_party_member pid s w =
     (case parties w pid of
        None \<Rightarrow> (False, w)
      | Some p \<Rightarrow>
          let (added, p') = add_member p s; w1 = w\<lparr>parties := (parties w)(pid \<mapsto> p')\<rparr> in
          (added, if added then set_party_id s (Some pid) w1 else w1))"

definition leave_party :: "sid \<Rightarrow> world \<Rightarrow> world" where
  \<comment> \<open>reset the party type and the party id of a session\<close>
  "leave_party s w = set_party_id s None (modify_session s (\<lambda>h. h\<lparr>party_type := 0\<rparr>) w)"

definition remove_party_member :: "u16 \<Rightarrow> sid \<Rightarrow> world \<Rightarrow> bool \<times> world" where
  "remove_party_member pid s w =
     (case parties w pid of
        None \<Rightarrow> (False, w)
      | Some p \<Rightarrow>
          let (removed, p') = remove_member p s; w1 = w\<lparr>parties := (parties w)(pid \<mapsto> p')\<rparr> in
          (removed, if removed then leave_party s w1 else w1))"

definition disband_party :: "u16 \<Rightarrow> world \<Rightarrow> sid list \<times> world" where
  "disband_party pid w =
     (case parties w pid of
        None \<Rightarrow> ([], w)
      | Some p \<Rightarrow>
          (active_members p, fold leave_party (active_members p) (w\<lparr>parties := (parties w)(pid := None)\<rparr>)))"

definition promote_party_leader :: "u16 \<Rightarrow> sid \<Rightarrow> world \<Rightarrow> bool \<times> world" where
  "promote_party_leader pid s w =
     (case parties w pid of
        None \<Rightarrow> (False, w)
      | Some p \<Rightarrow>
          (case find_slot p s of
             None \<Rightarrow> (False, w)
           | Some i \<Rightarrow> (True, w\<lparr>parties := (parties w)(pid \<mapsto> swap_leader p i)\<rparr>)))"

definition set_party_invitation :: "sid \<Rightarrow> u16 \<Rightarrow> sid \<Rightarrow> world \<Rightarrow> world" where
  "set_party_invitation invitee pid inviter w =
     w\<lparr>party_invitations := (party_invitations w)(invitee \<mapsto> (pid, inviter))\<rparr>"

definition take_party_invitation :: "sid \<Rightarrow> world \<Rightarrow> (u16 \<times> sid) option \<times> world" where
  "take_party_invitation s w =
     (party_invitations w s, w\<lparr>party_invitations := (party_invitations w)(s := None)\<rparr>)"

definition has_party_invitation :: "sid \<Rightarrow> world \<Rightarrow> bool" where
  "has_party_invitation s w \<longleftrightarrow> party_invitations w s \<noteq> None"

definition is_in_party :: "sid \<Rightarrow> world \<Rightarrow> bool" where
  "is_in_party s w \<longleftrightarrow> get_party_id s w \<noteq> None"

definition send_to_party :: "u16 \<Rightarrow> packet \<Rightarrow> world \<Rightarrow> world" where
  "send_to_party pid pkt w =
     (case parties w pid of None \<Rightarrow> w | Some p \<Rightarrow> fold (\<lambda>m. send_to_session m pkt) (active_members p) w)"

definition party_packet :: "u8 \<Rightarrow> packet" where
  "party_packet sub = write_u8 sub (packet_new (as_u8 WizParty))"

definition cleanup_party_on_disconnect :: "sid \<Rightarrow> world \<Rightarrow> world" where
  "cleanup_party_on_disconnect s w0 =
     (let w = w0\<lparr>party_invitations := (party_invitations w0)(s := None)\<rparr> in
      case get_party_id s w of
        None \<Rightarrow> w
      | Some pid \<Rightarrow>
          (case get_party pid w of
             None \<Rightarrow> w
           | Some p \<Rightarrow>
               let w1 = (if is_leader p s
                         then case List.find (\<lambda>m. m \<noteq> None) (drop 1 (members p)) of
                                Some (Some nxt) \<Rightarrow> snd (promote_party_leader pid nxt w)
                              | _ \<Rightarrow> w
                         else w);
                   left = length (filter (\<lambda>m. m \<noteq> s) (active_members p)) in
               if left \<le> 1
               then snd (disband_party pid (send_to_party pid (party_packet PARTY_DELETE) w1))
               else snd (remove_party_member pid s
                      (send_to_party pid (write_u32 (ucast s) (party_packet PARTY_REMOVE)) w1))))"

end
