(* ===== verification/Party_Machine.thy ===== *)
theory Party_Machine
  imports Party "HOL-Library.Multiset"
begin

text \<open>
  What the party code keeps of the world: who is in the game and in which party, the party table, the
  invitations and the next id. The operations of the party table act on this view as functions; a step
  relation with the guards of the handlers keeps the invariant that membership is mutual, that every
  party has a leader and at most eight different members, and that nobody who is invited is in a party.
\<close>

subsection \<open>The view\<close>

record party_view =
  pv_in :: "sid \<Rightarrow> u16 option option"
    \<comment> \<open>\<open>None\<close>: not in the game\<close>
  pv_parties :: "u16 \<rightharpoonup> party"
  pv_invited :: "sid \<rightharpoonup> u16 \<times> sid"
  pv_next :: u16

definition view_of :: "world \<Rightarrow> party_view" where
  "view_of w = \<lparr>pv_in = (\<lambda>s. map_option party_id (get_character_info s w)), pv_parties = parties w,
     pv_invited = party_invitations w, pv_next = next_party_id w\<rparr>"

definition v_set :: "sid \<Rightarrow> u16 option \<Rightarrow> party_view \<Rightarrow> party_view" where
  "v_set s pid v = v\<lparr>pv_in := (pv_in v)(s := map_option (\<lambda>_. pid) (pv_in v s))\<rparr>"

definition v_new_id :: "party_view \<Rightarrow> u16" where
  "v_new_id v = (if pv_next v = 0 then 1 else pv_next v)"

definition v_create :: "sid \<Rightarrow> party_view \<Rightarrow> party_view" where
  "v_create s v = v_set s (Some (v_new_id v))
     (v\<lparr>pv_next := v_new_id v + 1, pv_parties := (pv_parties v)(v_new_id v \<mapsto> party_new (v_new_id v) s)\<rparr>)"

definition v_members :: "u16 \<Rightarrow> party_view \<Rightarrow> sid list" where
  "v_members pid v = (case pv_parties v pid of None \<Rightarrow> [] | Some p \<Rightarrow> active_members p)"

definition v_disband :: "u16 \<Rightarrow> party_view \<Rightarrow> party_view" where
  "v_disband pid v = v\<lparr>pv_parties := (pv_parties v)(pid := None),
     pv_in := (\<lambda>s. if s \<in> set (v_members pid v) then map_option (\<lambda>_. None) (pv_in v s) else pv_in v s)\<rparr>"

definition v_party :: "u16 \<Rightarrow> party \<Rightarrow> party_view \<Rightarrow> party_view" where
  "v_party pid p v = v\<lparr>pv_parties := (pv_parties v)(pid \<mapsto> p)\<rparr>"

definition v_forget :: "sid \<Rightarrow> party_view \<Rightarrow> party_view" where
  "v_forget s v = v\<lparr>pv_invited := (pv_invited v)(s := None)\<rparr>"

definition v_invite :: "sid \<Rightarrow> u16 \<Rightarrow> sid \<Rightarrow> party_view \<Rightarrow> party_view" where
  "v_invite t pid s v = v\<lparr>pv_invited := (pv_invited v)(t \<mapsto> (pid, s))\<rparr>"

lemmas v_ops = v_set_def v_create_def v_disband_def v_party_def v_forget_def v_invite_def

lemma view_simps [simp]:
  "pv_parties (view_of w) = parties w" "pv_invited (view_of w) = party_invitations w"
  "pv_next (view_of w) = next_party_id w"
  by (simp_all add: view_of_def)

lemma view_in: "pv_in (view_of w) s = map_option party_id (get_character_info s w)"
  by (simp add: view_of_def)

lemma get_party_id_view: "get_party_id s w = Option.bind (pv_in (view_of w) s) id"
  by (simp add: get_party_id_def view_in split: option.splits bind_splits)

lemma modify_more [simp]:
  "party_invitations (modify_session s f w) = party_invitations w"
  "next_party_id (modify_session s f w) = next_party_id w"
  "party_invitations (send_to_session s p w) = party_invitations w"
  "next_party_id (send_to_session s p w) = next_party_id w"
  by (simp_all add: modify_session_def send_to_session_def split: option.splits)

lemma view_send [simp]: "view_of (send_to_session s p w) = view_of w"
  by (simp add: view_of_def)

lemma view_modify:
  assumes "\<And>h. character (f h) = character h"
  shows "view_of (modify_session s f w) = view_of w"
proof -
  have "get_character_info t (modify_session s f w) = get_character_info t w" for t
    by (cases "wsessions w s") (auto simp: get_character_info_def assms)
  then show ?thesis by (simp add: view_of_def)
qed

lemma view_set: "view_of (set_party_id s pid w) = v_set s pid (view_of w)"
proof -
  have "map_option party_id (get_character_info t (set_party_id s pid w))
      = (if t = s then map_option (\<lambda>_. pid) (map_option party_id (get_character_info s w))
         else map_option party_id (get_character_info t w))" for t
    by (cases "wsessions w s")
      (auto simp: set_party_id_def update_character_stats_def get_character_info_def map_option.compositionality comp_def)
  then show ?thesis
    by (auto simp: view_of_def v_set_def fun_eq_iff set_party_id_def update_character_stats_def)
qed

lemma view_leave: "view_of (leave_party s w) = v_set s None (view_of w)"
  by (simp add: leave_party_def view_set view_modify)

lemma view_parties: "view_of (w\<lparr>parties := ps\<rparr>) = (view_of w)\<lparr>pv_parties := ps\<rparr>"
  and view_invitations: "view_of (w\<lparr>party_invitations := i\<rparr>) = (view_of w)\<lparr>pv_invited := i\<rparr>"
  and view_next: "view_of (w\<lparr>next_party_id := n\<rparr>) = (view_of w)\<lparr>pv_next := n\<rparr>"
  by (simp_all add: view_of_def get_character_info_def)

lemma view_create:
  "view_of (snd (create_party s w)) = v_create s (view_of w)" "fst (create_party s w) = v_new_id (view_of w)"
  by (simp_all add: create_party_def alloc_party_id_def v_create_def v_new_id_def view_set view_parties view_next Let_def)

lemma view_fold_leave:
  "view_of (fold leave_party ms w) = (view_of w)\<lparr>pv_in :=
     (\<lambda>s. if s \<in> set ms then map_option (\<lambda>_. None) (pv_in (view_of w) s) else pv_in (view_of w) s)\<rparr>"
  by (induction ms arbitrary: w) (auto simp: view_leave v_set_def fun_eq_iff option.map_comp comp_def)

lemma view_disband: "view_of (snd (disband_party pid w)) = v_disband pid (view_of w)"
proof (cases "parties w pid")
  case None
  then show ?thesis
    by (simp add: disband_party_def v_disband_def v_members_def view_of_def fun_upd_idem)
next
  case (Some p)
  then show ?thesis
    by (intro party_view.equality)
      (simp_all add: disband_party_def v_disband_def v_members_def view_fold_leave view_parties cong: if_cong)
qed

lemma view_fold_send: "(\<And>m w. view_of (f m w) = view_of w) \<Longrightarrow> view_of (fold f ms w) = view_of w"
  by (induction ms arbitrary: w) simp_all

lemma view_to_party [simp]: "view_of (send_to_party pid p w) = view_of w"
  by (auto simp: send_to_party_def intro!: view_fold_send split: option.split)

lemma view_invite: "view_of (set_party_invitation t pid s w) = v_invite t pid s (view_of w)"
  by (simp add: set_party_invitation_def v_invite_def view_invitations)

lemma view_take: "take_party_invitation s w = (pv_invited (view_of w) s, w') \<Longrightarrow> view_of w' = v_forget s (view_of w)"
  by (auto simp: take_party_invitation_def v_forget_def view_invitations)

lemma view_update_party:
  "parties w pid = Some p \<Longrightarrow> view_of (update_party pid f w) = v_party pid (f p) (view_of w)"
  by (simp add: update_party_def v_party_def view_parties)

subsection \<open>Slots\<close>

lemma active_set: "s \<in> set (active_members p) \<longleftrightarrow> Some s \<in> set (members p)"
  by (force simp: active_members_def List.map_filter_def)

definition party_ok :: "party \<Rightarrow> bool" where
  \<comment> \<open>eight slots, a leader, no member twice\<close>
  "party_ok p \<longleftrightarrow> length (members p) = MAX_PARTY_USERS \<and> members p ! 0 \<noteq> None \<and> distinct (active_members p)"

lemma map_filter_set: "s \<in> set (List.map_filter id ms) \<longleftrightarrow> Some s \<in> set ms"
  by (force simp: List.map_filter_def)

lemma map_filter_distinct: "distinct (List.map_filter id ms) \<longleftrightarrow> (\<forall>s. count (mset ms) (Some s) \<le> 1)"
proof (induction ms)
  case (Cons m ms)
  show ?case
  proof (cases m)
    case (Some a)
    have absent: "Some a \<notin> set ms \<longleftrightarrow> count (mset ms) (Some a) = 0"
      using not_in_iff [of "Some a" "mset ms"] by simp
    have "(\<forall>s. count (add_mset (Some a) (mset ms)) (Some s) \<le> 1)
        \<longleftrightarrow> count (mset ms) (Some a) = 0 \<and> (\<forall>s. count (mset ms) (Some s) \<le> 1)" (is "?l \<longleftrightarrow> ?r")
    proof
      assume l: ?l
      have "count (mset ms) x \<le> count (add_mset (Some a) (mset ms)) x" for x by simp
      then have "\<forall>s. count (mset ms) (Some s) \<le> 1" using l order_trans by blast
      then show ?r using l [rule_format, of a] by simp
    next
      assume r: ?r
      show ?l
      proof
        fix s
        have "count (mset ms) (Some a) = 0" "count (mset ms) (Some s) \<le> 1" using r by blast+
        then show "count (add_mset (Some a) (mset ms)) (Some s) \<le> 1"
          by (cases "s = a") (simp_all only: count_add_mset if_True if_False option.inject, simp_all)
      qed
    qed
    with absent show ?thesis using Cons.IH map_filter_set [of a ms] by (simp add: Some List.map_filter_simps id_def)
  qed (use Cons.IH in \<open>simp add: List.map_filter_simps id_def\<close>)
qed (simp add: List.map_filter_simps)

lemma party_ok_count:
  "party_ok p \<longleftrightarrow> length (members p) = MAX_PARTY_USERS \<and> members p ! 0 \<noteq> None
    \<and> (\<forall>s. count (mset (members p)) (Some s) \<le> 1)"
  by (simp add: party_ok_def active_members_def map_filter_distinct)

lemma fill_first_Some:
  "fill_first s ms = Some ms' \<Longrightarrow> \<exists>i < length ms. ms ! i = None \<and> ms' = ms[i := Some s]"
proof (induction ms arbitrary: ms')
  case (Cons m ms)
  show ?case
  proof (cases "m = None")
    case False
    then obtain ks where ks: "fill_first s ms = Some ks" "ms' = m # ks" using Cons.prems by auto
    then obtain i where "i < length ms" "ms ! i = None" "ks = ms[i := Some s]" using Cons.IH by blast
    then show ?thesis using ks(2) by (intro exI [of _ "Suc i"]) simp
  qed (use Cons.prems in \<open>auto intro!: exI [of _ 0]\<close>)
qed simp

lemma fill_first_None: "fill_first s ms = None \<longleftrightarrow> None \<notin> set ms"
  by (induction ms) auto

lemma clear_first_Some:
  "clear_first s ms = Some ms' \<Longrightarrow> \<exists>i < length ms. ms ! i = Some s \<and> ms' = ms[i := None]"
proof (induction ms arbitrary: ms')
  case (Cons m ms)
  show ?case
  proof (cases "m = Some s")
    case False
    then obtain ks where ks: "clear_first s ms = Some ks" "ms' = m # ks" using Cons.prems by auto
    then obtain i where "i < length ms" "ms ! i = Some s" "ks = ms[i := None]" using Cons.IH by blast
    then show ?thesis using ks(2) by (intro exI [of _ "Suc i"]) simp
  qed (use Cons.prems in \<open>auto intro!: exI [of _ 0]\<close>)
qed simp

lemma clear_first_None: "clear_first s ms = None \<longleftrightarrow> Some s \<notin> set ms"
  by (induction ms) auto

lemma index_of_Some: "index_of x xs = Some i \<Longrightarrow> i < length xs \<and> xs ! i = x"
  by (induction xs arbitrary: i) (auto split: if_splits)

lemma index_of_None: "index_of x xs = None \<longleftrightarrow> x \<notin> set xs"
  by (induction xs) auto

lemma member_count_full: "is_full p \<longleftrightarrow> length (active_members p) \<ge> MAX_PARTY_USERS"
proof -
  have "length (filter (\<lambda>m. m \<noteq> None) ms) = length (List.map_filter id ms)" for ms :: "sid option list"
    by (induction ms) (auto simp: List.map_filter_def)
  then show ?thesis by (simp add: is_full_def member_count_def active_members_def)
qed

lemma party_new_ok: "party_ok (party_new pid s)" "active_members (party_new pid s) = [s]"
  by (simp_all add: party_ok_def party_new_def active_members_def List.map_filter_def MAX_PARTY_USERS_def)

lemma add_member_ok:
  assumes ok: "party_ok p" and s: "Some s \<notin> set (members p)" "\<not> is_full p"
  obtains ms where "add_member p s = (True, p\<lparr>members := ms\<rparr>)" "party_ok (p\<lparr>members := ms\<rparr>)"
    "set (active_members (p\<lparr>members := ms\<rparr>)) = insert s (set (active_members p))"
proof -
  have "None \<in> set (members p)"
  proof (rule ccontr)
    assume "None \<notin> set (members p)"
    then have "filter (\<lambda>m. m \<noteq> None) (members p) = members p" by (metis (mono_tags, lifting) filter_True)
    then have "member_count p = length (members p)" by (simp add: member_count_def)
    then show False using ok s(2) by (simp add: party_ok_def is_full_def)
  qed
  then obtain ms where ms: "fill_first s (members p) = Some ms"
    using fill_first_None [of s "members p"] by auto
  then obtain i where i: "i < length (members p)" "members p ! i = None" "ms = (members p)[i := Some s]"
    using fill_first_Some by blast
  have len: "length (members p) = MAX_PARTY_USERS" using ok by (simp add: party_ok_def)
  have "party_ok (p\<lparr>members := ms\<rparr>)"
    using ok i s(1) not_in_iff [of "Some s" "mset (members p)"]
    by (auto simp: party_ok_count mset_update nth_list_update)
  moreover have "set (active_members (p\<lparr>members := ms\<rparr>)) = insert s (set (active_members p))"
  proof -
    have "Some t \<in> set ms" if t: "t = s \<or> Some t \<in> set (members p)" for t
    proof (cases "t = s")
      case False
      then obtain j where j: "j < length (members p)" "members p ! j = Some t"
        using t by (auto simp: in_set_conv_nth)
      then have "ms ! j = Some t" using i by (auto simp: nth_list_update)
      then show ?thesis using j(1) i(3) by (metis length_list_update nth_mem)
    qed (use i in \<open>simp add: set_update_memI\<close>)
    moreover have "t = s \<or> Some t \<in> set (members p)" if "Some t \<in> set ms" for t
      using that set_update_subset_insert [of "members p" i "Some s"] i(3) by auto
    ultimately have "Some t \<in> set ms \<longleftrightarrow> t = s \<or> Some t \<in> set (members p)" for t by blast
    then show ?thesis by (auto simp: active_set)
  qed
  moreover have "add_member p s = (True, p\<lparr>members := ms\<rparr>)"
    using s(1) ms by (simp add: add_member_def party_contains_def)
  ultimately show thesis using that by blast
qed

lemma remove_member_ok:
  assumes ok: "party_ok p" and s: "Some s \<in> set (members p)" and lead: "members p ! 0 \<noteq> Some s"
  obtains ms where "remove_member p s = (True, p\<lparr>members := ms\<rparr>)" "party_ok (p\<lparr>members := ms\<rparr>)"
    "set (active_members (p\<lparr>members := ms\<rparr>)) = set (active_members p) - {s}"
proof -
  obtain ms where ms: "clear_first s (members p) = Some ms"
    using s clear_first_None [of s "members p"] by auto
  then obtain i where i: "i < length (members p)" "members p ! i = Some s" "ms = (members p)[i := None]"
    using clear_first_Some by blast
  have "i \<noteq> 0" using i(2) lead by (metis)
  have m: "mset ms = add_mset None (mset (members p) - {#Some s#})" using i by (simp add: mset_update)
  have one: "count (mset (members p)) (Some t) \<le> 1" for t using ok by (simp add: party_ok_count)
  have len: "length ms = length (members p)" "ms ! 0 = members p ! 0" using i(3) \<open>i \<noteq> 0\<close> by simp_all
  have "count (mset ms) (Some t) \<le> 1" for t
    using one [of t] by (simp only: m count_add_mset count_diff option.distinct if_False)
  then have okms: "party_ok (p\<lparr>members := ms\<rparr>)" using ok len by (simp add: party_ok_count)
  have "Some t \<in> set ms \<longleftrightarrow> Some t \<in> set (members p) \<and> t \<noteq> s" for t
  proof -
    have c: "count (mset ms) (Some t) = count (mset (members p)) (Some t) - (if t = s then 1 else 0)"
      by (simp only: m count_add_mset count_diff) simp
    show ?thesis
    proof (cases "t = s")
      case True
      then have "count (mset ms) (Some t) = count (mset (members p)) (Some s) - 1" using c by (simp only: if_P)
      then have "count (mset ms) (Some t) = 0" using one [of s] by linarith
      then show ?thesis using True by (simp add: count_eq_zero_iff)
    next
      case False
      then have "count (mset ms) (Some t) = count (mset (members p)) (Some t)"
        using c by (simp only: if_not_P if_False diff_zero)
      then have "Some t \<in># mset ms \<longleftrightarrow> Some t \<in># mset (members p)"
        by (simp only: count_greater_zero_iff [symmetric])
      then show ?thesis using False by simp
    qed
  qed
  then have setms: "set (active_members (p\<lparr>members := ms\<rparr>)) = set (active_members p) - {s}"
    by (simp add: set_eq_iff active_set)
  have "remove_member p s = (True, p\<lparr>members := ms\<rparr>)" using ms by (simp add: remove_member_def)
  then show thesis by (rule that [OF _ okms setms])
qed

lemma swap_leader_ok:
  assumes ok: "party_ok p" and s: "find_slot p s = Some i"
  shows "party_ok (swap_leader p i)" "set (active_members (swap_leader p i)) = set (active_members p)"
    "members (swap_leader p i) ! 0 = Some s"
proof -
  have i: "i < length (members p)" "members p ! i = Some s" and len: "length (members p) = MAX_PARTY_USERS"
    using index_of_Some [of "Some s" "members p" i] s ok by (auto simp: find_slot_def party_ok_def)
  have m: "mset (members (swap_leader p i)) = mset (members p)"
    using mset_swap [of i "members p" 0] i len by (auto simp: swap_leader_def)
  show lead: "members (swap_leader p i) ! 0 = Some s"
    using i len by (cases "i = 0") (auto simp: swap_leader_def nth_list_update)
  show "party_ok (swap_leader p i)"
    using ok lead m len by (simp add: party_ok_count mset_eq_length [OF m])
  show "set (active_members (swap_leader p i)) = set (active_members p)"
    using mset_eq_setD [OF m] by (auto simp: active_set)
qed

subsection \<open>The machine\<close>

definition party_inv :: "party_view \<Rightarrow> bool" where
  "party_inv v \<longleftrightarrow>
     (\<forall>pid p. pv_parties v pid = Some p \<longrightarrow> party_ok p)
     \<and> (\<forall>s pid. pv_in v s = Some (Some pid) \<longleftrightarrow> s \<in> set (v_members pid v))
     \<and> (\<forall>s. pv_invited v s \<noteq> None \<longrightarrow> pv_in v s = Some None)"

inductive party_step :: "party_view \<Rightarrow> party_view \<Rightarrow> bool" where
  step_create: "pv_in v s = Some None \<Longrightarrow> pv_invited v s = None \<Longrightarrow> pv_in v t = Some None \<Longrightarrow> t \<noteq> s \<Longrightarrow>
    pv_parties v (v_new_id v) = None \<Longrightarrow> party_step v (v_invite t (v_new_id v) s (v_create s v))"
| step_invite: "pv_in v t = Some None \<Longrightarrow> party_step v (v_invite t pid s v)"
| step_forget: "party_step v (v_forget s v)"
| step_join: "pv_in v s = Some None \<Longrightarrow> pv_invited v s = None \<Longrightarrow> pv_parties v pid = Some p \<Longrightarrow> \<not> is_full p \<Longrightarrow>
    party_step v (v_set s (Some pid) (v_party pid (snd (add_member p s)) v))"
| step_remove: "pv_parties v pid = Some p \<Longrightarrow> Some s \<in> set (members p) \<Longrightarrow> \<not> is_leader p s \<Longrightarrow>
    party_step v (v_set s None (v_party pid (snd (remove_member p s)) v))"
| step_disband: "party_step v (v_disband pid v)"
| step_promote: "pv_parties v pid = Some p \<Longrightarrow> find_slot p t = Some i \<Longrightarrow> party_step v (v_party pid (swap_leader p i) v)"
| step_mark: "pv_parties v pid = Some p \<Longrightarrow> members q = members p \<Longrightarrow> party_step v (v_party pid q v)"
| step_enter: "pv_in v s = None \<Longrightarrow> party_step v (v\<lparr>pv_in := (pv_in v)(s \<mapsto> None)\<rparr>)"
| step_quit: "pv_in v s = Some None \<Longrightarrow> pv_invited v s = None \<Longrightarrow> party_step v (v\<lparr>pv_in := (pv_in v)(s := None)\<rparr>)"

inductive_cases party_step_cases: "party_step v v'"

lemma v_members_set: "s \<in> set (v_members pid v) \<longleftrightarrow> (\<exists>p. pv_parties v pid = Some p \<and> Some s \<in> set (members p))"
  by (cases "pv_parties v pid") (simp_all add: v_members_def active_set)

lemma party_invD:
  assumes "party_inv v"
  shows "pv_parties v pid = Some p \<Longrightarrow> party_ok p"
    and "pv_in v s = Some (Some pid) \<longleftrightarrow> (\<exists>p. pv_parties v pid = Some p \<and> Some s \<in> set (members p))"
    and "pv_invited v s \<noteq> None \<Longrightarrow> pv_in v s = Some None"
  using assms unfolding party_inv_def v_members_set by blast+

lemma party_invI:
  assumes "\<And>pid p. pv_parties v pid = Some p \<Longrightarrow> party_ok p"
    and "\<And>s pid. pv_in v s = Some (Some pid) \<longleftrightarrow> (\<exists>p. pv_parties v pid = Some p \<and> Some s \<in> set (members p))"
    and "\<And>s. pv_invited v s \<noteq> None \<Longrightarrow> pv_in v s = Some None"
  shows "party_inv v"
  unfolding party_inv_def v_members_set using assms by blast

lemma v_party_inv:
  \<comment> \<open>one party and one session change\<close>
  assumes inv: "party_inv v" and old: "pv_parties v pid = None \<or> (\<exists>p. pv_parties v pid = Some p
        \<and> (\<forall>t. t \<noteq> s \<longrightarrow> (Some t \<in> set (members q) \<longleftrightarrow> Some t \<in> set (members p))))"
    and new: "pv_parties v pid = None \<Longrightarrow> \<forall>t. t \<noteq> s \<longrightarrow> Some t \<notin> set (members q)"
    and q: "party_ok q" and s: "pv_in v s \<noteq> None"
    and place: "(pid' = Some pid \<longleftrightarrow> Some s \<in> set (members q)) \<and> (pid' = None \<or> pid' = Some pid)"
    and home: "pv_in v s = Some None \<or> pv_in v s = Some (Some pid)" and inv_s: "pv_invited v s = None"
  shows "party_inv (v_set s pid' (v_party pid q v))"
proof (rule party_invI)
  let ?v = "v_set s pid' (v_party pid q v)"
  have parts: "pv_parties ?v = (pv_parties v)(pid \<mapsto> q)" "pv_invited ?v = pv_invited v"
      "pv_in ?v = (pv_in v)(s \<mapsto> pid')"
    using s by (auto simp: v_set_def v_party_def)
  show "pv_parties ?v pid0 = Some p \<Longrightarrow> party_ok p" for pid0 p
    using party_invD(1) [OF inv] q by (auto simp: parts split: if_splits)
  show "pv_invited ?v t \<noteq> None \<Longrightarrow> pv_in ?v t = Some None" for t
    using party_invD(3) [OF inv, of t] inv_s by (auto simp: parts)
  have mem: "pv_in v t = Some (Some pid0) \<longleftrightarrow> (\<exists>p. pv_parties v pid0 = Some p \<and> Some t \<in> set (members p))" for t pid0
    by (rule party_invD(2) [OF inv])
  show "pv_in ?v t = Some (Some pid0) \<longleftrightarrow> (\<exists>p. pv_parties ?v pid0 = Some p \<and> Some t \<in> set (members p))" for t pid0
  proof (cases "t = s")
    case True
    have "\<not> (\<exists>p. pv_parties v pid0 = Some p \<and> Some s \<in> set (members p))" if "pid0 \<noteq> pid"
      using mem [of s pid0] home that by auto
    then show ?thesis using place True by (cases "pid0 = pid") (auto simp: parts)
  next
    case False
    show ?thesis
    proof (cases "pid0 = pid")
      case True
      have "pv_in v t = Some (Some pid) \<longleftrightarrow> Some t \<in> set (members q)"
        using mem [of t pid] old new False by auto
      then show ?thesis using False True by (simp add: parts)
    qed (use mem [of t pid0] False in \<open>simp add: parts\<close>)
  qed
qed

lemma meta_inv:
  assumes "party_inv v" "pv_parties v pid = Some p" "party_ok q" "\<And>s. Some s \<in> set (members q) \<longleftrightarrow> Some s \<in> set (members p)"
  shows "party_inv (v_party pid q v)"
proof (rule party_invI)
  show "pv_in (v_party pid q v) s = Some (Some pid0) \<longleftrightarrow>
      (\<exists>p. pv_parties (v_party pid q v) pid0 = Some p \<and> Some s \<in> set (members p))" for s pid0
    using party_invD(2) [OF assms(1), of s pid0] assms(2,4) by (simp add: v_party_def)
qed (use party_invD [OF assms(1)] assms(3) in \<open>auto simp: v_party_def split: if_splits\<close>)

lemma disband_inv: "party_inv v \<Longrightarrow> party_inv (v_disband pid v)"
proof (rule party_invI)
  assume inv: "party_inv v"
  show "pv_parties (v_disband pid v) pid0 = Some p \<Longrightarrow> party_ok p" for pid0 p
    using party_invD(1) [OF inv] by (auto simp: v_disband_def split: if_splits)
  show "pv_invited (v_disband pid v) s \<noteq> None \<Longrightarrow> pv_in (v_disband pid v) s = Some None" for s
    using party_invD(3) [OF inv, of s] by (auto simp: v_disband_def)
  show "pv_in (v_disband pid v) s = Some (Some pid0) \<longleftrightarrow>
      (\<exists>p. pv_parties (v_disband pid v) pid0 = Some p \<and> Some s \<in> set (members p))" for s pid0
    using party_invD(2) [OF inv, of s pid0] party_invD(2) [OF inv, of s pid] v_members_set [of s pid v]
    by (auto simp: v_disband_def)
qed

lemma invited_inv:
  assumes "party_inv v" "\<And>t. i t \<noteq> None \<Longrightarrow> pv_in v t = Some None"
  shows "party_inv (v\<lparr>pv_invited := i\<rparr>)"
  using assms unfolding party_inv_def v_members_def by simp

lemma create_inv:
  assumes inv: "party_inv v" and s: "pv_in v s = Some None" "pv_invited v s = None"
    and new: "pv_parties v (v_new_id v) = None"
  shows "party_inv (v_create s v)"
proof -
  let ?v = "v\<lparr>pv_next := v_new_id v + 1\<rparr>" let ?pid = "v_new_id v"
  have inv': "party_inv ?v" using inv by (simp add: party_inv_def v_members_def)
  have mem: "Some t \<in> set (members (party_new ?pid s)) \<longleftrightarrow> t = s" for t
    by (auto simp: party_new_def)
  have "party_inv (v_set s (Some ?pid) (v_party ?pid (party_new ?pid s) ?v))"
    by (rule v_party_inv [OF inv']) (use s new party_new_ok(1) mem in simp_all)
  moreover have "v_set s (Some ?pid) (v_party ?pid (party_new ?pid s) ?v) = v_create s v"
    by (simp add: v_create_def v_party_def)
  ultimately show ?thesis by simp
qed

lemma join_inv:
  assumes inv: "party_inv v" and s: "pv_in v s = Some None" "pv_invited v s = None"
    and p: "pv_parties v pid = Some p" "\<not> is_full p"
  shows "party_inv (v_set s (Some pid) (v_party pid (snd (add_member p s)) v))"
proof -
  have ok: "party_ok p" using party_invD(1) [OF inv p(1)] .
  have out: "Some s \<notin> set (members p)" using party_invD(2) [OF inv, of s pid] s p by simp
  obtain ms where ms: "add_member p s = (True, p\<lparr>members := ms\<rparr>)" "party_ok (p\<lparr>members := ms\<rparr>)"
      "set (active_members (p\<lparr>members := ms\<rparr>)) = insert s (set (active_members p))"
    by (rule add_member_ok [OF ok out p(2)])
  then have mem: "Some t \<in> set ms \<longleftrightarrow> t = s \<or> Some t \<in> set (members p)" for t
    using active_set [of t "p\<lparr>members := ms\<rparr>"] active_set [of t p] by simp
  have "party_inv (v_set s (Some pid) (v_party pid (p\<lparr>members := ms\<rparr>) v))"
    by (rule v_party_inv [OF inv]) (use s p ms(2) mem in simp_all)
  then show ?thesis using ms(1) by simp
qed

lemma remove_inv:
  assumes inv: "party_inv v" and p: "pv_parties v pid = Some p" "Some s \<in> set (members p)" "\<not> is_leader p s"
  shows "party_inv (v_set s None (v_party pid (snd (remove_member p s)) v))"
proof -
  have ok: "party_ok p" using party_invD(1) [OF inv p(1)] .
  have lead: "members p ! 0 \<noteq> Some s" using p(3) by (simp add: is_leader_def)
  obtain ms where ms: "remove_member p s = (True, p\<lparr>members := ms\<rparr>)" "party_ok (p\<lparr>members := ms\<rparr>)"
      "set (active_members (p\<lparr>members := ms\<rparr>)) = set (active_members p) - {s}"
    by (rule remove_member_ok [OF ok p(2) lead])
  then have mem: "Some t \<in> set ms \<longleftrightarrow> t \<noteq> s \<and> Some t \<in> set (members p)" for t
    using active_set [of t "p\<lparr>members := ms\<rparr>"] active_set [of t p] by auto
  have home: "pv_in v s = Some (Some pid)" using party_invD(2) [OF inv, of s pid] p by simp
  then have "pv_invited v s = None" using party_invD(3) [OF inv, of s] by (cases "pv_invited v s") auto
  then have "party_inv (v_set s None (v_party pid (p\<lparr>members := ms\<rparr>) v))"
    using home ms(2) mem p(1) by (intro v_party_inv [OF inv]) simp_all
  then show ?thesis using ms(1) by simp
qed

lemma enter_inv:
  assumes inv: "party_inv v" and s: "pv_in v s = None \<or> pv_in v s = Some None" "x = None \<longrightarrow> pv_invited v s = None"
    "x \<noteq> Some (Some pid)" "x = None \<or> x = Some None"
  shows "party_inv (v\<lparr>pv_in := (pv_in v)(s := x)\<rparr>)"
proof (rule party_invI)
  show "pv_parties (v\<lparr>pv_in := (pv_in v)(s := x)\<rparr>) pid0 = Some p \<Longrightarrow> party_ok p" for pid0 p
    using party_invD(1) [OF inv] by simp
  show "pv_invited (v\<lparr>pv_in := (pv_in v)(s := x)\<rparr>) t \<noteq> None \<Longrightarrow> pv_in (v\<lparr>pv_in := (pv_in v)(s := x)\<rparr>) t = Some None" for t
    using party_invD(3) [OF inv, of t] s by auto
  show "pv_in (v\<lparr>pv_in := (pv_in v)(s := x)\<rparr>) t = Some (Some pid0) \<longleftrightarrow>
      (\<exists>p. pv_parties (v\<lparr>pv_in := (pv_in v)(s := x)\<rparr>) pid0 = Some p \<and> Some t \<in> set (members p))" for t pid0
    using party_invD(2) [OF inv, of t pid0] s by (cases "t = s") auto
qed

theorem party_step_inv: "party_step v v' \<Longrightarrow> party_inv v \<Longrightarrow> party_inv v'"
proof (induction rule: party_step.induct)
  case (step_create v s t)
  have "party_inv (v_create s v)"
    by (rule create_inv [OF step_create.prems step_create.hyps(1,2,5)])
  then show ?case
    unfolding v_invite_def using step_create.hyps(3,4) party_invD(3) [OF step_create.prems] step_create.hyps(2)
    by (intro invited_inv) (auto simp: v_create_def v_set_def split: if_splits)
next
  case (step_invite v t pid s)
  then show ?case unfolding v_invite_def using party_invD(3) by (intro invited_inv) (auto split: if_splits)
next
  case (step_forget v s)
  then show ?case unfolding v_forget_def using party_invD(3) by (intro invited_inv) (auto split: if_splits)
next
  case (step_join v s pid p)
  then show ?case by (intro join_inv)
next
  case (step_remove v pid p s)
  then show ?case by (intro remove_inv)
next
  case (step_promote v pid p t i)
  have ok: "party_ok p" using party_invD(1) [OF step_promote.prems step_promote.hyps(1)] .
  note sw = swap_leader_ok [OF ok step_promote.hyps(2)]
  show ?case
    using active_set [of _ "swap_leader p i"] active_set [of _ p] sw
    by (intro meta_inv [OF step_promote.prems step_promote.hyps(1)]) auto
next
  case (step_mark v pid p q)
  have "party_ok q"
    using party_invD(1) [OF step_mark.prems step_mark.hyps(1)] step_mark.hyps(2)
    by (simp add: party_ok_def active_members_def)
  then show ?case
    using step_mark by (intro meta_inv) auto
next
  case (step_enter v s)
  then show ?case by (intro enter_inv) simp_all
next
  case (step_quit v s)
  then show ?case by (intro enter_inv) simp_all
qed (rule disband_inv)

lemma party_steps_inv: "party_step\<^sup>*\<^sup>* v v' \<Longrightarrow> party_inv v \<Longrightarrow> party_inv v'"
  by (induction rule: rtranclp_induct) (auto intro: party_step_inv)

end
