(* ===== verification/Party_Handler.thy ===== *)
theory Party_Handler
  imports Party Exchange
begin

text \<open>
  The handler of \<^verbatim>\<open>WIZ_PARTY\<close> (\<^verbatim>\<open>crates/ko-game/src/handler/party.rs\<close>, lines 133 to 1215), one function per
  sub-opcode, with the packets it sends and the broadcast of the leader's symbol to the region
  (\<^verbatim>\<open>broadcast_to_region_sync\<close>, \<^verbatim>\<open>world/session.rs\<close>, lines 1282 to 1313). Log lines are left out.
\<close>

subsection \<open>Packets\<close>

definition send_party_error :: "sid \<Rightarrow> i16 \<Rightarrow> world \<Rightarrow> world" where
  "send_party_error s code = send_to_session s (write_i16 code (party_packet PARTY_INSERT))"

definition build_party_member_info :: "character_info \<Rightarrow> u8 \<Rightarrow> i16 \<Rightarrow> i8 \<Rightarrow> i8 \<Rightarrow> packet" where
  "build_party_member_info ch index_hint target_no ptype loyalty_rank =
     (let p1 = write_u32 (ucast (ch_session_id ch)) (write_u16 1 (party_packet PARTY_INSERT));
          p2 = write_string (ch_name ch) (write_u8 index_hint p1);
          p3 = write_u16 (ch_class ch) (write_u8 (level ch) (write_i16 (hp ch) (write_i16 (max_hp ch) p2)));
          p4 = write_u8 0 (write_u8 (nation ch) (write_i16 (mp ch) (write_i16 (max_mp ch) p3))) in
      write_i8 loyalty_rank (write_i8 ptype (write_u32 (scast target_no) p4)))"

definition loyalty_rank_of :: "session_handle \<Rightarrow> i8" where
  "loyalty_rank_of h =
     (let pr = personal_rank h; kr = h_knights_rank h in
      if pr > 100 \<and> pr \<le> 200 \<or> kr > 100 \<and> kr \<le> 200 \<or> kr = 0 \<and> pr = 0 then -1
      else if kr = 0 then ucast pr
      else if pr = 0 \<or> kr \<le> pr then ucast kr
      else ucast pr)"

definition get_char_with_loyalty :: "sid \<Rightarrow> world \<Rightarrow> (character_info \<times> i8) option" where
  "get_char_with_loyalty s w =
     Option.bind (wsessions w s) (\<lambda>h. map_option (\<lambda>ch. (ch, loyalty_rank_of h)) (character h))"

definition build_party_hp_update :: "character_info \<Rightarrow> packet" where
  "build_party_hp_update ch =
     write_i16 (mp ch) (write_i16 (max_mp ch) (write_i16 (hp ch) (write_i16 (max_hp ch)
       (write_u32 (ucast (ch_session_id ch)) (party_packet PARTY_HPCHANGE)))))"

definition broadcast_party_hp :: "sid \<Rightarrow> world \<Rightarrow> world" where
  "broadcast_party_hp s w =
     (case get_party_id s w of
        None \<Rightarrow> w
      | Some pid \<Rightarrow>
          (case get_character_info s w of
             None \<Rightarrow> w
           | Some ch \<Rightarrow> send_to_party pid (build_party_hp_update ch) w))"

definition build_party_class_change :: "sid \<Rightarrow> u16 \<Rightarrow> packet" where
  "build_party_class_change s c = write_u16 c (write_u32 (ucast s) (party_packet PARTY_CLASSCHANGE))"

definition broadcast_party_class_change :: "sid \<Rightarrow> u16 \<Rightarrow> world \<Rightarrow> world" where
  "broadcast_party_class_change s c w =
     (case get_party_id s w of None \<Rightarrow> w | Some pid \<Rightarrow> send_to_party pid (build_party_class_change s c) w)"

definition broadcast_to_region_sync :: "u16 \<Rightarrow> u16 \<Rightarrow> u16 \<Rightarrow> packet \<Rightarrow> sid option \<Rightarrow> u16 \<Rightarrow> world \<Rightarrow> world" where
  "broadcast_to_region_sync z rx rz pkt except room w =
     (let in_region = (\<lambda>h. character h \<noteq> None
            \<and> saturating_sub rx 1 \<le> region_x h \<and> region_x h \<le> saturating_add rx 1
            \<and> saturating_sub rz 1 \<le> region_z h \<and> region_z h \<le> saturating_add rz 1
            \<and> event_room h = room) in
      fold (\<lambda>t w. if except \<noteq> Some t \<and> session_or False t in_region w then send_to_session t pkt w else w)
        (unwrap_or [] (zone_session_index w z)) w)"

definition build_state_change_broadcast :: "u32 \<Rightarrow> u8 \<Rightarrow> u32 \<Rightarrow> packet" where
  "build_state_change_broadcast s b_type n_buff =
     write_u32 n_buff (write_u8 b_type (write_u32 s (packet_new (as_u8 WizStateChange))))"

definition show_leader :: "sid \<Rightarrow> u32 \<Rightarrow> world \<Rightarrow> world" where
  \<comment> \<open>set or clear the party leader's symbol around a session\<close>
  "show_leader s on w =
     (case wsessions w s of
        None \<Rightarrow> w
      | Some h \<Rightarrow> broadcast_to_region_sync (zone_id h) (region_x h) (region_z h)
          (build_state_change_broadcast (ucast s) STATE_CHANGE_PARTY_LEADER on) None (event_room h) w)"

definition send_member_hps :: "u16 \<Rightarrow> world \<Rightarrow> world" where
  \<comment> \<open>HP updates of all members to all members\<close>
  "send_member_hps pid w =
     (case get_party pid w of
        None \<Rightarrow> w
      | Some p \<Rightarrow>
          fold (\<lambda>m w. case get_character_info m w of
                  None \<Rightarrow> w | Some ch \<Rightarrow> send_to_party pid (build_party_hp_update ch) w)
            (active_members p) w)"

definition find_session_by_name :: "env \<Rightarrow> rstr \<Rightarrow> world \<Rightarrow> sid option" where
  "find_session_by_name e n w = name_to_session w (to_lowercase e n)"

definition is_session_ingame :: "sid \<Rightarrow> world \<Rightarrow> bool" where
  "is_session_ingame s w = session_or False s (\<lambda>h. character h \<noteq> None) w"

subsection \<open>Inviting\<close>

definition invite_request :: "sid \<Rightarrow> reader \<Rightarrow> world \<Rightarrow> (rstr \<times> i8 \<times> world) option" where
  \<comment> \<open>the target's name and the party type, which the inviter's session keeps\<close>
  "invite_request s rd w =
     (case read_string rd of
        (None, _) \<Rightarrow> None
      | (Some name, rd') \<Rightarrow>
          if name = [] then None
          else let ptype = unwrap_or 0 (fst (read_u8 rd')) in
               Some (name, ptype, modify_session s (\<lambda>h. h\<lparr>party_type := ptype\<rparr>) w))"

definition level_refused :: "character_info \<Rightarrow> character_info \<Rightarrow> u16 \<Rightarrow> bool" where
  "level_refused inviter target z \<longleftrightarrow>
     \<not> level inviter < 30 \<and> \<not> level target < 30 \<and> \<not> is_level_check_relaxed_zone z
     \<and> \<not> (knights_id inviter > 0 \<and> knights_id inviter = knights_id target)
     \<and> \<not> is_level_compatible (level inviter) (level target)"

definition csw_allows :: "character_info \<Rightarrow> world \<Rightarrow> bool" where
  \<comment> \<open>the siege's rule for a target of another clan\<close>
  "csw_allows target w =
     (if knights_id target = 0 then True
      else case knights w (knights_id target) of
             None \<Rightarrow> False
           | Some clan \<Rightarrow>
               if kn_alliance clan = 0 then False
               else (case alliances w (kn_alliance clan) of
                       None \<Rightarrow> False | Some a \<Rightarrow> kn_alliance clan = main_clan a))"

definition permit_packet :: "sid \<Rightarrow> rstr \<Rightarrow> packet" where
  "permit_packet s name = write_string name (write_u32 (ucast s) (party_packet PARTY_PERMIT))"

definition invite_target :: "env \<Rightarrow> sid \<Rightarrow> rstr \<Rightarrow> world \<Rightarrow> i16 + sid \<times> character_info" where
  \<comment> \<open>the checks on the invited player that creating and inviting share\<close>
  "invite_target e s name w =
     (case find_session_by_name e name w of
        None \<Rightarrow> Inl PARTY_ERR_GENERIC
      | Some t \<Rightarrow>
          if t = s then Inl PARTY_ERR_GENERIC
          else if \<not> is_session_ingame t w then Inl PARTY_ERR_OFFLINE
          else if is_in_party t w \<or> has_party_invitation t w then Inl PARTY_ERR_GENERIC
          else case get_character_info t w of None \<Rightarrow> Inl PARTY_ERR_OFFLINE | Some ch \<Rightarrow> Inr (t, ch))"

definition place_refused :: "character_info \<Rightarrow> character_info \<Rightarrow> u16 \<Rightarrow> u16 \<Rightarrow> i16 option" where
  \<comment> \<open>the last checks of an invitation: zones, then levels\<close>
  "place_refused inviter target z target_zone =
     (if z \<noteq> target_zone then Some PARTY_ERR_ZONE
      else if is_party_restricted_zone z then Some PARTY_ERR_ZONE_RESTRICTED
      else if level_refused inviter target z then Some PARTY_ERR_LEVEL
      else None)"

definition lacks_seeking_item :: "i8 \<Rightarrow> sid \<Rightarrow> world \<Rightarrow> bool option" where
  "lacks_seeking_item ptype t w =
     (if ptype = 2 then map_option Not (check_exist_item t SEEKING_PARTY_ITEM 1 w) else Some False)"

definition handle_party_create :: "env \<Rightarrow> sid \<Rightarrow> reader \<Rightarrow> world \<Rightarrow> world option" where
  "handle_party_create e s rd w0 =
     (case invite_request s rd w0 of
        None \<Rightarrow> Some w0
      | Some (name, ptype, w) \<Rightarrow>
          (case (get_character_info s w, get_zone_id s w) of
             (Some inviter, Some z) \<Rightarrow>
               (case invite_target e s name w of
                  Inl code \<Rightarrow> Some (send_party_error s code w)
                | Inr (t, target) \<Rightarrow>
                    if nation inviter \<noteq> nation target \<and> \<not> is_partner_party_zone z
                    then Some (send_party_error s PARTY_ERR_NATION w)
                    else (case lacks_seeking_item ptype t w of
                      None \<Rightarrow> None
                    | Some True \<Rightarrow> Some (send_party_error s PARTY_ERR_SEEKING_ITEM w)
                    | Some False \<Rightarrow>
                        if z = ZONE_DELOS \<and> knights_id inviter \<noteq> knights_id target \<and> csw_active w \<and> \<not> csw_allows target w
                        then Some (send_party_error s PARTY_ERR_NATION w)
                        else (case get_zone_id t w of
                          None \<Rightarrow> Some (send_party_error s PARTY_ERR_GENERIC w)
                        | Some target_zone \<Rightarrow>
                            (case place_refused inviter target z target_zone of
                               Some code \<Rightarrow> Some (send_party_error s code w)
                             | None \<Rightarrow>
                                 if is_in_party s w \<or> has_party_invitation s w
                                 then Some (send_party_error s PARTY_ERR_GENERIC w)
                                 else
                                   let (pid, w1) = create_party s w;
                                       w2 = set_party_invitation t pid s w1 in
                                   Some (show_leader s 1
                                     (send_to_session t (permit_packet s (ch_name inviter)) w2))))))
           | _ \<Rightarrow> Some w))"

definition handle_party_invite :: "env \<Rightarrow> sid \<Rightarrow> reader \<Rightarrow> world \<Rightarrow> world option" where
  "handle_party_invite e s rd w0 =
     (case invite_request s rd w0 of
        None \<Rightarrow> Some w0
      | Some (name, ptype, w) \<Rightarrow>
          (case get_character_info s w of
             None \<Rightarrow> Some w
           | Some inviter \<Rightarrow>
               (case Option.bind (party_id inviter) (\<lambda>pid. map_option (Pair pid) (get_party pid w)) of
                  None \<Rightarrow> Some (send_party_error s PARTY_ERR_GENERIC w)
                | Some (pid, p) \<Rightarrow>
                    if \<not> is_leader p s \<or> is_full p then Some (send_party_error s PARTY_ERR_GENERIC w)
                    else (case invite_target e s name w of
                      Inl code \<Rightarrow> Some (send_party_error s code w)
                    | Inr (t, target) \<Rightarrow>
                        (case (get_zone_id s w, get_zone_id t w) of
                           (None, _) \<Rightarrow> Some w
                         | (_, None) \<Rightarrow> Some (send_party_error s PARTY_ERR_OFFLINE w)
                         | (Some z, Some target_zone) \<Rightarrow>
                             if nation inviter \<noteq> nation target \<and> \<not> is_partner_party_zone z
                             then Some (send_party_error s PARTY_ERR_NATION w)
                             else (case lacks_seeking_item
                                      (if session_or 0 s party_type w = 2 then 2 else ptype) t w of
                               None \<Rightarrow> None
                             | Some True \<Rightarrow> Some (send_party_error s PARTY_ERR_SEEKING_ITEM w)
                             | Some False \<Rightarrow>
                                 (case place_refused inviter target z target_zone of
                                    Some code \<Rightarrow> Some (send_party_error s code w)
                                  | None \<Rightarrow>
                                      Some (send_to_session t (permit_packet s (ch_name inviter))
                                        (set_party_invitation t pid s w)))))))))"

subsection \<open>Answering, leaving, disbanding\<close>

definition join_party :: "sid \<Rightarrow> u16 \<Rightarrow> party \<Rightarrow> sid \<Rightarrow> world \<Rightarrow> world" where
  \<comment> \<open>the last part of \<open>handle_party_permit\<close>: members to the joiner, party type, slot, joiner to the members\<close>
  "join_party s pid p leader w =
     (let no = target_number_id p;
          w1 = fold (\<lambda>m w. case get_char_with_loyalty m w of
                 None \<Rightarrow> w
               | Some (ch, lr) \<Rightarrow> send_to_session s (build_party_member_info ch 1 no 0 lr) w) (active_members p) w;
          ptype = session_or 0 leader party_type w1;
          (added, w2) = add_party_member pid s (modify_session s (\<lambda>h. h\<lparr>party_type := ptype\<rparr>) w1) in
      if \<not> added then w2
      else
        let w3 = (case get_char_with_loyalty s w2 of
               None \<Rightarrow> w2
             | Some (ch, lr) \<Rightarrow> send_to_party pid (build_party_member_info ch 1 no 0 lr) w2) in
        send_member_hps pid w3)"

definition handle_party_permit :: "sid \<Rightarrow> reader \<Rightarrow> world \<Rightarrow> world" where
  "handle_party_permit s rd w0 =
     (case fst (read_u8 rd) of
        None \<Rightarrow> w0
      | Some accept \<Rightarrow>
          (case take_party_invitation s w0 of
             (None, w) \<Rightarrow> w
           | (Some (pid, inviter), w) \<Rightarrow>
               (case get_party pid w of
                  None \<Rightarrow> w
                | Some p \<Rightarrow>
                    if accept = 0 then
                      let w1 = (if member_count p \<le> 1
                            then let (ms, w1) = disband_party pid w in
                                 fold (\<lambda>m. send_to_session m (party_packet PARTY_DELETE)) ms w1
                            else w) in
                      send_party_error inviter PARTY_ERR_DECLINED w1
                    else (case leader_sid p of
                      None \<Rightarrow> w
                    | Some leader \<Rightarrow>
                        (case (get_zone_id s w, get_zone_id leader w) of
                           (Some z, Some leader_zone) \<Rightarrow>
                             if z \<noteq> leader_zone \<or> is_full p then send_party_error leader PARTY_ERR_DECLINED w
                             else join_party s pid p leader w
                         | _ \<Rightarrow> w)))))"

definition handle_party_delete_internal :: "u16 \<Rightarrow> world \<Rightarrow> world" where
  "handle_party_delete_internal pid w =
     (let w1 = send_to_party pid (party_packet PARTY_DELETE) w;
          leader = Option.bind (get_party pid w1) (\<lambda>p. case active_members p of [] \<Rightarrow> None | m # _ \<Rightarrow> Some m);
          w2 = snd (disband_party pid w1) in
      case leader of None \<Rightarrow> w2 | Some l \<Rightarrow> show_leader l 0 w2)"

definition handle_party_remove :: "sid \<Rightarrow> reader \<Rightarrow> world \<Rightarrow> world" where
  "handle_party_remove s rd w =
     (case fst (read_u16 rd) of
        None \<Rightarrow> w
      | Some t \<Rightarrow>
          (case get_party_id s w of
             None \<Rightarrow> w
           | Some pid \<Rightarrow>
               (case get_party pid w of
                  None \<Rightarrow> w
                | Some p \<Rightarrow>
                    if t = s \<and> is_leader p s then handle_party_delete_internal pid w
                    else if t \<noteq> s \<and> \<not> is_leader p s then w
                    else if length (filter (\<lambda>m. m \<noteq> t) (active_members p)) \<le> 1
                    then handle_party_delete_internal pid w
                    else
                      let w1 = send_to_party pid (write_u32 (ucast t) (party_packet PARTY_REMOVE)) w in
                      send_member_hps pid (snd (remove_party_member pid t w1)))))"

definition handle_party_delete :: "sid \<Rightarrow> world \<Rightarrow> world" where
  "handle_party_delete s w =
     (case get_party_id s w of None \<Rightarrow> w | Some pid \<Rightarrow> handle_party_delete_internal pid w)"

subsection \<open>Leadership\<close>

definition handle_party_promote :: "sid \<Rightarrow> reader \<Rightarrow> world \<Rightarrow> world" where
  "handle_party_promote s rd w =
     (case fst (read_u16 rd) of
        None \<Rightarrow> w
      | Some t \<Rightarrow>
          (case get_party_id s w of
             None \<Rightarrow> w
           | Some pid \<Rightarrow>
               (case get_party pid w of
                  None \<Rightarrow> w
                | Some p \<Rightarrow>
                    if \<not> is_leader p s \<or> \<not> party_contains p t then w
                    else
                      let (promoted, w1) = promote_party_leader pid t w in
                      if \<not> promoted then w1
                      else
                        let w2 = show_leader t 1 (show_leader s 0 w1);
                            w3 = update_party pid (\<lambda>p. if command_leader_sid p = Some s
                                   then p\<lparr>command_leader_sid := Some t\<rparr> else p) w2;
                            w4 = (case get_char_with_loyalty t w3 of
                                    None \<Rightarrow> w3
                                  | Some (ch, lr) \<Rightarrow>
                                      send_to_party pid (build_party_member_info ch 100 (target_number_id p) 0 lr) w3) in
                        send_member_hps pid w4)))"

definition too_soon :: "sid \<Rightarrow> nat \<Rightarrow> world \<Rightarrow> bool" where
  "too_soon s now w \<longleftrightarrow> session_or True s (\<lambda>h. now - last_target_number_time h < 850) w"

definition stamp_command :: "sid \<Rightarrow> nat \<Rightarrow> world \<Rightarrow> world" where
  "stamp_command s now = modify_session s (\<lambda>h. h\<lparr>last_target_number_time := now\<rparr>)"

definition commanded_party :: "sid \<Rightarrow> world \<Rightarrow> (u16 \<times> party) option" where
  \<comment> \<open>the party of a session that is its command leader\<close>
  "commanded_party s w =
     Option.bind (get_party_id s w) (\<lambda>pid.
       Option.bind (get_party pid w) (\<lambda>p. if is_command_leader p s then Some (pid, p) else None))"

definition handle_target_number :: "nat \<Rightarrow> sid \<Rightarrow> reader \<Rightarrow> world \<Rightarrow> world" where
  "handle_target_number now s rd w0 =
     (if too_soon s now w0 then w0
      else
        let w = stamp_command s now w0 in
        if is_player_dead s w then w
        else
          let (r1, rd1) = read_u16 rd; (_, rd2) = read_u32 rd1; (r3, _) = read_u8 rd2;
              t = unwrap_or (-1) r1; success = unwrap_or (-1) r3 in
          case commanded_party s w of
            None \<Rightarrow> w
          | Some (pid, _) \<Rightarrow>
              send_to_party pid (write_i8 success (write_u32 (scast (t :: i16)) (party_packet PARTY_TARGET_NUMBER)))
                (update_party pid (\<lambda>p. p\<lparr>target_number_id := t\<rparr>) w))"

definition handle_party_alert :: "nat \<Rightarrow> sid \<Rightarrow> reader \<Rightarrow> world \<Rightarrow> world" where
  "handle_party_alert now s rd w0 =
     (if too_soon s now w0 then w0
      else
        let w = stamp_command s now w0 in
        if is_player_dead s w then w
        else
          let sub = unwrap_or 0 (fst (read_u8 rd)) in
          case commanded_party s w of
            None \<Rightarrow> w
          | Some (pid, _) \<Rightarrow> send_to_party pid (write_u8 sub (party_packet PARTY_ALERT)) w)"

definition handle_party_command :: "nat \<Rightarrow> sid \<Rightarrow> reader \<Rightarrow> world \<Rightarrow> world" where
  "handle_party_command now s rd w0 =
     (if too_soon s now w0 then w0
      else
        let w = stamp_command s now w0; t = unwrap_or 0 (fst (read_u16 rd)) in
        case commanded_party s w of
          None \<Rightarrow> w
        | Some (pid, p) \<Rightarrow>
            if \<not> party_contains p t then w
            else
              let w1 = update_party pid (\<lambda>p. p\<lparr>command_leader_sid := Some t\<rparr>) w in
              case get_character_info t w1 of
                None \<Rightarrow> w1
              | Some ch \<Rightarrow>
                  send_to_party pid (write_sbyte_string (ch_name ch)
                    (write_u32 (ucast t) (party_packet PARTY_COMMAND_PROMATE))) w1)"

definition handle_party :: "env \<Rightarrow> session_state \<Rightarrow> nat \<Rightarrow> sid \<Rightarrow> packet \<Rightarrow> world \<Rightarrow> world option" where
  "handle_party e st now s pkt w =
     (if st \<noteq> InGame \<or> is_player_dead s w then Some w
      else
        case read_u8 (reader_new (pdata pkt)) of
          (None, _) \<Rightarrow> Some w
        | (Some sub, rd) \<Rightarrow>
            if sub = PARTY_CREATE then handle_party_create e s rd w
            else if sub = PARTY_INSERT then handle_party_invite e s rd w
            else if sub = PARTY_PERMIT then Some (handle_party_permit s rd w)
            else if sub = PARTY_REMOVE then Some (handle_party_remove s rd w)
            else if sub = PARTY_DELETE then Some (handle_party_delete s w)
            else if sub = PARTY_PROMOTE then Some (handle_party_promote s rd w)
            else if sub = PARTY_TARGET_NUMBER then Some (handle_target_number now s rd w)
            else if sub = PARTY_ALERT then Some (handle_party_alert now s rd w)
            else if sub = PARTY_COMMAND_PROMATE then Some (handle_party_command now s rd w)
            else Some w)"

end
