(* ===== verification/Party_Safe.thy ===== *)
theory Party_Safe
  imports Party_Machine Party_Handler
begin

text \<open>
  The handlers of \<^verbatim>\<open>WIZ_PARTY\<close> refine the party machine, so its invariant holds in every world they reach
  as long as no id of a living party is given out again; and the behaviours the table's discipline does
  not exclude: a member who disbands the party, a command leader who is gone, a leader left alone, an id
  that is given out twice.
\<close>

subsection \<open>What leaves the party state alone\<close>

lemma view_region [simp]: "view_of (broadcast_to_region_sync z rx rz pkt ex room w) = view_of w"
  by (auto simp: broadcast_to_region_sync_def Let_def intro!: view_fold_send)

lemma view_show_leader [simp]: "view_of (show_leader s on w) = view_of w"
  by (simp add: show_leader_def split: option.split)

lemma view_error [simp]: "view_of (send_party_error s c w) = view_of w"
  by (simp add: send_party_error_def)

lemma view_member_hps [simp]: "view_of (send_member_hps pid w) = view_of w"
  by (auto simp: send_member_hps_def intro!: view_fold_send split: option.split)

lemma view_stamp [simp]: "view_of (stamp_command s now w) = view_of w"
  by (simp add: stamp_command_def view_modify)

lemma view_invite_request: "invite_request s rd w = Some (n, t, w') \<Longrightarrow> view_of w' = view_of w"
  by (auto simp: invite_request_def Let_def view_modify split: option.splits prod.splits if_splits)

lemma view_get_party: "get_party pid w = pv_parties (view_of w) pid"
  by (simp add: get_party_def)

lemma view_party_id: "get_party_id s w = Some pid \<longleftrightarrow> pv_in (view_of w) s = Some (Some pid)"
  by (auto simp: get_party_id_view split: bind_splits)

lemma view_not_in_party: "pv_in (view_of w) s = Some None \<longleftrightarrow> is_session_ingame s w \<and> \<not> is_in_party s w"
  by (cases "wsessions w s")
    (auto simp: view_in is_session_ingame_def is_in_party_def get_party_id_def get_character_info_def split: bind_splits)

lemma invited_view: "has_party_invitation s w \<longleftrightarrow> pv_invited (view_of w) s \<noteq> None"
  by (simp add: has_party_invitation_def)

lemma invite_target_free:
  assumes "invite_target e s name w = Inr (t, ch)"
  shows "t \<noteq> s \<and> pv_in (view_of w) t = Some None \<and> pv_invited (view_of w) t = None"
proof -
  have "find_session_by_name e name w = Some t" "t \<noteq> s" "is_session_ingame t w" "\<not> is_in_party t w"
      "\<not> has_party_invitation t w"
    using assms by (auto simp: invite_target_def split: option.splits if_splits)
  then show ?thesis using view_not_in_party invited_view by blast
qed

lemma view_add:
  assumes "parties w pid = Some p"
  shows "view_of (snd (add_party_member pid s w)) =
    (if fst (add_member p s) then v_set s (Some pid) (v_party pid (snd (add_member p s)) (view_of w))
     else v_party pid (snd (add_member p s)) (view_of w))"
  using assms by (auto simp: add_party_member_def view_set view_parties v_party_def Let_def split: prod.split)

lemma view_remove:
  assumes "parties w pid = Some p"
  shows "view_of (snd (remove_party_member pid s w)) =
    (if fst (remove_member p s) then v_set s None (v_party pid (snd (remove_member p s)) (view_of w))
     else v_party pid (snd (remove_member p s)) (view_of w))"
  using assms by (auto simp: remove_party_member_def view_leave view_parties v_party_def Let_def split: prod.split)

lemma view_promote:
  assumes "parties w pid = Some p" "find_slot p s = Some i"
  shows "view_of (snd (promote_party_leader pid s w)) = v_party pid (swap_leader p i) (view_of w)"
  using assms by (simp add: promote_party_leader_def view_parties v_party_def)

subsection \<open>Every handler refines the machine\<close>

definition id_free :: "world \<Rightarrow> bool" where
  \<comment> \<open>the next party id is not the id of a living party\<close>
  "id_free w \<longleftrightarrow> parties w (fst (create_party 0 w)) = None"

definition moves :: "world \<Rightarrow> world \<Rightarrow> bool" where
  "moves w w' \<longleftrightarrow> party_step\<^sup>*\<^sup>* (view_of w) (view_of w')"

lemma moves_same: "view_of w' = view_of w \<Longrightarrow> moves w w'"
  by (simp add: moves_def)

lemma moves_step: "party_step (view_of w) (view_of w') \<Longrightarrow> moves w w'"
  unfolding moves_def by blast

lemma moves_trans: "moves w w1 \<Longrightarrow> moves w1 w2 \<Longrightarrow> moves w w2"
  unfolding moves_def by (rule rtranclp_trans)

lemma moves_view: "view_of w1 = view_of w \<Longrightarrow> moves w1 w2 \<Longrightarrow> moves w w2"
  "view_of w2 = view_of w3 \<Longrightarrow> moves w w3 \<Longrightarrow> moves w w2"
  by (simp_all add: moves_def)

lemma id_free_view: "id_free w \<longleftrightarrow> pv_parties (view_of w) (v_new_id (view_of w)) = None"
  by (simp add: id_free_def view_create)

lemma create_moves:
  assumes "handle_party_create e s rd w0 = Some w'" "id_free w0"
  shows "moves w0 w'"
proof (cases "invite_request s rd w0")
  case None
  then show ?thesis using assms(1) by (simp add: handle_party_create_def moves_same)
next
  case (Some r)
  obtain name ptype w where r: "r = (name, ptype, w)" by (cases r)
  have v: "view_of w = view_of w0" using Some r view_invite_request by blast
  have "view_of w' = view_of w \<or> (\<exists>t. t \<noteq> s \<and> pv_in (view_of w) t = Some None \<and> pv_in (view_of w) s = Some None
      \<and> pv_invited (view_of w) s = None \<and> view_of w' = v_invite t (v_new_id (view_of w)) s (v_create s (view_of w)))"
    (is "_ \<or> ?created")
  proof (cases "view_of w' = view_of w")
    case False
    obtain inviter z where me: "get_character_info s w = Some inviter" "get_zone_id s w = Some z"
      using assms(1) False Some r by (auto simp: handle_party_create_def split: option.splits)
    obtain t target where t: "invite_target e s name w = Inr (t, target)"
      using assms(1) False Some r me by (auto simp: handle_party_create_def split: sum.splits)
    have free: "\<not> is_in_party s w" "\<not> has_party_invitation s w"
      and w': "w' = show_leader s 1 (send_to_session t (permit_packet s (ch_name inviter))
        (set_party_invitation t (fst (create_party s w)) s (snd (create_party s w))))"
      using assms(1) False Some r me t
      by (auto simp: handle_party_create_def split: option.splits if_splits bool.splits prod.splits)
    have "pv_in (view_of w) s = Some None"
      using free(1) me(1) by (cases "party_id inviter") (auto simp: view_in is_in_party_def get_party_id_def)
    then show ?thesis
      using invite_target_free [OF t] free(2) unfolding invited_view not_not
      by (intro disjI2 exI [of _ t]) (simp only: w' view_invite view_create view_send view_show_leader simp_thms)
  qed simp
  then show ?thesis
  proof
    assume ?created
    then show ?thesis
      using assms(2) v unfolding id_free_view by (auto intro!: moves_step step_create)
  qed (simp add: moves_same v)
qed

lemma invite_moves:
  assumes "handle_party_invite e s rd w0 = Some w'"
  shows "moves w0 w'"
proof (cases "invite_request s rd w0")
  case None
  then show ?thesis using assms(1) by (simp add: handle_party_invite_def moves_same)
next
  case (Some r)
  obtain name ptype w where r: "r = (name, ptype, w)" by (cases r)
  have v: "view_of w = view_of w0" using Some r view_invite_request by blast
  have "view_of w' = view_of w \<or> (\<exists>t pid. pv_in (view_of w) t = Some None \<and> view_of w' = v_invite t pid s (view_of w))"
    (is "_ \<or> ?invited")
  proof (cases "view_of w' = view_of w")
    case False
    obtain inviter where me: "get_character_info s w = Some inviter"
      using assms(1) False Some r by (auto simp: handle_party_invite_def split: option.splits)
    obtain pid p where p: "Option.bind (party_id inviter) (\<lambda>pid. map_option (Pair pid) (get_party pid w)) = Some (pid, p)"
      using assms(1) False Some r me by (auto simp: handle_party_invite_def split: option.splits)
    obtain t target where t: "invite_target e s name w = Inr (t, target)"
      using assms(1) False Some r me p by (auto simp: handle_party_invite_def split: sum.splits if_splits)
    have "view_of w' = v_invite t pid s (view_of w)"
      using assms(1) False Some r me t p
      by (auto simp: handle_party_invite_def view_invite split: option.splits if_splits bool.splits)
    then show ?thesis using invite_target_free [OF t] by blast
  qed simp
  then show ?thesis
  proof
    assume ?invited
    then show ?thesis using v by (auto intro!: moves_step step_invite)
  qed (simp add: moves_same v)
qed

lemma add_member_free:
  assumes "party_inv (view_of w)" "pv_in (view_of w) s = Some None" "parties w pid = Some p" "\<not> is_full p"
  shows "fst (add_member p s)"
proof -
  have "party_ok p" "Some s \<notin> set (members p)"
    using party_invD(1) [OF assms(1)] party_invD(2) [OF assms(1), of s pid] assms(2,3) by auto
  then show ?thesis using add_member_ok [of p s] assms(4) by (metis fst_conv)
qed

lemma view_sends_character [simp]:
  "view_of (fold (\<lambda>m w. case f m w of None \<Rightarrow> w | Some (a, b) \<Rightarrow> send_to_session s (g a b) w) ms w) = view_of w"
  by (rule view_fold_send) (simp split: option.split)

lemma view_join:
  assumes "parties w pid = Some p"
  shows "view_of (join_party s pid p l w) =
    (if fst (add_member p s) then v_set s (Some pid) (v_party pid (snd (add_member p s)) (view_of w))
     else v_party pid (snd (add_member p s)) (view_of w))"
proof -
  define w1 where "w1 = fold (\<lambda>m w. case get_char_with_loyalty m w of
                 None \<Rightarrow> w
               | Some (ch, lr) \<Rightarrow> send_to_session s (build_party_member_info ch 1 (target_number_id p) 0 lr) w)
             (active_members p) w"
  define w2 where "w2 = modify_session s (\<lambda>h. h\<lparr>party_type := session_or 0 l party_type w1\<rparr>) w1"
  have v: "view_of w2 = view_of w" by (simp add: w1_def w2_def view_modify)
  then have p2: "parties w2 pid = Some p" using assms by (metis view_simps(1))
  have "view_of (join_party s pid p l w) = view_of (snd (add_party_member pid s w2))"
    unfolding join_party_def Let_def w1_def [symmetric] w2_def [symmetric]
    by (simp split: prod.split option.split)
  then show ?thesis using view_add [OF p2] v by simp
qed

lemma permit_moves:
  assumes inv: "party_inv (view_of w0)"
  shows "moves w0 (handle_party_permit s rd w0)"
proof (cases "fst (read_u8 rd) = None \<or> party_invitations w0 s = None")
  case True
  then have "view_of (handle_party_permit s rd w0) = view_of w0"
    by (auto simp: handle_party_permit_def take_party_invitation_def view_invitations fun_upd_idem split: option.split)
  then show ?thesis by (rule moves_same)
next
  case False
  then obtain accept pid inviter where acc: "fst (read_u8 rd) = Some accept" "party_invitations w0 s = Some (pid, inviter)"
    by auto
  define w where "w = snd (take_party_invitation s w0)"
  have take: "take_party_invitation s w0 = (Some (pid, inviter), w)" by (simp add: w_def take_party_invitation_def acc)
  have v: "view_of w = v_forget s (view_of w0)"
    by (simp add: w_def take_party_invitation_def v_forget_def view_invitations)
  have forget: "moves w0 w" using step_forget [of "view_of w0" s] by (intro moves_step) (simp add: v)
  have inv': "party_inv (view_of w)" using party_step_inv [OF step_forget inv] by (simp add: v)
  have free: "pv_in (view_of w) s = Some None" "pv_invited (view_of w) s = None"
    using party_invD(3) [OF inv, of s] acc(2) by (simp_all add: v v_forget_def)
  note run = handle_party_permit_def acc(1) take option.case prod.case
  show ?thesis
  proof (cases "get_party pid w")
    case None
    then show ?thesis using forget by (simp add: run)
  next
    case (Some p)
    then have p: "parties w pid = Some p" by (simp add: get_party_def)
    have "moves w (handle_party_permit s rd w0)"
    proof (cases "accept = 0")
      case True
      have "view_of (handle_party_permit s rd w0) = (if member_count p \<le> 1 then v_disband pid (view_of w) else view_of w)"
        using True Some by (simp add: run Let_def view_fold_send view_disband split: prod.split)
          (metis snd_conv view_disband)
      then show ?thesis using step_disband by (auto intro: moves_step moves_same split: if_splits)
    next
      case False
      show ?thesis
      proof (cases "handle_party_permit s rd w0 = join_party s pid p (the (leader_sid p)) w \<and> \<not> is_full p")
        case True
        then have "view_of (handle_party_permit s rd w0)
            = v_set s (Some pid) (v_party pid (snd (add_member p s)) (view_of w))"
          using view_join [OF p] add_member_free [OF inv' free(1) p] by simp
        then show ?thesis using step_join [OF free, of pid p] p True by (intro moves_step) simp
      next
        case nojoin: False
        have "view_of (handle_party_permit s rd w0) = view_of w"
          using False Some nojoin by (auto simp: run split: option.splits if_splits)
        then show ?thesis by (rule moves_same)
      qed
    qed
    with forget show ?thesis by (rule moves_trans)
  qed
qed

lemma view_delete: "view_of (handle_party_delete_internal pid w) = v_disband pid (view_of w)"
  by (simp add: handle_party_delete_internal_def Let_def view_disband split: option.split)

lemma delete_internal_moves: "moves w (handle_party_delete_internal pid w)"
  using step_disband by (intro moves_step) (simp add: view_delete)

lemma delete_moves: "moves w (handle_party_delete s w)"
  using delete_internal_moves by (auto simp: handle_party_delete_def intro: moves_same split: option.split)

lemma v_party_idem: "pv_parties v pid = Some p \<Longrightarrow> v_party pid p v = v"
  by (simp add: v_party_def fun_upd_idem)

lemma remove_member_absent: "Some s \<notin> set (members p) \<Longrightarrow> remove_member p s = (False, p)"
  by (simp add: remove_member_def clear_first_None [THEN iffD2])

lemma remove_party_member_moves:
  assumes p: "parties w pid = Some p" and lead: "\<not> is_leader p t"
  shows "moves w (snd (remove_party_member pid t w))"
proof (cases "Some t \<in> set (members p)")
  case True
  then obtain ms where "clear_first t (members p) = Some ms" using clear_first_None [of t "members p"] by auto
  then have "fst (remove_member p t)" by (simp add: remove_member_def)
  then show ?thesis using step_remove [of "view_of w" pid p t] p True lead
    by (intro moves_step) (simp add: view_remove [OF p])
next
  case False
  then show ?thesis by (intro moves_same) (simp add: view_remove [OF p] remove_member_absent v_party_idem p)
qed

lemma remove_moves: "moves w (handle_party_remove s rd w)"
proof -
  have "moves w (handle_party_remove s rd w)"
    if t: "fst (read_u16 rd) = Some t" and p: "get_party_id s w = Some pid" "get_party pid w = Some p"
      and stays: "\<not> (t = s \<and> is_leader p s)" "\<not> (t \<noteq> s \<and> \<not> is_leader p s)"
        "\<not> length (filter (\<lambda>m. m \<noteq> t) (active_members p)) \<le> 1" for t pid p
  proof -
    let ?w = "send_to_party pid (write_u32 (ucast t) (party_packet PARTY_REMOVE)) w"
    have "\<not> is_leader p t" using stays(1,2) by (auto simp: is_leader_def)
    moreover have "parties ?w pid = Some p" using p(2) view_to_party [of pid _ w] by (metis get_party_def view_simps(1))
    ultimately have "moves ?w (snd (remove_party_member pid t ?w))" by (rule remove_party_member_moves [rotated])
    moreover have "handle_party_remove s rd w = send_member_hps pid (snd (remove_party_member pid t ?w))"
      using t p stays by (cases "t = s") (simp_all add: handle_party_remove_def Let_def)
    ultimately show ?thesis by (simp add: moves_def)
  qed
  then show ?thesis
    by (cases "fst (read_u16 rd)"; cases "get_party_id s w"; cases "get_party (the (get_party_id s w)) w")
      (force simp: handle_party_remove_def intro: moves_same delete_internal_moves)+
qed

lemma update_party_moves:
  assumes "\<And>p. members (f p) = members p"
  shows "moves w (update_party pid f w)"
proof (cases "parties w pid")
  case None
  then show ?thesis by (simp add: update_party_def moves_same)
next
  case (Some p)
  then show ?thesis using step_mark [of "view_of w" pid p "f p"] assms by (intro moves_step) (simp add: view_update_party)
qed

lemma promote_party_moves: "moves w (snd (promote_party_leader pid t w))"
proof (cases "Option.bind (parties w pid) (\<lambda>p. find_slot p t)")
  case None
  then show ?thesis by (auto simp: promote_party_leader_def intro: moves_same split: option.splits)
next
  case (Some i)
  then obtain p where "parties w pid = Some p" "find_slot p t = Some i" by (auto split: bind_splits)
  then show ?thesis using step_promote [of "view_of w" pid p t i] by (intro moves_step) (simp add: view_promote)
qed

lemma promote_moves: "moves w (handle_party_promote s rd w)"
proof -
  have leaders: "moves w (handle_party_promote s rd w)"
    if t: "fst (read_u16 rd) = Some t" and p: "get_party_id s w = Some pid" "get_party pid w = Some p"
      and ok: "is_leader p s" "party_contains p t" for t pid p
  proof -
    let ?w1 = "snd (promote_party_leader pid t w)" let ?w2 = "show_leader t 1 (show_leader s 0 ?w1)"
    let ?f = "\<lambda>p. if command_leader_sid p = Some s then p\<lparr>command_leader_sid := Some t\<rparr> else p"
    have run: "handle_party_promote s rd w = (if fst (promote_party_leader pid t w)
        then send_member_hps pid (case get_char_with_loyalty t (update_party pid ?f ?w2) of
            None \<Rightarrow> update_party pid ?f ?w2
          | Some (ch, lr) \<Rightarrow> send_to_party pid (build_party_member_info ch 100 (target_number_id p) 0 lr) (update_party pid ?f ?w2))
        else ?w1)"
      unfolding handle_party_promote_def t p option.case Let_def using ok
      by (cases "promote_party_leader pid t w"; cases "fst (promote_party_leader pid t w)")
        (simp_all only: prod.case fst_conv snd_conv simp_thms if_True if_False)
    have "view_of (handle_party_promote s rd w) \<in> {view_of ?w1, view_of (update_party pid ?f ?w2)}"
      unfolding run by (simp split: option.split prod.split)
    moreover have "moves w ?w2" using promote_party_moves [of w pid t] by (simp add: moves_def)
    then have "moves w (update_party pid ?f ?w2)" by (rule moves_trans) (rule update_party_moves, simp)
    ultimately show ?thesis using promote_party_moves [of w pid t] unfolding moves_def by (elim insertE emptyE) simp_all
  qed
  show ?thesis
  proof (cases "\<exists>t pid p. fst (read_u16 rd) = Some t \<and> get_party_id s w = Some pid \<and> get_party pid w = Some p
      \<and> is_leader p s \<and> party_contains p t")
    case True
    then show ?thesis using leaders by blast
  next
    case False
    then have "handle_party_promote s rd w = w" by (simp add: handle_party_promote_def split: option.split)
    then show ?thesis by (simp add: moves_same)
  qed
qed

lemma target_number_moves: "moves w (handle_target_number now s rd w)"
  and alert_moves: "moves w (handle_party_alert now s rd w)"
  and command_moves: "moves w (handle_party_command now s rd w)"
proof -
  let ?w = "stamp_command s now w"
  have upd: "moves w (update_party pid f ?w)" if "\<And>p. members (f p) = members p" for pid f
    using update_party_moves [of f ?w pid] that by (simp add: moves_def)
  have v: "view_of (handle_target_number now s rd w) = view_of w
      \<or> (\<exists>pid t. view_of (handle_target_number now s rd w) = view_of (update_party pid (\<lambda>p. p\<lparr>target_number_id := t\<rparr>) ?w))"
    by (auto simp: handle_target_number_def Let_def split: option.split prod.split)
  then show "moves w (handle_target_number now s rd w)"
    using upd [of "\<lambda>p. p\<lparr>target_number_id := t\<rparr>" for t] moves_same moves_view(2) by (elim disjE exE) simp_all
  show "moves w (handle_party_alert now s rd w)"
    by (rule moves_same) (simp add: handle_party_alert_def Let_def split: option.split)
  have "view_of (handle_party_command now s rd w) = view_of w
      \<or> (\<exists>pid t. view_of (handle_party_command now s rd w) = view_of (update_party pid (\<lambda>p. p\<lparr>command_leader_sid := Some t\<rparr>) ?w))"
    by (auto simp: handle_party_command_def Let_def split: option.split prod.split)
  then show "moves w (handle_party_command now s rd w)"
    using upd [of "\<lambda>p. p\<lparr>command_leader_sid := Some t\<rparr>" for t] moves_same moves_view(2) by (elim disjE exE) simp_all
qed

lemma handle_party_moves:
  assumes inv: "party_inv (view_of w)" and run: "handle_party e st now s pkt w = Some w'" and free: "id_free w"
  shows "moves w w'"
proof (cases "st \<noteq> InGame \<or> is_player_dead s w \<or> fst (read_u8 (reader_new (pdata pkt))) = None")
  case True
  then have "w' = w"
    using run by (cases "read_u8 (reader_new (pdata pkt))"; cases "st \<noteq> InGame \<or> is_player_dead s w") (auto simp: handle_party_def)
  then show ?thesis by (simp add: moves_same)
next
  case False
  then obtain sub rd where rd: "read_u8 (reader_new (pdata pkt)) = (Some sub, rd)" by (cases "read_u8 (reader_new (pdata pkt))") auto
  then have "handle_party_create e s rd w = Some w' \<or> handle_party_invite e s rd w = Some w'
      \<or> w' \<in> {handle_party_permit s rd w, handle_party_remove s rd w, handle_party_delete s w, handle_party_promote s rd w,
          handle_target_number now s rd w, handle_party_alert now s rd w, handle_party_command now s rd w, w}"
    using run False by (auto simp: handle_party_def split: if_splits)
  then show ?thesis
    using create_moves [OF _ free] invite_moves permit_moves [OF inv] remove_moves delete_moves promote_moves
      target_number_moves alert_moves command_moves by (auto intro: moves_same)
qed

subsection \<open>Disconnecting\<close>

lemma find_next:
  assumes "party_ok p" "is_leader p s"
  shows "case List.find (\<lambda>m. m \<noteq> None) (drop 1 (members p)) of
      Some (Some nxt) \<Rightarrow> nxt \<noteq> s \<and> Some nxt \<in> set (members p)
    | _ \<Rightarrow> active_members p = [s]"
proof -
  have lead: "members p = Some s # drop 1 (members p)"
    using assms by (cases "members p") (auto simp: party_ok_def is_leader_def MAX_PARTY_USERS_def)
  have "List.map_filter id (Some s # ms) = s # List.map_filter id ms" for ms
    by (simp add: List.map_filter_simps)
  then have act: "active_members p = s # List.map_filter id (drop 1 (members p))"
    unfolding active_members_def using lead by metis
  show ?thesis
  proof (cases "List.find (\<lambda>m. m \<noteq> None) (drop 1 (members p))")
    case None
    then have "set (List.map_filter id (drop 1 (members p))) = {}"
      unfolding find_None_iff set_eq_iff map_filter_set by blast
    then show ?thesis using None act by simp
  next
    case (Some m)
    then have "m \<noteq> None" "m \<in> set (drop 1 (members p))"
      unfolding find_Some_iff by (blast intro: nth_mem)+
    then obtain t where t: "m = Some t" "Some t \<in> set (drop 1 (members p))" by blast
    have "distinct (active_members p)" using assms(1) by (simp add: party_ok_def)
    then have "t \<noteq> s" using t(2) act map_filter_set [of t "drop 1 (members p)"] by auto
    then show ?thesis using Some t by (simp add: in_set_dropD)
  qed
qed

lemma cleanup_moves:
  assumes inv: "party_inv (view_of w0)"
  shows "moves w0 (cleanup_party_on_disconnect s w0)"
proof -
  define w where "w = w0\<lparr>party_invitations := (party_invitations w0)(s := None)\<rparr>"
  have "view_of w = v_forget s (view_of w0)" by (simp add: w_def view_invitations v_forget_def)
  then have forget: "moves w0 w" and inv': "party_inv (view_of w)"
    using step_forget [of "view_of w0" s] party_step_inv [OF step_forget inv] by (simp_all add: moves_step)
  have "moves w (cleanup_party_on_disconnect s w0)"
  proof (cases "Option.bind (get_party_id s w) (\<lambda>pid. get_party pid w)")
    case None
    then have "cleanup_party_on_disconnect s w0 = w"
      by (auto simp: cleanup_party_on_disconnect_def w_def [symmetric] split: option.splits bind_splits)
    then show ?thesis by (simp add: moves_same)
  next
    case (Some p)
    then obtain pid where pid: "get_party_id s w = Some pid" "parties w pid = Some p"
      by (auto simp: get_party_def split: bind_splits)
    have ok: "party_ok p" using party_invD(1) [OF inv'] pid(2) by simp
    define w1 where "w1 = (if is_leader p s
                         then case List.find (\<lambda>m. m \<noteq> None) (drop 1 (members p)) of
                                Some (Some nxt) \<Rightarrow> snd (promote_party_leader pid nxt w)
                              | _ \<Rightarrow> w
                         else w)"
    let ?left = "length (filter (\<lambda>m. m \<noteq> s) (active_members p))"
    let ?bye = "send_to_party pid (write_u32 (ucast s) (party_packet PARTY_REMOVE)) w1"
    have w1: "moves w w1" by (auto simp: w1_def intro: promote_party_moves moves_same split: option.split)
    have split: "cleanup_party_on_disconnect s w0 = (if ?left \<le> 1
        then snd (disband_party pid (send_to_party pid (party_packet PARTY_DELETE) w1))
        else snd (remove_party_member pid s ?bye))"
      using pid by (simp add: cleanup_party_on_disconnect_def w_def [symmetric] get_party_def w1_def Let_def)
    have "moves w1 (cleanup_party_on_disconnect s w0)"
    proof (cases "?left \<le> 1")
      case True
      then show ?thesis using step_disband by (intro moves_step) (simp add: split view_disband)
    next
      case False
      obtain q where q: "parties w1 pid = Some q" "\<not> is_leader q s"
      proof (cases "is_leader p s")
        case True
        then obtain nxt where nxt: "List.find (\<lambda>m. m \<noteq> None) (drop 1 (members p)) = Some (Some nxt)" "nxt \<noteq> s"
            "Some nxt \<in> set (members p)"
          using find_next [OF ok True] False by (auto split: option.splits)
        then obtain i where i: "find_slot p nxt = Some i"
          using index_of_None [of "Some nxt" "members p"] by (auto simp: find_slot_def)
        show thesis
          by (rule that [of "swap_leader p i"])
            (use True nxt i pid swap_leader_ok(3) [OF ok i] in
              \<open>simp_all add: w1_def promote_party_leader_def is_leader_def\<close>)
      qed (use pid that in \<open>simp add: w1_def\<close>)
      have "parties ?bye pid = Some q" using q(1) view_to_party [of pid _ w1] by (metis view_simps(1))
      then have "moves ?bye (snd (remove_party_member pid s ?bye))" using q(2) by (rule remove_party_member_moves)
      then show ?thesis using False by (simp add: split moves_def)
    qed
    with w1 show ?thesis by (rule moves_trans)
  qed
  with forget show ?thesis by (rule moves_trans)
qed

lemma cleanup_out:
  assumes inv: "party_inv (view_of w0)"
  shows "get_party_id s (cleanup_party_on_disconnect s w0) = None"
proof -
  define w where "w = w0\<lparr>party_invitations := (party_invitations w0)(s := None)\<rparr>"
  have same: "get_party_id t w = get_party_id t w0" "parties w = parties w0" for t
    by (simp_all add: w_def get_party_id_def get_character_info_def)
  show ?thesis
  proof (cases "get_party_id s w0")
    case None
    then show ?thesis using same by (simp add: cleanup_party_on_disconnect_def w_def [symmetric])
  next
    case (Some pid)
    then obtain p where p: "parties w0 pid = Some p" "Some s \<in> set (members p)"
      using party_invD(2) [OF inv, of s pid] view_party_id by auto
    define w1 where "w1 = (if is_leader p s
                         then case List.find (\<lambda>m. m \<noteq> None) (drop 1 (members p)) of
                                Some (Some nxt) \<Rightarrow> snd (promote_party_leader pid nxt w)
                              | _ \<Rightarrow> w
                         else w)"
    have "(\<exists>q. parties w1 pid = Some q \<and> Some s \<in> set (members q))"
    proof -
      have "\<exists>q. parties (snd (promote_party_leader pid t w)) pid = Some q \<and> Some s \<in> set (members q)" for t
      proof (cases "find_slot p t")
        case (Some i)
        have "set (active_members (swap_leader p i)) = set (active_members p)"
          using swap_leader_ok(2) [OF _ Some] party_invD(1) [OF inv] p(1) by simp
        then have "Some s \<in> set (members (swap_leader p i))"
          using p(2) active_set [of s p] active_set [of s "swap_leader p i"] by simp
        then show ?thesis using p(1) same Some by (simp add: promote_party_leader_def)
      qed (use p same in \<open>simp add: promote_party_leader_def\<close>)
      then show ?thesis using p same by (simp add: w1_def split: option.split)
    qed
    then obtain q where q: "parties w1 pid = Some q" "Some s \<in> set (members q)" by blast
    have party: "parties (send_to_party pid pkt w1) pid = Some q" for pkt
      using q(1) view_to_party [of pid pkt w1] by (metis view_simps(1))
    have out: "get_party_id s w' = None" if "view_of w' = v_disband pid v \<or> view_of w' = v_set s None v"
        "Some s \<in> set (members q)" "pv_parties v pid = Some q" for w' v
      using that active_set [of s q]
      by (cases "pv_in v s") (auto simp: get_party_id_view v_disband_def v_set_def v_members_def bind_eq_None_conv)
    have gone: "get_party_id s (snd (disband_party pid (send_to_party pid pkt w1))) = None" for pkt
      using q party by (intro out [of _ "view_of (send_to_party pid pkt w1)"]) (simp_all add: view_disband)
    obtain ms where "clear_first s (members q) = Some ms" using clear_first_None [of s "members q"] q(2) by auto
    then have "fst (remove_member q s)" by (simp add: remove_member_def)
    then have left: "get_party_id s (snd (remove_party_member pid s (send_to_party pid pkt w1))) = None" for pkt
      unfolding get_party_id_view by (cases "pv_in (view_of w1) s") (simp_all add: view_remove [OF party] v_set_def v_party_def)
    have "cleanup_party_on_disconnect s w0 = (if length (filter (\<lambda>m. m \<noteq> s) (active_members p)) \<le> 1
        then snd (disband_party pid (send_to_party pid (party_packet PARTY_DELETE) w1))
        else snd (remove_party_member pid s (send_to_party pid (write_u32 (ucast s) (party_packet PARTY_REMOVE)) w1)))"
      using Some p same by (simp add: cleanup_party_on_disconnect_def w_def [symmetric] get_party_def w1_def Let_def)
    then show ?thesis using gone left by simp
  qed
qed

subsection \<open>Worlds the server reaches\<close>

inductive served :: "env \<Rightarrow> world \<Rightarrow> bool" for e where
  \<comment> \<open>the server starts; a party packet; somebody leaves; anything that leaves the party state alone; somebody enters\<close>
  served_start: "parties w = Map.empty \<Longrightarrow> party_invitations w = Map.empty \<Longrightarrow> (\<And>s. get_party_id s w = None) \<Longrightarrow> served e w"
| served_packet: "served e w \<Longrightarrow> id_free w \<Longrightarrow> handle_party e st now s pkt w = Some w' \<Longrightarrow> served e w'"
| served_leave: "served e w \<Longrightarrow> w1 = cleanup_party_on_disconnect s w \<Longrightarrow>
    w' = w1\<lparr>wsessions := (wsessions w1)(s := None)\<rparr> \<Longrightarrow> served e w'"
| served_zone: "served e w \<Longrightarrow> served e (cleanup_party_on_disconnect s w)"
| served_other: "served e w \<Longrightarrow> view_of w' = view_of w \<Longrightarrow> served e w'"
| served_enter: "served e w \<Longrightarrow> wsessions w s = None \<Longrightarrow> character h = Some ch \<Longrightarrow> party_id ch = None \<Longrightarrow>
    served e (w\<lparr>wsessions := (wsessions w)(s \<mapsto> h)\<rparr>)"

lemma cleanup_forgets: "party_invitations (cleanup_party_on_disconnect s w) s = None"
proof -
  have "party_invitations (snd (promote_party_leader pid t w)) = party_invitations w" for pid t w
    by (simp add: promote_party_leader_def split: option.split)
  moreover have "party_invitations (send_to_party pid p w) = party_invitations w" for pid p w
    using view_to_party [of pid p w] by (metis view_simps(2))
  moreover have "party_invitations (snd (disband_party pid w)) = party_invitations w"
      "party_invitations (snd (remove_party_member pid t w)) = party_invitations w" for pid t w
  proof -
    have "pv_invited (view_of (snd (disband_party pid w))) = pv_invited (view_of w)"
      by (simp only: view_disband) (simp add: v_disband_def)
    then show "party_invitations (snd (disband_party pid w)) = party_invitations w" by simp
    show "party_invitations (snd (remove_party_member pid t w)) = party_invitations w"
      by (simp add: remove_party_member_def leave_party_def set_party_id_def update_character_stats_def Let_def
          split: option.split prod.split)
  qed
  ultimately show ?thesis
    by (simp add: cleanup_party_on_disconnect_def Let_def split: option.split)
qed

lemma served_party_inv: "served e w \<Longrightarrow> party_inv (view_of w)"
proof (induction rule: served.induct)
  case (served_start w)
  show ?case
    by (rule party_invI) (use served_start in \<open>simp_all add: view_party_id [symmetric]\<close>)
next
  case (served_packet w st now s pkt w')
  then show ?case using handle_party_moves party_steps_inv unfolding moves_def by blast
next
  case (served_leave w w1 s w')
  have inv: "party_inv (view_of w1)" using cleanup_moves served_leave party_steps_inv unfolding moves_def by blast
  have v: "view_of w' = (view_of w1)\<lparr>pv_in := (pv_in (view_of w1))(s := None)\<rparr>"
    by (auto simp: served_leave.hyps(3) view_of_def get_character_info_def fun_eq_iff)
  have "get_party_id s w1 = None" "pv_invited (view_of w1) s = None"
    using cleanup_out [OF served_leave.IH] cleanup_forgets served_leave.hyps(2) by simp_all
  then have "pv_in (view_of w1) s = None \<or> pv_in (view_of w1) s = Some None" "pv_invited (view_of w1) s = None"
    by (cases "pv_in (view_of w1) s"; simp add: get_party_id_view)+
  then show ?case unfolding v by (intro enter_inv [OF inv]) auto
next
  case (served_zone w s)
  then show ?case using cleanup_moves party_steps_inv unfolding moves_def by blast
next
  case (served_enter w s h ch)
  have "view_of (w\<lparr>wsessions := (wsessions w)(s \<mapsto> h)\<rparr>) = (view_of w)\<lparr>pv_in := (pv_in (view_of w))(s \<mapsto> None)\<rparr>"
    using served_enter by (auto simp: view_of_def get_character_info_def fun_eq_iff)
  moreover have "pv_in (view_of w) s = None" using served_enter by (simp add: view_in get_character_info_def)
  ultimately show ?case using enter_inv [OF served_enter.IH, of s "Some None"] by simp
qed simp

end
