(* ===== verification/Party_Claims.thy ===== *)
theory Party_Claims
  imports Party_Safe
begin

text \<open>
  What the party code promises, and what it does not: the handlers refine the party machine, membership is
  mutual in every world the server reaches, any member can disband the party, a party whose command leader
  has left is without command for good, and an id that is given out again takes a living party's place.
\<close>

subsection \<open>Refinement and invariant\<close>



subsection \<open>Disbanding\<close>

text \<open>The packet that disbands a party is obeyed whoever of its members sends it, leader or not: the party
  is gone and none of its members is in a party any more.
\<close>
theorem any_member_disbands:
  assumes "get_party_id s w = Some pid" "parties w pid = Some p" "\<not> is_player_dead s w"
    and "read_u8 (reader_new (pdata pkt)) = (Some PARTY_DELETE, rd)"
  shows "\<exists>w'. handle_party e InGame now s pkt w = Some w' \<and> parties w' pid = None
    \<and> (\<forall>m \<in> set (active_members p). get_party_id m w' = None)"
proof -
  let ?w' = "handle_party_delete_internal pid w"
  have "handle_party e InGame now s pkt w = Some ?w'"
    using assms by (simp add: handle_party_def handle_party_delete_def PARTY_CREATE_def PARTY_INSERT_def
        PARTY_PERMIT_def PARTY_REMOVE_def PARTY_DELETE_def)
  moreover have "pv_parties (view_of ?w') pid = None" by (simp only: view_delete) (simp add: v_disband_def)
  moreover have "get_party_id m ?w' = None" if "m \<in> set (active_members p)" for m
    using that assms(2) unfolding get_party_id_view view_delete
    by (cases "pv_in (view_of w) m") (simp_all add: v_disband_def v_members_def)
  ultimately show ?thesis by simp
qed

subsection \<open>Command\<close>

definition keeps_command :: "world \<Rightarrow> world \<Rightarrow> bool" where
  "keeps_command w w' \<longleftrightarrow> (\<forall>pid q. parties w' pid = Some q \<longrightarrow>
     (\<exists>p. parties w pid = Some p \<and> command_leader_sid q = command_leader_sid p))"

lemma keeps_same: "parties w' = parties w \<Longrightarrow> keeps_command w w'"
  by (simp add: keeps_command_def)

lemma keeps_trans: "keeps_command w w1 \<Longrightarrow> keeps_command w1 w2 \<Longrightarrow> keeps_command w w2"
  unfolding keeps_command_def by metis

lemma leave_party_parties [simp]: "parties (leave_party s w) = parties w"
  using arg_cong [OF view_leave [of s w], of pv_parties] by (simp add: v_set_def)

lemma fold_leave_parties [simp]: "parties (fold leave_party ms w) = parties w"
  by (induction ms arbitrary: w) simp_all

lemma to_party_parties [simp]: "parties (send_to_party pid p w) = parties w"
  by (metis view_to_party view_simps(1))

lemma keeps_promote: "keeps_command w (snd (promote_party_leader pid t w))"
  by (auto simp: keeps_command_def promote_party_leader_def swap_leader_def split: option.split)

lemma keeps_disband: "keeps_command w (snd (disband_party pid w))"
  by (auto simp: keeps_command_def disband_party_def split: option.split if_splits)

lemma keeps_remove: "keeps_command w (snd (remove_party_member pid t w))"
  by (auto simp: keeps_command_def remove_party_member_def remove_member_def split: option.splits if_splits)

lemma cleanup_keeps_command: "keeps_command w0 (cleanup_party_on_disconnect s w0)"
proof -
  define w where "w = w0\<lparr>party_invitations := (party_invitations w0)(s := None)\<rparr>"
  have w: "keeps_command w0 w" by (simp add: keeps_same w_def)
  have to_party: "keeps_command w0 w1 \<Longrightarrow> keeps_command w0 (send_to_party pid p w1)" for pid p w1
    by (simp add: keeps_command_def)
  have next_leader: "keeps_command w0 (if b then case m of Some (Some t) \<Rightarrow> snd (promote_party_leader pid t w) | _ \<Rightarrow> w else w)"
    for b m pid using w keeps_trans [OF w keeps_promote] by (simp split: option.split)
  show ?thesis
    using w keeps_trans [OF to_party [OF next_leader] keeps_disband] keeps_trans [OF to_party [OF next_leader] keeps_remove]
    by (simp add: cleanup_party_on_disconnect_def w_def [symmetric] Let_def split: option.split)
qed

lemma uncommanded:
  assumes "commanded_party m w = None"
  shows "parties (handle_party_command now m rd w) = parties w" "parties (handle_target_number now m rd w) = parties w"
proof -
  have [simp]: "parties (stamp_command m now w) = parties w" by (metis view_stamp view_simps(1))
  have [simp]: "commanded_party m (stamp_command m now w) = None"
    using assms by (simp add: commanded_party_def get_party_id_view get_party_def)
  show "parties (handle_party_command now m rd w) = parties w" "parties (handle_target_number now m rd w) = parties w"
    by (simp_all add: handle_party_command_def handle_target_number_def Let_def split: prod.split)
qed

text \<open>When the member who holds the command leaves the game and the party lives on, nobody holds the
  command: no member can give it, name a target or sound the alert (promoting does not help either, since
  it hands the command on only from its holder).
\<close>
theorem command_is_lost:
  assumes "party_inv (view_of w)" "get_party_id s w = Some pid" "parties w pid = Some p" "command_leader_sid p = Some s"
    and "w' = cleanup_party_on_disconnect s w" "parties w' pid = Some q"
  shows "command_leader_sid q = Some s \<and> get_party_id s w' = None
    \<and> (\<forall>m. get_party_id m w' = Some pid \<longrightarrow> commanded_party m w' = None
        \<and> parties (handle_party_command now m rd w') = parties w'
        \<and> parties (handle_target_number now m rd w') = parties w')"
proof -
  have keeps: "command_leader_sid q = Some s"
    using cleanup_keeps_command [of w s] assms(3-6) unfolding keeps_command_def by force
  have out: "get_party_id s w' = None" unfolding assms(5) by (rule cleanup_out [OF assms(1)])
  have "commanded_party m w' = None" if "get_party_id m w' = Some pid" for m
  proof -
    have "m \<noteq> s" using that out by auto
    then show ?thesis using that keeps assms(6) by (simp add: commanded_party_def get_party_def is_command_leader_def)
  qed
  then show ?thesis using keeps out uncommanded by blast
qed

subsection \<open>Ids\<close>

text \<open>Ids are given out round and round without a look at the table: when the next id is the id of a
  living party, the new party takes its place, and the members of the old one keep an id under which they
  are not members.
\<close>
theorem id_reuse_orphans:
  assumes "party_inv (view_of w)" "create_party s w = (pid, w')" "parties w pid = Some p"
    and "m \<in> set (active_members p)" "m \<noteq> s"
  shows "get_party_id m w' = Some pid \<and> parties w' pid = Some (party_new pid s) \<and> \<not> party_contains (party_new pid s) m"
proof -
  have w': "view_of w' = v_create s (view_of w)" and pid: "pid = v_new_id (view_of w)"
    using view_create [of s w] assms(2) by simp_all
  have "pv_in (view_of w) m = Some (Some pid)"
    using party_invD(2) [OF assms(1), of m pid] assms(3,4) active_set by auto
  moreover have "pv_in (view_of w') m = pv_in (view_of w) m" unfolding w' using assms(5) by (simp add: v_create_def v_set_def)
  moreover have "pv_parties (view_of w') pid = Some (party_new pid s)" unfolding w' by (simp add: v_create_def v_set_def pid)
  ultimately show ?thesis using assms(5)
    by (simp add: get_party_id_view party_contains_def party_new_def)
qed

subsection \<open>Concrete worlds\<close>

definition three_world :: world where
  \<comment> \<open>sessions 1, 2 and 3 in party 9, which 1 leads and 2 commands\<close>
  "three_world = demo_world\<lparr>wsessions := (\<lambda>s. if s \<in> {1, 2, 3} then
       Some (demo_handle\<lparr>character := Some (demo_char\<lparr>party_id := Some 9\<rparr>)\<rparr>) else None),
     parties := [9 \<mapsto> \<lparr>party_no = 9, members = [Some 1, Some 2, Some 3, None, None, None, None, None],
       item_routing = 0, target_number_id = -1, command_leader_sid = Some 2\<rparr>]\<rparr>"

lemma three_in: "get_party_id s three_world = (if s \<in> {1, 2, 3} then Some 9 else None)"
  by (simp add: three_world_def get_party_id_def get_character_info_def)

lemma three_party: "parties three_world pid = (if pid = 9 then Some \<lparr>party_no = 9,
    members = [Some 1, Some 2, Some 3, None, None, None, None, None], item_routing = 0, target_number_id = -1,
    command_leader_sid = Some 2\<rparr> else None)"
  by (simp add: three_world_def)

lemma three_inv: "party_inv (view_of three_world)"
proof (rule party_invI)
  show "pv_parties (view_of three_world) pid = Some p \<Longrightarrow> party_ok p" for pid p
    by (auto simp: three_party party_ok_def active_members_def List.map_filter_def MAX_PARTY_USERS_def split: if_splits)
  show "pv_invited (view_of three_world) s \<noteq> None \<Longrightarrow> pv_in (view_of three_world) s = Some None" for s
    by (simp add: three_world_def demo_world_def)
  show "pv_in (view_of three_world) s = Some (Some pid) \<longleftrightarrow>
      (\<exists>p. pv_parties (view_of three_world) pid = Some p \<and> Some s \<in> set (members p))" for s pid
    unfolding view_party_id [symmetric] three_in by (auto simp: three_party)
qed

lemma three_alive: "\<not> is_player_dead s three_world"
  by (simp add: three_world_def is_player_dead_def session_or_def demo_handle_def demo_char_def USER_DEAD_def)

lemma three_free: "id_free three_world"
  by (simp add: id_free_view v_new_id_def three_party) (simp add: three_world_def demo_world_def)

abbreviation delete_packet :: packet where
  "delete_packet \<equiv> \<lparr>opcode = 0x2F, pdata = [5], plaintext = False\<rparr>"

lemma delete_read: "read_u8 (reader_new (pdata delete_packet)) = (Some PARTY_DELETE, \<lparr>rd_data = [5], rd_pos = 1\<rparr>)"
  by (simp add: read_u8_def reader_new_def PARTY_DELETE_def)


lemma any_member_disbands_witness:
  "\<exists>w'. handle_party demo_env InGame 0 3 delete_packet three_world = Some w' \<and> parties w' 9 = None
    \<and> get_party_id 1 w' = None"
  using any_member_disbands [OF three_in [of 3, simplified] three_party [of 9, simplified] three_alive delete_read, of demo_env 0]
  by (auto simp: active_members_def List.map_filter_def)

lemma command_is_lost_witness:
  "let w = cleanup_party_on_disconnect 2 three_world in
   commanded_party 1 w = None \<and> parties (handle_target_number 5000 1 (reader_new [0, 7]) w) = parties w"
proof -
  let ?w = "cleanup_party_on_disconnect 2 three_world"
  have stay: "parties ?w 9 = Some \<lparr>party_no = 9, members = [Some 1, None, Some 3, None, None, None, None, None], item_routing = 0,
      target_number_id = -1, command_leader_sid = Some 2\<rparr> \<and> get_party_id 1 ?w = Some 9"
  proof -
    have keep: "parties (leave_party 2 w) = parties w" "get_party_id 1 (leave_party 2 w) = get_party_id 1 w" for w
      by (simp_all add: get_party_id_view view_leave v_set_def)
    have fold: "get_party_id s (send_to_party pid p w) = get_party_id s w" for s pid p w
      by (simp add: get_party_id_view)
    have inv0: "three_world\<lparr>party_invitations := (party_invitations three_world)(2 := None)\<rparr> = three_world"
      by (simp add: three_world_def demo_world_def)
    have w: "?w = leave_party 2 (send_to_party 9 (write_u32 2 (party_packet PARTY_REMOVE)) three_world
        \<lparr>parties := (parties three_world)(9 \<mapsto> \<lparr>party_no = 9, members = [Some 1, None, Some 3, None, None, None, None, None],
          item_routing = 0, target_number_id = -1, command_leader_sid = Some 2\<rparr>)\<rparr>)"
      unfolding cleanup_party_on_disconnect_def inv0 Let_def get_party_def three_in
      by (simp add: is_leader_def active_members_def List.map_filter_def remove_party_member_def three_party [of 9, simplified] remove_member_def)
    have "get_party_id 1 (w\<lparr>parties := x\<rparr>) = get_party_id 1 w" for w :: world and x
      by (simp add: get_party_id_def get_character_info_def)
    then show ?thesis unfolding w by (simp add: keep fold three_in)
  qed
  show ?thesis
    using command_is_lost [OF three_inv three_in [of 2, simplified] three_party [of 9, simplified] _ refl conjunct1 [OF stay]] stay
    by simp
qed

lemma id_reuse_orphans_witness:
  "let w = three_world\<lparr>next_party_id := 9\<rparr>; w' = snd (create_party 7 w) in
   get_party_id 3 w' = Some 9 \<and> parties w' 9 = Some (party_new 9 7)"
proof -
  let ?w = "three_world\<lparr>next_party_id := 9\<rparr>"
  have "party_inv ((view_of three_world)\<lparr>pv_next := 9\<rparr>)"
    using three_inv by (simp add: party_inv_def v_members_def)
  then have inv: "party_inv (view_of ?w)" by (simp add: view_next)
  have "fst (create_party 7 ?w) = 9" by (simp add: view_create v_new_id_def)
  then have "create_party 7 ?w = (9, snd (create_party 7 ?w))" by (metis prod.collapse)
  note reuse = id_reuse_orphans [OF inv this, of _ 3]
  show ?thesis using reuse by (simp add: three_party active_set Let_def)
qed

definition named_world :: world where
  \<comment> \<open>two players, not in a party, the second named b\<close>
  "named_world = demo_world\<lparr>name_to_session := [[98] \<mapsto> 2]\<rparr>"

abbreviation create_packet :: packet where
  "create_packet \<equiv> \<lparr>opcode = 0x2F, pdata = [1, 1, 0, 98, 0], plaintext = False\<rparr>"

lemma named_start: "served demo_env named_world" "id_free named_world"
  by (rule served_start; simp add: named_world_def demo_world_def get_party_id_def get_character_info_def demo_handle_def demo_char_def)
    (simp add: id_free_view named_world_def demo_world_def)

lemma named_created:
  "\<exists>w'. handle_party demo_env InGame 0 1 create_packet named_world = Some w' \<and> parties w' 1 = Some (party_new 1 1)"
proof -
  have r: "read_u8 (reader_new (pdata create_packet)) = (Some PARTY_CREATE, \<lparr>rd_data = [1, 1, 0, 98, 0], rd_pos = 1\<rparr>)"
    by (simp add: read_u8_def reader_new_def PARTY_CREATE_def)
  have "read_string \<lparr>rd_data = [1, 1, 0, 98, 0], rd_pos = 1\<rparr> = (Some [98], \<lparr>rd_data = [1, 1, 0, 98, 0], rd_pos = 4\<rparr>)"
    by code_simp
  moreover have "fst (read_u8 \<lparr>rd_data = [1, 1, 0, 98, 0], rd_pos = 4\<rparr>) = Some 0" by (simp add: read_u8_def)
  ultimately have req: "invite_request 1 \<lparr>rd_data = [1, 1, 0, 98, 0], rd_pos = 1\<rparr> named_world
      = Some ([98], 0, modify_session 1 (\<lambda>h. h\<lparr>party_type := 0\<rparr>) named_world)"
    by (simp add: invite_request_def)
  define w where "w = modify_session 1 (\<lambda>h. h\<lparr>party_type := 0\<rparr>) named_world"
  have chars: "get_character_info 1 w = Some demo_char" "get_character_info 2 w = Some demo_char"
      "get_zone_id 1 w = Some 21" "get_zone_id 2 w = Some 21" "is_session_ingame 2 w" "name_to_session w [98] = Some 2"
    by (simp_all add: w_def modify_session_def named_world_def demo_world_def demo_handle_def get_character_info_def
        get_zone_id_def with_session_def is_session_ingame_def session_or_def)
  have v: "view_of w = view_of named_world" unfolding w_def by (simp add: view_modify)
  have free: "\<not> is_in_party s w" "\<not> has_party_invitation s w" for s
  proof -
    have "pv_in (view_of named_world) s \<noteq> Some (Some x)" for x
      by (simp add: view_in named_world_def demo_world_def get_character_info_def demo_handle_def demo_char_def)
    then show "\<not> is_in_party s w" unfolding is_in_party_def not_not
      by (cases "get_party_id s w") (simp_all add: view_party_id v)
    show "\<not> has_party_invitation s w" unfolding invited_view v by (simp add: named_world_def demo_world_def)
  qed
  have target: "invite_target demo_env 1 [98] w = Inr (2, demo_char)"
    by (simp add: invite_target_def find_session_by_name_def demo_env_def chars free)
  have place: "place_refused demo_char demo_char 21 21 = None"
    by (simp add: place_refused_def is_party_restricted_zone_def level_refused_def is_level_compatible_def demo_char_def
        ZONE_CHAOS_DUNGEON_def ZONE_PRISON_def ZONE_DUNGEON_DEFENCE_def)
  have made: "parties (snd (create_party 1 w)) 1 = Some (party_new 1 1)"
  proof -
    have "v_new_id (view_of w) = 1" by (simp add: v v_new_id_def) (simp add: named_world_def demo_world_def)
    then have "pv_parties (view_of (snd (create_party 1 w))) 1 = Some (party_new 1 1)"
      by (simp only: view_create) (simp add: v_create_def v_set_def)
    then show ?thesis by simp
  qed
  have alive: "\<not> is_player_dead 1 named_world"
    by (simp add: named_world_def is_player_dead_def session_or_def demo_handle_def demo_char_def USER_DEAD_def)
  have parts: "parties (show_leader s n x) = parties x" "parties (send_to_session s p x) = parties x"
      "parties (set_party_invitation t pid s x) = parties x" for s n x p t pid
    by (metis view_show_leader view_simps(1), metis view_send view_simps(1)) (simp add: set_party_invitation_def)
  have "handle_party demo_env InGame 0 1 create_packet named_world
      = handle_party_create demo_env 1 \<lparr>rd_data = [1, 1, 0, 98, 0], rd_pos = 1\<rparr> named_world"
    unfolding handle_party_def r by (simp add: alive)
  also have "\<dots> = Some (show_leader 1 1 (send_to_session 2 (permit_packet 1 (ch_name demo_char))
      (set_party_invitation 2 (fst (create_party 1 w)) 1 (snd (create_party 1 w)))))"
    unfolding handle_party_create_def req w_def [symmetric] option.case prod.case chars target sum.case
    by (simp add: lacks_seeking_item_def place free ZONE_DELOS_def case_prod_beta)
  finally show ?thesis by (simp add: parts made)
qed


end
