(* ===== verification/Item_Move.thy ===== *)
theory Item_Move
  imports Exchange Storage Party_Handler
begin

text \<open>
  Moving items in the inventory: the handler of \<^verbatim>\<open>WIZ_ITEM_MOVE\<close>
  (\<^verbatim>\<open>crates/ko-game/src/handler/item_move.rs\<close>, lines 30 to 1384). The closure that
  \<^verbatim>\<open>update_inventory\<close> runs is one function per direction, from slots to an answer and slots; the checks
  before it are predicates on the world. The answer of a handler is \<open>False\<close> when the own channel is
  closed. Log lines are left out.
\<close>

subsection \<open>Constants\<close>

definition RIGHTEAR :: nat where "RIGHTEAR = 0"
definition HEAD :: nat where "HEAD = 1"
definition LEFTEAR :: nat where "LEFTEAR = 2"
definition NECK :: nat where "NECK = 3"
definition BREAST :: nat where "BREAST = 4"
definition SHOULDER :: nat where "SHOULDER = 5"
definition RIGHTHAND :: nat where "RIGHTHAND = 6"
definition WAIST :: nat where "WAIST = 7"
definition LEFTHAND :: nat where "LEFTHAND = 8"
definition RIGHTRING :: nat where "RIGHTRING = 9"
definition LEG :: nat where "LEG = 10"
definition LEFTRING :: nat where "LEFTRING = 11"
definition GLOVE :: nat where "GLOVE = 12"
definition FOOT :: nat where "FOOT = 13"

definition ITEM_SLOT_EITHER_HAND :: i32 where "ITEM_SLOT_EITHER_HAND = 0"
definition ITEM_SLOT_1H_RIGHT :: i32 where "ITEM_SLOT_1H_RIGHT = 1"
definition ITEM_SLOT_1H_LEFT :: i32 where "ITEM_SLOT_1H_LEFT = 2"
definition ITEM_SLOT_2H_RIGHT :: i32 where "ITEM_SLOT_2H_RIGHT = 3"
definition ITEM_SLOT_2H_LEFT :: i32 where "ITEM_SLOT_2H_LEFT = 4"
definition ITEM_SLOT_PAULDRON :: i32 where "ITEM_SLOT_PAULDRON = 5"
definition ITEM_SLOT_PADS :: i32 where "ITEM_SLOT_PADS = 6"
definition ITEM_SLOT_HELMET :: i32 where "ITEM_SLOT_HELMET = 7"
definition ITEM_SLOT_GLOVES :: i32 where "ITEM_SLOT_GLOVES = 8"
definition ITEM_SLOT_BOOTS :: i32 where "ITEM_SLOT_BOOTS = 9"
definition ITEM_SLOT_EARRING :: i32 where "ITEM_SLOT_EARRING = 10"
definition ITEM_SLOT_NECKLACE :: i32 where "ITEM_SLOT_NECKLACE = 11"
definition ITEM_SLOT_RING :: i32 where "ITEM_SLOT_RING = 12"
definition ITEM_SLOT_SHOULDER :: i32 where "ITEM_SLOT_SHOULDER = 13"
definition ITEM_SLOT_BELT :: i32 where "ITEM_SLOT_BELT = 14"
definition ITEM_SLOT_KAUL :: i32 where "ITEM_SLOT_KAUL = 20"
definition ITEM_SLOT_BAG :: i32 where "ITEM_SLOT_BAG = 25"
definition ITEM_SLOT_COSP_GLOVES :: i32 where "ITEM_SLOT_COSP_GLOVES = 100"
definition ITEM_SLOT_COSP_PAULDRON :: i32 where "ITEM_SLOT_COSP_PAULDRON = 105"
definition ITEM_SLOT_COSP_HELMET :: i32 where "ITEM_SLOT_COSP_HELMET = 107"
definition ITEM_SLOT_COSP_WINGS :: i32 where "ITEM_SLOT_COSP_WINGS = 110"
definition ITEM_SLOT_COSP_FAIRY :: i32 where "ITEM_SLOT_COSP_FAIRY = 111"
definition ITEM_SLOT_COSP_TATTOO :: i32 where "ITEM_SLOT_COSP_TATTOO = 112"
definition ITEM_SLOT_COSP_TALISMAN :: i32 where "ITEM_SLOT_COSP_TALISMAN = 113"
definition ITEM_SLOT_COSP_EMBLEM0 :: i32 where "ITEM_SLOT_COSP_EMBLEM0 = 114"
definition ITEM_SLOT_COSP_EMBLEM1 :: i32 where "ITEM_SLOT_COSP_EMBLEM1 = 115"

definition MBAG_TOTAL :: nat where "MBAG_TOTAL = MBAG_MAX * MBAG_COUNT"
definition INVENTORY_MBAG2 :: nat where "INVENTORY_MBAG2 = INVENTORY_MBAG + MBAG_MAX"
definition INVENTORY_MBAG3 :: nat where "INVENTORY_MBAG3 = INVENTORY_MBAG2 + MBAG_MAX"
definition PET_INVENTORY_TOTAL :: nat where "PET_INVENTORY_TOTAL = 4"
definition CHELMET :: nat where "CHELMET = 43"
definition CTOP :: nat where "CTOP = 46"
definition CEMBLEM :: nat where "CEMBLEM = 47"
definition CFAIRY :: nat where "CFAIRY = 48"
definition CTATTOO :: nat where "CTATTOO = 49"
definition CTALISMAN :: nat where "CTALISMAN = 50"
definition CBAG1 :: nat where "CBAG1 = 51"
definition CBAG2 :: nat where "CBAG2 = 52"
definition CBAG3 :: nat where "CBAG3 = INVENTORY_TOTAL"

definition COSP_WINGS :: u8 where "COSP_WINGS = 0"
definition COSP_HELMET :: u8 where "COSP_HELMET = 1"
definition COSP_GLOVE :: u8 where "COSP_GLOVE = 2"
definition COSP_GLOVE2 :: u8 where "COSP_GLOVE2 = 3"
definition COSP_BREAST :: u8 where "COSP_BREAST = 4"
definition COSP_EMBLAM :: u8 where "COSP_EMBLAM = 5"
definition COSP_BAG1 :: u8 where "COSP_BAG1 = 6"
definition COSP_FAIRY :: u8 where "COSP_FAIRY = 7"
definition COSP_TATTO :: u8 where "COSP_TATTO = 8"
definition COSP_TALISMAN :: u8 where "COSP_TALISMAN = 9"
definition COSP_BAG2 :: u8 where "COSP_BAG2 = 10"

definition ITEM_OREADS :: u32 where "ITEM_OREADS = 700039768"
definition ROBIN_LOOT_ITEM :: u32 where "ROBIN_LOOT_ITEM = 950680000"
definition ROBIN_LOOT_ITEM2 :: u32 where "ROBIN_LOOT_ITEM2 = 850680000"
definition MINING_ROBIN_ITEM :: u32 where "MINING_ROBIN_ITEM = 510000000"
definition FISHING_ROBIN_ITEM :: u32 where "FISHING_ROBIN_ITEM = 520000000"

lemmas equip_slots = RIGHTEAR_def HEAD_def LEFTEAR_def NECK_def BREAST_def SHOULDER_def RIGHTHAND_def WAIST_def
  LEFTHAND_def RIGHTRING_def LEG_def LEFTRING_def GLOVE_def FOOT_def
lemmas slot_types = ITEM_SLOT_EITHER_HAND_def ITEM_SLOT_1H_RIGHT_def ITEM_SLOT_1H_LEFT_def ITEM_SLOT_2H_RIGHT_def
  ITEM_SLOT_2H_LEFT_def ITEM_SLOT_PAULDRON_def ITEM_SLOT_PADS_def ITEM_SLOT_HELMET_def ITEM_SLOT_GLOVES_def
  ITEM_SLOT_BOOTS_def ITEM_SLOT_EARRING_def ITEM_SLOT_NECKLACE_def ITEM_SLOT_RING_def ITEM_SLOT_SHOULDER_def
  ITEM_SLOT_BELT_def ITEM_SLOT_KAUL_def ITEM_SLOT_BAG_def
lemmas regions_of_bag = SLOT_MAX_def HAVE_MAX_def COSP_MAX_def INVENTORY_COSP_def INVENTORY_MBAG_def MBAG_MAX_def
  MBAG_COUNT_def KNIGHT_ROYALE_MAX_def INVENTORY_TOTAL_def MBAG_TOTAL_def INVENTORY_MBAG2_def INVENTORY_MBAG3_def
  CHELMET_def CTOP_def CEMBLEM_def CFAIRY_def CTATTOO_def CTALISMAN_def CBAG1_def CBAG2_def CBAG3_def
lemmas cosp_positions = COSP_WINGS_def COSP_HELMET_def COSP_GLOVE_def COSP_GLOVE2_def COSP_BREAST_def COSP_EMBLAM_def
  COSP_BAG1_def COSP_FAIRY_def COSP_TATTO_def COSP_TALISMAN_def COSP_BAG2_def

subsection \<open>Which item goes where\<close>

datatype item_move_dir = InvenSlot | SlotInven | InvenInven | SlotSlot | InvenToCosp | CospToInven
  | InvenToMbag | MbagToInven | MbagToMbag | InvenToPet | PetToInven | SlotInvenToMbag

definition from_u8 :: "u8 \<Rightarrow> item_move_dir option" where
  "from_u8 v =
     (if v = 1 then Some InvenSlot else if v = 2 then Some SlotInven else if v = 3 then Some InvenInven
      else if v = 4 then Some SlotSlot else if v = 7 then Some InvenToCosp else if v = 8 then Some CospToInven
      else if v = 9 then Some InvenToMbag else if v = 10 then Some MbagToInven else if v = 11 then Some MbagToMbag
      else if v = 12 then Some InvenToPet else if v = 13 then Some PetToInven
      else if v = 14 then Some SlotInvenToMbag else None)"

definition is_robin_loot_item :: "u32 \<Rightarrow> bool" where
  "is_robin_loot_item i \<longleftrightarrow>
     List.member [ROBIN_LOOT_ITEM, ROBIN_LOOT_ITEM2, MINING_ROBIN_ITEM, FISHING_ROBIN_ITEM] i"

definition slot_of :: "item_def \<Rightarrow> i32" where
  "slot_of it = unwrap_or (-1) (slot_type it)"

definition is_weapon_item :: "item_def \<Rightarrow> bool" where
  "is_weapon_item it \<longleftrightarrow>
     List.member [11, 21, 22, 31, 32, 41, 42, 51, 52, 60, 61, 70, 71, 110, 140, 151, 181] (unwrap_or 0 (kind it))"

definition is_valid_cosp_slot_pos :: "item_def \<Rightarrow> u8 \<Rightarrow> bool" where
  "is_valid_cosp_slot_pos it p =
     (let slot = slot_of it in
      if slot = ITEM_SLOT_COSP_GLOVES then p = COSP_GLOVE \<or> p = COSP_GLOVE2
      else if slot = ITEM_SLOT_COSP_PAULDRON then p = COSP_BREAST
      else if slot = ITEM_SLOT_COSP_HELMET then p = COSP_HELMET
      else if slot = ITEM_SLOT_COSP_WINGS then p = COSP_WINGS
      else if slot = ITEM_SLOT_BAG then p = COSP_BAG1 + 3 \<or> p = COSP_BAG2 \<or> p = COSP_BAG2 + 1
      else if slot = ITEM_SLOT_COSP_FAIRY then p = COSP_FAIRY
      else if slot = ITEM_SLOT_COSP_TATTOO then p = COSP_TATTO
      else if slot = ITEM_SLOT_COSP_TALISMAN then p = COSP_TALISMAN
      else if slot = ITEM_SLOT_COSP_EMBLEM0 \<or> slot = ITEM_SLOT_COSP_EMBLEM1 then p = COSP_EMBLAM
      else False)"

definition cosp_pos_to_abs_index :: "u8 \<Rightarrow> nat option" where
  "cosp_pos_to_abs_index p =
     (if p = COSP_EMBLAM then Some CEMBLEM
      else if p = COSP_BAG1 then Some CBAG1
      else if p = COSP_BAG2 then Some CBAG2
      else if p = 11 then Some CBAG3
      else if p = COSP_FAIRY then Some CFAIRY
      else if p = COSP_TATTO then Some CTATTOO
      else if p = COSP_TALISMAN then Some CTALISMAN
      else if p \<le> 4 then Some (INVENTORY_COSP + unat p)
      else None)"

definition is_valid_slot_pos :: "item_def \<Rightarrow> nat \<Rightarrow> bool" where
  "is_valid_slot_pos it p =
     (let slot = slot_of it in
      if slot = ITEM_SLOT_EITHER_HAND then p = RIGHTHAND \<or> p = LEFTHAND
      else if slot = ITEM_SLOT_1H_RIGHT then p = RIGHTHAND
      else if slot = ITEM_SLOT_1H_LEFT then p = LEFTHAND
      else if slot = ITEM_SLOT_2H_RIGHT then p = RIGHTHAND
      else if slot = ITEM_SLOT_2H_LEFT then p = LEFTHAND
      else if slot = ITEM_SLOT_PAULDRON then p = BREAST
      else if slot = ITEM_SLOT_PADS then p = LEG
      else if slot = ITEM_SLOT_HELMET then p = HEAD
      else if slot = ITEM_SLOT_GLOVES then p = GLOVE
      else if slot = ITEM_SLOT_BOOTS then p = FOOT
      else if slot = ITEM_SLOT_EARRING then p = RIGHTEAR \<or> p = LEFTEAR
      else if slot = ITEM_SLOT_NECKLACE then p = NECK
      else if slot = ITEM_SLOT_RING then p = RIGHTRING \<or> p = LEFTRING
      else if slot = ITEM_SLOT_SHOULDER \<or> slot = ITEM_SLOT_KAUL then p = SHOULDER
      else if slot = ITEM_SLOT_BELT then p = WAIST
      else False)"

definition item_class_available :: "item_def \<Rightarrow> u16 \<Rightarrow> bool" where
  "item_class_available it player_class =
     (let c = unwrap_or 0 (item_class it); base = player_class mod 100 in
      if c = 0 then True
      else if c = 1 then List.member [1, 5, 6, 13, 14, 15] base
      else if c = 2 then List.member [2, 7, 8] base
      else if c = 3 then List.member [3, 9, 10] base
      else if c = 4 then List.member [4, 11, 12] base
      else if c = 5 then List.member [5, 6, 14, 15] base
      else if c = 6 then List.member [6, 15] base
      else if c = 7 then List.member [7, 8] base
      else if c = 8 then base = 8
      else if c = 9 then List.member [9, 10] base
      else if c = 10 then base = 10
      else if c = 11 then List.member [11, 12] base
      else if c = 12 then base = 12
      else if c = 13 then List.member [13, 14, 15] base
      else if c = 14 then List.member [14, 15] base
      else if c = 15 then base = 15
      else True)"

definition item_equip_available :: "item_def \<Rightarrow> character_info \<Rightarrow> bool" where
  "item_equip_available it ch \<longleftrightarrow>
     level ch \<ge> ucast (unwrap_or 0 (req_level it))
     \<and> level ch \<le> ucast (unwrap_or 255 (req_level_max it))
     \<and> ch_str ch \<ge> ucast (unwrap_or 0 (req_str it))
     \<and> ch_sta ch \<ge> ucast (unwrap_or 0 (req_sta it))
     \<and> ch_dex ch \<ge> ucast (unwrap_or 0 (req_dex it))
     \<and> ch_intel ch \<ge> ucast (unwrap_or 0 (req_intel it))
     \<and> ch_cha ch \<ge> ucast (unwrap_or 0 (req_cha it))"

subsection \<open>Moving within the slots\<close>

definition swap_slots :: "nat \<Rightarrow> nat \<Rightarrow> slots \<Rightarrow> slots" where
  \<comment> \<open>\<open>inv.swap\<close>\<close>
  "swap_slots j k xs = xs[j := xs ! k, k := xs ! j]"

definition move_to_empty :: "nat \<Rightarrow> nat \<Rightarrow> slots \<Rightarrow> slots" where
  "move_to_empty j k xs = xs[k := xs ! j, j := empty_slot]"

definition swap_items :: "nat \<Rightarrow> nat \<Rightarrow> slots \<Rightarrow> slots" where
  "swap_items j k xs = (if item_id (xs ! k) \<noteq> 0 then swap_slots j k xs else move_to_empty j k xs)"

definition displace :: "nat \<Rightarrow> nat \<Rightarrow> nat \<Rightarrow> slots \<Rightarrow> slots" where
  \<comment> \<open>the item of \<open>j\<close> to \<open>k\<close>, the item of the other hand to \<open>j\<close>, the other hand empty\<close>
  "displace j k other xs =
     (let xs1 = xs[k := xs ! j]; xs2 = xs1[j := xs1 ! other] in xs2[other := empty_slot])"

definition two_hand_check_1h_right :: "nat \<Rightarrow> nat \<Rightarrow> i32 option \<Rightarrow> slots \<Rightarrow> slots" where
  "two_hand_check_1h_right j k lh_type xs =
     (if item_id (xs ! LEFTHAND) \<noteq> 0 \<and> lh_type = Some ITEM_SLOT_2H_LEFT
      then displace j k LEFTHAND xs else swap_items j k xs)"

definition two_hand_check_1h_left :: "nat \<Rightarrow> nat \<Rightarrow> i32 option \<Rightarrow> slots \<Rightarrow> slots" where
  "two_hand_check_1h_left j k rh_type xs =
     (if item_id (xs ! RIGHTHAND) \<noteq> 0 \<and> rh_type = Some ITEM_SLOT_2H_RIGHT
      then displace j k RIGHTHAND xs else swap_items j k xs)"

definition handle_two_handed_equip :: "nat \<Rightarrow> nat \<Rightarrow> i32 \<Rightarrow> i32 option \<Rightarrow> i32 option \<Rightarrow> slots \<Rightarrow> bool \<times> slots" where
  "handle_two_handed_equip j k slot rh_type lh_type xs =
     (if slot = ITEM_SLOT_1H_RIGHT \<or> slot = ITEM_SLOT_EITHER_HAND \<and> k = RIGHTHAND
      then (True, two_hand_check_1h_right j k lh_type xs)
      else if slot = ITEM_SLOT_1H_LEFT \<or> slot = ITEM_SLOT_EITHER_HAND \<and> k = LEFTHAND
      then (True, two_hand_check_1h_left j k rh_type xs)
      else if slot = ITEM_SLOT_2H_RIGHT \<or> slot = ITEM_SLOT_2H_LEFT then
        if item_id (xs ! LEFTHAND) \<noteq> 0 \<and> item_id (xs ! RIGHTHAND) \<noteq> 0 then (False, xs)
        else if slot = ITEM_SLOT_2H_RIGHT then
          if item_id (xs ! LEFTHAND) \<noteq> 0 then (True, displace j RIGHTHAND LEFTHAND xs)
          else (True, swap_items j k xs)
        else if item_id (xs ! RIGHTHAND) \<noteq> 0 then (True, displace j LEFTHAND RIGHTHAND xs)
        else (True, swap_items j k xs)
      else (True, swap_items j k xs))"

definition is_countable :: "item_def \<Rightarrow> bool" where
  "is_countable it \<longleftrightarrow> unwrap_or 0 (countable it) = 1"

definition merge_into :: "nat \<Rightarrow> nat \<Rightarrow> slots \<Rightarrow> slots" where
  \<comment> \<open>\<open>InvenInven\<close>: the count of \<open>k\<close> grows, \<open>j\<close> is emptied\<close>
  "merge_into j k xs =
     (let n = saturating_add (item_count (xs ! k)) (item_count (xs ! j)) in
      xs[k := (xs ! k)\<lparr>item_count := min n ITEMCOUNT_MAX\<rparr>, j := empty_slot])"

definition merge_over :: "nat \<Rightarrow> nat \<Rightarrow> slots \<Rightarrow> slots" where
  \<comment> \<open>the directions to a magic bag: \<open>k\<close> becomes a copy of \<open>j\<close> with the counts added\<close>
  "merge_over j k xs =
     (let n = saturating_add (item_count (xs ! j)) (item_count (xs ! k)) in
      xs[k := (xs ! j)\<lparr>item_count := min n ITEMCOUNT_MAX\<rparr>, j := empty_slot])"

definition resize_inventory :: "slots \<Rightarrow> slots" where
  "resize_inventory xs = xs @ replicate (INVENTORY_TOTAL - length xs) empty_slot"

definition move_inven_slot :: "u32 \<Rightarrow> item_def \<Rightarrow> i32 option \<Rightarrow> i32 option \<Rightarrow> nat \<Rightarrow> nat \<Rightarrow> slots \<Rightarrow> bool \<times> slots" where
  "move_inven_slot i it rh_type lh_type src dst xs =
     (let j = SLOT_MAX + src in
      if j \<ge> INVENTORY_TOTAL \<or> dst \<ge> SLOT_MAX then (False, xs)
      else if item_id (xs ! j) \<noteq> i then (False, xs)
      else handle_two_handed_equip j dst (slot_of it) rh_type lh_type xs)"

definition move_slot_inven :: "u32 \<Rightarrow> nat \<Rightarrow> nat \<Rightarrow> slots \<Rightarrow> bool \<times> slots" where
  "move_slot_inven i src dst xs =
     (let k = SLOT_MAX + dst in
      if src \<ge> SLOT_MAX \<or> k \<ge> INVENTORY_TOTAL then (False, xs)
      else if item_id (xs ! src) \<noteq> i then (False, xs)
      else (True, swap_items src k xs))"

definition move_inven_inven :: "u32 \<Rightarrow> item_def \<Rightarrow> nat \<Rightarrow> nat \<Rightarrow> slots \<Rightarrow> bool \<times> slots" where
  "move_inven_inven i it src dst xs =
     (let j = SLOT_MAX + src; k = SLOT_MAX + dst in
      if src \<ge> HAVE_MAX \<or> dst \<ge> HAVE_MAX \<or> j \<ge> INVENTORY_TOTAL \<or> k \<ge> INVENTORY_TOTAL then (False, xs)
      else if item_id (xs ! j) \<noteq> i then (False, xs)
      else (True, if is_countable it \<and> item_id (xs ! k) = i \<and> item_id (xs ! k) \<noteq> 0
                  then merge_into j k xs else swap_items j k xs))"

definition move_slot_slot :: "u32 \<Rightarrow> nat \<Rightarrow> nat \<Rightarrow> slots \<Rightarrow> bool \<times> slots" where
  "move_slot_slot i src dst xs =
     (if src \<ge> SLOT_MAX \<or> dst \<ge> SLOT_MAX then (False, xs)
      else if item_id (xs ! src) \<noteq> i then (False, xs)
      else (True, swap_slots src dst xs))"

definition cosp_destination :: "item_def \<Rightarrow> u8 \<Rightarrow> slots \<Rightarrow> nat option" where
  "cosp_destination it dst xs =
     (if slot_of it = ITEM_SLOT_BAG then
        let b = INVENTORY_COSP + unat dst; b = (if b = INVENTORY_MBAG then CBAG3 else b) in
        if b \<noteq> CBAG1 \<and> b \<noteq> CBAG2 \<and> b \<noteq> CBAG3 then None
        else if b \<ge> length xs \<or> item_id (xs ! b) \<noteq> 0 then None
        else Some b
      else case cosp_pos_to_abs_index dst of
             None \<Rightarrow> None
           | Some k \<Rightarrow> if k < length xs then Some k else None)"

definition move_inven_to_cosp :: "u32 \<Rightarrow> item_def \<Rightarrow> nat \<Rightarrow> u8 \<Rightarrow> slots \<Rightarrow> bool \<times> slots" where
  "move_inven_to_cosp i it src dst xs =
     (let j = SLOT_MAX + src in
      if j \<ge> INVENTORY_TOTAL \<or> item_id (xs ! j) \<noteq> i then (False, xs)
      else case cosp_destination it dst xs of
             None \<Rightarrow> (False, xs)
           | Some k \<Rightarrow> (True, swap_items j k xs))"

definition move_cosp_to_inven :: "u32 \<Rightarrow> u8 \<Rightarrow> nat \<Rightarrow> slots \<Rightarrow> bool \<times> slots" where
  "move_cosp_to_inven i src dst xs =
     (let k = SLOT_MAX + dst in
      if k \<ge> INVENTORY_TOTAL then (False, xs)
      else case cosp_pos_to_abs_index src of
             None \<Rightarrow> (False, xs)
           | Some j \<Rightarrow>
               if j \<ge> length xs \<or> item_id (xs ! j) \<noteq> i then (False, xs)
               else (True, swap_items j k xs))"

definition bag_missing :: "nat \<Rightarrow> slots \<Rightarrow> bool" where
  \<comment> \<open>the magic bag that the slot \<open>k\<close> belongs to is not there; the third bag needs none\<close>
  "bag_missing k xs \<longleftrightarrow> k < INVENTORY_MBAG2 \<and> item_id (xs ! CBAG1) = 0
     \<or> k \<ge> INVENTORY_MBAG2 \<and> k < INVENTORY_MBAG3 \<and> item_id (xs ! CBAG2) = 0"

definition put_in_mbag :: "u32 \<Rightarrow> item_def \<Rightarrow> nat \<Rightarrow> nat \<Rightarrow> slots \<Rightarrow> slots" where
  "put_in_mbag i it j k xs =
     (if item_id (xs ! k) = i \<and> is_countable it then merge_over j k xs else swap_items j k xs)"

definition move_inven_to_mbag :: "u32 \<Rightarrow> item_def \<Rightarrow> nat \<Rightarrow> nat \<Rightarrow> slots \<Rightarrow> bool \<times> slots" where
  "move_inven_to_mbag i it src dst xs =
     (if dst \<ge> MBAG_TOTAL \<or> src \<ge> HAVE_MAX then (False, xs)
      else
        let j = SLOT_MAX + src; k = INVENTORY_MBAG + dst in
        if j \<ge> INVENTORY_TOTAL \<or> k \<ge> INVENTORY_TOTAL \<or> bag_missing k xs \<or> item_id (xs ! j) \<noteq> i then (False, xs)
        else if item_id (xs ! k) \<noteq> 0 \<and> (is_countable it \<or> unwrap_or 0 (kind it) = ITEM_KIND_UNIQUE)
          \<and> item_id (xs ! k) \<noteq> i then (False, xs)
        else (True, put_in_mbag i it j k xs))"

definition move_mbag_to_inven :: "u32 \<Rightarrow> nat \<Rightarrow> nat \<Rightarrow> slots \<Rightarrow> bool \<times> slots" where
  "move_mbag_to_inven i src dst xs =
     (if dst \<ge> HAVE_MAX \<or> src \<ge> MBAG_TOTAL then (False, xs)
      else
        let j = INVENTORY_MBAG + src; k = SLOT_MAX + dst in
        if j \<ge> INVENTORY_TOTAL \<or> k \<ge> INVENTORY_TOTAL \<or> item_id (xs ! j) \<noteq> i then (False, xs)
        else (True, swap_items j k xs))"

definition move_mbag_to_mbag :: "u32 \<Rightarrow> item_def \<Rightarrow> nat \<Rightarrow> nat \<Rightarrow> slots \<Rightarrow> bool \<times> slots" where
  "move_mbag_to_mbag i it src dst xs =
     (if dst \<ge> MBAG_TOTAL \<or> src \<ge> MBAG_TOTAL then (False, xs)
      else
        let j = INVENTORY_MBAG + src; k = INVENTORY_MBAG + dst in
        if j \<ge> INVENTORY_TOTAL \<or> k \<ge> INVENTORY_TOTAL \<or> bag_missing k xs \<or> item_id (xs ! j) \<noteq> i then (False, xs)
        else (True, put_in_mbag i it j k xs))"

definition move_slot_inven_to_mbag :: "u32 \<Rightarrow> item_def \<Rightarrow> nat \<Rightarrow> nat \<Rightarrow> slots \<Rightarrow> bool \<times> slots" where
  "move_slot_inven_to_mbag i it src dst xs =
     (let j = SLOT_MAX + src; k = (if dst = 3 then CBAG3 else INVENTORY_COSP + dst + 8) in
      if j \<ge> INVENTORY_TOTAL \<or> k \<ge> length xs then (False, xs)
      else if item_id (xs ! j) \<noteq> i then (False, xs)
      else if item_id (xs ! k) \<noteq> 0 \<or> slot_of it \<noteq> ITEM_SLOT_BAG then (False, xs)
      else (True, swap_items j k xs))"

definition apply_move ::
  "item_move_dir \<Rightarrow> u32 \<Rightarrow> item_def \<Rightarrow> i32 option \<Rightarrow> i32 option \<Rightarrow> u8 \<Rightarrow> u8 \<Rightarrow> slots \<Rightarrow> bool \<times> slots" where
  \<comment> \<open>the closure of \<open>update_inventory\<close>; the pet directions do not reach it\<close>
  "apply_move d i it rh_type lh_type src dst xs =
     (case d of
        InvenSlot \<Rightarrow> move_inven_slot i it rh_type lh_type (unat src) (unat dst) xs
      | SlotInven \<Rightarrow> move_slot_inven i (unat src) (unat dst) xs
      | InvenInven \<Rightarrow> move_inven_inven i it (unat src) (unat dst) xs
      | SlotSlot \<Rightarrow> move_slot_slot i (unat src) (unat dst) xs
      | InvenToCosp \<Rightarrow> move_inven_to_cosp i it (unat src) dst xs
      | CospToInven \<Rightarrow> move_cosp_to_inven i src (unat dst) xs
      | InvenToMbag \<Rightarrow> move_inven_to_mbag i it (unat src) (unat dst) xs
      | MbagToInven \<Rightarrow> move_mbag_to_inven i (unat src) (unat dst) xs
      | MbagToMbag \<Rightarrow> move_mbag_to_mbag i it (unat src) (unat dst) xs
      | SlotInvenToMbag \<Rightarrow> move_slot_inven_to_mbag i it (unat src) (unat dst) xs
      | InvenToPet \<Rightarrow> (False, xs)
      | PetToInven \<Rightarrow> (False, xs))"

subsection \<open>The pet's bag\<close>

definition update_inventory_and_pet ::
  "sid \<Rightarrow> (slots \<Rightarrow> slots \<Rightarrow> bool \<times> slots \<times> slots) \<Rightarrow> world \<Rightarrow> bool \<times> world" where
  "update_inventory_and_pet s f w =
     (case wsessions w s of
        None \<Rightarrow> (False, w)
      | Some h \<Rightarrow>
          (case pet_items h of
             None \<Rightarrow> (False, w)
           | Some pets \<Rightarrow>
               let (ok, xs', pets') = f (inventory h) pets in
               (ok, modify_session s (\<lambda>h. h\<lparr>inventory := xs', pet_items := Some pets'\<rparr>) w)))"

definition move_to_pet :: "u32 \<Rightarrow> nat \<Rightarrow> nat \<Rightarrow> slots \<Rightarrow> slots \<Rightarrow> bool \<times> slots \<times> slots" where
  "move_to_pet i src dst xs0 pets =
     (let xs = resize_inventory xs0; j = SLOT_MAX + src in
      if j \<ge> length xs \<or> item_id (xs ! j) \<noteq> i then (False, xs, pets)
      else if item_id (pets ! dst) \<noteq> 0 then (True, xs[j := pets ! dst], pets[dst := xs ! j])
      else (True, xs[j := empty_slot], pets[dst := xs ! j]))"

definition move_from_pet :: "u32 \<Rightarrow> nat \<Rightarrow> nat \<Rightarrow> slots \<Rightarrow> slots \<Rightarrow> bool \<times> slots \<times> slots" where
  "move_from_pet i src dst xs0 pets =
     (let xs = resize_inventory xs0; k = SLOT_MAX + dst in
      if k \<ge> length xs \<or> item_id (pets ! src) \<noteq> i then (False, xs, pets)
      else if item_id (xs ! k) \<noteq> 0 then (True, xs[k := pets ! src], pets[src := xs ! k])
      else (True, xs[k := pets ! src], pets[src := empty_slot]))"

end
