(* ===== verification/Item_Move_Handler.thy ===== *)
theory Item_Move_Handler
  imports Item_Move
begin

text \<open>
  The handler of \<^verbatim>\<open>WIZ_ITEM_MOVE\<close> (\<^verbatim>\<open>crates/ko-game/src/handler/item_move.rs\<close>, lines 148 to 903 and 1043
  to 1384): the checks before a move, the answer, the broadcast of a changed look to the regions around, and
  the sorted bag. The clock reading for the rental times is an argument.
\<close>

subsection \<open>Answers and broadcasts\<close>

definition item_move_answer :: "bool \<Rightarrow> sid \<Rightarrow> world \<Rightarrow> packet" where
  "item_move_answer success s w =
     (let p = write_u8 (if success then 1 else 0) (write_u8 1 (packet_new (as_u8 WizItemMove))) in
      if \<not> success then p
      else case get_character_info s w of
        None \<Rightarrow> p
      | Some ch \<Rightarrow>
          let st = get_equipped_stats s w;
              p1 = write_u8 0 (write_u8 0 (write_u32 (max_weight st) (write_u16 (ucast (total_ac st)) (write_u16 (total_hit st) p))));
              p2 = fold write_i16 (take 5 (stat_bonuses st)) (write_u16 (ucast (max_mp ch)) (write_u16 (ucast (max_hp ch)) p1)) in
          write_u16 (ucast (poison_r st)) (write_u16 (ucast (disease_r st)) (write_u16 (ucast (magic_r st))
            (write_u16 (ucast (lightning_r st)) (write_u16 (ucast (cold_r st)) (write_u16 (ucast (fire_r st)) p2))))))"

definition send_item_move_result :: "sid \<Rightarrow> bool \<Rightarrow> world \<Rightarrow> bool \<times> world" where
  "send_item_move_result s success w = session_send s (item_move_answer success s w) w"

definition get_users_in_3x3 :: "zone_state \<Rightarrow> u16 \<Rightarrow> u16 \<Rightarrow> sid list" where
  "get_users_in_3x3 z rx rz =
     concat (map (\<lambda>dx. concat (map (\<lambda>dz.
       let nx = (ucast rx :: i16) + dx; nz = (ucast rz :: i16) + dz in
       if sint nx \<ge> 0 \<and> sint nz \<ge> 0 then unwrap_or [] (regions z (ucast nx, ucast nz)) else [])
       [-1, 0, 1])) [-1, 0, 1])"

definition broadcast_to_3x3 :: "u16 \<Rightarrow> u16 \<Rightarrow> u16 \<Rightarrow> packet \<Rightarrow> sid option \<Rightarrow> u16 \<Rightarrow> world \<Rightarrow> world" where
  "broadcast_to_3x3 z rx rz pkt except room w =
     (case zones w z of
        None \<Rightarrow> w
      | Some zone \<Rightarrow>
          fold (\<lambda>t w. if except \<noteq> Some t \<and> session_or False t (\<lambda>h. character h \<noteq> None \<and> event_room h = room) w
                     then send_to_session t pkt w else w)
            (get_users_in_3x3 zone rx rz) w)"

definition send_look_change_packet :: "sid \<Rightarrow> u8 \<Rightarrow> u32 \<Rightarrow> u16 \<Rightarrow> world \<Rightarrow> world" where
  "send_look_change_packet s slot i dur w =
     (if unat slot \<ge> SLOT_MAX then w
      else if i \<noteq> 0 \<and> (case get_item i w of
                         None \<Rightarrow> False | Some it \<Rightarrow> List.member [91, 92, 93, 94] (unwrap_or 0 (kind it))) then w
      else case wsessions w s of
        None \<Rightarrow> w
      | Some h \<Rightarrow>
          broadcast_to_3x3 (zone_id h) (region_x h) (region_z h)
            (write_u8 0 (write_u16 dur (write_u32 i (write_u8 slot (write_u32 (ucast s) (packet_new (as_u8 WizUserlookChange)))))))
            (Some s) (event_room h) w)"

definition shown_slot :: "slots \<Rightarrow> bool \<Rightarrow> u8 \<Rightarrow> bool" where
  \<comment> \<open>\<open>should_broadcast_equip_slot\<close>: nothing cosmetic covers the slot\<close>
  "shown_slot xs hiding slot =
     (let empty_at = (\<lambda>k. case slice_get xs k of None \<Rightarrow> True | Some sl \<Rightarrow> item_id sl = 0) in
      if unat slot = HEAD then empty_at CHELMET \<or> hiding
      else if List.member [BREAST, LEG, GLOVE, FOOT] (unat slot) then empty_at CTOP \<or> hiding
      else True)"

definition reveal :: "sid \<Rightarrow> slots \<Rightarrow> nat \<Rightarrow> world \<Rightarrow> world" where
  \<comment> \<open>show what a slot holds after a cosmetic item came off\<close>
  "reveal s xs k w =
     (case slice_get xs k of
        Some sl \<Rightarrow> if item_id sl \<noteq> 0 then send_look_change_packet s (of_nat k) (item_id sl) (durability sl) w
                   else send_look_change_packet s (of_nat k) 0 0 w
      | None \<Rightarrow> send_look_change_packet s (of_nat k) 0 0 w)"

definition broadcast_look_change :: "sid \<Rightarrow> item_move_dir \<Rightarrow> u8 \<Rightarrow> u8 \<Rightarrow> u32 \<Rightarrow> world \<Rightarrow> world" where
  "broadcast_look_change s d src dst i w =
     (if get_zone_id s w = None then w
      else
        let xs = get_inventory s w; hiding = session_or False s is_hiding_cospre w;
            dur_of = (\<lambda>k. case slice_get xs k of None \<Rightarrow> 0 | Some sl \<Rightarrow> durability sl);
            item_at = (\<lambda>k. case slice_get xs k of None \<Rightarrow> 0 | Some sl \<Rightarrow> item_id sl);
            show_slot = (\<lambda>p w. case slice_get xs (unat p) of
                None \<Rightarrow> w | Some sl \<Rightarrow> send_look_change_packet s p (item_id sl) (durability sl) w) in
        case d of
          InvenSlot \<Rightarrow>
            if shown_slot xs hiding dst then send_look_change_packet s dst i (dur_of (unat dst)) w else w
        | SlotInven \<Rightarrow>
            if shown_slot xs hiding src then send_look_change_packet s src (item_at (unat src)) (dur_of (unat src)) w else w
        | SlotSlot \<Rightarrow> show_slot dst (show_slot src w)
        | InvenToCosp \<Rightarrow>
            if dst \<noteq> 5 \<and> dst \<noteq> 6
            then send_look_change_packet s dst i (dur_of (unwrap_or 0 (cosp_pos_to_abs_index dst))) w else w
        | CospToInven \<Rightarrow>
            if src = COSP_BREAST then fold (reveal s xs) [BREAST, LEG, GLOVE, FOOT] w
            else if src = COSP_HELMET then reveal s xs HEAD w
            else if src \<noteq> COSP_EMBLAM \<and> src \<noteq> COSP_BAG1 \<and> src \<noteq> COSP_BAG2
            then send_look_change_packet s src 0 0 w else w
        | _ \<Rightarrow> w)"

subsection \<open>The checks before a move\<close>

definition equip_refused :: "sid \<Rightarrow> item_move_dir \<Rightarrow> item_def \<Rightarrow> u8 \<Rightarrow> u8 \<Rightarrow> world \<Rightarrow> bool" where
  \<comment> \<open>to an equipment slot: the slot's type, class, level and statistics, duplicates, pets, weapons\<close>
  "equip_refused s d it src dst w \<longleftrightarrow>
     (d = InvenSlot \<or> d = SlotSlot) \<and>
       (unat dst \<ge> SLOT_MAX \<or> \<not> is_valid_slot_pos it (unat dst)
        \<or> (case get_character_info s w of
             None \<Rightarrow> False
           | Some ch \<Rightarrow> \<not> item_class_available it (ch_class ch) \<or> \<not> item_equip_available it ch))
     \<or> d = SlotInven \<and> (unat src \<ge> SLOT_MAX \<or> unat dst \<ge> HAVE_MAX)
     \<or> d = InvenSlot \<and>
       (unat src \<ge> HAVE_MAX
        \<or> (case get_inventory_slot s (SLOT_MAX + unat src) w of
             None \<Rightarrow> False | Some sl \<Rightarrow> item_flag sl = ITEM_FLAG_DUPLICATE)
        \<or> unat dst = SHOULDER \<and> unwrap_or 0 (kind it) = ITEM_KIND_PET \<and> session_or False s (\<lambda>h. pet_items h \<noteq> None) w
        \<or> List.member [RIGHTEAR, HEAD, LEFTEAR, NECK, BREAST, WAIST, RIGHTRING, LEG, LEFTRING, GLOVE, FOOT] (unat dst)
          \<and> unwrap_or 0 (kind it) \<noteq> ITEM_KIND_PET \<and> is_weapon_item it)"

definition held_type :: "sid \<Rightarrow> nat \<Rightarrow> world \<Rightarrow> i32 option" where
  \<comment> \<open>the slot type of the item in a hand\<close>
  "held_type s hand w =
     (case get_inventory_slot s hand w of
        None \<Rightarrow> None
      | Some sl \<Rightarrow> if item_id sl = 0 then None else Option.bind (get_item (item_id sl) w) slot_type)"

definition swap_refused :: "sid \<Rightarrow> nat \<Rightarrow> (item_def \<Rightarrow> bool) \<Rightarrow> i32 \<Rightarrow> world \<Rightarrow> bool" where
  \<comment> \<open>what lies at the destination is of another type, does not fit the source, or is unknown\<close>
  "swap_refused s k fits_back slot w =
     (case get_inventory_slot s k w of
        None \<Rightarrow> False
      | Some sl \<Rightarrow> item_id sl \<noteq> 0 \<and>
          (case get_item (item_id sl) w of
             None \<Rightarrow> True
           | Some it \<Rightarrow> slot_of it \<noteq> slot \<or> \<not> fits_back it))"

definition move_refused :: "sid \<Rightarrow> item_move_dir \<Rightarrow> item_def \<Rightarrow> u8 \<Rightarrow> u8 \<Rightarrow> world \<Rightarrow> bool" where
  "move_refused s d it src dst w \<longleftrightarrow>
     equip_refused s d it src dst w
     \<or> d = SlotInven \<and> swap_refused s (SLOT_MAX + unat dst) (\<lambda>it'. is_valid_slot_pos it' (unat src)) (slot_of it) w
     \<or> d = SlotSlot \<and> swap_refused s (unat dst) (\<lambda>_. True) (slot_of it) w
     \<or> d = InvenToCosp \<and>
       (unat dst \<ge> COSP_MAX + MBAG_COUNT \<or> unat src \<ge> HAVE_MAX \<or> \<not> is_valid_cosp_slot_pos it dst)
     \<or> d = CospToInven \<and>
       (unat dst \<ge> HAVE_MAX \<or> unat src \<ge> COSP_MAX \<or> src = COSP_BAG1 \<or> src = COSP_BAG2
        \<or> swap_refused s (SLOT_MAX + unat dst) (\<lambda>it'. is_valid_cosp_slot_pos it' src) (slot_of it) w)
     \<or> d = SlotInvenToMbag \<and>
       (unat dst \<ge> COSP_MAX + MBAG_COUNT \<or> unat src \<ge> HAVE_MAX \<or> \<not> is_valid_cosp_slot_pos it (dst + 8))
     \<or> d = InvenToPet \<and> (unat src \<ge> HAVE_MAX \<or> unat dst \<ge> PET_INVENTORY_TOTAL)
     \<or> d = PetToInven \<and> (unat src \<ge> PET_INVENTORY_TOTAL \<or> unat dst \<ge> HAVE_MAX)"

subsection \<open>The moves\<close>

definition equipment_change :: "item_move_dir \<Rightarrow> bool" where
  "equipment_change d \<longleftrightarrow> List.member [InvenSlot, SlotInven, SlotSlot, InvenToCosp, CospToInven] d"

definition note_equipped :: "sid \<Rightarrow> world \<Rightarrow> world" where
  \<comment> \<open>\<open>equipped_items\<close> of the character\<close>
  "note_equipped s w =
     (let xs = get_inventory s w in
      update_character_stats s (\<lambda>ch. ch\<lparr>equipped_items :=
        fold (\<lambda>k eq. if k < length xs then eq[k := item_id (xs ! k)] else eq) [0..<14] (equipped_items ch)\<rparr>) w)"

definition note_helpers :: "sid \<Rightarrow> item_move_dir \<Rightarrow> u8 \<Rightarrow> u8 \<Rightarrow> u32 \<Rightarrow> world \<Rightarrow> world" where
  \<comment> \<open>the fairy that stops looting, and the robin that loots\<close>
  "note_helpers s d src dst i w =
     (let w1 = (if d = InvenToCosp \<and> dst = COSP_FAIRY \<and> i = ITEM_OREADS
                then modify_session s (\<lambda>h. h\<lparr>fairy_check := True\<rparr>) w else w);
          w2 = (if d = CospToInven \<and> src = COSP_FAIRY \<and> i = ITEM_OREADS
                then modify_session s (\<lambda>h. h\<lparr>fairy_check := False\<rparr>) w1 else w1);
          w3 = (if d = InvenSlot \<and> unat dst = SHOULDER \<and> is_robin_loot_item i
                then modify_session s (\<lambda>h. h\<lparr>auto_loot := True\<rparr>) w2 else w2) in
      if d = SlotInven \<and> unat src = SHOULDER \<and> is_robin_loot_item i
      then modify_session s (\<lambda>h. h\<lparr>auto_loot := False\<rparr>) w3 else w3)"

definition moved :: "env \<Rightarrow> sid \<Rightarrow> item_move_dir \<Rightarrow> u8 \<Rightarrow> u8 \<Rightarrow> u32 \<Rightarrow> world \<Rightarrow> bool \<times> world" where
  \<comment> \<open>what follows a successful move that did not touch the pet\<close>
  "moved e s d src dst i w =
     (let w1 = (if equipment_change d
                then broadcast_look_change s d src dst i (note_equipped s (set_user_ability e s w)) else w) in
      send_item_move_result s True (note_helpers s d src dst i w1))"

definition pet_move :: "env \<Rightarrow> sid \<Rightarrow> item_move_dir \<Rightarrow> u32 \<Rightarrow> u8 \<Rightarrow> u8 \<Rightarrow> world \<Rightarrow> bool \<times> world" where
  "pet_move e s d i src dst w =
     (let (ok, w1) = update_inventory_and_pet s (if d = InvenToPet then move_to_pet i (unat src) (unat dst)
             else move_from_pet i (unat src) (unat dst)) w in
      if \<not> ok then send_item_move_result s False w1
      else send_item_move_result s True (set_user_ability e s w1))"

definition inventory_move :: "env \<Rightarrow> sid \<Rightarrow> u8 \<Rightarrow> u32 \<Rightarrow> u8 \<Rightarrow> u8 \<Rightarrow> world \<Rightarrow> bool \<times> world" where
  \<comment> \<open>\<open>handle_inventory_system\<close> after the packet is read\<close>
  "inventory_move e s dir i src dst w =
     (case from_u8 dir of
        None \<Rightarrow> send_item_move_result s False w
      | Some d \<Rightarrow>
          (case get_item i w of
             None \<Rightarrow> send_item_move_result s False w
           | Some it \<Rightarrow>
               if move_refused s d it src dst w then send_item_move_result s False w
               else if d = InvenToPet \<or> d = PetToInven then pet_move e s d i src dst w
               else
                 let (ok, w1) = update_inventory s False (\<lambda>xs.
                       apply_move d i it (held_type s RIGHTHAND w) (held_type s LEFTHAND w) src dst (resize_inventory xs)) w in
                 if \<not> ok then send_item_move_result s False w1
                 else moved e s d src dst i w1))"

definition handle_inventory_system :: "env \<Rightarrow> sid \<Rightarrow> reader \<Rightarrow> world \<Rightarrow> bool \<times> world" where
  "handle_inventory_system e s rd w =
     (let (r1, rd1) = read_u8 rd; (r2, rd2) = read_u32 rd1; (r3, rd3) = read_u8 rd2; (r4, _) = read_u8 rd3 in
      inventory_move e s (unwrap_or 0 r1) (unwrap_or 0 r2) (unwrap_or 0 r3) (unwrap_or 0 r4) w)"

definition sort_bag :: "slots \<Rightarrow> slots" where
  \<comment> \<open>a stable sort of the bag by item id, largest first\<close>
  "sort_bag xs = take SLOT_MAX xs
     @ sort_key (\<lambda>sl. - uint (item_id sl)) (take HAVE_MAX (drop SLOT_MAX xs))
     @ drop (SLOT_MAX + HAVE_MAX) xs"

definition remaining_rental_minutes :: "u32 \<Rightarrow> u32 \<Rightarrow> u16" where
  "remaining_rental_minutes now expiry =
     (if expiry = 0 \<or> expiry \<le> now then 0 else ucast (min ((expiry - now) div 60) 65535))"

definition refresh_packet :: "env \<Rightarrow> u32 \<Rightarrow> sid \<Rightarrow> world \<Rightarrow> packet" where
  "refresh_packet e now s w =
     (let xs = get_inventory s w; rebirth = my_rebirth s w in
      fold (\<lambda>k p.
          let slot = unwrap_or empty_slot (slice_get xs k) in
          write_u32 (expire_time slot)
            (write_unique_item_info e w (item_id slot) (serial_num slot) rebirth
              (write_u16 (remaining_rental_minutes now (expire_time slot)) (write_u8 (item_flag slot)
                (write_u16 (item_count slot) (write_u16 (durability slot) (write_u32 (item_id slot) p)))))))
        bag (write_u8 1 (write_u8 2 (packet_new (as_u8 WizItemMove)))))"

definition handle_inventory_refresh :: "env \<Rightarrow> u32 \<Rightarrow> sid \<Rightarrow> world \<Rightarrow> bool \<times> world" where
  "handle_inventory_refresh e now s w =
     (let w1 = snd (update_inventory s False (\<lambda>xs. (True, sort_bag (resize_inventory xs))) w);
          (ok, w2) = session_send s (refresh_packet e now s w1) w1 in
      if \<not> ok then (False, w2) else (True, set_user_ability e s w2))"

definition handle_item_move :: "env \<Rightarrow> session_state \<Rightarrow> u32 \<Rightarrow> sid \<Rightarrow> packet \<Rightarrow> world \<Rightarrow> bool \<times> world" where
  "handle_item_move e st now s pkt w =
     (if st \<noteq> InGame \<or> is_player_dead s w then (True, w)
      else if is_trading s w \<or> is_merchanting s w \<or> is_mining s w \<or> is_fishing s w
        \<or> get_browsing_merchant s w \<noteq> None
      then send_item_move_result s False w
      else if unwrap_or 0 (get_zone_id s w) = ZONE_CHAOS_DUNGEON then send_item_move_result s False w
      else
        let (r, rd) = read_u8 (reader_new (pdata pkt)) in
        if unwrap_or 0 r = 1 then handle_inventory_system e s rd w
        else if unwrap_or 0 r = 2 then handle_inventory_refresh e now s w
        else send_item_move_result s False w)"

end
