(* ===== verification/Item_Move_Safe.thy ===== *)
theory Item_Move_Safe
  imports Item_Move_Handler "HOL-Library.Multiset"
begin

text \<open>
  What moving items keeps: the equipment fits its slots and a two-handed weapon leaves the other hand empty; no
  move creates pieces of an item, and all but merging stacks keep every one of them. And what it does not: a
  stack merged onto itself is gone, an item taken off against another of its type puts that one on unchecked,
  and the third magic bag can never be worn.
\<close>

subsection \<open>Counting pieces\<close>

lemma tally_two:
  assumes "j < length xs" "k < length xs" "j \<noteq> k"
  shows "tally u (xs[k := x, j := y]) + at_slot u (xs ! k) + at_slot u (xs ! j) = tally u xs + at_slot u x + at_slot u y"
  using tally_update [of k xs u x] tally_update [of j "xs[k := x]" u y] assms by simp

lemma tally_resize [simp]: "u \<noteq> 0 \<Longrightarrow> tally u (resize_inventory xs) = tally u xs"
  by (simp add: resize_inventory_def tally_replicate)

lemma length_resize: "length (resize_inventory xs) = max 96 (length xs)"
  by (simp add: resize_inventory_def regions_of_bag)

lemma resize_full: "96 \<le> length xs \<Longrightarrow> resize_inventory xs = xs"
  by (simp add: resize_inventory_def regions_of_bag)

lemma at_slot_0 [simp]: "item_id sl = 0 \<Longrightarrow> u \<noteq> 0 \<Longrightarrow> at_slot u sl = 0"
  by (simp add: at_slot_def)

lemma swap_slots_length [simp]: "length (swap_slots j k xs) = length xs"
  and move_to_empty_length [simp]: "length (move_to_empty j k xs) = length xs"
  and swap_items_length [simp]: "length (swap_items j k xs) = length xs"
  and displace_length [simp]: "length (displace j k m xs) = length xs"
  and merge_into_length [simp]: "length (merge_into j k xs) = length xs"
  and merge_over_length [simp]: "length (merge_over j k xs) = length xs"
  by (simp_all add: swap_slots_def move_to_empty_def swap_items_def displace_def merge_into_def merge_over_def Let_def)

lemma swap_slots_tally:
  assumes "j < length xs" "k < length xs"
  shows "tally u (swap_slots j k xs) = tally u xs"
proof (cases "j = k")
  case False
  then have "tally u (xs[j := xs ! k, k := xs ! j]) + at_slot u (xs ! j) + at_slot u (xs ! k)
      = tally u xs + at_slot u (xs ! k) + at_slot u (xs ! j)"
    using assms by (intro tally_two) simp_all
  then show ?thesis by (simp add: swap_slots_def)
qed (simp add: swap_slots_def)

lemma move_to_empty_tally:
  assumes "j < length xs" "k < length xs" "item_id (xs ! k) = 0" "u \<noteq> 0"
  shows "tally u (move_to_empty j k xs) = tally u xs"
proof (cases "j = k")
  case True
  then show ?thesis using tally_update [of k xs u empty_slot] assms by (simp add: move_to_empty_def)
qed (use assms in \<open>simp add: move_to_empty_def tally_move\<close>)

lemma swap_items_tally:
  "j < length xs \<Longrightarrow> k < length xs \<Longrightarrow> u \<noteq> 0 \<Longrightarrow> tally u (swap_items j k xs) = tally u xs"
  by (simp add: swap_items_def swap_slots_tally move_to_empty_tally)

lemma displace_tally:
  assumes "j < length xs" "k < length xs" "m < length xs" "j \<noteq> k" "j \<noteq> m" "k \<noteq> m" "u \<noteq> 0"
  shows "tally u (displace j k m xs) + at_slot u (xs ! k) = tally u xs"
proof -
  have "tally u (displace j k m xs) + at_slot u (xs ! m) = tally u (xs[k := xs ! j, j := xs ! m])"
    using tally_update [of m "xs[k := xs ! j, j := xs ! m]" u empty_slot] assms by (simp add: displace_def Let_def)
  then show ?thesis using tally_two [of j xs k u "xs ! j" "xs ! m"] assms by simp
qed

definition stacked :: "user_item_slot \<Rightarrow> user_item_slot \<Rightarrow> user_item_slot \<Rightarrow> bool" where
  \<comment> \<open>the stack of two stacks of the same item, capped\<close>
  "stacked z x y \<longleftrightarrow> item_id z = item_id x
     \<and> unat (item_count z) = min (unat (item_count x) + unat (item_count y)) 9999"

lemma merged_count: "unat (min (saturating_add a b) ITEMCOUNT_MAX) = min (unat a + unat b) 9999" for a b :: u16
  using unat_saturating_add [of a b] by (simp add: min_def word_le_nat_alt ITEMCOUNT_MAX_def)

lemma merges:
  assumes "item_id (xs ! j) = item_id (xs ! k)"
  shows "\<exists>z. stacked z (xs ! j) (xs ! k) \<and> merge_into j k xs = xs[k := z, j := empty_slot]"
    "\<exists>z. stacked z (xs ! j) (xs ! k) \<and> merge_over j k xs = xs[k := z, j := empty_slot]"
  by (rule exI [of _ "(xs ! k)\<lparr>item_count := min (saturating_add (item_count (xs ! k)) (item_count (xs ! j))) ITEMCOUNT_MAX\<rparr>"],
      simp add: stacked_def merged_count merge_into_def Let_def assms add.commute)
    (rule exI [of _ "(xs ! j)\<lparr>item_count := min (saturating_add (item_count (xs ! j)) (item_count (xs ! k))) ITEMCOUNT_MAX\<rparr>"],
      simp add: stacked_def merged_count merge_over_def Let_def)

lemma stacked_tally:
  assumes "j < length xs" "k < length xs" "u \<noteq> 0" "item_id (xs ! j) = item_id (xs ! k)" "stacked z (xs ! j) (xs ! k)"
  shows "tally u (xs[k := z, j := empty_slot]) \<le> tally u xs"
    and "j \<noteq> k \<Longrightarrow> unat (item_count (xs ! j)) + unat (item_count (xs ! k)) \<le> 9999 \<Longrightarrow>
      tally u (xs[k := z, j := empty_slot]) = tally u xs"
proof -
  have at: "at_slot u z \<le> at_slot u (xs ! j) + at_slot u (xs ! k)"
    "unat (item_count (xs ! j)) + unat (item_count (xs ! k)) \<le> 9999 \<Longrightarrow> at_slot u z = at_slot u (xs ! j) + at_slot u (xs ! k)"
    using assms(4,5) by (simp_all add: at_slot_def stacked_def)
  have two: "tally u (xs[k := z, j := empty_slot]) + at_slot u (xs ! k) + at_slot u (xs ! j) = tally u xs + at_slot u z" if "j \<noteq> k"
    using tally_two [OF assms(1,2) that, of u z empty_slot] assms(3) by simp
  show "tally u (xs[k := z, j := empty_slot]) \<le> tally u xs"
  proof (cases "j = k")
    case True
    then show ?thesis using tally_update [OF assms(2), of u empty_slot] assms(3) by simp
  qed (use two at(1) in linarith)
  show "tally u (xs[k := z, j := empty_slot]) = tally u xs"
    if "j \<noteq> k" "unat (item_count (xs ! j)) + unat (item_count (xs ! k)) \<le> 9999"
    using two [OF that(1)] at(2) [OF that(2)] by linarith
qed

subsection \<open>The shape of a move\<close>

inductive shift :: "bool \<Rightarrow> slots \<Rightarrow> slots \<Rightarrow> bool" where
  \<comment> \<open>the first argument says that nothing is lost\<close>
  shift_swap: "j < length xs \<Longrightarrow> k < length xs \<Longrightarrow> shift b xs (swap_slots j k xs)"
| shift_empty: "j < length xs \<Longrightarrow> k < length xs \<Longrightarrow> item_id (xs ! k) = 0 \<Longrightarrow> shift b xs (move_to_empty j k xs)"
| shift_displace: "j < length xs \<Longrightarrow> k < length xs \<Longrightarrow> m < length xs \<Longrightarrow> distinct [j, k, m] \<Longrightarrow>
    b \<longrightarrow> item_id (xs ! k) = 0 \<Longrightarrow> shift b xs (displace j k m xs)"
| shift_stack: "j < length xs \<Longrightarrow> k < length xs \<Longrightarrow> item_id (xs ! j) = item_id (xs ! k) \<Longrightarrow>
    stacked z (xs ! j) (xs ! k) \<Longrightarrow>
    b \<longrightarrow> j \<noteq> k \<and> unat (item_count (xs ! j)) + unat (item_count (xs ! k)) \<le> 9999 \<Longrightarrow>
    shift b xs (xs[k := z, j := empty_slot])"

inductive_cases shift_cases: "shift b xs ys"

lemma shift_tally:
  assumes "shift b xs ys" "u \<noteq> 0"
  shows "length ys = length xs \<and> tally u ys \<le> tally u xs \<and> (b \<longrightarrow> tally u ys = tally u xs)"
  using assms
proof (cases rule: shift.cases)
  case (shift_displace j k m)
  then have "tally u ys + at_slot u (xs ! k) = tally u xs" using displace_tally [of j xs k m u] assms(2) by simp
  then show ?thesis using shift_displace assms(2) by auto
qed (use assms(2) in \<open>simp_all add: swap_slots_tally move_to_empty_tally stacked_tally\<close>)

lemma shift_swap_items: "j < length xs \<Longrightarrow> k < length xs \<Longrightarrow> shift b xs (swap_items j k xs)"
  by (simp add: swap_items_def shift_swap shift_empty)

lemma shift_merge:
  assumes "j < length xs" "k < length xs" "item_id (xs ! j) = item_id (xs ! k)"
    and "b \<longrightarrow> j \<noteq> k \<and> unat (item_count (xs ! j)) + unat (item_count (xs ! k)) \<le> 9999"
  shows "shift b xs (merge_into j k xs)" "shift b xs (merge_over j k xs)"
  using merges [OF assms(3)] shift_stack [OF assms(1-3) _ assms(4)] by metis+

definition type_at :: "(u32 \<rightharpoonup> item_def) \<Rightarrow> slots \<Rightarrow> nat \<Rightarrow> i32 option" where
  "type_at tbl xs k = (if item_id (xs ! k) = 0 then None else Option.bind (tbl (item_id (xs ! k))) slot_type)"

definition hands_ok :: "(u32 \<rightharpoonup> item_def) \<Rightarrow> slots \<Rightarrow> bool" where
  \<comment> \<open>a two-handed weapon leaves the other hand empty\<close>
  "hands_ok tbl xs \<longleftrightarrow>
     (type_at tbl xs RIGHTHAND = Some ITEM_SLOT_2H_RIGHT \<longrightarrow> item_id (xs ! LEFTHAND) = 0)
     \<and> (type_at tbl xs LEFTHAND = Some ITEM_SLOT_2H_LEFT \<longrightarrow> item_id (xs ! RIGHTHAND) = 0)"

definition equipment_fits :: "(u32 \<rightharpoonup> item_def) \<Rightarrow> slots \<Rightarrow> bool" where
  "equipment_fits tbl xs \<longleftrightarrow> (\<forall>k < SLOT_MAX. item_id (xs ! k) \<noteq> 0 \<longrightarrow>
     (\<exists>it. tbl (item_id (xs ! k)) = Some it \<and> is_valid_slot_pos it k))"

definition equipment_ok :: "(u32 \<rightharpoonup> item_def) \<Rightarrow> slots \<Rightarrow> bool" where
  "equipment_ok tbl xs \<longleftrightarrow> INVENTORY_TOTAL \<le> length xs \<and> equipment_fits tbl xs \<and> hands_ok tbl xs"

lemma hands: "RIGHTHAND = 6" "LEFTHAND = 8" "RIGHTHAND < 14" "LEFTHAND < 14" "RIGHTHAND \<noteq> LEFTHAND"
  by (simp_all add: equip_slots)

lemma two_handed_shift:
  assumes j: "14 \<le> j" "j < length xs" and k: "k < 14" and it: "is_valid_slot_pos it k"
    and move: "handle_two_handed_equip j k (slot_of it) (type_at tbl xs RIGHTHAND) (type_at tbl xs LEFTHAND) xs = (True, xs')"
    and ok: "b \<longrightarrow> hands_ok tbl xs"
  shows "shift b xs xs'"
proof -
  have len: "k < length xs" "RIGHTHAND < length xs" "LEFTHAND < length xs" using j k by (simp_all add: hands)
  have apart: "j \<noteq> k" "j \<noteq> RIGHTHAND" "j \<noteq> LEFTHAND" using j k by (simp_all add: hands)
  have swap: "shift b xs (swap_items j k xs)" using shift_swap_items j(2) len(1) by blast
  have right: "shift b xs (two_hand_check_1h_right j k (type_at tbl xs LEFTHAND) xs)" if "k = RIGHTHAND"
    using swap shift_displace [of j xs k LEFTHAND b] j len apart that ok
    by (auto simp: two_hand_check_1h_right_def hands hands_ok_def)
  have left: "shift b xs (two_hand_check_1h_left j k (type_at tbl xs RIGHTHAND) xs)" if "k = LEFTHAND"
    using swap shift_displace [of j xs k RIGHTHAND b] j len apart that ok
    by (auto simp: two_hand_check_1h_left_def hands hands_ok_def)
  have both: "shift b xs (displace j RIGHTHAND LEFTHAND xs)" if "item_id (xs ! RIGHTHAND) = 0"
    using shift_displace [of j xs RIGHTHAND LEFTHAND b] j len apart that by (simp add: hands)
  have both': "shift b xs (displace j LEFTHAND RIGHTHAND xs)" if "item_id (xs ! LEFTHAND) = 0"
    using shift_displace [of j xs LEFTHAND RIGHTHAND b] j len apart that by (simp add: hands)
  have at: "slot_of it = ITEM_SLOT_1H_RIGHT \<Longrightarrow> k = RIGHTHAND" "slot_of it = ITEM_SLOT_1H_LEFT \<Longrightarrow> k = LEFTHAND"
    using it by (simp_all add: is_valid_slot_pos_def slot_types)
  show ?thesis
    using move swap right left both both' at
    by (simp add: handle_two_handed_equip_def split: if_splits) (auto simp: slot_types)
qed

lemma other_place: "src \<noteq> dst \<longrightarrow> n + unat src \<noteq> n + unat (dst :: u8)"
  by (simp add: word_unat_eq_iff)

lemma cosp_index: "cosp_pos_to_abs_index p = Some k \<Longrightarrow> 42 \<le> k"
  by (auto simp: cosp_pos_to_abs_index_def regions_of_bag split: if_splits)

lemma cosp_destination_bounds: "cosp_destination it dst xs = Some k \<Longrightarrow> 42 \<le> k \<and> k < length xs"
  by (auto simp: cosp_destination_def Let_def regions_of_bag split: if_splits option.splits dest: cosp_index)

lemma put_in_mbag_shift:
  assumes "j < length xs" "k < length xs" "item_id (xs ! j) = i"
    and "b \<longrightarrow> j \<noteq> k \<and> unat (item_count (xs ! j)) + unat (item_count (xs ! k)) \<le> 9999"
  shows "shift b xs (put_in_mbag i it j k xs)"
  using assms shift_merge [of j xs k b] shift_swap_items by (simp add: put_in_mbag_def)

definition merging :: "item_move_dir \<Rightarrow> bool" where
  "merging d \<longleftrightarrow> d = InvenInven \<or> d = InvenToMbag \<or> d = MbagToMbag"

definition gentle :: "item_def \<Rightarrow> u8 \<Rightarrow> u8 \<Rightarrow> u32 \<Rightarrow> (u32 \<rightharpoonup> item_def) \<Rightarrow> slots \<Rightarrow> bool" where
  \<comment> \<open>a move that loses nothing: sound hands, and for stacks two places and at most 9,999 pieces in all\<close>
  "gentle it src dst i tbl xs \<longleftrightarrow> hands_ok tbl xs \<and> (is_countable it \<longrightarrow> src \<noteq> dst \<and> tally i xs \<le> 9999)"

lemma tally_ge_two:
  assumes "j < length xs" "k < length xs" "j \<noteq> k"
  shows "at_slot i (xs ! j) + at_slot i (xs ! k) \<le> tally i xs"
  using tally_two [OF assms, of i "xs ! k" empty_slot] tally_two [OF assms, of i empty_slot empty_slot]
  by (simp add: at_slot_def empty_slot_def split: if_splits)

lemma merge_safe:
  assumes "j < length xs" "k < length xs" "j \<noteq> k" "item_id (xs ! j) = i" "item_id (xs ! k) = i" "tally i xs \<le> 9999"
  shows "unat (item_count (xs ! j)) + unat (item_count (xs ! k)) \<le> 9999"
  using tally_ge_two [OF assms(1-3), of i] assms(4-6) by (simp add: at_slot_def)

lemma inven_inven_shift:
  assumes move: "move_inven_inven i it (unat src) (unat dst) xs = (True, xs')" and len: "96 \<le> length xs"
    and gentle: "b \<longrightarrow> gentle it src dst i tbl xs"
  shows "shift b xs xs'"
proof -
  let ?j = "14 + unat src" and ?k = "14 + unat dst"
  have m: "?j < length xs" "?k < length xs" "item_id (xs ! ?j) = i"
      "xs' = (if is_countable it \<and> item_id (xs ! ?k) = i \<and> item_id (xs ! ?k) \<noteq> 0
              then merge_into ?j ?k xs else swap_items ?j ?k xs)"
    using move len by (auto simp: move_inven_inven_def Let_def regions_of_bag split: if_splits)
  show ?thesis
  proof (cases "is_countable it \<and> item_id (xs ! ?k) = i \<and> item_id (xs ! ?k) \<noteq> 0")
    case True
    have "b \<longrightarrow> ?j \<noteq> ?k \<and> unat (item_count (xs ! ?j)) + unat (item_count (xs ! ?k)) \<le> 9999"
    proof
      assume b
      then have g: "src \<noteq> dst" "tally i xs \<le> 9999" using gentle True by (simp_all add: gentle_def)
      then have "?j \<noteq> ?k" using other_place by blast
      then show "?j \<noteq> ?k \<and> unat (item_count (xs ! ?j)) + unat (item_count (xs ! ?k)) \<le> 9999"
        using merge_safe [OF m(1,2) _ m(3)] True g(2) by blast
    qed
    then show ?thesis using shift_merge(1) [OF m(1,2)] m True by auto
  qed (use m shift_swap_items in auto)
qed

lemma to_mbag_shift:
  assumes m: "j < length xs" "k < length xs" "item_id (xs ! j) = i" and apart: "src \<noteq> dst \<longrightarrow> j \<noteq> k"
    and gentle: "b \<longrightarrow> gentle it src dst i tbl xs"
  shows "shift b xs (put_in_mbag i it j k xs)"
proof (cases "item_id (xs ! k) = i \<and> is_countable it")
  case True
  have "b \<longrightarrow> j \<noteq> k \<and> unat (item_count (xs ! j)) + unat (item_count (xs ! k)) \<le> 9999"
    using gentle True apart merge_safe [OF m(1,2) _ m(3)] by (auto simp: gentle_def)
  then show ?thesis using put_in_mbag_shift m by blast
next
  case False
  then have "put_in_mbag i it j k xs = swap_items j k xs" by (auto simp: put_in_mbag_def)
  then show ?thesis using shift_swap_items m by simp
qed

lemma apply_move_shift:
  assumes move: "apply_move d i it (type_at tbl xs RIGHTHAND) (type_at tbl xs LEFTHAND) src dst xs = (True, xs')"
    and len: "96 \<le> length xs" and gentle: "b \<longrightarrow> gentle it src dst i tbl xs"
    and fit: "d = InvenSlot \<Longrightarrow> is_valid_slot_pos it (unat dst)"
  shows "shift b xs xs'"
proof -
  have swap: "shift b xs (swap_items j k xs)" if "j < 96 \<or> j < length xs" "k < 96 \<or> k < length xs" for j k
    using shift_swap_items that len by (meson less_le_trans)
  show ?thesis
  proof (cases d)
    case InvenSlot
    let ?j = "14 + unat src"
    have "?j < 96" "unat dst < 14" "handle_two_handed_equip ?j (unat dst) (slot_of it)
        (type_at tbl xs RIGHTHAND) (type_at tbl xs LEFTHAND) xs = (True, xs')"
      using move by (auto simp: InvenSlot apply_move_def move_inven_slot_def Let_def regions_of_bag split: if_splits)
    then show ?thesis using two_handed_shift [of ?j xs "unat dst" it tbl xs' b] fit [OF InvenSlot] len gentle
      by (auto simp: gentle_def)
  next
    case SlotInven
    then show ?thesis using move swap by (auto simp: apply_move_def move_slot_inven_def Let_def regions_of_bag split: if_splits)
  next
    case InvenInven
    then show ?thesis using inven_inven_shift [OF _ len gentle, of xs'] move by (simp add: apply_move_def)
  next
    case SlotSlot
    then show ?thesis using move shift_swap [of _ xs _ b] len
      by (auto simp: apply_move_def move_slot_slot_def Let_def regions_of_bag split: if_splits)
  next
    case InvenToCosp
    then show ?thesis using move swap cosp_destination_bounds
      by (auto simp: apply_move_def move_inven_to_cosp_def Let_def regions_of_bag split: if_splits option.splits)
  next
    case CospToInven
    then show ?thesis using move swap
      by (auto simp: apply_move_def move_cosp_to_inven_def Let_def regions_of_bag split: if_splits option.splits)
  next
    case InvenToMbag
    let ?j = "14 + unat src" and ?k = "53 + unat dst"
    have "?j < 42" "?k < 96" "item_id (xs ! ?j) = i" "xs' = put_in_mbag i it ?j ?k xs"
      using move by (auto simp: InvenToMbag apply_move_def move_inven_to_mbag_def Let_def regions_of_bag split: if_splits)
    then show ?thesis using to_mbag_shift [of ?j xs ?k i src dst b it tbl] gentle len by simp
  next
    case MbagToInven
    then show ?thesis using move swap by (auto simp: apply_move_def move_mbag_to_inven_def Let_def regions_of_bag split: if_splits)
  next
    case MbagToMbag
    let ?j = "53 + unat src" and ?k = "53 + unat dst"
    have "?j < 96" "?k < 96" "item_id (xs ! ?j) = i" "xs' = put_in_mbag i it ?j ?k xs"
      using move by (auto simp: MbagToMbag apply_move_def move_mbag_to_mbag_def Let_def regions_of_bag split: if_splits)
    then show ?thesis using to_mbag_shift [of ?j xs ?k i src dst b it tbl] gentle len other_place [of src dst 53] by simp
  next
    case SlotInvenToMbag
    then show ?thesis using move swap
      by (auto simp: apply_move_def move_slot_inven_to_mbag_def Let_def regions_of_bag split: if_splits)
  qed (use move in \<open>simp_all add: apply_move_def\<close>)
qed

subsection \<open>The equipment\<close>

lemma type_at_cong: "xs ! k = ys ! k \<Longrightarrow> type_at tbl xs k = type_at tbl ys k"
  by (simp add: type_at_def cong: if_cong)

lemma same_equipment:
  assumes "\<And>k. k < 14 \<Longrightarrow> xs' ! k = xs ! k" "length xs' = length xs"
  shows "equipment_ok tbl xs' \<longleftrightarrow> equipment_ok tbl xs"
  using assms by (simp add: equipment_ok_def equipment_fits_def hands_ok_def type_at_def hands SLOT_MAX_def)

lemma away:
  assumes "k < 14" "14 \<le> j" "14 \<le> m"
  shows "swap_slots j m xs ! k = xs ! k" "swap_items j m xs ! k = xs ! k"
    "merge_into j m xs ! k = xs ! k" "merge_over j m xs ! k = xs ! k" "put_in_mbag i it j m xs ! k = xs ! k"
  using assms by (simp_all add: swap_items_def swap_slots_def move_to_empty_def merge_into_def merge_over_def put_in_mbag_def Let_def)

lemma apply_move_away:
  assumes move: "apply_move d i it rh lh src dst xs = (True, xs')" and d: "d \<notin> {InvenSlot, SlotInven, SlotSlot}"
    and len: "96 \<le> length xs"
  shows "equipment_ok tbl xs' \<longleftrightarrow> equipment_ok tbl xs"
proof (rule same_equipment)
  have "\<exists>j m. 14 \<le> j \<and> 14 \<le> m \<and> xs' \<in> {swap_items j m xs, merge_into j m xs, put_in_mbag i it j m xs}"
  proof (cases d)
    case InvenToCosp
    then obtain k where "cosp_destination it dst xs = Some k" "xs' = swap_items (14 + unat src) k xs"
      using move by (auto simp: apply_move_def move_inven_to_cosp_def Let_def SLOT_MAX_def split: if_splits option.splits)
    moreover have "14 \<le> k" using cosp_destination_bounds calculation(1) by fastforce
    ultimately show ?thesis by (intro exI [of _ "14 + unat src"] exI [of _ k]) simp
  next
    case CospToInven
    then obtain k where k: "cosp_pos_to_abs_index src = Some k" "xs' = swap_items k (14 + unat dst) xs"
      using move by (auto simp: apply_move_def move_cosp_to_inven_def Let_def SLOT_MAX_def split: if_splits option.splits)
    have "14 \<le> k" using cosp_index [OF k(1)] by simp
    then show ?thesis using k(2) by (intro exI [of _ k] exI [of _ "14 + unat dst"]) simp
  next
    case SlotInvenToMbag
    then show ?thesis
      using move by (intro exI [of _ "14 + unat src"] exI [of _ "if unat dst = 3 then CBAG3 else INVENTORY_COSP + unat dst + 8"])
        (auto simp: apply_move_def move_slot_inven_to_mbag_def Let_def regions_of_bag split: if_splits)
  next
    case InvenInven
    then show ?thesis
      using move by (intro exI [of _ "14 + unat src"] exI [of _ "14 + unat dst"])
        (auto simp: apply_move_def move_inven_inven_def Let_def regions_of_bag split: if_splits)
  next
    case InvenToMbag
    then show ?thesis
      using move by (intro exI [of _ "14 + unat src"] exI [of _ "53 + unat dst"])
        (auto simp: apply_move_def move_inven_to_mbag_def Let_def regions_of_bag split: if_splits)
  next
    case MbagToInven
    then show ?thesis
      using move by (intro exI [of _ "53 + unat src"] exI [of _ "14 + unat dst"])
        (auto simp: apply_move_def move_mbag_to_inven_def Let_def regions_of_bag split: if_splits)
  next
    case MbagToMbag
    then show ?thesis
      using move by (intro exI [of _ "53 + unat src"] exI [of _ "53 + unat dst"])
        (auto simp: apply_move_def move_mbag_to_mbag_def Let_def regions_of_bag split: if_splits)
  qed (use d move in \<open>simp_all add: apply_move_def\<close>)
  then obtain j m where "14 \<le> j" "14 \<le> m" "xs' \<in> {swap_items j m xs, merge_into j m xs, put_in_mbag i it j m xs}" by blast
  then show "xs' ! k = xs ! k" if "k < 14" for k using away that by auto
  show "length xs' = length xs" using \<open>xs' \<in> _\<close> by (auto simp: put_in_mbag_def)
qed

lemma equipment_okI:
  assumes "96 \<le> length xs" "\<And>k. k < 14 \<Longrightarrow> item_id (xs ! k) \<noteq> 0 \<Longrightarrow> \<exists>it. tbl (item_id (xs ! k)) = Some it \<and> is_valid_slot_pos it k"
    "type_at tbl xs 6 = Some 3 \<Longrightarrow> item_id (xs ! 8) = 0" "type_at tbl xs 8 = Some 4 \<Longrightarrow> item_id (xs ! 6) = 0"
  shows "equipment_ok tbl xs"
  using assms by (simp add: equipment_ok_def equipment_fits_def hands_ok_def regions_of_bag hands slot_types)

lemma equipment_okD:
  assumes "equipment_ok tbl xs"
  shows "96 \<le> length xs" "\<And>k. k < 14 \<Longrightarrow> item_id (xs ! k) \<noteq> 0 \<Longrightarrow> \<exists>it. tbl (item_id (xs ! k)) = Some it \<and> is_valid_slot_pos it k"
    "type_at tbl xs 6 = Some 3 \<Longrightarrow> item_id (xs ! 8) = 0" "type_at tbl xs 8 = Some 4 \<Longrightarrow> item_id (xs ! 6) = 0"
  using assms by (simp_all add: equipment_ok_def equipment_fits_def hands_ok_def regions_of_bag hands slot_types)

lemma type_of_slot: "slot_of it = v \<Longrightarrow> v \<noteq> -1 \<Longrightarrow> slot_type it = Some v"
  by (cases "slot_type it") (simp_all add: slot_of_def)

lemma slot_of_type: "slot_type it = Some v \<Longrightarrow> slot_of it = v"
  by (simp add: slot_of_def)

lemma valid_hand:
  "is_valid_slot_pos it 6 \<Longrightarrow> slot_of it \<in> {0, 1, 3}" "is_valid_slot_pos it 8 \<Longrightarrow> slot_of it \<in> {0, 2, 4}"
  "is_valid_slot_pos it k \<Longrightarrow> slot_of it = 1 \<Longrightarrow> k = 6" "is_valid_slot_pos it k \<Longrightarrow> slot_of it = 3 \<Longrightarrow> k = 6"
  "is_valid_slot_pos it k \<Longrightarrow> slot_of it = 2 \<Longrightarrow> k = 8" "is_valid_slot_pos it k \<Longrightarrow> slot_of it = 4 \<Longrightarrow> k = 8"
  "is_valid_slot_pos it k \<Longrightarrow> slot_of it = 0 \<Longrightarrow> k = 6 \<or> k = 8"
  unfolding is_valid_slot_pos_def Let_def slot_types equip_slots
  by (simp split: if_split_asm; fail)+

lemma valid_same_type: "slot_of it' = slot_of it \<Longrightarrow> is_valid_slot_pos it' k \<longleftrightarrow> is_valid_slot_pos it k"
  by (simp add: is_valid_slot_pos_def)

lemma two_handed_cases:
  assumes move: "handle_two_handed_equip j k (slot_of it) (type_at tbl xs 6) (type_at tbl xs 8) xs = (True, xs')"
    and it: "is_valid_slot_pos it k"
  shows "xs' = swap_items j k xs
      \<and> (k = 6 \<longrightarrow> type_at tbl xs 8 \<noteq> Some 4 \<and> (slot_of it = 3 \<longrightarrow> item_id (xs ! 8) = 0))
      \<and> (k = 8 \<longrightarrow> type_at tbl xs 6 \<noteq> Some 3 \<and> (slot_of it = 4 \<longrightarrow> item_id (xs ! 6) = 0))
    \<or> k = 6 \<and> xs' = displace j 6 8 xs \<or> k = 8 \<and> xs' = displace j 8 6 xs"
proof -
  have none: "item_id (xs ! m) = 0 \<Longrightarrow> type_at tbl xs m \<noteq> Some v" for m v by (simp add: type_at_def)
  note defs = handle_two_handed_equip_def two_hand_check_1h_right_def two_hand_check_1h_left_def hands slot_types
  consider "k = 6" "slot_of it = 0 \<or> slot_of it = 1" | "k = 6" "slot_of it = 3" | "k = 8" "slot_of it = 0 \<or> slot_of it = 2"
    | "k = 8" "slot_of it = 4" | "k \<noteq> 6" "k \<noteq> 8"
    using valid_hand(1,2) [of it] it by blast
  then show ?thesis
  proof cases
    case 1
    then have "xs' = two_hand_check_1h_right j 6 (type_at tbl xs 8) xs" using move by (auto simp: defs)
    then show ?thesis using 1 none [of 8] by (auto simp: two_hand_check_1h_right_def hands slot_types split: if_splits)
  next
    case 2
    then have "xs' = (if item_id (xs ! 8) \<noteq> 0 then displace j 6 8 xs else swap_items j 6 xs)"
      using move by (auto simp: handle_two_handed_equip_def hands slot_types split: if_splits)
    then show ?thesis using 2 none [of 8] by auto
  next
    case 3
    then have "xs' = two_hand_check_1h_left j 8 (type_at tbl xs 6) xs" using move by (auto simp: defs)
    then show ?thesis using 3 none [of 6] by (auto simp: two_hand_check_1h_left_def hands slot_types split: if_splits)
  next
    case 4
    then have "xs' = (if item_id (xs ! 6) \<noteq> 0 then displace j 8 6 xs else swap_items j 8 xs)"
      using move by (auto simp: handle_two_handed_equip_def hands slot_types split: if_splits)
    then show ?thesis using 4 none [of 6] by auto
  next
    case 5
    then have "slot_of it \<notin> {0, 1, 2, 3, 4}" using valid_hand(3-7) [OF it] by blast
    then show ?thesis using move 5 by (simp add: handle_two_handed_equip_def hands slot_types)
  qed
qed

lemma equipped_slots:
  assumes k: "is_valid_slot_pos it k" "k < 14" and j: "14 \<le> j" "j < length xs"
    and move: "handle_two_handed_equip j k (slot_of it) (type_at tbl xs 6) (type_at tbl xs 8) xs = (True, xs')"
  shows "length xs' = length xs" "xs' ! k = xs ! j"
    and "m < 14 \<Longrightarrow> m \<noteq> k \<Longrightarrow> xs' ! m = xs ! m \<or> xs' ! m = empty_slot"
    and "m < 14 \<Longrightarrow> m \<noteq> k \<Longrightarrow> type_at tbl xs' m = type_at tbl xs m \<or> type_at tbl xs' m = None"
proof -
  show "length xs' = length xs" using two_handed_cases [OF move k(1)] by auto
  show "xs' ! k = xs ! j"
    using two_handed_cases [OF move k(1)] j k(2) by (auto simp: swap_items_def swap_slots_def move_to_empty_def displace_def Let_def)
  have there: "m < 14 \<Longrightarrow> m \<noteq> k \<Longrightarrow> xs' ! m = xs ! m \<or> xs' ! m = empty_slot" for m
    using two_handed_cases [OF move k(1)] j k(2)
    by (auto simp: swap_items_def swap_slots_def move_to_empty_def displace_def Let_def nth_list_update)
  show "m < 14 \<Longrightarrow> m \<noteq> k \<Longrightarrow> xs' ! m = xs ! m \<or> xs' ! m = empty_slot" by (rule there)
  show "m < 14 \<Longrightarrow> m \<noteq> k \<Longrightarrow> type_at tbl xs' m = type_at tbl xs m \<or> type_at tbl xs' m = None"
    using there [of m] by (auto simp: type_at_def empty_slot_def)
qed

lemma other_hand_empty:
  \<comment> \<open>\<open>a\<close> is the hand with the two-handed weapon of type \<open>va\<close>, \<open>b\<close> the other one\<close>
  assumes cases: "xs' = swap_items j k xs \<and> (k = a \<longrightarrow> slot_of it = va \<longrightarrow> item_id (xs ! b) = 0)
      \<and> (k = b \<longrightarrow> type_at tbl xs a \<noteq> Some va)
    \<or> k = a \<and> xs' = displace j a b xs \<or> k = b \<and> xs' = displace j b a xs"
    and j: "14 \<le> j" "j < length xs" and ab: "a < 14" "b < 14" "a \<noteq> b"
    and type_k: "type_at tbl xs' k = slot_type it"
    and type_a: "a \<noteq> k \<Longrightarrow> type_at tbl xs' a = type_at tbl xs a \<or> type_at tbl xs' a = None"
    and old: "type_at tbl xs a = Some va \<Longrightarrow> item_id (xs ! b) = 0"
    and t: "type_at tbl xs' a = Some va"
  shows "item_id (xs' ! b) = 0"
  using cases
proof (elim disjE conjE)
  assume s: "xs' = swap_items j k xs" "k = a \<longrightarrow> slot_of it = va \<longrightarrow> item_id (xs ! b) = 0"
    "k = b \<longrightarrow> type_at tbl xs a \<noteq> Some va"
  have same: "b \<noteq> k \<Longrightarrow> xs' ! b = xs ! b" using s(1) j ab by (simp add: swap_items_def swap_slots_def move_to_empty_def)
  consider "k = a" | "k = b" | "k \<noteq> a" "k \<noteq> b" by blast
  then show ?thesis
  proof cases
    case 1
    then show ?thesis using s(2) t type_k slot_of_type same ab(3) by auto
  next
    case 2
    then show ?thesis using s(3) t type_a ab(3) by auto
  next
    case 3
    then show ?thesis using same type_a t old by auto
  qed
next
  assume "xs' = displace j a b xs"
  then show ?thesis using j ab by (simp add: displace_def Let_def empty_slot_def)
next
  assume "xs' = displace j b a xs"
  then show ?thesis using t j ab by (simp add: displace_def Let_def type_at_def empty_slot_def)
qed

lemma inven_slot_keeps:
  assumes ok: "equipment_ok tbl xs" and i: "i \<noteq> 0" "tbl i = Some it" "item_id (xs ! j) = i"
    and k: "is_valid_slot_pos it k" "k < 14" and j: "14 \<le> j" "j < length xs"
    and move: "handle_two_handed_equip j k (slot_of it) (type_at tbl xs 6) (type_at tbl xs 8) xs = (True, xs')"
  shows "equipment_ok tbl xs'"
proof (rule equipment_okI)
  note old = equipment_okD [OF ok]
  note new = equipped_slots [OF k j move]
  have type_k: "type_at tbl xs' k = slot_type it" using new(2) i by (simp add: type_at_def)
  show "96 \<le> length xs'" using new(1) old(1) by simp
  show "\<exists>it. tbl (item_id (xs' ! m)) = Some it \<and> is_valid_slot_pos it m" if "m < 14" "item_id (xs' ! m) \<noteq> 0" for m
    using new(2) new(3) [OF that(1)] old(2) [OF that(1)] i k(1) that by (cases "m = k") (auto simp: empty_slot_def)
  show "item_id (xs' ! 8) = 0" if t: "type_at tbl xs' 6 = Some 3"
    by (rule other_hand_empty [OF _ j _ _ _ type_k new(4) old(3) t]) (use two_handed_cases [OF move k(1)] in auto)
  show "item_id (xs' ! 6) = 0" if t: "type_at tbl xs' 8 = Some 4"
    by (rule other_hand_empty [OF _ j _ _ _ type_k new(4) old(4) t]) (use two_handed_cases [OF move k(1)] in auto)
qed

lemma slot_inven_keeps:
  assumes ok: "equipment_ok tbl xs" and i: "i \<noteq> 0" "tbl i = Some it" "item_id (xs ! j) = i"
    and j: "j < 14" "14 \<le> k" "k < length xs"
    and dest_ok: "item_id (xs ! k) \<noteq> 0 \<Longrightarrow>
      \<exists>it'. tbl (item_id (xs ! k)) = Some it' \<and> slot_of it' = slot_of it \<and> is_valid_slot_pos it' j"
  shows "equipment_ok tbl (swap_items j k xs)"
proof -
  let ?xs = "swap_items j k xs"
  note old = equipment_okD [OF ok]
  have there: "m < 14 \<Longrightarrow> m \<noteq> j \<Longrightarrow> ?xs ! m = xs ! m" for m
    using j by (simp add: swap_items_def swap_slots_def move_to_empty_def)
  have here: "item_id (?xs ! j) \<noteq> 0 \<Longrightarrow> ?xs ! j = xs ! k \<and> item_id (xs ! k) \<noteq> 0"
    using j by (simp add: swap_items_def swap_slots_def move_to_empty_def empty_slot_def split: if_splits)
  have type_m: "m < 14 \<Longrightarrow> m \<noteq> j \<Longrightarrow> type_at tbl ?xs m = type_at tbl xs m" for m using there by (simp add: type_at_def)
  have type_j: "type_at tbl xs j = Some v" if t: "type_at tbl ?xs j = Some v" and v: "v \<noteq> -1" for v
  proof -
    have "item_id (?xs ! j) \<noteq> 0" using t by (auto simp: type_at_def split: if_splits)
    then obtain it' where it': "?xs ! j = xs ! k" "item_id (xs ! k) \<noteq> 0" "tbl (item_id (xs ! k)) = Some it'" "slot_of it' = slot_of it"
      using here dest_ok by blast
    then have "slot_of it = v" using t slot_of_type [of it' v] by (simp add: type_at_def)
    then show ?thesis using type_of_slot [of it v] v i by (simp add: type_at_def)
  qed
  show ?thesis
  proof (rule equipment_okI)
    show "96 \<le> length ?xs" using old(1) by simp
    show "\<exists>it. tbl (item_id (?xs ! m)) = Some it \<and> is_valid_slot_pos it m" if "m < 14" "item_id (?xs ! m) \<noteq> 0" for m
      using there [of m] here dest_ok old(2) [of m] that by (cases "m = j") auto
    show "item_id (?xs ! 8) = 0" if t: "type_at tbl ?xs 6 = Some 3"
    proof (cases "j = 8")
      case True
      then show ?thesis using t type_m [of 6] old(3) i by simp
    next
      case False
      then have "type_at tbl xs 6 = Some 3" using t type_m [of 6] type_j [of 3] by (cases "j = 6") simp_all
      then show ?thesis using old(3) there [of 8] False by simp
    qed
    show "item_id (?xs ! 6) = 0" if t: "type_at tbl ?xs 8 = Some 4"
    proof (cases "j = 6")
      case True
      then show ?thesis using t type_m [of 8] old(4) i by simp
    next
      case False
      then have "type_at tbl xs 8 = Some 4" using t type_m [of 8] type_j [of 4] by (cases "j = 8") simp_all
      then show ?thesis using old(4) there [of 6] False by simp
    qed
  qed
qed

lemma slot_slot_keeps:
  assumes ok: "equipment_ok tbl xs" and i: "i \<noteq> 0" "tbl i = Some it" "item_id (xs ! j) = i"
    and j: "j < 14" "k < 14" and k: "is_valid_slot_pos it k"
    and dest_ok: "item_id (xs ! k) \<noteq> 0 \<Longrightarrow> \<exists>it'. tbl (item_id (xs ! k)) = Some it' \<and> slot_of it' = slot_of it"
  shows "equipment_ok tbl (swap_slots j k xs)"
proof (cases "j = k")
  case True
  then show ?thesis using ok by (simp add: swap_slots_def)
next
  case False
  let ?xs = "swap_slots j k xs"
  note old = equipment_okD [OF ok]
  have jv: "is_valid_slot_pos it j" using old(2) [OF j(1)] i by auto
  have at: "?xs ! k = xs ! j" "?xs ! j = xs ! k" "\<And>m. m \<noteq> j \<Longrightarrow> m \<noteq> k \<Longrightarrow> ?xs ! m = xs ! m"
    using j old(1) False by (simp_all add: swap_slots_def)
  have ty: "type_at tbl ?xs m = None \<or> slot_of it = v" if "m = j \<or> m = k" "type_at tbl ?xs m = Some v" for m v
    using that at dest_ok i slot_of_type by (fastforce simp: type_at_def split: if_splits)
  have hand: "slot_of it = 0" if "j \<in> {6, 8} \<or> k \<in> {6, 8}"
    using that valid_hand(1,2) [of it] valid_hand(3-6) [OF jv] valid_hand(3-6) [OF k] jv k False by auto
  have both: "{j, k} = {6, 8}" if "j \<in> {6, 8} \<or> k \<in> {6, 8}"
    using valid_hand(7) [OF jv hand [OF that]] valid_hand(7) [OF k hand [OF that]] False by auto
  show ?thesis
  proof (rule equipment_okI)
    show "96 \<le> length ?xs" using old(1) by simp
    show "\<exists>it. tbl (item_id (?xs ! m)) = Some it \<and> is_valid_slot_pos it m" if m: "m < 14" "item_id (?xs ! m) \<noteq> 0" for m
    proof -
      consider "m = k" | "m = j" | "m \<noteq> j" "m \<noteq> k" by blast
      then show ?thesis
      proof cases
        case 1
        then show ?thesis using at(1) i k by simp
      next
        case 2
        then show ?thesis using at(2) dest_ok m valid_same_type jv by metis
      qed (use at(3) old(2) m in auto)
    qed
    show "item_id (?xs ! 8) = 0" if t: "type_at tbl ?xs 6 = Some 3"
    proof (cases "j \<in> {6, 8} \<or> k \<in> {6, 8}")
      case True
      then have "slot_of it = 0" "6 = j \<or> 6 = k" using hand both by (blast, auto simp: doubleton_eq_iff)
      then show ?thesis using ty [of 6 3] t by auto
    next
      case False
      then have "?xs ! 6 = xs ! 6" "?xs ! 8 = xs ! 8" by (auto intro!: at(3))
      then show ?thesis using old(3) t type_at_cong [of ?xs _ xs tbl] by metis
    qed
    show "item_id (?xs ! 6) = 0" if t: "type_at tbl ?xs 8 = Some 4"
    proof (cases "j \<in> {6, 8} \<or> k \<in> {6, 8}")
      case True
      then have "slot_of it = 0" "8 = j \<or> 8 = k" using hand both by (blast, auto simp: doubleton_eq_iff)
      then show ?thesis using ty [of 8 4] t by auto
    next
      case False
      then have "?xs ! 6 = xs ! 6" "?xs ! 8 = xs ! 8" by (auto intro!: at(3))
      then show ?thesis using old(4) t type_at_cong [of ?xs _ xs tbl] by metis
    qed
  qed
qed

lemma apply_move_keeps:
  assumes ok: "equipment_ok tbl xs" and i: "i \<noteq> 0" "tbl i = Some it"
    and move: "apply_move d i it (type_at tbl xs RIGHTHAND) (type_at tbl xs LEFTHAND) src dst xs = (True, xs')"
    and fit: "d = InvenSlot \<or> d = SlotSlot \<Longrightarrow> is_valid_slot_pos it (unat dst)"
    and dest_ok: "d = SlotInven \<Longrightarrow> item_id (xs ! (14 + unat dst)) \<noteq> 0 \<Longrightarrow>
      \<exists>it'. tbl (item_id (xs ! (14 + unat dst))) = Some it' \<and> slot_of it' = slot_of it \<and> is_valid_slot_pos it' (unat src)"
      "d = SlotSlot \<Longrightarrow> item_id (xs ! unat dst) \<noteq> 0 \<Longrightarrow>
      \<exists>it'. tbl (item_id (xs ! unat dst)) = Some it' \<and> slot_of it' = slot_of it"
  shows "equipment_ok tbl xs'"
proof -
  have len: "96 \<le> length xs" by (rule equipment_okD(1) [OF ok])
  consider "d = InvenSlot" | "d = SlotInven" | "d = SlotSlot" | "d \<notin> {InvenSlot, SlotInven, SlotSlot}" by blast
  then show ?thesis
  proof cases
    case 1
    let ?j = "14 + unat src"
    have "?j < 96" "unat dst < 14" "item_id (xs ! ?j) = i" "handle_two_handed_equip ?j (unat dst) (slot_of it)
        (type_at tbl xs 6) (type_at tbl xs 8) xs = (True, xs')"
      using move by (auto simp: 1 apply_move_def move_inven_slot_def Let_def regions_of_bag hands(1,2) split: if_splits)
    then show ?thesis using inven_slot_keeps [OF ok i, of ?j "unat dst" xs'] fit 1 len by simp
  next
    case 2
    let ?k = "14 + unat dst"
    have "unat src < 14" "?k < 96" "item_id (xs ! unat src) = i" "xs' = swap_items (unat src) ?k xs"
      using move by (auto simp: 2 apply_move_def move_slot_inven_def Let_def regions_of_bag split: if_splits)
    then show ?thesis using slot_inven_keeps [OF ok i, of "unat src" ?k] dest_ok(1) [OF 2] len by simp
  next
    case 3
    have "unat src < 14" "unat dst < 14" "item_id (xs ! unat src) = i" "xs' = swap_slots (unat src) (unat dst) xs"
      using move by (auto simp: 3 apply_move_def move_slot_slot_def Let_def regions_of_bag split: if_splits)
    then show ?thesis using slot_slot_keeps [OF ok i, of "unat src" "unat dst"] dest_ok(2) [OF 3] fit 3 by simp
  next
    case 4
    then show ?thesis using apply_move_away [OF move 4 len] ok by simp
  qed
qed

subsection \<open>The handler\<close>

definition goods :: "sid \<Rightarrow> world \<Rightarrow> slots \<times> slots option" where
  \<comment> \<open>a session's inventory and its pet's bag\<close>
  "goods t w = session_or ([], None) t (\<lambda>h. (inventory h, pet_items h)) w"

lemma goods_inventory: "get_inventory t w = fst (goods t w)"
  by (cases "wsessions w t") (simp_all add: goods_def get_inventory_def)

lemma goods_send [simp]: "goods t (send_to_session s p w) = goods t w"
  by (simp add: goods_def)

lemma goods_ability [simp]: "goods t (set_user_ability e s w) = goods t w"
  by (simp add: goods_def)

lemma goods_modify:
  "(\<And>h. inventory (f h) = inventory h \<and> pet_items (f h) = pet_items h) \<Longrightarrow> goods t (modify_session s f w) = goods t w"
  by (cases "wsessions w s") (auto simp: goods_def session_or_def)

definition quiet :: "world \<Rightarrow> world \<Rightarrow> bool" where
  \<comment> \<open>nobody's items and no table changed\<close>
  "quiet w w' \<longleftrightarrow> (\<forall>t. goods t w' = goods t w) \<and> witems w' = witems w"

lemma quiet_refl [simp]: "quiet w w"
  by (simp add: quiet_def)

lemma quiet_trans: "quiet w w1 \<Longrightarrow> quiet w1 w2 \<Longrightarrow> quiet w w2"
  by (simp add: quiet_def)

lemma quiet_send [simp]: "quiet w (send_to_session s p w)"
  by (simp add: quiet_def)

lemma quiet_ability: "quiet w (set_user_ability e s w)"
  by (simp add: quiet_def same_tables_items)

lemma quiet_result: "quiet w (snd (send_item_move_result s b w))"
  by (simp add: send_item_move_result_def session_send_def)

lemma quiet_fold: "(\<And>x w. quiet w (f x w)) \<Longrightarrow> quiet w (fold f xs w)"
proof (induction xs arbitrary: w)
  case (Cons x xs)
  then show ?case using quiet_trans [OF Cons.prems [of w x] Cons.IH] by simp
qed simp

lemma quiet_look: "quiet w (broadcast_look_change s d src dst i w)"
proof -
  have p: "quiet w (send_look_change_packet s k i n w)" for k i n w
    by (auto simp: send_look_change_packet_def broadcast_to_3x3_def intro!: quiet_fold split: option.split)
  have r: "quiet w (reveal s xs k w)" for xs k w
    using p by (simp add: reveal_def split: option.split)
  have two: "quiet w (case slice_get xs (unat q) of None \<Rightarrow> w | Some sl \<Rightarrow> send_look_change_packet s q (item_id sl) (durability sl) w)"
    for xs q w using p by (simp split: option.split)
  have f: "quiet w (fold (reveal s xs) ks w)" for xs ks by (rule quiet_fold) (rule r)
  show ?thesis
    unfolding broadcast_look_change_def Let_def
    by (cases d) (use p r f in \<open>simp_all del: fold_simps fold.simps\<close>, intro impI quiet_trans [OF two two])
qed

lemma quiet_note: "quiet w (note_equipped s w)"
  by (simp add: quiet_def note_equipped_def Let_def update_character_stats_def goods_modify)

lemma quiet_helpers: "quiet w (note_helpers s d src dst i w)"
  by (simp add: quiet_def note_helpers_def Let_def goods_modify)

lemma quiet_moved: "quiet w (snd (moved e s d src dst i w))"
proof -
  let ?w = "broadcast_look_change s d src dst i (note_equipped s (set_user_ability e s w))"
  have "quiet w ?w" using quiet_trans [OF quiet_trans [OF quiet_ability quiet_note] quiet_look] by blast
  then have "quiet w (if equipment_change d then ?w else w)" by simp
  then show ?thesis unfolding moved_def Let_def using quiet_trans [OF quiet_trans [OF _ quiet_helpers] quiet_result] by blast
qed

lemma apply_move_False:
  "apply_move d i it rh lh src dst xs = (False, ys) \<Longrightarrow> ys = xs"
  by (cases d) (auto simp: apply_move_def move_inven_slot_def handle_two_handed_equip_def move_slot_inven_def move_inven_inven_def
      move_slot_slot_def move_inven_to_cosp_def move_cosp_to_inven_def move_inven_to_mbag_def move_mbag_to_inven_def
      move_mbag_to_mbag_def move_slot_inven_to_mbag_def Let_def split: if_splits option.splits)

inductive move_effect ::
  "(u32 \<rightharpoonup> item_def) \<Rightarrow> item_move_dir \<Rightarrow> u32 \<Rightarrow> u8 \<Rightarrow> u8 \<Rightarrow> slots \<times> slots option \<Rightarrow> slots \<times> slots option \<Rightarrow> bool"
  for tbl d i src dst where
  \<comment> \<open>what a move request does to the mover's inventory and pet bag\<close>
  effect_none: "move_effect tbl d i src dst (xs, ps) (resize_inventory xs, ps)"
| effect_move: "tbl i = Some it \<Longrightarrow>
    apply_move d i it (type_at tbl (resize_inventory xs) RIGHTHAND) (type_at tbl (resize_inventory xs) LEFTHAND) src dst
      (resize_inventory xs) = (True, ys) \<Longrightarrow>
    (d = InvenSlot \<or> d = SlotSlot \<longrightarrow> is_valid_slot_pos it (unat dst)) \<Longrightarrow>
    (d = SlotInven \<longrightarrow> item_id (resize_inventory xs ! (14 + unat dst)) \<noteq> 0 \<longrightarrow>
      (\<exists>it'. tbl (item_id (resize_inventory xs ! (14 + unat dst))) = Some it' \<and> slot_of it' = slot_of it \<and> is_valid_slot_pos it' (unat src))) \<Longrightarrow>
    (d = SlotSlot \<longrightarrow> item_id (resize_inventory xs ! unat dst) \<noteq> 0 \<longrightarrow>
      (\<exists>it'. tbl (item_id (resize_inventory xs ! unat dst)) = Some it' \<and> slot_of it' = slot_of it)) \<Longrightarrow>
    move_effect tbl d i src dst (xs, ps) (ys, ps)"
| effect_to_pet: "d = InvenToPet \<Longrightarrow> unat dst < PET_INVENTORY_TOTAL \<Longrightarrow> move_to_pet i (unat src) (unat dst) xs ps = (True, ys, qs) \<Longrightarrow>
    move_effect tbl d i src dst (xs, Some ps) (ys, Some qs)"
| effect_from_pet: "d = PetToInven \<Longrightarrow> unat src < PET_INVENTORY_TOTAL \<Longrightarrow> move_from_pet i (unat src) (unat dst) xs ps = (True, ys, qs) \<Longrightarrow>
    move_effect tbl d i src dst (xs, Some ps) (ys, Some qs)"

lemma held_type_at:
  assumes "wsessions w s = Some h" "k < 96"
  shows "held_type s k w = type_at (witems w) (resize_inventory (inventory h)) k"
proof (cases "k < length (inventory h)")
  case True
  then show ?thesis using assms
    by (simp add: held_type_def get_inventory_slot_def type_at_def get_item_def resize_inventory_def nth_append slice_get_def)
next
  case False
  then have "resize_inventory (inventory h) ! k = empty_slot"
    using assms(2) by (simp add: resize_inventory_def nth_append regions_of_bag)
  then show ?thesis using assms False
    by (simp add: held_type_def get_inventory_slot_def type_at_def empty_slot_def slice_get_def)
qed

lemma not_swap_refused:
  assumes "\<not> swap_refused s k P v w" "wsessions w s = Some h" "k < 96" "item_id (resize_inventory (inventory h) ! k) \<noteq> 0"
  shows "\<exists>it'. witems w (item_id (resize_inventory (inventory h) ! k)) = Some it' \<and> slot_of it' = v \<and> P it'"
proof -
  have k: "k < length (inventory h)"
    using assms(3,4) by (rule_tac ccontr) (simp add: resize_inventory_def nth_append regions_of_bag empty_slot_def)
  then have "resize_inventory (inventory h) ! k = inventory h ! k" by (simp add: resize_inventory_def nth_append)
  then show ?thesis using assms k
    by (auto simp: swap_refused_def get_inventory_slot_def slice_get_def get_item_def split: option.splits)
qed

definition only_of :: "sid \<Rightarrow> world \<Rightarrow> world \<Rightarrow> bool" where
  \<comment> \<open>nobody else's items and no table changed\<close>
  "only_of s w w' \<longleftrightarrow> (\<forall>t. t \<noteq> s \<longrightarrow> goods t w' = goods t w) \<and> witems w' = witems w"

lemma quiet_after: "quiet w1 w2 \<Longrightarrow> only_of s w w1 \<Longrightarrow> only_of s w w2 \<and> goods s w2 = goods s w1"
  by (simp add: quiet_def only_of_def)

lemma pet_move_effect:
  assumes d: "d = InvenToPet \<or> d = PetToInven" and h: "wsessions w s = Some h"
    and it: "get_item i w = Some it" "\<not> move_refused s d it src dst w" and run: "w' = snd (pet_move e s d i src dst w)"
  shows "quiet w w' \<or> only_of s w w' \<and> move_effect (witems w) d i src dst (goods s w) (goods s w')"
proof (cases "pet_items h")
  case None
  then have "quiet w w'" using run h quiet_result by (simp add: pet_move_def update_inventory_and_pet_def)
  then show ?thesis by simp
next
  case (Some ps)
  let ?f = "if d = InvenToPet then move_to_pet i (unat src) (unat dst) else move_from_pet i (unat src) (unat dst)"
  obtain b ys qs where f: "?f (inventory h) ps = (b, ys, qs)" by (cases "?f (inventory h) ps") auto
  define w1 where "w1 = modify_session s (\<lambda>h. h\<lparr>inventory := ys, pet_items := Some qs\<rparr>) w"
  have w1: "only_of s w w1" "goods s w1 = (ys, Some qs)"
    using h by (simp_all add: w1_def only_of_def goods_def session_or_modify)
  have "update_inventory_and_pet s ?f w = (b, w1)"
    using h Some f by (simp add: update_inventory_and_pet_def w1_def)
  then have "w' = snd (if b then send_item_move_result s True (set_user_ability e s w1) else send_item_move_result s False w1)"
    using run by (simp add: pet_move_def del: if_image_distrib)
  then have "quiet w1 w'" using quiet_result quiet_trans [OF quiet_ability quiet_result] by simp
  then have end_w: "only_of s w w'" "goods s w' = (ys, Some qs)" using quiet_after [OF _ w1(1)] w1(2) by simp_all
  have "move_effect (witems w) d i src dst (inventory h, Some ps) (ys, Some qs)"
  proof (cases b)
    case True
    then show ?thesis using f it d
      by (cases "d = InvenToPet") (auto simp: move_refused_def intro: effect_to_pet effect_from_pet)
  next
    case False
    then have "ys = resize_inventory (inventory h) \<and> qs = ps"
      using f by (auto simp: move_to_pet_def move_from_pet_def Let_def split: if_splits)
    then show ?thesis by (simp add: effect_none)
  qed
  then show ?thesis using end_w Some h by (simp add: goods_def)
qed

lemma allowed_move_effect:
  assumes h: "wsessions w s = Some h" and it: "witems w i = Some it" "\<not> move_refused s d it src dst w"
    and move: "apply_move d i it (held_type s RIGHTHAND w) (held_type s LEFTHAND w) src dst (resize_inventory (inventory h)) = (True, ys)"
  shows "move_effect (witems w) d i src dst (inventory h, ps) (ys, ps)"
proof -
  let ?xs = "resize_inventory (inventory h)"
  have refuse: "\<not> equip_refused s d it src dst w"
    "d = SlotInven \<Longrightarrow> \<not> swap_refused s (SLOT_MAX + unat dst) (\<lambda>it'. is_valid_slot_pos it' (unat src)) (slot_of it) w"
    "d = SlotSlot \<Longrightarrow> \<not> swap_refused s (unat dst) (\<lambda>_. True) (slot_of it) w"
    using it(2) by (simp_all add: move_refused_def)
  show ?thesis
  proof (rule effect_move [where tbl = "witems w" and i = i and it = it, OF it(1)])
    show "apply_move d i it (type_at (witems w) ?xs RIGHTHAND) (type_at (witems w) ?xs LEFTHAND) src dst ?xs = (True, ys)"
      using move held_type_at [OF h] by (simp add: hands)
    show "d = InvenSlot \<or> d = SlotSlot \<longrightarrow> is_valid_slot_pos it (unat dst)" using refuse(1) by (auto simp: equip_refused_def)
    have bound: "d = SlotInven \<Longrightarrow> unat dst < 28" "d = SlotSlot \<Longrightarrow> unat dst < 14"
      using refuse(1) by (auto simp: equip_refused_def regions_of_bag)
    show "d = SlotInven \<longrightarrow> item_id (?xs ! (14 + unat dst)) \<noteq> 0 \<longrightarrow>
      (\<exists>it'. witems w (item_id (?xs ! (14 + unat dst))) = Some it' \<and> slot_of it' = slot_of it \<and> is_valid_slot_pos it' (unat src))"
      using not_swap_refused [OF refuse(2) h] bound(1) by (auto simp: SLOT_MAX_def)
    show "d = SlotSlot \<longrightarrow> item_id (?xs ! unat dst) \<noteq> 0 \<longrightarrow>
      (\<exists>it'. witems w (item_id (?xs ! unat dst)) = Some it' \<and> slot_of it' = slot_of it)"
      using not_swap_refused [OF refuse(3) h] bound(2) by auto
  qed
qed

lemma own_move_effect:
  assumes d: "\<not> (d = InvenToPet \<or> d = PetToInven)" "from_u8 dir = Some d" and h: "wsessions w s = Some h"
    and it: "get_item i w = Some it" "\<not> move_refused s d it src dst w"
    and run: "inventory_move e s dir i src dst w = (ok, w')"
  shows "only_of s w w' \<and> move_effect (witems w) d i src dst (goods s w) (goods s w')"
proof -
  let ?f = "\<lambda>xs. apply_move d i it (held_type s RIGHTHAND w) (held_type s LEFTHAND w) src dst (resize_inventory xs)"
  obtain b ys where f: "?f (inventory h) = (b, ys)" by (cases "?f (inventory h)")
  define w1 where "w1 = modify_session s (\<lambda>h. h\<lparr>inventory := snd (?f (inventory h))\<rparr>) w"
  have w1: "only_of s w w1" "goods s w1 = (ys, pet_items h)"
    using h f by (simp_all add: w1_def only_of_def goods_def session_or_modify)
  have "update_inventory s False ?f w = (b, w1)" using h f by (simp add: update_inventory_def w1_def)
  then have "inventory_move e s dir i src dst w = (if \<not> b then send_item_move_result s False w1 else moved e s d src dst i w1)"
    using d h it by (simp add: inventory_move_def)
  then have "quiet w1 w'" using run quiet_result [of w1 s False] quiet_moved [of w1 e s d src dst i] by (metis snd_conv)
  then have end_w: "only_of s w w'" "goods s w' = (ys, pet_items h)" using quiet_after [OF _ w1(1)] w1(2) by simp_all
  have "move_effect (witems w) d i src dst (inventory h, pet_items h) (ys, pet_items h)"
  proof (cases b)
    case True
    then show ?thesis using f it by (intro allowed_move_effect [OF h]) (simp_all add: get_item_def)
  next
    case False
    then have "ys = resize_inventory (inventory h)" using f apply_move_False by (cases b) simp_all
    then show ?thesis by (simp add: effect_none)
  qed
  then show ?thesis using end_w h by (simp add: goods_def)
qed

lemma inventory_move_effect:
  assumes "inventory_move e s dir i src dst w = (ok, w')"
  shows "quiet w w' \<or> (\<exists>d. from_u8 dir = Some d \<and> only_of s w w' \<and> move_effect (witems w) d i src dst (goods s w) (goods s w'))"
proof (cases "wsessions w s")
  case None
  have "quiet w (snd (inventory_move e s dir i src dst w))"
    using None quiet_result by (simp add: inventory_move_def pet_move_def update_inventory_and_pet_def update_inventory_def Let_def split: option.split)
  then show ?thesis using assms by simp
next
  case h: (Some h)
  show ?thesis
  proof (cases "\<exists>d it. from_u8 dir = Some d \<and> get_item i w = Some it \<and> \<not> move_refused s d it src dst w")
    case False
    have "quiet w (snd (inventory_move e s dir i src dst w))"
      using False h quiet_result by (auto simp: inventory_move_def split: option.split)
    then show ?thesis using assms by simp
  next
    case True
    then obtain d it where d: "from_u8 dir = Some d" "get_item i w = Some it" "\<not> move_refused s d it src dst w" by blast
    show ?thesis
    proof (cases "d = InvenToPet \<or> d = PetToInven")
      case True
      then have "w' = snd (pet_move e s d i src dst w)" using assms d by (simp add: inventory_move_def)
      then show ?thesis using pet_move_effect [OF True h d(2,3)] d(1) by blast
    next
      case False
      then show ?thesis using own_move_effect [OF False d(1) h d(2,3) assms] d(1) by blast
    qed
  qed
qed

end
