(* ===== verification/Item_Move_Claims.thy ===== *)
theory Item_Move_Claims
  imports Item_Move_Safe
begin

text \<open>
  The promises of the item-move handler, over whole packets, and four behaviours that break what the code
  means to do.
\<close>

subsection \<open>Sorting\<close>

lemma sort_bag_parts:
  "mset (sort_bag xs) = mset xs" "length (sort_bag xs) = length xs"
  by (simp_all add: sort_bag_def)
    (metis append_take_drop_id drop_drop mset_append union_assoc add.commute)

lemma tally_mset: "mset xs = mset ys \<Longrightarrow> tally u xs = tally u ys"
  unfolding tally_def by (metis mset_map sum_mset_sum_list)

lemma sort_bag_first: "k < 14 \<Longrightarrow> 42 \<le> length xs \<Longrightarrow> sort_bag xs ! k = xs ! k"
  by (simp add: sort_bag_def nth_append regions_of_bag)

subsection \<open>Every packet\<close>

lemma refresh_goods:
  assumes "handle_inventory_refresh e now s w = (ok, w')"
  shows "quiet w w' \<or> only_of s w w' \<and> goods s w' = (sort_bag (resize_inventory (fst (goods s w))), snd (goods s w))"
proof (cases "wsessions w s")
  case None
  have "quiet w (snd (handle_inventory_refresh e now s w))"
    using None quiet_ability by (simp add: handle_inventory_refresh_def update_inventory_def session_send_def Let_def quiet_def)
  then show ?thesis using assms by simp
next
  case (Some h)
  define w1 where "w1 = modify_session s (\<lambda>h. h\<lparr>inventory := sort_bag (resize_inventory (inventory h))\<rparr>) w"
  have w1: "only_of s w w1" "goods s w1 = (sort_bag (resize_inventory (fst (goods s w))), snd (goods s w))"
    using Some by (simp_all add: w1_def only_of_def goods_def session_or_modify)
  have "quiet w1 (snd (handle_inventory_refresh e now s w))"
    using Some quiet_trans [OF quiet_send quiet_ability]
    by (simp add: handle_inventory_refresh_def update_inventory_def session_send_def Let_def w1_def)
  then have "quiet w1 w'" using assms by simp
  then show ?thesis using quiet_after [OF _ w1(1)] w1(2) by simp
qed

lemma handle_item_move_effect:
  assumes "handle_item_move e st now s pkt w = (ok, w')"
  shows "quiet w w'
    \<or> only_of s w w' \<and> goods s w' = (sort_bag (resize_inventory (fst (goods s w))), snd (goods s w))
    \<or> (\<exists>d i src dst. only_of s w w' \<and> move_effect (witems w) d i src dst (goods s w) (goods s w'))"
proof -
  have refused: "quiet w w'" if "send_item_move_result s False w = (ok, w')"
    using quiet_result [of w s False] that by simp
  have requested: "quiet w w' \<or> (\<exists>d i src dst. only_of s w w' \<and> move_effect (witems w) d i src dst (goods s w) (goods s w'))"
    if "handle_inventory_system e s rd w = (ok, w')" for rd
  proof -
    obtain dir i src dst where "inventory_move e s dir i src dst w = (ok, w')"
      using \<open>handle_inventory_system e s rd w = (ok, w')\<close> by (auto simp: handle_inventory_system_def split: prod.splits)
    from inventory_move_effect [OF this] show ?thesis by blast
  qed
  have "(ok, w') = (True, w) \<or> send_item_move_result s False w = (ok, w')
      \<or> handle_inventory_refresh e now s w = (ok, w') \<or> (\<exists>rd. handle_inventory_system e s rd w = (ok, w'))"
    using assms unfolding handle_item_move_def by (simp split: if_splits prod.splits) blast
  then show ?thesis using refused requested refresh_goods [of e now s w ok w'] by (elim disjE exE) auto
qed

subsection \<open>What moving keeps\<close>

lemma effect_keeps_equipment:
  assumes "move_effect tbl d i src dst g g'" "tbl 0 = None" "equipment_ok tbl (fst g)"
  shows "equipment_ok tbl (fst g')"
  using assms
proof (cases rule: move_effect.cases)
  case (effect_none xs ps)
  then show ?thesis using assms(3) resize_full [of xs] equipment_okD(1) by simp
next
  case (effect_move it xs ys ps)
  have full: "resize_inventory xs = xs" using resize_full equipment_okD(1) assms(3) effect_move(1) by simp
  have "i \<noteq> 0" using effect_move(3) assms(2) by auto
  then show ?thesis
    using apply_move_keeps [of tbl xs i it d src dst ys] effect_move assms(3) by (simp add: full)
next
  case (effect_to_pet xs ps ys qs)
  have full: "resize_inventory xs = xs" using resize_full equipment_okD(1) assms(3) effect_to_pet(1) by simp
  show ?thesis using effect_to_pet assms(3)
    by (auto simp: move_to_pet_def Let_def full SLOT_MAX_def same_equipment [of "xs[14 + unat src := _]" xs] split: if_splits)
next
  case (effect_from_pet xs ps ys qs)
  have full: "resize_inventory xs = xs" using resize_full equipment_okD(1) assms(3) effect_from_pet(1) by simp
  show ?thesis using effect_from_pet assms(3)
    by (auto simp: move_from_pet_def Let_def full SLOT_MAX_def same_equipment [of "xs[14 + unat dst := _]" xs] split: if_splits)
qed


definition pieces :: "u32 \<Rightarrow> slots \<times> slots option \<Rightarrow> nat" where
  "pieces u g = tally u (fst g) + tally u (unwrap_or [] (snd g))"

lemma pet_pieces:
  assumes "move_to_pet i src dst xs ps = (True, ys, qs) \<and> dst < length ps
      \<or> move_from_pet i src dst xs ps = (True, ys, qs) \<and> src < length ps" "u \<noteq> 0"
  shows "pieces u (ys, Some qs) = pieces u (xs, Some ps)"
proof -
  have two: "tally u (as[j := x]) + tally u (bs[k := y]) = tally u as + tally u bs"
    if "j < length as" "k < length bs" "at_slot u x + at_slot u y = at_slot u (as ! j) + at_slot u (bs ! k)" for as bs j k x y
    using tally_update [OF that(1), of u x] tally_update [OF that(2), of u y] that(3) by linarith
  have "tally u ys + tally u qs = tally u (resize_inventory xs) + tally u ps"
    using assms
  proof (elim disjE conjE)
    assume m: "move_to_pet i src dst xs ps = (True, ys, qs)" "dst < length ps"
    let ?xs = "resize_inventory xs" and ?j = "SLOT_MAX + src"
    have j: "?j < length ?xs" using m(1) by (auto simp: move_to_pet_def Let_def split: if_splits)
    have "ys = ?xs[?j := if item_id (ps ! dst) \<noteq> 0 then ps ! dst else empty_slot]" "qs = ps[dst := ?xs ! ?j]"
      using m(1) by (auto simp: move_to_pet_def Let_def split: if_splits)
    then show ?thesis using two [OF j m(2)] assms(2) by simp
  next
    assume m: "move_from_pet i src dst xs ps = (True, ys, qs)" "src < length ps"
    let ?xs = "resize_inventory xs" and ?k = "SLOT_MAX + dst"
    have k: "?k < length ?xs" using m(1) by (auto simp: move_from_pet_def Let_def split: if_splits)
    have "ys = ?xs[?k := ps ! src]" "qs = ps[src := if item_id (?xs ! ?k) \<noteq> 0 then ?xs ! ?k else empty_slot]"
      using m(1) by (auto simp: move_from_pet_def Let_def split: if_splits)
    then show ?thesis using two [OF k m(2)] assms(2) by simp
  qed
  then show ?thesis using assms(2) by (simp add: pieces_def)
qed

lemma effect_pieces:
  assumes "move_effect tbl d i src dst g g'" "u \<noteq> 0" "\<And>ps. snd g = Some ps \<Longrightarrow> length ps = 4"
    and gentle: "b \<longrightarrow> (\<exists>it. tbl i = Some it \<and> gentle it src dst i tbl (resize_inventory (fst g)))"
  shows "pieces u g' \<le> pieces u g \<and> (b \<longrightarrow> pieces u g' = pieces u g)"
  using assms(1)
proof (cases rule: move_effect.cases)
  case (effect_move it xs ys ps)
  have "shift b (resize_inventory xs) ys"
    using effect_move gentle by (intro apply_move_shift) (auto simp: length_resize)
  then show ?thesis using shift_tally [of b "resize_inventory xs" ys u] effect_move(1,2) assms(2) by (simp add: pieces_def)
next
  case (effect_to_pet xs ps ys qs)
  then show ?thesis using pet_pieces [of i "unat src" "unat dst" xs ps ys qs u] assms(2,3) by (simp add: PET_INVENTORY_TOTAL_def)
next
  case (effect_from_pet xs ps ys qs)
  then show ?thesis using pet_pieces [of i "unat src" "unat dst" xs ps ys qs u] assms(2,3) by (simp add: PET_INVENTORY_TOTAL_def)
qed (use assms(2) in \<open>simp add: pieces_def\<close>)


definition move_packet :: "u8 \<Rightarrow> u32 \<Rightarrow> u8 \<Rightarrow> u8 \<Rightarrow> packet" where
  \<comment> \<open>what the client sends to move an item\<close>
  "move_packet dir i src dst =
     write_u8 dst (write_u8 src (write_u32 i (write_u8 dir (write_u8 1 (packet_new (as_u8 WizItemMove))))))"

definition may_move :: "session_state \<Rightarrow> sid \<Rightarrow> world \<Rightarrow> bool" where
  \<comment> \<open>nothing keeps the player from moving items\<close>
  "may_move st s w \<longleftrightarrow> st = InGame \<and> \<not> is_player_dead s w \<and> \<not> is_trading s w \<and> \<not> is_merchanting s w \<and> \<not> is_mining s w
     \<and> \<not> is_fishing s w \<and> get_browsing_merchant s w = None \<and> unwrap_or 0 (get_zone_id s w) \<noteq> ZONE_CHAOS_DUNGEON"

lemma handle_move_packet:
  assumes "may_move st s w"
  shows "handle_item_move e st now s (move_packet dir i src dst) w = inventory_move e s dir i src dst w"
proof -
  define d where "d = [1, dir] @ to_le 4 i @ [src, dst]"
  have data: "pdata (move_packet dir i src dst) = d"
    by (simp add: move_packet_def write_defs packet_new_def d_def)
  have len: "length (to_le 4 i) = 4" by simp
  have "read_u8 (reader_new d) = (Some 1, \<lparr>rd_data = d, rd_pos = 1\<rparr>)"
    "read_u8 \<lparr>rd_data = d, rd_pos = 1\<rparr> = (Some dir, \<lparr>rd_data = d, rd_pos = 2\<rparr>)"
    by (simp_all add: read_u8_def reader_new_def d_def)
  moreover have "read_u32 \<lparr>rd_data = d, rd_pos = 2\<rparr> = (Some i, \<lparr>rd_data = d, rd_pos = 6\<rparr>)"
    using read_le_to_le [of 4 "[1, dir]" i "[src, dst]"] by (simp add: read_u32_def d_def numeral_2_eq_2)
  moreover have "read_u8 \<lparr>rd_data = d, rd_pos = 6\<rparr> = (Some src, \<lparr>rd_data = d, rd_pos = 7\<rparr>)"
    "fst (read_u8 \<lparr>rd_data = d, rd_pos = 7\<rparr>) = Some dst"
    by (simp_all add: read_u8_def d_def nth_append)
  ultimately show ?thesis
    using assms unfolding handle_item_move_def data may_move_def by (simp add: handle_inventory_system_def case_prod_beta)
qed

text \<open>C32: A move keeps every piece of every item if the two-handed rule holds and, for an item that stacks, source and
  destination differ and the player holds at most 9,999 pieces.\<close>
theorem moves_keep_pieces:
  assumes "may_move st s w" "handle_item_move e st now s (move_packet dir i src dst) w = (ok, w')" "u \<noteq> 0"
    and "\<And>ps. snd (goods s w) = Some ps \<Longrightarrow> length ps = 4" "INVENTORY_TOTAL \<le> length (get_inventory s w)"
    and "hands_ok (witems w) (get_inventory s w)"
    and "\<And>it. get_item i w = Some it \<Longrightarrow> is_countable it \<Longrightarrow> src \<noteq> dst \<and> tally i (get_inventory s w) \<le> 9999"
  shows "pieces u (goods s w') = pieces u (goods s w)"
proof (cases "quiet w w'")
  case False
  have full: "resize_inventory (fst (goods s w)) = fst (goods s w)"
    using assms(5) by (intro resize_full) (simp add: goods_inventory regions_of_bag)
  obtain d where d: "move_effect (witems w) d i src dst (goods s w) (goods s w')"
    using inventory_move_effect [of e s dir i src dst w ok w'] assms(1,2) False by (auto simp: handle_move_packet)
  show ?thesis
  proof (cases "get_item i w")
    case None
    then have "w' = snd (send_item_move_result s False w)"
      using assms(1,2) by (simp add: handle_move_packet inventory_move_def split: option.splits)
    then show ?thesis using False quiet_result by blast
  next
    case (Some it)
    then have "gentle it src dst i (witems w) (resize_inventory (fst (goods s w)))"
      using assms(6,7) by (simp add: gentle_def full goods_inventory)
    then show ?thesis using effect_pieces [OF d assms(3), of True] assms(4) Some by (auto simp: get_item_def)
  qed
qed (simp add: quiet_def)

subsection \<open>What goes wrong\<close>

lemma plain_move:
  assumes "may_move st s w" "handle_item_move e st now s (move_packet dir i src dst) w = (ok, w')"
    and "from_u8 dir = Some d" "d \<noteq> InvenToPet" "d \<noteq> PetToInven" "get_item i w = Some it" "\<not> move_refused s d it src dst w"
    and "wsessions w s = Some h"
  shows "get_inventory s w' = snd (apply_move d i it (held_type s RIGHTHAND w) (held_type s LEFTHAND w) src dst (resize_inventory (inventory h)))"
proof -
  let ?f = "\<lambda>xs. apply_move d i it (held_type s RIGHTHAND w) (held_type s LEFTHAND w) src dst (resize_inventory xs)"
  define w1 where "w1 = modify_session s (\<lambda>h. h\<lparr>inventory := snd (?f (inventory h))\<rparr>) w"
  have "update_inventory s False ?f w = (fst (?f (inventory h)), w1)" using assms(8) by (simp add: update_inventory_def w1_def)
  then have "(ok, w') = (if \<not> fst (?f (inventory h)) then send_item_move_result s False w1 else moved e s d src dst i w1)"
    using assms by (simp add: handle_move_packet inventory_move_def)
  then have "quiet w1 w'" using quiet_result [of w1 s False] quiet_moved [of w1 e s d src dst i] by (metis snd_conv)
  then show ?thesis using assms(8) by (simp add: quiet_def goods_inventory) (simp add: w1_def goods_def session_or_modify)
qed

text \<open>C33: A stack that the player drops onto its own slot is destroyed.\<close>
theorem stack_onto_itself_is_lost:
  assumes "may_move st s w" "handle_item_move e st now s (move_packet 3 i p p) w = (ok, w')"
    and "wsessions w s = Some h" "INVENTORY_TOTAL \<le> length (inventory h)" "unat p < HAVE_MAX"
    and "item_id (inventory h ! (SLOT_MAX + unat p)) = i" "i \<noteq> 0" "get_item i w = Some it" "is_countable it"
  shows "get_inventory s w' = (inventory h)[SLOT_MAX + unat p := empty_slot]"
proof -
  have "get_inventory s w' = snd (apply_move InvenInven i it (held_type s RIGHTHAND w) (held_type s LEFTHAND w) p p
      (resize_inventory (inventory h)))"
    by (rule plain_move [OF assms(1,2) _ _ _ assms(8) _ assms(3)])
      (simp_all add: from_u8_def move_refused_def equip_refused_def)
  moreover have "resize_inventory (inventory h) = inventory h" using assms(4) resize_full by (simp add: regions_of_bag)
  ultimately show ?thesis
    using assms(5-9) by (simp add: apply_move_def move_inven_inven_def merge_into_def Let_def regions_of_bag)
qed

text \<open>Taking an item off onto a bag slot that holds another item of its slot type puts that one on, whatever its
  class, level and statistics ask for, although putting it on directly is refused.\<close>
theorem taking_off_puts_on_unchecked:
  assumes "may_move st s w" "handle_item_move e st now s (move_packet 2 i src dst) w = (ok, w')"
    and "wsessions w s = Some h" "INVENTORY_TOTAL \<le> length (inventory h)" "unat src < SLOT_MAX" "unat dst < HAVE_MAX"
    and "item_id (inventory h ! unat src) = i" "get_item i w = Some it"
    and "item_id (inventory h ! (SLOT_MAX + unat dst)) = i'" "i' \<noteq> 0" "get_item i' w = Some it'"
    and "slot_of it' = slot_of it" "is_valid_slot_pos it' (unat src)"
    and "character h = Some ch" "\<not> item_class_available it' (ch_class ch) \<or> \<not> item_equip_available it' ch"
  shows "item_id (get_inventory s w' ! unat src) = i'
    \<and> quiet w (snd (handle_item_move e st now s (move_packet 1 i' dst src) w))"
proof
  have refuse: "\<not> move_refused s SlotInven it src dst w"
    using assms(3-6,9,11-13)
    by (simp add: move_refused_def equip_refused_def swap_refused_def get_inventory_slot_def slice_get_def regions_of_bag)
  have "get_inventory s w' = snd (apply_move SlotInven i it (held_type s RIGHTHAND w) (held_type s LEFTHAND w) src dst
      (resize_inventory (inventory h)))"
    by (rule plain_move [OF assms(1,2) _ _ _ assms(8) refuse assms(3)]) (simp_all add: from_u8_def)
  moreover have "resize_inventory (inventory h) = inventory h" using assms(4) resize_full by (simp add: regions_of_bag)
  ultimately show "item_id (get_inventory s w' ! unat src) = i'"
    using assms(4-7,9,10) by (simp add: apply_move_def move_slot_inven_def swap_items_def swap_slots_def Let_def regions_of_bag)
  have "move_refused s InvenSlot it' dst src w"
    using assms(3,14,15) by (auto simp: move_refused_def equip_refused_def get_character_info_def)
  then have "handle_item_move e st now s (move_packet 1 i' dst src) w = send_item_move_result s False w"
    using assms(1,11) by (simp add: handle_move_packet inventory_move_def from_u8_def)
  then show "quiet w (snd (handle_item_move e st now s (move_packet 1 i' dst src) w))" using quiet_result by simp
qed

text \<open>A magic bag can never be put on as the third bag: its place, 96, lies behind the 96 slots of the inventory, so
  both ways to put it on change nothing.\<close>
theorem third_bag_is_never_worn:
  assumes "may_move st s w" "get_item i w = Some it" "slot_of it = ITEM_SLOT_BAG"
    and "length (get_inventory s w) = INVENTORY_TOTAL" "dir = 7 \<and> dst = 11 \<or> dir = 14 \<and> dst = 3"
  shows "quiet w (snd (handle_item_move e st now s (move_packet dir i src dst) w))"
proof (cases "wsessions w s")
  case None
  then show ?thesis
    using assms(1,2,5) quiet_result by (auto simp: handle_move_packet inventory_move_def update_inventory_def from_u8_def)
next
  case (Some h)
  let ?d = "if dir = 7 then InvenToCosp else SlotInvenToMbag"
  have len: "length (inventory h) = 96" and d: "from_u8 dir = Some ?d"
    using Some assms(4,5) by (auto simp: get_inventory_def regions_of_bag from_u8_def)
  have full: "resize_inventory (inventory h) = inventory h" using resize_full len by simp
  have none: "fst (apply_move ?d i it rh lh src dst (inventory h)) = False" for rh lh
    using assms(3,5) len
    by (auto simp: apply_move_def move_inven_to_cosp_def cosp_destination_def move_slot_inven_to_mbag_def Let_def regions_of_bag)
  then have never: "apply_move ?d i it rh lh src dst (inventory h) \<noteq> (True, ys)" for rh lh ys by (metis fst_conv)
  obtain ok w' where run: "inventory_move e s dir i src dst w = (ok, w')" by (cases "inventory_move e s dir i src dst w")
  from inventory_move_effect [OF run] have "quiet w w'"
  proof (elim disjE conjE exE)
    fix d assume d': "from_u8 dir = Some d" and only: "only_of s w w'" and eff: "move_effect (witems w) d i src dst (goods s w) (goods s w')"
    have "d = ?d" using d d' by simp
    from eff have "goods s w' = goods s w"
      using \<open>d = ?d\<close> never assms(2) Some
      by (cases rule: move_effect.cases) (auto simp: goods_def full get_item_def split: if_splits)
    then show ?thesis using only unfolding quiet_def only_of_def by metis
  qed
  then show ?thesis using assms(1) run by (simp add: handle_move_packet)
qed

text \<open>Sorting the bag permutes its slots into descending order of item ids and changes nothing else.\<close>
theorem refresh_sorts_bag:
  assumes "may_move st s w" "wsessions w s = Some h" "INVENTORY_TOTAL \<le> length (inventory h)"
    and "read_u8 (reader_new (pdata pkt)) = (Some 2, rd)" "handle_item_move e st now s pkt w = (ok, w')"
    and "ys = get_inventory s w'"
  shows "mset ys = mset (inventory h) \<and> sorted_wrt (\<lambda>a b. item_id a \<ge> item_id b) (take HAVE_MAX (drop SLOT_MAX ys))
    \<and> (\<forall>k < length ys. k < SLOT_MAX \<or> SLOT_MAX + HAVE_MAX \<le> k \<longrightarrow> ys ! k = inventory h ! k)"
proof -
  have full: "resize_inventory (inventory h) = inventory h" and len: "96 \<le> length (inventory h)"
    using assms(3) resize_full by (simp_all add: regions_of_bag)
  have "handle_inventory_refresh e now s w = (ok, w')"
    using assms(1,4,5) by (simp add: handle_item_move_def may_move_def)
  define w1 where "w1 = modify_session s (\<lambda>h. h\<lparr>inventory := sort_bag (resize_inventory (inventory h))\<rparr>) w"
  have "quiet w1 (snd (handle_inventory_refresh e now s w))"
    using assms(2) quiet_trans [OF quiet_send quiet_ability]
    by (simp add: handle_inventory_refresh_def update_inventory_def session_send_def Let_def w1_def)
  then have "goods s w' = goods s w1" using \<open>handle_inventory_refresh e now s w = (ok, w')\<close> by (simp add: quiet_def)
  then have ys: "ys = sort_bag (inventory h)"
    using assms(2,6) by (simp add: goods_inventory) (simp add: w1_def goods_def session_or_modify full)
  let ?bag = "take HAVE_MAX (drop SLOT_MAX (inventory h))"
  have bag: "take HAVE_MAX (drop SLOT_MAX ys) = sort_key (\<lambda>sl. - uint (item_id sl)) ?bag"
    using len by (simp add: ys sort_bag_def regions_of_bag)
  have "sorted (map (\<lambda>sl. - uint (item_id sl)) (sort_key (\<lambda>sl. - uint (item_id sl)) ?bag))" by (rule sorted_sort_key)
  then have "sorted_wrt (\<lambda>a b. item_id a \<ge> item_id b) (take HAVE_MAX (drop SLOT_MAX ys))"
    unfolding bag by (simp add: sorted_map word_le_def)
  moreover have "ys ! k = inventory h ! k" if "k < length ys" "k < SLOT_MAX \<or> SLOT_MAX + HAVE_MAX \<le> k" for k
    using that(2)
  proof
    assume "k < SLOT_MAX"
    then show ?thesis using len by (simp add: ys sort_bag_first regions_of_bag)
  next
    assume k: "SLOT_MAX + HAVE_MAX \<le> k"
    then show ?thesis using len that(1) by (simp add: ys sort_bag_def nth_append regions_of_bag)
  qed
  ultimately show ?thesis using sort_bag_parts(1) by (simp add: ys)
qed

subsection \<open>A player with some gear\<close>

definition gear :: slots where
  \<comment> \<open>a sword in the right hand; in the bag a stack of potions, a rogue's dagger and a magic bag\<close>
  "gear = (replicate 96 empty_slot)
     [6 := empty_slot\<lparr>item_id := 120050000, item_count := 1\<rparr>,
      14 := empty_slot\<lparr>item_id := 389010000, item_count := 10\<rparr>,
      15 := empty_slot\<lparr>item_id := 110110000, item_count := 1\<rparr>,
      16 := empty_slot\<lparr>item_id := 700011000, item_count := 1\<rparr>]"

definition dagger :: item_def where
  "dagger = sword\<lparr>kind := Some 11, item_class := Some 2\<rparr>"

definition magic_bag :: item_def where
  "magic_bag = sword\<lparr>kind := Some 252, item_class := Some 0, slot_type := Some 25\<rparr>"

definition gear_world :: world where
  "gear_world = demo_world\<lparr>wsessions := [1 \<mapsto> demo_handle\<lparr>inventory := gear\<rparr>],
     witems := [389010000 \<mapsto> potion, 120050000 \<mapsto> sword, 110110000 \<mapsto> dagger, 700011000 \<mapsto> magic_bag]\<rparr>"

lemma gear_length [simp]: "length gear = 96"
  by (simp add: gear_def)

lemma gear_nth: "k < 96 \<Longrightarrow> gear ! k =
    (if k = 6 then empty_slot\<lparr>item_id := 120050000, item_count := 1\<rparr>
     else if k = 14 then empty_slot\<lparr>item_id := 389010000, item_count := 10\<rparr>
     else if k = 15 then empty_slot\<lparr>item_id := 110110000, item_count := 1\<rparr>
     else if k = 16 then empty_slot\<lparr>item_id := 700011000, item_count := 1\<rparr> else empty_slot)"
  by (simp add: gear_def nth_list_update)

lemma gear_session: "wsessions gear_world 1 = Some (demo_handle\<lparr>inventory := gear\<rparr>)"
  by (simp add: gear_world_def)

lemma gear_inventory: "get_inventory 1 gear_world = gear" "goods 1 gear_world = (gear, None)"
  by (simp_all add: get_inventory_def goods_def gear_session demo_handle_def)

lemma gear_items: "witems gear_world = [389010000 \<mapsto> potion, 120050000 \<mapsto> sword, 110110000 \<mapsto> dagger, 700011000 \<mapsto> magic_bag]"
  by (simp add: gear_world_def)

lemma gear_may_move: "may_move InGame 1 gear_world"
  by (simp add: may_move_def is_player_dead_def is_trading_def is_merchanting_def is_mining_def is_fishing_def get_trade_state_def
      get_browsing_merchant_def get_zone_id_def with_session_def session_or_def gear_session demo_handle_def demo_char_def
      USER_DEAD_def TRADE_STATE_NONE_def MERCHANT_STATE_NONE_def ZONE_CHAOS_DUNGEON_def)

lemma gear_hands: "hands_ok (witems gear_world) gear"
  by (simp add: hands_ok_def type_at_def hands(1,2) gear_nth gear_items sword_def slot_types empty_slot_def)

lemma gear_ok: "equipment_ok (witems gear_world) gear"
proof -
  have "equipment_fits (witems gear_world) gear"
    by (auto simp: equipment_fits_def gear_nth gear_items SLOT_MAX_def empty_slot_def is_valid_slot_pos_def slot_of_def sword_def
        slot_types equip_slots)
  then show ?thesis using gear_hands by (simp add: equipment_ok_def regions_of_bag)
qed



lemma moves_keep_pieces_witness:
  "pieces 389010000 (goods 1 (snd (handle_item_move demo_env InGame 0 1 (move_packet 3 389010000 0 5) gear_world))) = 10"
proof -
  let ?r = "handle_item_move demo_env InGame 0 1 (move_packet 3 389010000 0 5) gear_world"
  have r: "?r = (fst ?r, snd ?r)" by simp
  have ten: "tally 389010000 gear = 10"
    by code_simp
  have "pieces 389010000 (goods 1 (snd ?r)) = pieces 389010000 (goods 1 gear_world)"
    by (rule moves_keep_pieces [OF gear_may_move r])
      (simp_all add: gear_inventory gear_hands ten regions_of_bag)
  then show ?thesis by (simp add: gear_inventory pieces_def ten)
qed

lemma stack_onto_itself_is_lost_witness:
  "item_id (get_inventory 1 (snd (handle_item_move demo_env InGame 0 1 (move_packet 3 389010000 0 0) gear_world)) ! 14) = 0"
proof -
  let ?r = "handle_item_move demo_env InGame 0 1 (move_packet 3 389010000 0 0) gear_world"
  have r: "?r = (fst ?r, snd ?r)" by simp
  have "get_inventory 1 (snd ?r) = (inventory (demo_handle\<lparr>inventory := gear\<rparr>))[SLOT_MAX + unat (0 :: u8) := empty_slot]"
    by (rule stack_onto_itself_is_lost [where it = potion, OF gear_may_move r gear_session])
      (simp_all add: regions_of_bag gear_nth get_item_def gear_items is_countable_def potion_def)
  then show ?thesis by (simp add: SLOT_MAX_def empty_slot_def)
qed

lemma taking_off_puts_on_unchecked_witness:
  "item_id (get_inventory 1 (snd (handle_item_move demo_env InGame 0 1 (move_packet 2 120050000 6 1) gear_world)) ! 6) = 110110000"
proof -
  let ?r = "handle_item_move demo_env InGame 0 1 (move_packet 2 120050000 6 1) gear_world"
  have r: "?r = (fst ?r, snd ?r)" by simp
  have "item_id (get_inventory 1 (snd ?r) ! unat (6 :: u8)) = 110110000
      \<and> quiet gear_world (snd (handle_item_move demo_env InGame 0 1 (move_packet 1 110110000 1 6) gear_world))"
    by (rule taking_off_puts_on_unchecked [where it = sword and it' = dagger and ch = demo_char, OF gear_may_move r gear_session])
      (simp_all add: regions_of_bag gear_nth get_item_def gear_items dagger_def sword_def slot_of_def is_valid_slot_pos_def
        slot_types equip_slots item_class_available_def demo_handle_def demo_char_def)
  then show ?thesis by simp
qed

lemma third_bag_is_never_worn_witness:
  "get_inventory 1 (snd (handle_item_move demo_env InGame 0 1 (move_packet 14 700011000 2 3) gear_world)) = gear"
proof -
  have "quiet gear_world (snd (handle_item_move demo_env InGame 0 1 (move_packet 14 700011000 2 3) gear_world))"
    by (rule third_bag_is_never_worn [where it = magic_bag, OF gear_may_move])
      (simp_all add: get_item_def gear_items magic_bag_def slot_of_def slot_types gear_inventory regions_of_bag)
  then show ?thesis by (simp add: quiet_def goods_inventory gear_inventory)
qed

lemma refresh_sorts_bag_witness:
  "mset (get_inventory 1 (snd (handle_item_move demo_env InGame 0 1 \<lparr>opcode = 0x1F, pdata = [2], plaintext = False\<rparr> gear_world)))
     = mset gear"
proof -
  let ?r = "handle_item_move demo_env InGame 0 1 \<lparr>opcode = 0x1F, pdata = [2], plaintext = False\<rparr> gear_world"
  have r: "?r = (fst ?r, snd ?r)" by simp
  have "read_u8 (reader_new [2]) = (Some 2, \<lparr>rd_data = [2], rd_pos = 1\<rparr>)" by (simp add: read_u8_def reader_new_def)
  then show ?thesis
    using refresh_sorts_bag [OF gear_may_move gear_session _ _ r refl] by (simp add: regions_of_bag)
qed

end
