(* ===== verification/Merchant.thy ===== *)
theory Merchant
  imports Item_Move_Handler
begin

text \<open>
  Player shops that sell: the handler of \<^verbatim>\<open>WIZ_MERCHANT\<close> and \<^verbatim>\<open>WIZ_MERCHANTLIST\<close>
  (\<^verbatim>\<open>crates/ko-game/src/handler/merchant.rs\<close>, lines 18 to 1100) on the shop state of theory
  \<open>Trade_State\<close>, with Knight Cash (\<^verbatim>\<open>handler/knight_cash.rs\<close>, lines 43 to 90 and 387 to 472) and the clean-up of a shop
  whose owner is offline (\<^verbatim>\<open>systems/offline_merchant.rs\<close>, lines 57 to 143). The answer is \<open>False\<close> when
  sending to the own client failed. The audit log, the database writes and the rankings are left out; the
  comparison of two \<open>f32\<close> positions and what a clan does when a member leaves are arguments.
\<close>

definition MERCHANT_OPEN :: u8 where "MERCHANT_OPEN = 1"
definition MERCHANT_CLOSE :: u8 where "MERCHANT_CLOSE = 2"
definition MERCHANT_ITEM_ADD :: u8 where "MERCHANT_ITEM_ADD = 3"
definition MERCHANT_ITEM_CANCEL :: u8 where "MERCHANT_ITEM_CANCEL = 4"
definition MERCHANT_ITEM_LIST :: u8 where "MERCHANT_ITEM_LIST = 5"
definition MERCHANT_ITEM_BUY :: u8 where "MERCHANT_ITEM_BUY = 6"
definition MERCHANT_INSERT :: u8 where "MERCHANT_INSERT = 7"
definition MERCHANT_TRADE_CANCEL :: u8 where "MERCHANT_TRADE_CANCEL = 8"
definition MERCHANT_ITEM_PURCHASED :: u8 where "MERCHANT_ITEM_PURCHASED = 9"
definition MERCHANT_LIST_SUB :: u8 where "MERCHANT_LIST_SUB = 29"
definition MERCHANT_OPEN_SUCCESS :: i16 where "MERCHANT_OPEN_SUCCESS = 1"
definition MERCHANT_OPEN_DEAD :: i16 where "MERCHANT_OPEN_DEAD = -2"
definition MERCHANT_OPEN_TRADING :: i16 where "MERCHANT_OPEN_TRADING = -3"
definition MERCHANT_OPEN_MERCHANTING :: i16 where "MERCHANT_OPEN_MERCHANTING = -4"
definition MERCHANT_OPEN_SHOPPING :: i16 where "MERCHANT_OPEN_SHOPPING = -6"
definition MERCHANT_OPEN_UNDERLEVELED :: i16 where "MERCHANT_OPEN_UNDERLEVELED = 30"
definition MAX_MERCH_MESSAGE :: nat where "MAX_MERCH_MESSAGE = 40"

definition merchant_packet :: "u8 \<Rightarrow> packet" where
  "merchant_packet sub = write_u8 sub (packet_new (as_u8 WizMerchant))"

definition merchant_zone :: "sid \<Rightarrow> world \<Rightarrow> u16" where
  \<comment> \<open>\<open>get_position(id).unwrap_or_default().zone_id\<close>\<close>
  "merchant_zone s w = unwrap_or 0 (get_zone_id s w)"

definition get_event_room :: "sid \<Rightarrow> world \<Rightarrow> u16" where
  "get_event_room s w = session_or 0 s event_room w"

definition is_store_open :: "sid \<Rightarrow> world \<Rightarrow> bool" where
  "is_store_open s w = session_or False s store_open w"

definition broadcast_around :: "sid \<Rightarrow> packet \<Rightarrow> world \<Rightarrow> world" where
  \<comment> \<open>\<open>broadcast_to_3x3\<close> at the position of a session, in its event room\<close>
  "broadcast_around s pkt w =
     broadcast_to_3x3 (session_or 0 s zone_id w) (session_or 0 s region_x w) (session_or 0 s region_z w) pkt None
       (get_event_room s w) w"

subsection \<open>Knight Cash\<close>

definition decimal_digits :: "nat \<Rightarrow> rstr" where
  \<comment> \<open>how \<open>format!\<close> prints an unsigned integer of at most ten digits\<close>
  "decimal_digits n =
     (case dropWhile (\<lambda>d. d = 0) (map (\<lambda>k. n div 10 ^ k mod 10) (rev [0..<10])) of
        [] \<Rightarrow> [48] | ds \<Rightarrow> map (\<lambda>d. 48 + d) ds)"

definition build_notice_packet :: "u8 \<Rightarrow> rstr \<Rightarrow> packet" where
  "build_notice_packet chat_type message =
     write_u8 0 (write_u8 0 (write_i8 0 (write_string message (write_sbyte_string []
       (write_u32 0xFFFFFFFF (write_u8 1 (write_u8 chat_type (packet_new (as_u8 WizChat)))))))))"

definition build_kc_chat_packet :: "u32 \<Rightarrow> u32 \<Rightarrow> packet" where
  \<comment> \<open>the text \<open>[KC] Balance: {} KC, {} TL\<close>\<close>
  "build_kc_chat_packet kc bonus = build_notice_packet 7
     ([91, 75, 67, 93, 32, 66, 97, 108, 97, 110, 99, 101, 58, 32] @ decimal_digits (unat kc)
      @ [32, 75, 67, 44, 32] @ decimal_digits (unat bonus) @ [32, 84, 76])"

definition EXT_HOOK_S2C :: u8 where "EXT_HOOK_S2C = 0xE9"
definition EXT_SUB_CASHCHANGE :: u8 where "EXT_SUB_CASHCHANGE = 0xA9"

definition build_cashchange_packet :: "u32 \<Rightarrow> u32 \<Rightarrow> packet" where
  "build_cashchange_packet kc bonus = write_u32 bonus (write_u32 kc (write_u8 EXT_SUB_CASHCHANGE (packet_new EXT_HOOK_S2C)))"

definition get_knight_cash :: "sid \<Rightarrow> world \<Rightarrow> u32" where
  "get_knight_cash s w = unwrap_or 0 (with_session s knight_cash w)"

definition get_tl_balance :: "sid \<Rightarrow> world \<Rightarrow> u32" where
  "get_tl_balance s w = unwrap_or 0 (with_session s tl_balance w)"

definition set_kc_balance :: "sid \<Rightarrow> u32 \<Rightarrow> u32 \<Rightarrow> world \<Rightarrow> world" where
  "set_kc_balance s kc bonus = modify_session s (\<lambda>h. h\<lparr>knight_cash := kc, tl_balance := bonus\<rparr>)"

definition cash_set :: "sid \<Rightarrow> u32 \<Rightarrow> world \<Rightarrow> world" where
  \<comment> \<open>the common end of \<open>cash_lose\<close> and \<open>cash_gain\<close>: store and tell the client\<close>
  "cash_set s kc w =
     (let bonus = get_tl_balance s w in
      send_to_session s (build_kc_chat_packet kc bonus)
        (send_to_session s (build_cashchange_packet kc bonus) (set_kc_balance s kc bonus w)))"

definition cash_lose :: "sid \<Rightarrow> u32 \<Rightarrow> world \<Rightarrow> bool \<times> world" where
  "cash_lose s amount w =
     (if amount = 0 then (True, w)
      else if get_knight_cash s w < amount then (False, w)
      else (True, cash_set s (get_knight_cash s w - amount) w))"

definition cash_gain :: "sid \<Rightarrow> u32 \<Rightarrow> world \<Rightarrow> world" where
  "cash_gain s amount w =
     (if amount = 0 then w else cash_set s (saturating_add (get_knight_cash s w) amount) w)"

subsection \<open>Shops without their owner\<close>

definition CFAIRY_SLOT :: nat where "CFAIRY_SLOT = 48"
definition OFFLINE_MERCHANT_ITEM :: u32 where "OFFLINE_MERCHANT_ITEM = 924041913"
definition MERCHANT_AUTO_FISHING :: u32 where "MERCHANT_AUTO_FISHING = 700099755"
definition MERCHANT_AUTO_MANING :: u32 where "MERCHANT_AUTO_MANING = 700049758"
definition OFFLINE_DEFAULT_MINUTES :: u16 where "OFFLINE_DEFAULT_MINUTES = 1400"
definition OFFLINE_CHECK_INTERVAL_SECS :: nat where "OFFLINE_CHECK_INTERVAL_SECS = 60"
definition INOUT_OUT :: u8 where "INOUT_OUT = 2"

definition is_offline_status :: "sid \<Rightarrow> world \<Rightarrow> bool" where
  "is_offline_status s w = session_or False s is_offline w"

definition deactivate_offline_status :: "sid \<Rightarrow> world \<Rightarrow> world" where
  "deactivate_offline_status s = modify_session s (\<lambda>h.
     h\<lparr>is_offline := False, offline_remaining_minutes := 0, offline_next_check := None\<rparr>)"

definition activate_offline_status :: "nat \<Rightarrow> sid \<Rightarrow> world \<Rightarrow> bool \<times> world" where
  \<comment> \<open>of type \<open>Merchant\<close>, at the given second\<close>
  "activate_offline_status now s w =
     (case wsessions w s of
        None \<Rightarrow> (False, w)
      | Some h \<Rightarrow>
          let fairy = (case slice_get (inventory h) CFAIRY_SLOT of None \<Rightarrow> 0 | Some sl \<Rightarrow> item_id sl);
              required = (if fairy = MERCHANT_AUTO_FISHING then MERCHANT_AUTO_FISHING
                else if fairy = MERCHANT_AUTO_MANING then MERCHANT_AUTO_MANING else OFFLINE_MERCHANT_ITEM) in
          if fairy \<noteq> required then (False, w)
          else (True, modify_session s (\<lambda>h. h\<lparr>is_offline := True, offline_remaining_minutes := OFFLINE_DEFAULT_MINUTES,
                 offline_next_check := Some (now + OFFLINE_CHECK_INTERVAL_SECS)\<rparr>) w))"

definition tick_offline :: "nat \<Rightarrow> session_handle \<Rightarrow> bool \<times> session_handle" where
  \<comment> \<open>one turn of the loop of \<open>tick_offline_merchants\<close>: has the time run out, and the session after it\<close>
  "tick_offline now h =
     (if \<not> is_offline h then (False, h)
      else case offline_next_check h of
        None \<Rightarrow> (False, h)
      | Some next_check \<Rightarrow>
          if now < next_check then (False, h)
          else if offline_remaining_minutes h = 0 then (True, h)
          else
            let left = saturating_sub (offline_remaining_minutes h) 1; h1 = h\<lparr>offline_remaining_minutes := left\<rparr> in
            if left = 0 then (True, h1)
            else (False, h1\<lparr>offline_next_check := Some (now + OFFLINE_CHECK_INTERVAL_SECS)\<rparr>))"

definition broadcast_to_zone :: "u16 \<Rightarrow> packet \<Rightarrow> sid option \<Rightarrow> world \<Rightarrow> world" where
  "broadcast_to_zone z pkt except w =
     fold (\<lambda>t w. if except \<noteq> Some t \<and> session_or False t (\<lambda>h. character h \<noteq> None) w then send_to_session t pkt w else w)
       (unwrap_or [] (zone_session_index w z)) w"

definition remove_user :: "u16 \<Rightarrow> u16 \<Rightarrow> u16 \<Rightarrow> sid \<Rightarrow> world \<Rightarrow> world" where
  "remove_user z rx rz s w =
     (case zones w z of
        None \<Rightarrow> w
      | Some zs \<Rightarrow> w\<lparr>zones := (zones w)(z \<mapsto> zs\<lparr>regions := (regions zs)
          ((rx, rz) := map_option (filter (\<lambda>t. t \<noteq> s)) (regions zs (rx, rz)))\<rparr>)\<rparr>)"

definition unregister_session :: "env \<Rightarrow> sid \<Rightarrow> world \<Rightarrow> world" where
  "unregister_session e s w =
     (case wsessions w s of
        None \<Rightarrow> w
      | Some h \<Rightarrow>
          let w1 = w\<lparr>wsessions := (wsessions w)(s := None)\<rparr>;
              w2 = (if zone_id h \<noteq> 0
                then w1\<lparr>zone_session_index := (zone_session_index w1)
                  (zone_id h := map_option (filter (\<lambda>t. t \<noteq> s)) (zone_session_index w1 (zone_id h)))\<rparr>
                else w1) in
          case character h of
            None \<Rightarrow> w2
          | Some ch \<Rightarrow> w2\<lparr>name_to_session := (name_to_session w2)(to_lowercase e (ch_name ch) := None)\<rparr>)"

definition cleanup_offline_session :: "env \<Rightarrow> sid \<Rightarrow> world \<Rightarrow> world" where
  \<comment> \<open>rankings and the database write left out\<close>
  "cleanup_offline_session e s w =
     (let w1 = deactivate_offline_status s w;
          w2 = (if is_selling_merchant s w1 \<or> is_buying_merchant s w1
            then
              let w' = close_merchant s w1 in
              if wsessions w' s = None then w'
              else broadcast_around s (write_u32 (ucast s) (merchant_packet 2)) w'
            else w1);
          w3 = cleanup_party_on_disconnect s w2;
          w4 = (case get_character_info s w3 of
                  None \<Rightarrow> w3 | Some ch \<Rightarrow> if knights_id ch > 0 then clan_member_leaves e s w3 else w3);
          w5 = (case (get_character_info s w4, get_zone_id s w4) of
                  (Some ch, Some z) \<Rightarrow>
                    broadcast_to_zone z (write_sbyte_string (ch_name ch) (write_u8 4 (packet_new (as_u8 WizUserInfo)))) (Some s) w4
                | _ \<Rightarrow> w4);
          w6 = (case wsessions w5 s of
                  None \<Rightarrow> w5
                | Some h \<Rightarrow>
                    broadcast_to_3x3 (zone_id h) (region_x h) (region_z h)
                      (write_u32 (ucast s) (write_u8 0 (write_u8 INOUT_OUT (packet_new (as_u8 WizUserInout)))))
                      (Some s) (event_room h) (remove_user (zone_id h) (region_x h) (region_z h) s w5)) in
      unregister_session e s w6)"

subsection \<open>Opening and closing a shop\<close>

definition merchant_open_code :: "sid \<Rightarrow> world \<Rightarrow> i16" where
  \<comment> \<open>the \<open>error_code\<close> of \<open>merchant_open\<close> and \<open>buying_merchant_open\<close>, line for line the same\<close>
  "merchant_open_code s w =
     (let required = unwrap_or 1 (merchant_level w);
          player_level = (case get_character_info s w of None \<Rightarrow> 0 | Some ch \<Rightarrow> ucast (level ch)) :: i16 in
      if is_player_dead s w then MERCHANT_OPEN_DEAD
      else if is_store_open s w then MERCHANT_OPEN_SHOPPING
      else if is_trading s w then MERCHANT_OPEN_TRADING
      else if sint player_level < sint required then MERCHANT_OPEN_UNDERLEVELED
      else if is_merchanting s w then MERCHANT_OPEN_MERCHANTING
      else MERCHANT_OPEN_SUCCESS)"

definition merchant_close :: "sid \<Rightarrow> world \<Rightarrow> bool \<times> world" where
  "merchant_close s w =
     (let selling = is_selling_merchant s w; preparing = is_selling_merchant_preparing s w in
      if \<not> selling \<and> \<not> preparing then (True, w)
      else
        let w1 = close_merchant s w; p = write_u32 (ucast s) (merchant_packet MERCHANT_CLOSE) in
        if selling then (True, broadcast_around s p w1) else session_send s p w1)"

definition merchant_open :: "sid \<Rightarrow> world \<Rightarrow> bool \<times> world" where
  "merchant_open s w =
     (if is_buying_merchant_preparing s w then (True, w)
      else
        let code = merchant_open_code s w;
            (ok, w1) = session_send s (write_i16 code (merchant_packet MERCHANT_OPEN)) w in
        if \<not> ok then (False, w1)
        else if code = MERCHANT_OPEN_MERCHANTING then merchant_close s w1
        else if code = MERCHANT_OPEN_SUCCESS then (True, set_selling_merchant_preparing s True w1)
        else (True, w1))"

subsection \<open>Setting up a shop\<close>

definition send_merch_add_fail :: "sid \<Rightarrow> u32 \<Rightarrow> u16 \<Rightarrow> u8 \<Rightarrow> u8 \<Rightarrow> u32 \<Rightarrow> u8 \<Rightarrow> world \<Rightarrow> bool \<times> world" where
  "send_merch_add_fail s i n src dst cost kc w =
     session_send s (write_u8 kc (write_u8 dst (write_u8 src (write_u32 cost
       (write_u16 (ucast src + ucast dst) (write_u16 n (write_u32 i (write_u16 0 (merchant_packet MERCHANT_ITEM_ADD))))))))) w"

definition unsellable :: "u32 \<Rightarrow> item_def \<Rightarrow> bool" where
  \<comment> \<open>items that no shop may list\<close>
  "unsellable i it \<longleftrightarrow> ITEM_NO_TRADE_MIN \<le> i \<and> i \<le> ITEM_NO_TRADE_MAX
     \<or> unwrap_or 0 (race it) = RACE_UNTRADEABLE \<or> unwrap_or 0 (countable it) = 2"

definition listable :: "sid \<Rightarrow> u32 \<Rightarrow> u16 \<Rightarrow> u32 \<Rightarrow> u8 \<Rightarrow> u8 \<Rightarrow> u8 \<Rightarrow> world \<Rightarrow> (item_def \<times> user_item_slot) option" where
  \<comment> \<open>the guards of \<open>merchant_item_add\<close>; \<open>None\<close> is \<open>send_merch_add_fail\<close>\<close>
  "listable s i n cost src dst kc w =
     (if i = 0 \<or> n = 0 \<or> unat src \<ge> HAVE_MAX \<or> unat dst \<ge> MAX_MERCH_ITEMS then None
      else
        let ms = get_merchant_items s w in
        if list_ex (\<lambda>m. m_item_id m \<noteq> 0 \<and> original_slot m = src + of_nat SLOT_MAX) ms then None
        else case get_item i w of
          None \<Rightarrow> None
        | Some it \<Rightarrow>
            if unsellable i it then None
            else if unwrap_or 0 (kind it) = ITEM_KIND_UNIQUE \<and> n \<noteq> 1 then None
            else if unwrap_or 0 (countable it) = 1 \<and> n > ITEMCOUNT_MAX then None
            else case get_inventory_slot s (SLOT_MAX + unat src) w of
              None \<Rightarrow> None
            | Some sl \<Rightarrow>
                if item_id sl \<noteq> i \<or> item_count sl = 0 \<or> item_count sl < n then None
                else if List.member [ITEM_FLAG_RENTED, ITEM_FLAG_SEALED, ITEM_FLAG_BOUND, ITEM_FLAG_DUPLICATE] (item_flag sl)
                  \<or> expire_time sl > 0 then None
                else if kc \<noteq> 0 \<and> sint (unwrap_or 0 (merchant_min_cash w)) > 0
                  \<and> cost < scast (unwrap_or 0 (merchant_min_cash w)) then None
                else if m_item_id (ms ! unat dst) \<noteq> 0 then None
                else Some (it, sl))"

definition list_item :: "sid \<Rightarrow> u32 \<Rightarrow> u16 \<Rightarrow> u32 \<Rightarrow> u8 \<Rightarrow> u8 \<Rightarrow> u8 \<Rightarrow> user_item_slot \<Rightarrow> world \<Rightarrow> world" where
  \<comment> \<open>mark the bag slot and fill the slot of the shop\<close>
  "list_item s i units cost src dst kc sl w =
     set_merchant_item s (unat dst)
       \<lparr>m_item_id = i, m_durability = durability sl, sell_count = units, original_count = item_count sl,
        m_serial_num = serial_num sl, price = cost, original_slot = src + of_nat SLOT_MAX, sold_out = False,
        is_kc = (kc \<noteq> 0)\<rparr>
       (set_inventory_merchant_flag s (SLOT_MAX + unat src) True w)"

definition merchant_item_add :: "sid \<Rightarrow> reader \<Rightarrow> world \<Rightarrow> bool \<times> world" where
  "merchant_item_add s rd w =
     (if \<not> is_selling_merchant_preparing s w \<or> is_buying_merchant_preparing s w then (True, w)
      else
        let (r1, rd1) = read_u32 rd; i = unwrap_or 0 r1; (r2, rd2) = read_u16 rd1; n = unwrap_or 0 r2;
            (r3, rd3) = read_u32 rd2; cost = unwrap_or 0 r3; (r4, rd4) = read_u8 rd3; src = unwrap_or 0 r4;
            (r5, rd5) = read_u8 rd4; dst = unwrap_or 0 r5; (_, rd6) = read_u8 rd5; (r7, _) = read_u8 rd6;
            kc = unwrap_or 0 r7 in
        case listable s i n cost src dst kc w of
          None \<Rightarrow> send_merch_add_fail s i n src dst cost kc w
        | Some (it, sl) \<Rightarrow>
            let units = (if unwrap_or 0 (kind it) = ITEM_KIND_UNIQUE \<and> unwrap_or 0 (countable it) = 0 then 1 else n) in
            session_send s
              (write_u8 kc (write_u8 dst (write_u8 src (write_u32 cost (write_u16 (durability sl)
                (write_u16 units (write_u32 i (write_u16 1 (merchant_packet MERCHANT_ITEM_ADD)))))))))
              (list_item s i units cost src dst kc sl w))"

definition merchant_item_cancel :: "sid \<Rightarrow> reader \<Rightarrow> world \<Rightarrow> bool \<times> world" where
  "merchant_item_cancel s rd w =
     (if \<not> is_selling_merchant_preparing s w \<or> is_buying_merchant_preparing s w then (True, w)
      else
        let k = unwrap_or 0 (fst (read_u8 rd)); p = merchant_packet MERCHANT_ITEM_CANCEL in
        if unat k \<ge> MAX_MERCH_ITEMS then session_send s (write_i16 (-2) p) w
        else case get_merchant_item s (unat k) w of
          None \<Rightarrow> session_send s (write_i16 (-3) p) w
        | Some m \<Rightarrow>
            if m_item_id m = 0 then session_send s (write_i16 (-3) p) w
            else case get_inventory_slot s (unat (original_slot m)) w of
              None \<Rightarrow> session_send s (write_i16 (-3) p) w
            | Some sl \<Rightarrow>
                if item_id sl \<noteq> m_item_id m \<or> item_count sl \<noteq> sell_count m then session_send s (write_i16 (-3) p) w
                else session_send s (write_u8 k (write_i16 1 p))
                  (set_merchant_item s (unat k) empty_merch
                    (set_inventory_merchant_flag s (unat (original_slot m)) False w)))"

definition premium_flag :: "sid \<Rightarrow> world \<Rightarrow> u8" where
  "premium_flag s w = (if session_or False s is_premium_merchant w then 1 else 0)"

definition merchant_insert :: "sid \<Rightarrow> reader \<Rightarrow> world \<Rightarrow> bool \<times> world" where
  "merchant_insert s rd w =
     (if \<not> is_selling_merchant_preparing s w \<or> is_buying_merchant_preparing s w then (True, w)
      else
        let advert = unwrap_or [] (fst (read_string rd)) in
        if length (utf8_bytes advert) > MAX_MERCH_MESSAGE then (True, w)
        else
          let ms = get_merchant_items s w; listed = length (filter (\<lambda>m. m_item_id m > 0) ms) in
          if listed = 0 \<or> listed > 12 then (True, w)
          else
            let w1 = activate_selling_merchant s w;
                p = write_u8 (premium_flag s w1) (write_u32 (ucast s) (write_string advert (write_u16 1
                  (merchant_packet MERCHANT_INSERT)))) in
            (True, broadcast_around s (fold (\<lambda>m. write_u32 (m_item_id m)) ms p) w1))"

subsection \<open>Looking at a shop\<close>

definition busy_looker :: "sid \<Rightarrow> sid \<Rightarrow> world \<Rightarrow> character_info option" where
  \<comment> \<open>another player who looks at the shop and is still in the game\<close>
  "busy_looker s m w =
     (case get_merchant_looker m w of
        None \<Rightarrow> None | Some l \<Rightarrow> if l \<noteq> s then get_character_info l w else None)"

definition look_at :: "sid \<Rightarrow> sid \<Rightarrow> world \<Rightarrow> world" where
  "look_at s m w = set_browsing_merchant s (Some m) (set_merchant_looker m (Some s) w)"

definition merchant_item_list :: "env \<Rightarrow> sid \<Rightarrow> reader \<Rightarrow> world \<Rightarrow> bool \<times> world" where
  "merchant_item_list e s rd w =
     (let m = ucast (unwrap_or 0 (fst (read_u32 rd))) :: sid in
      if \<not> is_selling_merchant m w \<or> is_selling_merchant_preparing m w then (True, w)
      else case busy_looker s m w of
        Some ch \<Rightarrow> session_send s (write_sbyte_string (ch_name ch) (write_i16 (-7) (merchant_packet MERCHANT_ITEM_LIST))) w
      | None \<Rightarrow>
          let w1 = look_at s m w; ms = get_merchant_items m w1; rebirth = my_rebirth s w1;
              p0 = write_u32 (ucast m) (write_u16 1 (merchant_packet MERCHANT_ITEM_LIST));
              p1 = fold (\<lambda>x p. write_unique_item_info e w1 (m_item_id x) (m_serial_num x) rebirth
                     (write_u32 (price x) (write_u16 (m_durability x) (write_u16 (sell_count x) (write_u32 (m_item_id x) p))))) ms p0 in
          session_send s (fold (\<lambda>x. write_u8 (if is_kc x then 1 else 0)) ms p1) w1)"

definition merchant_trade_cancel :: "sid \<Rightarrow> world \<Rightarrow> bool \<times> world" where
  "merchant_trade_cancel s w =
     session_send s (write_u16 1 (merchant_packet MERCHANT_TRADE_CANCEL)) (remove_from_merchant_lookers s w)"

definition preview_items :: "sid \<Rightarrow> world \<Rightarrow> packet \<Rightarrow> packet" where
  \<comment> \<open>what both previews say of a shop\<close>
  "preview_items m w p =
     (let ms = get_merchant_items m w in
      if is_selling_merchant m w then
        fold (\<lambda>k. write_u32 (case slice_get ms k of None \<Rightarrow> 0 | Some x \<Rightarrow> if sold_out x then 0 else m_item_id x))
          [0..<if session_or False m is_premium_merchant w then 8 else 4]
          (write_u8 (premium_flag m w) (write_i8 0 p))
      else if is_buying_merchant m w then
        fold (\<lambda>x. write_u32 (m_item_id x)) (take 4 ms) (write_u8 0 (write_i8 1 p))
      else p)"

definition handle_merchant_list :: "session_state \<Rightarrow> sid \<Rightarrow> packet \<Rightarrow> world \<Rightarrow> bool \<times> world" where
  "handle_merchant_list st s pkt w =
     (if st \<noteq> InGame then (True, w)
      else
        let m = ucast (unwrap_or 0 (fst (read_u32 (reader_new (pdata pkt))))) :: sid in
        if \<not> is_merchanting m w \<or> merchant_zone s w \<noteq> merchant_zone m w \<or> get_event_room s w \<noteq> get_event_room m w
        then (True, w)
        else session_send s (preview_items m w (write_u32 (ucast m) (write_u8 1 (merchant_packet MERCHANT_LIST_SUB)))) w)"

definition merchant_list_preview :: "sid \<Rightarrow> reader \<Rightarrow> u8 \<Rightarrow> world \<Rightarrow> bool \<times> world" where
  "merchant_list_preview s rd sub w =
     (let m = ucast (unwrap_or 0 (fst (read_u32 rd))) :: sid in
      if \<not> is_merchanting m w then session_send s (write_u8 4 (merchant_packet sub)) w
      else if merchant_zone s w \<noteq> merchant_zone m w \<or> get_event_room s w \<noteq> get_event_room m w then (True, w)
      else session_send s (preview_items m w (write_u32 (ucast m) (write_u8 1 (merchant_packet sub)))) w)"

subsection \<open>Buying from a shop\<close>

definition send_merch_buy_fail :: "sid \<Rightarrow> world \<Rightarrow> bool \<times> world" where
  "send_merch_buy_fail s w = session_send s (write_u16 0xFFEE (merchant_packet MERCHANT_ITEM_BUY)) w"

definition shop_in_reach :: "env \<Rightarrow> sid \<Rightarrow> world \<Rightarrow> sid option" where
  \<comment> \<open>the shop the player looks at, when both may trade; the checks before the packet is read\<close>
  "shop_in_reach e s w =
     (case get_browsing_merchant s w of
        None \<Rightarrow> None
      | Some m \<Rightarrow>
          if m = s then None
          else if is_player_dead s w \<or> is_merchanting s w \<or> is_selling_merchant_preparing s w \<or> is_trading s w
            \<or> is_mining s w \<or> is_fishing s w then None
          else if \<not> is_selling_merchant m w \<or> is_selling_merchant_preparing m w then None
          else if merchant_zone s w \<noteq> merchant_zone m w then None
          else if beyond_35m e w s m then None
          else Some m)"

definition buyer_has_room :: "sid \<Rightarrow> u32 \<Rightarrow> u16 \<Rightarrow> u8 \<Rightarrow> item_def \<Rightarrow> world \<Rightarrow> bool" where
  \<comment> \<open>weight, destination slot and stack limit\<close>
  "buyer_has_room s i n dst it w \<longleftrightarrow>
     (let st = get_equipped_stats s w; single = (unwrap_or 0 (countable it) = 0);
          dest = unwrap_or empty_slot (get_inventory_slot s (SLOT_MAX + unat dst) w) in
      \<not> (single \<and> n \<noteq> 1)
      \<and> saturating_add (saturating_mul (scast (unwrap_or 0 (weight it)) :: u32) (ucast n)) (item_weight st) \<le> max_weight st
      \<and> \<not> (item_id dest \<noteq> 0 \<and> (item_id dest \<noteq> i \<or> single))
      \<and> \<not> (item_id dest \<noteq> 0 \<and> unwrap_or 0 (countable it) = 1 \<and> item_count dest + n > ITEMCOUNT_MAX))"

definition seller_still_has :: "sid \<Rightarrow> nat \<Rightarrow> u32 \<Rightarrow> u16 \<Rightarrow> world \<Rightarrow> bool option" where
  \<comment> \<open>does the seller's bag cover the sale; the answer says whether it is paid in Knight Cash\<close>
  "seller_still_has m k i n w =
     (case get_merchant_item m k w of
        None \<Rightarrow> None
      | Some x \<Rightarrow>
          if \<not> (m_item_id x = i \<and> \<not> sold_out x \<and> sell_count x \<ge> n) then None
          else if price x = 0 then None
          else case get_inventory_slot m (unat (original_slot x)) w of
            None \<Rightarrow> None
          | Some sl \<Rightarrow>
              if item_id sl = i \<and> item_count sl > 0 \<and> item_count sl \<ge> n then Some (is_kc x) else None)"

definition pay_shop :: "bool \<Rightarrow> sid \<Rightarrow> sid \<Rightarrow> u32 \<Rightarrow> world \<Rightarrow> bool \<times> world" where
  \<comment> \<open>the payment; \<open>False\<close> when it is refused, with nothing changed\<close>
  "pay_shop kc s m req w =
     (if kc then
        let (ok, w1) = cash_lose s req w in
        if \<not> ok then (False, w1)
        else (True, if is_offline_status m w1 then w1 else cash_gain m req w1)
      else case get_character_info s w of
        None \<Rightarrow> (False, w)
      | Some ch \<Rightarrow>
          if gold ch < req then (False, w)
          else
            let merch_gold = (case get_character_info m w of None \<Rightarrow> 0 | Some c \<Rightarrow> gold c) in
            if (ucast merch_gold :: u64) + ucast req > ucast COIN_MAX then (False, w)
            else (True, gold_gain m req (snd (gold_lose s req w))))"

definition receive_goods :: "u32 \<Rightarrow> u16 \<Rightarrow> nat \<Rightarrow> merch_data \<Rightarrow> slots \<Rightarrow> bool \<times> slots" where
  \<comment> \<open>the closure on the buyer's bag\<close>
  "receive_goods i n k x xs =
     (if k \<ge> length xs then (False, xs)
      else
        let sl = (xs ! k)\<lparr>item_id := i, item_count := min (item_count (xs ! k) + n) ITEMCOUNT_MAX,
                   durability := m_durability x\<rparr> in
        (True, xs[k := (if serial_num sl = 0 then sl\<lparr>serial_num := m_serial_num x\<rparr> else sl)]))"

definition sell_whole :: "u32 \<Rightarrow> nat \<Rightarrow> slots \<Rightarrow> bool \<times> slots" where
  \<comment> \<open>the closure on the seller's bag when the slot of the shop is sold out\<close>
  "sell_whole i k xs = (True, if k < length xs \<and> item_id (xs ! k) = i then xs[k := empty_slot] else xs)"

definition sell_part :: "u32 \<Rightarrow> u16 \<Rightarrow> nat \<Rightarrow> slots \<Rightarrow> bool \<times> slots" where
  "sell_part i n k xs =
     (True,
      if k < length xs \<and> item_id (xs ! k) = i
      then
        let left = saturating_sub (item_count (xs ! k)) n in
        xs[k := (if left = 0 then empty_slot else (xs ! k)\<lparr>item_count := left\<rparr>)]
      else xs)"

definition hand_over :: "sid \<Rightarrow> sid \<Rightarrow> nat \<Rightarrow> u32 \<Rightarrow> u16 \<Rightarrow> u8 \<Rightarrow> item_def \<Rightarrow> merch_data \<Rightarrow> world \<Rightarrow> world" where
  \<comment> \<open>after the payment: the sales figure, the buyer's bag, the shop's slot and the seller's bag\<close>
  "hand_over s m k i n dst it x w =
     (let w1 = modify_session m (\<lambda>h. h\<lparr>dr_gm_total_sold := dr_gm_total_sold h
                 + ucast (saturating_mul (price x) (ucast n))\<rparr>) w;
          w2 = snd (update_inventory s False (receive_goods i n (SLOT_MAX + unat dst) x) w1);
          pos = unat (original_slot x) in
      if sell_count x - n = 0 \<or> unwrap_or 0 (countable it) = 0 \<and> unwrap_or 0 (kind it) = ITEM_KIND_UNIQUE
      then snd (update_inventory m False (sell_whole i pos) (set_merchant_item m k (empty_merch\<lparr>sold_out := True\<rparr>) w2))
      else snd (update_inventory m False (sell_part i n pos) w2))"

definition name_or_empty :: "sid \<Rightarrow> world \<Rightarrow> rstr" where
  "name_or_empty s w = (case get_character_info s w of None \<Rightarrow> [] | Some c \<Rightarrow> ch_name c)"

definition notify_seller :: "sid \<Rightarrow> sid \<Rightarrow> u32 \<Rightarrow> merch_data \<Rightarrow> world \<Rightarrow> world" where
  "notify_seller s m i x w =
     (let sl = unwrap_or empty_slot (get_inventory_slot m (unat (original_slot x)) w) in
      send_to_session m
        (write_string (name_or_empty s w) (write_u32 i (merchant_packet MERCHANT_ITEM_PURCHASED)))
        (send_to_session m
          (item_count_change (saturating_sub (original_slot x) (of_nat SLOT_MAX)) (item_id sl) (ucast (item_count sl)) 0
            (durability sl) 0) w))"

definition announce_sold_slot :: "sid \<Rightarrow> u8 \<Rightarrow> world \<Rightarrow> world" where
  \<comment> \<open>one of the first four items of a shop is gone\<close>
  "announce_sold_slot m k w =
     broadcast_around m (write_u8 k (write_u8 0 (write_u8 1 (write_u32 (ucast m) (write_u8 2
       (packet_new (as_u8 WizMerchantInout))))))) w"

definition close_if_sold_out :: "env \<Rightarrow> sid \<Rightarrow> world \<Rightarrow> world" where
  "close_if_sold_out e m w =
     (if list_ex (\<lambda>x. m_item_id x \<noteq> 0 \<and> \<not> sold_out x) (get_merchant_items m w) then w
      else
        let w1 = broadcast_around m (write_u32 (ucast m) (merchant_packet MERCHANT_CLOSE)) (close_merchant m w) in
        if is_offline_status m w1 then cleanup_offline_session e m w1 else w1)"

definition buy_from_shop :: "sid \<Rightarrow> sid \<Rightarrow> u32 \<Rightarrow> u16 \<Rightarrow> u8 \<Rightarrow> u8 \<Rightarrow> item_def \<Rightarrow> world \<Rightarrow> merch_data option \<times> world" where
  \<comment> \<open>take from the shop, pay or restore the shop, hand over; \<open>None\<close> when the purchase is refused\<close>
  "buy_from_shop s m i n k dst it w =
     (case seller_still_has m (unat k) i n w of
        None \<Rightarrow> (None, w)
      | Some kc \<Rightarrow>
          (case try_merchant_buy m (unat k) i n w of
             (None, w1) \<Rightarrow> (None, w1)
           | (Some x, w1) \<Rightarrow>
               let (ok, w2) = pay_shop kc s m (saturating_mul (price x) (ucast n)) w1 in
               if \<not> ok then (None, restore_merchant_buy m (unat k) i n w2)
               else (Some x, hand_over s m (unat k) i n dst it x w2)))"

definition merchant_item_buy :: "env \<Rightarrow> sid \<Rightarrow> reader \<Rightarrow> world \<Rightarrow> bool \<times> world" where
  "merchant_item_buy e s rd w =
     (case shop_in_reach e s w of
        None \<Rightarrow> send_merch_buy_fail s w
      | Some m \<Rightarrow>
          let (r1, rd1) = read_u32 rd; i = unwrap_or 0 r1; (r2, rd2) = read_u16 rd1; n = unwrap_or 0 r2;
              (r3, rd3) = read_u8 rd2; k = unwrap_or 0 r3; (r4, _) = read_u8 rd3; dst = unwrap_or 0 r4 in
          if unat k \<ge> MAX_MERCH_ITEMS \<or> unat dst \<ge> HAVE_MAX \<or> n = 0 then send_merch_buy_fail s w
          else case get_item i w of
            None \<Rightarrow> send_merch_buy_fail s w
          | Some it \<Rightarrow>
              if \<not> buyer_has_room s i n dst it w then send_merch_buy_fail s w
              else case buy_from_shop s m i n k dst it w of
                (None, w1) \<Rightarrow> send_merch_buy_fail s w1
              | (Some x, w1) \<Rightarrow>
                  let left = sell_count x - n;
                      (ok, w2) = session_send s (write_u8 dst (write_u8 k (write_u16 left (write_u32 i (write_u16 1
                        (merchant_packet MERCHANT_ITEM_BUY)))))) (notify_seller s m i x w1) in
                  if \<not> ok then (False, w2)
                  else
                    let w3 = (if unat k < 4 \<and> left = 0 then announce_sold_slot m k w2 else w2) in
                    (True, close_if_sold_out e m w3))"

end
