(* ===== verification/Merchant_Buying.thy ===== *)
theory Merchant_Buying
  imports Merchant
begin

text \<open>
  Player shops that buy, and the dispatch of \<^verbatim>\<open>WIZ_MERCHANT\<close>
  (\<^verbatim>\<open>crates/ko-game/src/handler/merchant.rs\<close>, lines 65 to 110 and 1107 to 1689). A shop that buys lists what its
  owner wants; who looks at it sells out of the own bag.
\<close>

definition MERCHANT_BUY_OPEN :: u8 where "MERCHANT_BUY_OPEN = 0x21"
definition MERCHANT_BUY_INSERT :: u8 where "MERCHANT_BUY_INSERT = 0x22"
definition MERCHANT_BUY_LIST :: u8 where "MERCHANT_BUY_LIST = 0x23"
definition MERCHANT_BUY_BUY :: u8 where "MERCHANT_BUY_BUY = 0x24"
definition MERCHANT_BUY_SOLD :: u8 where "MERCHANT_BUY_SOLD = 0x25"
definition MERCHANT_BUY_BOUGHT :: u8 where "MERCHANT_BUY_BOUGHT = 0x26"
definition MERCHANT_BUY_CLOSE :: u8 where "MERCHANT_BUY_CLOSE = 0x27"
definition MERCHANT_BUY_REGION_INSERT :: u8 where "MERCHANT_BUY_REGION_INSERT = 0x28"
definition MERCHANT_BUY_LIST_NEW :: u8 where "MERCHANT_BUY_LIST_NEW = 0x51"
definition MERCHANT_OFFICIAL_LIST :: u8 where "MERCHANT_OFFICIAL_LIST = 0x30"
definition MERCHANT_LIST_PREVIEW :: u8 where "MERCHANT_LIST_PREVIEW = 0x31"
definition MERCHANT_LIST_PREVIEW_NEW :: u8 where "MERCHANT_LIST_PREVIEW_NEW = 0x11"

subsection \<open>Opening and closing\<close>

definition buying_merchant_close_broadcast :: "sid \<Rightarrow> world \<Rightarrow> world" where
  "buying_merchant_close_broadcast s w =
     broadcast_around s (write_u32 (ucast s) (merchant_packet MERCHANT_BUY_CLOSE)) (close_buying_merchant s w)"

definition dismiss_looker :: "sid \<Rightarrow> world \<Rightarrow> world" where
  \<comment> \<open>tell who looks at the shop that it closes\<close>
  "dismiss_looker s w =
     (case get_merchant_looker s w of
        None \<Rightarrow> w
      | Some l \<Rightarrow> set_browsing_merchant l None (send_to_session l (write_i16 (-1) (merchant_packet 29)) w))"

definition buying_merchant_close_internal :: "sid \<Rightarrow> world \<Rightarrow> bool \<times> world" where
  "buying_merchant_close_internal s w =
     (let buying = is_buying_merchant s w; preparing = is_buying_merchant_preparing s w in
      if \<not> buying \<and> \<not> preparing then (True, remove_from_merchant_lookers s w)
      else
        let w1 = close_buying_merchant s (dismiss_looker s w) in
        if buying then (True, buying_merchant_close_broadcast s w1)
        else session_send s (write_u32 (ucast s) (merchant_packet MERCHANT_BUY_CLOSE)) w1)"

definition buying_merchant_open :: "sid \<Rightarrow> world \<Rightarrow> bool \<times> world" where
  "buying_merchant_open s w =
     (if is_selling_merchant_preparing s w then (True, w)
      else
        let code = merchant_open_code s w;
            (ok, w1) = session_send s (write_i16 code (merchant_packet MERCHANT_BUY_OPEN)) w in
        if \<not> ok then (False, w1)
        else if code = MERCHANT_OPEN_MERCHANTING then buying_merchant_close_internal s w1
        else if code = MERCHANT_OPEN_SUCCESS
        then (True, fold (\<lambda>k. set_merchant_item s k empty_merch) [0..<MAX_MERCH_ITEMS]
               (set_buying_merchant_preparing s True w1))
        else (True, w1))"

subsection \<open>The list of wanted items\<close>

type_synonym wanted = "u32 \<times> u16 \<times> u32 \<times> i16"

primrec read_wanted :: "nat \<Rightarrow> reader \<Rightarrow> world \<Rightarrow> u64 \<Rightarrow> (u64 \<times> wanted list) option" where
  \<comment> \<open>the loop that parses and checks the list, with the gold it adds up to\<close>
  "read_wanted 0 rd w sum_gold = Some (sum_gold, [])"
| "read_wanted (Suc c) rd w sum_gold =
     (let (r1, rd1) = read_u32 rd; i = unwrap_or 0 r1; (r2, rd2) = read_u16 rd1; n = unwrap_or 0 r2;
          (r3, rd3) = read_u32 rd2; cost = unwrap_or 0 r3 in
      if i = 0 \<or> n = 0 \<or> cost = 0 then None
      else case get_item i w of
        None \<Rightarrow> None
      | Some it \<Rightarrow>
          if unsellable i it then None
          else if unwrap_or 0 (countable it) = 0 \<and> n \<noteq> 1 then None
          else if unwrap_or 0 (kind it) = ITEM_KIND_UNIQUE \<and> unwrap_or 0 (countable it) = 0 \<and> n \<noteq> 1 then None
          else map_option (apsnd ((#) (i, n, cost, unwrap_or 0 (duration it))))
                 (read_wanted c rd3 w (sum_gold + ucast cost * ucast n)))"

definition wanted_entry :: "wanted \<Rightarrow> merch_data" where
  "wanted_entry x = (case x of (i, n, cost, dur) \<Rightarrow>
     \<lparr>m_item_id = i, m_durability = dur, sell_count = n, original_count = 0, m_serial_num = 0, price = cost,
      original_slot = 0, sold_out = False, is_kc = False\<rparr>)"

definition buying_merchant_region_insert :: "sid \<Rightarrow> world \<Rightarrow> world" where
  "buying_merchant_region_insert s w =
     broadcast_around s (fold (\<lambda>x. write_u32 (m_item_id x)) (take 4 (get_merchant_items s w))
       (write_u32 (ucast s) (merchant_packet MERCHANT_BUY_REGION_INSERT))) w"

definition buying_merchant_insert :: "sid \<Rightarrow> reader \<Rightarrow> world \<Rightarrow> bool \<times> world" where
  "buying_merchant_insert s rd w =
     (if \<not> is_buying_merchant_preparing s w \<or> is_selling_merchant_preparing s w \<or> is_merchanting s w then (True, w)
      else if is_player_dead s w \<or> is_trading s w \<or> is_mining s w \<or> is_fishing s w then (True, w)
      else case get_character_info s w of
        None \<Rightarrow> (True, w)
      | Some ch \<Rightarrow>
          if sint (ucast (level ch) :: i16) < sint (unwrap_or 1 (merchant_level w)) then (True, w)
          else
            let (r, rd1) = read_u8 rd; c = unat (unwrap_or 0 r) in
            if c = 0 \<or> c > MAX_MERCH_ITEMS then (True, w)
            else case read_wanted c rd1 w 0 of
              None \<Rightarrow> (True, w)
            | Some (sum_gold, xs) \<Rightarrow>
                if sum_gold > ucast (gold ch) then (True, w)
                else (True, buying_merchant_region_insert s (activate_buying_merchant s
                       (fold (\<lambda>(k, x). set_merchant_item s k (wanted_entry x)) (enumerate 0 xs) w))))"

definition buying_merchant_list :: "sid \<Rightarrow> reader \<Rightarrow> world \<Rightarrow> bool \<times> world" where
  "buying_merchant_list s rd w =
     (let m = ucast (unwrap_or 0 (fst (read_u32 rd))) :: sid in
      if \<not> is_buying_merchant m w then (True, w)
      else case busy_looker s m w of
        Some ch \<Rightarrow> session_send s (write_sbyte_string (ch_name ch) (write_i16 (-7) (merchant_packet MERCHANT_BUY_LIST))) w
      | None \<Rightarrow>
          let w1 = look_at s m w in
          session_send s
            (fold (\<lambda>x p. write_u32 (price x) (write_u16 (if sint (m_durability x) < 0 then 0 else m_durability x)
                 (write_u16 (sell_count x) (write_u32 (m_item_id x) p)))) (get_merchant_items m w1)
              (write_u32 (ucast m) (write_u8 1 (merchant_packet MERCHANT_BUY_LIST)))) w1)"

subsection \<open>Selling to a shop\<close>

definition wanted_from :: "sid \<Rightarrow> sid \<Rightarrow> u8 \<Rightarrow> u8 \<Rightarrow> u16 \<Rightarrow> world \<Rightarrow> (merch_data \<times> user_item_slot) option" where
  \<comment> \<open>the entry of the list and the seller's slot, when the one asks for the other\<close>
  "wanted_from s m src k n w =
     (if n = 0 \<or> unat src \<ge> HAVE_MAX \<or> unat k \<ge> MAX_MERCH_ITEMS then None
      else case get_merchant_item m (unat k) w of
        None \<Rightarrow> None
      | Some x \<Rightarrow>
          if \<not> (m_item_id x \<noteq> 0 \<and> \<not> sold_out x \<and> sell_count x \<ge> n) then None
          else case get_inventory_slot s (SLOT_MAX + unat src) w of
            None \<Rightarrow> None
          | Some sl \<Rightarrow>
              if \<not> (item_id sl = m_item_id x \<and> item_count sl \<ge> n) then None
              else if List.member [ITEM_FLAG_SEALED, ITEM_FLAG_BOUND, ITEM_FLAG_RENTED, ITEM_FLAG_DUPLICATE] (item_flag sl)
              then None
              else case get_item (m_item_id x) w of
                None \<Rightarrow> None
              | Some it \<Rightarrow>
                  if unwrap_or 0 (countable it) = 0 \<and> n \<noteq> 1 then None
                  else if sint (m_durability x) \<ge> 0 \<and> durability sl \<noteq> m_durability x then None
                  else Some (x, sl))"

definition shop_affords :: "sid \<Rightarrow> merch_data \<Rightarrow> u32 \<Rightarrow> world \<Rightarrow> bool" where
  "shop_affords m x sum_gold w \<longleftrightarrow>
     (if is_kc x then get_knight_cash m w \<ge> sum_gold
      else case get_character_info m w of None \<Rightarrow> False | Some c \<Rightarrow> gold c \<ge> sum_gold)"

definition shop_pays :: "sid \<Rightarrow> sid \<Rightarrow> merch_data \<Rightarrow> u32 \<Rightarrow> world \<Rightarrow> bool \<times> world" where
  "shop_pays s m x sum_gold w =
     (if is_kc x then
        let (ok, w1) = cash_lose m sum_gold w in
        if \<not> ok then (False, w1) else (True, cash_gain s sum_gold w1)
      else (True, gold_gain s sum_gold (snd (gold_lose m sum_gold w))))"

definition stock_up :: "u32 \<Rightarrow> u16 \<Rightarrow> nat \<Rightarrow> user_item_slot \<Rightarrow> slots \<Rightarrow> bool \<times> slots" where
  \<comment> \<open>the closure on the bag of the shop's owner\<close>
  "stock_up i n k sl xs =
     (if k \<ge> length xs then (False, xs)
      else if item_id (xs ! k) = i
      then (True, xs[k := (xs ! k)\<lparr>item_count := saturating_add (item_count (xs ! k)) n\<rparr>])
      else (True, xs[k := (xs ! k)\<lparr>item_id := i, item_count := n, durability := durability sl,
             serial_num := serial_num sl\<rparr>]))"

definition give_away :: "u16 \<Rightarrow> nat \<Rightarrow> slots \<Rightarrow> bool \<times> slots" where
  \<comment> \<open>the closure on the seller's bag\<close>
  "give_away left k xs =
     (if k \<ge> length xs then (False, xs)
      else (True, xs[k := (if left = 0 then empty_slot else (xs ! k)\<lparr>item_count := left\<rparr>)]))"

definition deliver_wanted :: "sid \<Rightarrow> sid \<Rightarrow> u8 \<Rightarrow> u8 \<Rightarrow> u16 \<Rightarrow> nat \<Rightarrow> merch_data \<Rightarrow> user_item_slot \<Rightarrow> world \<Rightarrow> world" where
  \<comment> \<open>the list of the shop and both bags\<close>
  "deliver_wanted s m src k n dest x sl w =
     (let left = sell_count x - n;
          w1 = set_merchant_item m (unat k) (if left = 0 then empty_merch else x\<lparr>sell_count := left\<rparr>) w;
          w2 = snd (update_inventory m False (stock_up (m_item_id x) n dest sl) w1) in
      snd (update_inventory s False (give_away (item_count sl - n) (SLOT_MAX + unat src)) w2))"

definition close_if_satisfied :: "env \<Rightarrow> sid \<Rightarrow> world \<Rightarrow> world" where
  "close_if_satisfied e m w =
     (if list_ex (\<lambda>x. m_item_id x \<noteq> 0) (get_merchant_items m w) then w
      else
        let w1 = buying_merchant_close_broadcast m w in
        if is_offline_status m w1 then cleanup_offline_session e m w1 else w1)"

definition report_to_shop :: "sid \<Rightarrow> sid \<Rightarrow> u8 \<Rightarrow> u16 \<Rightarrow> nat \<Rightarrow> merch_data \<Rightarrow> user_item_slot \<Rightarrow> world \<Rightarrow> world" where
  "report_to_shop s m k n dest x sl w =
     (let held = (case get_inventory_slot m dest w of None \<Rightarrow> 0 | Some t \<Rightarrow> ucast (item_count t)) :: u32 in
      send_to_session m (write_string (name_or_empty s w) (write_u16 0 (write_u8 k (merchant_packet MERCHANT_BUY_BOUGHT))))
        (send_to_session m
          (item_count_change (ucast (saturating_sub (of_nat dest) (of_nat SLOT_MAX) :: u16)) (m_item_id x) held
            (if held = ucast n then 100 else 0) (durability sl) 0) w))"

definition report_sale :: "env \<Rightarrow> sid \<Rightarrow> sid \<Rightarrow> u8 \<Rightarrow> u8 \<Rightarrow> u16 \<Rightarrow> nat \<Rightarrow> merch_data \<Rightarrow> user_item_slot \<Rightarrow> world \<Rightarrow> bool \<times> world" where
  \<comment> \<open>the packets after a sale, the broadcast and the closing of a satisfied shop\<close>
  "report_sale e s m src k n dest x sl w =
     (let left = item_count sl - n; remaining = sell_count x - n;
          (ok1, w1) = session_send s (item_count_change src (m_item_id x) (ucast left) 0 (durability sl) 0) w in
      if \<not> ok1 then (False, w1)
      else
        let (ok2, w2) = session_send s
              (write_u16 left (write_u8 src (write_u16 remaining (write_u8 k (write_u8 1 (merchant_packet MERCHANT_BUY_SOLD))))))
              (report_to_shop s m k n dest x sl w1) in
        if \<not> ok2 then (False, w2)
        else
          let (ok3, w3) = session_send s (write_u8 1 (merchant_packet MERCHANT_BUY_BUY)) w2 in
          if \<not> ok3 then (False, w3)
          else
            let w4 = (if unat k < 4 \<and> remaining = 0 then announce_sold_slot m k w3 else w3) in
            (True, close_if_satisfied e m w4))"

definition buying_merchant_buy :: "env \<Rightarrow> sid \<Rightarrow> reader \<Rightarrow> world \<Rightarrow> bool \<times> world" where
  "buying_merchant_buy e s rd w =
     (case get_browsing_merchant s w of
        None \<Rightarrow> (True, w)
      | Some m \<Rightarrow>
          if m = s \<or> \<not> is_buying_merchant m w then (True, w)
          else
            let (r1, rd1) = read_u8 rd; src = unwrap_or 0 r1; (r2, rd2) = read_u8 rd1; k = unwrap_or 0 r2;
                (r3, _) = read_u16 rd2; n = unwrap_or 0 r3 in
            case wanted_from s m src k n w of
              None \<Rightarrow> (True, w)
            | Some (x, sl) \<Rightarrow>
                let sum_gold = saturating_mul (price x) (ucast n) in
                if \<not> shop_affords m x sum_gold w then (True, w)
                else case find_slot_for_item m (m_item_id x) n w of
                  None \<Rightarrow> (True, w)
                | Some dest \<Rightarrow>
                    let (ok, w1) = shop_pays s m x sum_gold w in
                    if \<not> ok then (True, w1)
                    else report_sale e s m src k n dest x sl (deliver_wanted s m src k n dest x sl w1))"

subsection \<open>The handler\<close>

definition handle_merchant :: "env \<Rightarrow> session_state \<Rightarrow> sid \<Rightarrow> packet \<Rightarrow> world \<Rightarrow> bool \<times> world" where
  "handle_merchant e st s pkt w =
     (if st \<noteq> InGame \<or> get_character_info s w = None then (True, w)
      else
        let (r, rd) = read_u8 (reader_new (pdata pkt)); sub = unwrap_or 0 r in
        if sub = MERCHANT_OPEN then merchant_open s w
        else if sub = MERCHANT_CLOSE then merchant_close s w
        else if sub = MERCHANT_ITEM_ADD then merchant_item_add s rd w
        else if sub = MERCHANT_ITEM_CANCEL then merchant_item_cancel s rd w
        else if sub = MERCHANT_ITEM_LIST \<or> sub = MERCHANT_LIST_PREVIEW_NEW then merchant_item_list e s rd w
        else if sub = MERCHANT_ITEM_BUY then merchant_item_buy e s rd w
        else if sub = MERCHANT_INSERT then merchant_insert s rd w
        else if sub = MERCHANT_TRADE_CANCEL then merchant_trade_cancel s w
        else if sub = MERCHANT_BUY_OPEN then buying_merchant_open s w
        else if sub = MERCHANT_BUY_INSERT then buying_merchant_insert s rd w
        else if sub = MERCHANT_BUY_LIST \<or> sub = MERCHANT_BUY_LIST_NEW then buying_merchant_list s rd w
        else if sub = MERCHANT_BUY_BUY then buying_merchant_buy e s rd w
        else if sub = MERCHANT_BUY_CLOSE then buying_merchant_close_internal s w
        else if sub = MERCHANT_OFFICIAL_LIST then (True, w)
        else if sub = MERCHANT_LIST_PREVIEW then merchant_list_preview s rd sub w
        else (True, w))"

end
