(* ===== verification/Merchant_Machine.thy ===== *)
theory Merchant_Machine
  imports Merchant_Buying Exchange_Refine
begin

text \<open>
  What the shop handlers do to the players' bags, gold and shops, seen from outside: a step relation on
  the views of the sessions. No step makes gold or pieces of an item, each keeps the bags well formed, and a
  player never sets up or keeps two kinds of shop at once.
\<close>

subsection \<open>The view of a session\<close>

record shop_view =
  sv_bag :: slots
  sv_gold :: "u32 option"
  sv_state :: i8
  sv_selling :: bool
  sv_buying :: bool
  sv_items :: "merch_data list"

type_synonym shops = "sid \<rightharpoonup> shop_view"

definition shop_view_of :: "session_handle \<Rightarrow> shop_view" where
  "shop_view_of h = \<lparr>sv_bag = inventory h, sv_gold = map_option gold (character h), sv_state = merchant_state h,
     sv_selling = selling_merchant_preparing h, sv_buying = buying_merchant_preparing h,
     sv_items = merchant_items h\<rparr>"

definition shops_of :: "world \<Rightarrow> shops" where
  "shops_of = observe shop_view_of"

definition unflagged :: "slots \<Rightarrow> slots" where
  "unflagged = map (\<lambda>sl. sl\<lparr>item_flag := and (item_flag sl) (not 0x10)\<rparr>)"

definition closed_sale :: "shop_view \<Rightarrow> shop_view" where
  "closed_sale a = a\<lparr>sv_bag := unflagged (sv_bag a), sv_state := MERCHANT_STATE_NONE, sv_selling := False,
     sv_buying := False, sv_items := replicate MAX_MERCH_ITEMS empty_merch\<rparr>"

definition closed_purchase :: "shop_view \<Rightarrow> shop_view" where
  "closed_purchase a = a\<lparr>sv_state := MERCHANT_STATE_NONE, sv_buying := False,
     sv_items := replicate MAX_MERCH_ITEMS empty_merch\<rparr>"

definition covers :: "slots \<Rightarrow> nat \<Rightarrow> u32 \<Rightarrow> u16 \<Rightarrow> bool" where
  \<comment> \<open>a slot of the bag holds so many pieces of the item\<close>
  "covers xs k i n \<longleftrightarrow> k < length xs \<and> i \<noteq> 0 \<and> item_id (xs ! k) = i \<and> n \<noteq> 0 \<and> n \<le> item_count (xs ! k)"

definition takes :: "slots \<Rightarrow> nat \<Rightarrow> u32 \<Rightarrow> u16 \<Rightarrow> bool" where
  \<comment> \<open>a slot of the bag is empty, or holds the item and has room\<close>
  "takes xs k i n \<longleftrightarrow> k < length xs \<and>
     (item_id (xs ! k) = 0 \<or> item_id (xs ! k) = i \<and> item_count (xs ! k) + n \<le> ITEMCOUNT_MAX)"

definition gold_moved :: "bool \<Rightarrow> u32 \<Rightarrow> u32 option \<times> u32 option \<Rightarrow> u32 option \<times> u32 option \<Rightarrow> bool" where
  \<comment> \<open>an amount goes from the first to the second; \<open>checked\<close> when the receiver's cap was\<close>
  "gold_moved checked c p q \<longleftrightarrow>
     (\<exists>g. fst p = Some g \<and> c \<le> g \<and> fst q = Some (g - c) \<and> snd q = map_option (\<lambda>y. add_gold y c) (snd p)
        \<and> (checked \<longrightarrow> (\<forall>y. snd p = Some y \<longrightarrow> unat y + unat c \<le> unat COIN_MAX)))"

definition gold_after :: "bool \<Rightarrow> u32 \<Rightarrow> u32 option \<times> u32 option \<Rightarrow> u32 option \<times> u32 option \<Rightarrow> bool" where
  \<comment> \<open>gold moves, or Knight Cash has paid and it does not\<close>
  "gold_after checked c p q \<longleftrightarrow> q = p \<or> gold_moved checked c p q"

subsection \<open>The steps\<close>

inductive shop_step :: "shops \<Rightarrow> shops \<Rightarrow> bool" where
  open_sale: "v s = Some a \<Longrightarrow> sv_state a = MERCHANT_STATE_NONE \<Longrightarrow> \<not> sv_buying a \<Longrightarrow>
    shop_step v (v(s \<mapsto> a\<lparr>sv_selling := True\<rparr>))"
| set_out: "v s = Some a \<Longrightarrow> sv_selling a \<Longrightarrow> \<not> sv_buying a \<Longrightarrow> covers (sv_bag a) k (m_item_id x) (sell_count x) \<Longrightarrow>
    original_slot x = of_nat k \<Longrightarrow> \<not> sold_out x \<Longrightarrow>
    shop_step v (v(s \<mapsto> a\<lparr>sv_bag := (sv_bag a)[k := (sv_bag a ! k)\<lparr>item_flag := f\<rparr>],
                          sv_items := (sv_items a)[d := x]\<rparr>))"
| take_back: "v s = Some a \<Longrightarrow> sv_selling a \<Longrightarrow> \<not> sv_buying a \<Longrightarrow>
    shop_step v (v(s \<mapsto> a\<lparr>sv_bag := (sv_bag a)[k := (sv_bag a ! k)\<lparr>item_flag := f\<rparr>],
                          sv_items := (sv_items a)[d := empty_merch]\<rparr>))"
| start_selling: "v s = Some a \<Longrightarrow> sv_selling a \<Longrightarrow> \<not> sv_buying a \<Longrightarrow> \<exists>x \<in> set (sv_items a). m_item_id x \<noteq> 0 \<Longrightarrow>
    shop_step v (v(s \<mapsto> a\<lparr>sv_state := MERCHANT_STATE_SELLING, sv_selling := False\<rparr>))"
| close_sale: "v s = Some a \<Longrightarrow> shop_step v (v(s \<mapsto> closed_sale a))"
| buy: "s \<noteq> m \<Longrightarrow> v s = Some a \<Longrightarrow> v m = Some b \<Longrightarrow> sv_state b = MERCHANT_STATE_SELLING \<Longrightarrow>
    sv_state a = MERCHANT_STATE_NONE \<Longrightarrow> k < MAX_MERCH_ITEMS \<Longrightarrow> x = sv_items b ! k \<Longrightarrow> buyable i n x \<Longrightarrow>
    covers (sv_bag b) (unat (original_slot x)) i n \<Longrightarrow>
    (d < length (sv_bag a) \<Longrightarrow> item_id (sv_bag a ! d) = 0 \<or> item_id (sv_bag a ! d) = i) \<Longrightarrow>
    gold_after True (saturating_mul (price x) (ucast n)) (sv_gold a, sv_gold b) (g, g') \<Longrightarrow>
    left = saturating_sub (sell_count x) n \<Longrightarrow>
    y = x\<lparr>sell_count := left, sold_out := (left = 0)\<rparr> \<and> ys = snd (sell_part i n (unat (original_slot x)) (sv_bag b)) \<and> left \<noteq> 0
    \<or> y = empty_merch\<lparr>sold_out := True\<rparr> \<and> ys = snd (sell_whole i (unat (original_slot x)) (sv_bag b)) \<Longrightarrow>
    shop_step v (v(s \<mapsto> a\<lparr>sv_bag := snd (receive_goods i n d x (sv_bag a)), sv_gold := g\<rparr>,
                   m \<mapsto> b\<lparr>sv_bag := ys, sv_gold := g', sv_items := (sv_items b)[k := y]\<rparr>))"
| open_purchase: "v s = Some a \<Longrightarrow> sv_state a = MERCHANT_STATE_NONE \<Longrightarrow> \<not> sv_selling a \<Longrightarrow>
    shop_step v (v(s \<mapsto> a\<lparr>sv_buying := True, sv_items := xs\<rparr>))"
| start_buying: "v s = Some a \<Longrightarrow> sv_state a = MERCHANT_STATE_NONE \<Longrightarrow> sv_buying a \<Longrightarrow> \<not> sv_selling a \<Longrightarrow>
    shop_step v (v(s \<mapsto> a\<lparr>sv_state := MERCHANT_STATE_BUYING, sv_buying := False, sv_items := xs\<rparr>))"
| close_purchase: "v s = Some a \<Longrightarrow> shop_step v (v(s \<mapsto> closed_purchase a))"
| sell: "s \<noteq> m \<Longrightarrow> v s = Some a \<Longrightarrow> v m = Some b \<Longrightarrow> sv_state b = MERCHANT_STATE_BUYING \<Longrightarrow>
    k < MAX_MERCH_ITEMS \<Longrightarrow> x = sv_items b ! k \<Longrightarrow> n \<le> sell_count x \<Longrightarrow>
    covers (sv_bag a) j (m_item_id x) n \<Longrightarrow> takes (sv_bag b) d (m_item_id x) n \<Longrightarrow>
    gold_after False (saturating_mul (price x) (ucast n)) (sv_gold b, sv_gold a) (g, g') \<Longrightarrow>
    y = empty_merch \<or> y = x\<lparr>sell_count := sell_count x - n\<rparr> \<Longrightarrow>
    shop_step v (v(m \<mapsto> b\<lparr>sv_bag := snd (stock_up (m_item_id x) n d (sv_bag a ! j) (sv_bag b)), sv_gold := g,
                         sv_items := (sv_items b)[k := y]\<rparr>,
                   s \<mapsto> a\<lparr>sv_bag := snd (give_away (item_count (sv_bag a ! j) - n) j (sv_bag a)), sv_gold := g'\<rparr>))"
| leave: "shop_step v (v(s := None))"

inductive_cases shop_step_cases: "shop_step v v'"

subsection \<open>Sums over all players\<close>

lemma sum_upd:
  fixes F :: "'b option \<Rightarrow> nat" and v :: "'n::finite \<rightharpoonup> 'b"
  shows "(\<Sum>t\<in>UNIV. F ((v(s := x)) t)) + F (v s) = (\<Sum>t\<in>UNIV. F (v t)) + F x"
proof -
  have "(\<Sum>t\<in>UNIV - {s}. F ((v(s := x)) t)) = (\<Sum>t\<in>UNIV - {s}. F (v t))" by (rule sum.cong) auto
  then show ?thesis by (simp add: sum.remove [of UNIV s])
qed

lemma sum_upd_le:
  fixes F :: "'b option \<Rightarrow> nat" and v :: "'n::finite \<rightharpoonup> 'b"
  assumes "F x \<le> F (v s)"
  shows "(\<Sum>t\<in>UNIV. F ((v(s := x)) t)) \<le> (\<Sum>t\<in>UNIV. F (v t))"
  using sum_upd [of F v s x] assms by linarith

lemma sum_upd2_le:
  fixes F :: "'b option \<Rightarrow> nat" and v :: "'n::finite \<rightharpoonup> 'b"
  assumes "s \<noteq> m" "F x + F y \<le> F (v s) + F (v m)"
  shows "(\<Sum>t\<in>UNIV. F ((v(s := x, m := y)) t)) \<le> (\<Sum>t\<in>UNIV. F (v t))"
  using sum_upd [of F v s x] sum_upd [of F "v(s := x)" m y] assms by simp

definition carried :: "shop_view option \<Rightarrow> nat" where
  "carried a = (case Option.bind a sv_gold of None \<Rightarrow> 0 | Some g \<Rightarrow> unat g)"

definition in_bag :: "u32 \<Rightarrow> shop_view option \<Rightarrow> nat" where
  "in_bag i a = (case a of None \<Rightarrow> 0 | Some a \<Rightarrow> tally i (sv_bag a))"

definition stall_ok :: "shop_view \<Rightarrow> bool" where
  \<comment> \<open>one kind of shop at a time, and none is set up while one is open\<close>
  "stall_ok a \<longleftrightarrow> \<not> (sv_selling a \<and> sv_buying a)
     \<and> (sv_selling a \<or> sv_buying a \<longrightarrow> sv_state a = MERCHANT_STATE_NONE)"

definition shops_ok :: "shops \<Rightarrow> bool" where
  "shops_ok v \<longleftrightarrow> (\<forall>s a. v s = Some a \<longrightarrow> stall_ok a)"

definition shop_bags_ok :: "shops \<Rightarrow> bool" where
  "shop_bags_ok v \<longleftrightarrow> (\<forall>s a. v s = Some a \<longrightarrow> slots_ok (sv_bag a))"

lemma carried_simps [simp]: "carried None = 0"
  "carried (Some a) = (case sv_gold a of None \<Rightarrow> 0 | Some g \<Rightarrow> unat g)"
  by (simp_all add: carried_def)

lemma in_bag_simps [simp]: "in_bag i None = 0" "in_bag i (Some a) = tally i (sv_bag a)"
  by (simp_all add: in_bag_def)

lemma merchant_state_distinct [simp]:
  "MERCHANT_STATE_SELLING \<noteq> MERCHANT_STATE_NONE" "MERCHANT_STATE_BUYING \<noteq> MERCHANT_STATE_NONE"
  "MERCHANT_STATE_SELLING \<noteq> MERCHANT_STATE_BUYING"
  by (simp_all add: MERCHANT_STATE_NONE_def MERCHANT_STATE_SELLING_def MERCHANT_STATE_BUYING_def)

lemmas merchant_state_distinct' [simp] = merchant_state_distinct [symmetric]

subsection \<open>The bags\<close>

lemma at_slot_flag [simp]: "at_slot i (sl\<lparr>item_flag := f\<rparr>) = at_slot i sl"
  by (simp add: at_slot_def)

lemma tally_flag [simp]: "tally i (xs[k := (xs ! k)\<lparr>item_flag := f\<rparr>]) = tally i xs"
proof (cases "k < length xs")
  case True
  then show ?thesis using tally_update [of k xs i "(xs ! k)\<lparr>item_flag := f\<rparr>"] by simp
qed (simp add: list_update_beyond)

lemma tally_unflagged [simp]: "tally i (unflagged xs) = tally i xs"
  by (simp add: tally_def unflagged_def o_def)

lemma slots_ok_unflagged [simp]: "slots_ok (unflagged xs) = slots_ok xs"
  by (simp add: slots_ok_def unflagged_def)

lemma slots_ok_flag: "slots_ok xs \<Longrightarrow> slots_ok (xs[k := (xs ! k)\<lparr>item_flag := f\<rparr>])"
proof (cases "k < length xs")
  case True
  assume "slots_ok xs"
  then show ?thesis using slots_ok_nth [of xs k] True by (intro slots_ok_update) simp_all
qed (simp add: list_update_beyond)

lemma count_back: "n \<le> c \<Longrightarrow> unat (saturating_sub c n) + unat n = unat c" for c n :: u16
  by (simp add: unat_saturating_sub word_le_nat_alt)

lemma sell_part_pieces:
  assumes "covers xs k i n" "j \<noteq> 0"
  shows "tally j (snd (sell_part i n k xs)) + (if j = i then unat n else 0) = tally j xs"
proof -
  let ?left = "saturating_sub (item_count (xs ! k)) n"
  let ?z = "if ?left = 0 then empty_slot else (xs ! k)\<lparr>item_count := ?left\<rparr>"
  have k: "k < length xs" "item_id (xs ! k) = i" "unat ?left + unat n = unat (item_count (xs ! k))"
    using assms(1) count_back by (simp_all add: covers_def)
  have "at_slot j ?z + (if j = i then unat n else 0) = at_slot j (xs ! k)"
    using k(2,3) assms(2) by (auto simp: at_slot_def empty_slot_def)
  then show ?thesis using tally_update [OF k(1), of j ?z] k by (simp add: sell_part_def Let_def)
qed

lemma sell_whole_pieces:
  assumes "covers xs k i n" "j \<noteq> 0"
  shows "tally j (snd (sell_whole i k xs)) + (if j = i then unat n else 0) \<le> tally j xs"
proof -
  have k: "k < length xs" "item_id (xs ! k) = i" "unat n \<le> unat (item_count (xs ! k))"
    using assms(1) by (simp_all add: covers_def word_le_nat_alt)
  then show ?thesis
    using tally_update [OF k(1), of j empty_slot] assms(2) by (auto simp: sell_whole_def at_slot_def empty_slot_def)
qed

lemma unat_plus_le: "unat (a + b) \<le> unat a + unat b" for a b :: "'a::len word"
  by (simp add: unat_word_ariths(1))

lemma receive_goods_slot:
  assumes "k < length xs"
  obtains z where "snd (receive_goods i n k x xs) = xs[k := z]" "item_id z = i"
    "item_count z = min (item_count (xs ! k) + n) ITEMCOUNT_MAX"
  using assms by (simp add: receive_goods_def Let_def split: if_splits)

lemma receive_goods_pieces:
  assumes "slots_ok xs" "j \<noteq> 0" "i \<noteq> 0" "k < length xs \<Longrightarrow> item_id (xs ! k) = 0 \<or> item_id (xs ! k) = i"
  shows "tally j (snd (receive_goods i n k x xs)) \<le> tally j xs + (if j = i then unat n else 0)"
proof (cases "k < length xs")
  case True
  obtain z where z: "snd (receive_goods i n k x xs) = xs[k := z]" "item_id z = i"
    "item_count z = min (item_count (xs ! k) + n) ITEMCOUNT_MAX"
    using receive_goods_slot [OF True] .
  have le: "unat (item_count z) \<le> unat (item_count (xs ! k)) + unat n"
    using unat_plus_le [of "item_count (xs ! k)" n] by (simp add: z(3) min_def word_le_nat_alt)
  have old: "item_id (xs ! k) = 0 \<Longrightarrow> item_count (xs ! k) = 0" using assms(1) True slots_ok_nth by blast
  have "at_slot j z \<le> at_slot j (xs ! k) + (if j = i then unat n else 0)"
    using assms(2-4) True le old z(2) by (auto simp: at_slot_def)
  then show ?thesis using tally_update [OF True, of j z] by (simp add: z(1))
qed (simp add: receive_goods_def)

lemma give_away_pieces:
  assumes "covers xs k i n" "j \<noteq> 0"
  shows "tally j (snd (give_away (item_count (xs ! k) - n) k xs)) + (if j = i then unat n else 0) = tally j xs"
proof -
  let ?left = "item_count (xs ! k) - n"
  let ?z = "if ?left = 0 then empty_slot else (xs ! k)\<lparr>item_count := ?left\<rparr>"
  have k: "k < length xs" "item_id (xs ! k) = i" "unat ?left + unat n = unat (item_count (xs ! k))"
    using assms(1) by (simp_all add: covers_def word_le_nat_alt unat_sub)
  have "at_slot j ?z + (if j = i then unat n else 0) = at_slot j (xs ! k)"
    using k(2,3) assms(2) by (auto simp: at_slot_def empty_slot_def)
  then show ?thesis using tally_update [OF k(1), of j ?z] k by (simp add: give_away_def Let_def)
qed

lemma no_wrap: "c \<le> ITEMCOUNT_MAX \<Longrightarrow> n \<le> ITEMCOUNT_MAX \<Longrightarrow> unat (c + n) = unat c + unat n" for c n :: u16
  by (simp add: ITEMCOUNT_MAX_def word_le_nat_alt unat_word_ariths(1))

lemma stock_up_pieces:
  assumes "slots_ok xs" "takes xs k i n" "i \<noteq> 0" "j \<noteq> 0" "n \<le> ITEMCOUNT_MAX"
  shows "tally j (snd (stock_up i n k sl xs)) = tally j xs + (if j = i then unat n else 0)"
    "slots_ok (snd (stock_up i n k sl xs))"
proof -
  have k: "k < length xs" "item_count (xs ! k) \<le> ITEMCOUNT_MAX" "item_id (xs ! k) = 0 \<Longrightarrow> item_count (xs ! k) = 0"
    using assms(1,2) slots_ok_nth by (auto simp: takes_def)
  define z where "z = (if item_id (xs ! k) = i then (xs ! k)\<lparr>item_count := saturating_add (item_count (xs ! k)) n\<rparr>
      else (xs ! k)\<lparr>item_id := i, item_count := n, durability := durability sl, serial_num := serial_num sl\<rparr>)"
  have up: "snd (stock_up i n k sl xs) = xs[k := z]" using k(1) by (simp add: stock_up_def z_def)
  have sum: "item_id (xs ! k) = i \<Longrightarrow> unat (saturating_add (item_count (xs ! k)) n) = unat (item_count (xs ! k)) + unat n
      \<and> saturating_add (item_count (xs ! k)) n \<le> ITEMCOUNT_MAX"
    using assms(2,3,5) k(2) no_wrap [OF k(2) assms(5)]
    by (auto simp: takes_def saturating_add_def ITEMCOUNT_MAX_def word_le_nat_alt)
  have z: "item_id z = i" "item_count z \<le> ITEMCOUNT_MAX"
    using assms(5) sum by (auto simp: z_def)
  have "at_slot j z = at_slot j (xs ! k) + (if j = i then unat n else 0)"
    using assms(2-4) k(3) sum by (auto simp: z_def at_slot_def takes_def)
  then show "tally j (snd (stock_up i n k sl xs)) = tally j xs + (if j = i then unat n else 0)"
    using tally_update [OF k(1), of j z] by (simp add: up)
  show "slots_ok (snd (stock_up i n k sl xs))"
    unfolding up using z assms(3) by (intro slots_ok_update [OF assms(1)]) simp_all
qed

lemma bags_kept:
  assumes "slots_ok xs"
  shows "slots_ok (snd (sell_part i n k xs))" "slots_ok (snd (sell_whole i k xs))"
    "i \<noteq> 0 \<Longrightarrow> slots_ok (snd (receive_goods i n k x xs))"
    "covers xs k i n \<Longrightarrow> slots_ok (snd (give_away (item_count (xs ! k) - n) k xs))"
proof -
  have empty: "slots_ok (xs[k := empty_slot])" using assms by (intro slots_ok_update) (simp_all add: empty_slot_def)
  have less: "slots_ok (xs[k := (xs ! k)\<lparr>item_count := c\<rparr>])" if "k < length xs" "c \<le> item_count (xs ! k)" for c
    using that assms slots_ok_nth [OF assms that(1)] by (intro slots_ok_update) (auto intro: order_trans)
  have sub: "saturating_sub c n \<le> c" for c :: u16
    by (simp add: word_le_nat_alt unat_saturating_sub)
  show "slots_ok (snd (sell_part i n k xs))"
    using assms empty less [OF _ sub] by (simp add: sell_part_def Let_def)
  show "slots_ok (snd (sell_whole i k xs))"
    using assms empty by (simp add: sell_whole_def)
  show "slots_ok (snd (give_away (item_count (xs ! k) - n) k xs))" if "covers xs k i n"
    using that assms empty less [of "item_count (xs ! k) - n"]
    by (simp add: give_away_def covers_def word_le_nat_alt unat_sub)
  show "slots_ok (snd (receive_goods i n k x xs))" if "i \<noteq> 0"
  proof (cases "k < length xs")
    case True
    obtain z where "snd (receive_goods i n k x xs) = xs[k := z]" "item_id z = i"
      "item_count z = min (item_count (xs ! k) + n) ITEMCOUNT_MAX"
      using receive_goods_slot [OF True] .
    then show ?thesis using that assms by (auto intro: slots_ok_update)
  qed (simp add: receive_goods_def assms)
qed

subsection \<open>What every step keeps\<close>

lemma gold_after_sum:
  assumes "gold_after checked c (p, q) (p', q')"
  shows "(case p' of None \<Rightarrow> 0 | Some g \<Rightarrow> unat g) + (case q' of None \<Rightarrow> 0 | Some g \<Rightarrow> unat g)
    \<le> (case p of None \<Rightarrow> 0 | Some g \<Rightarrow> unat g) + (case q of None \<Rightarrow> 0 | Some g \<Rightarrow> unat g)"
  using assms by (auto simp: gold_after_def gold_moved_def unat_add_gold word_le_nat_alt unat_sub split: option.splits)

lemma shop_step_gold: "shop_step v v' \<Longrightarrow> (\<Sum>t\<in>UNIV. carried (v' t)) \<le> (\<Sum>t\<in>UNIV. carried (v t))"
proof (induction rule: shop_step.induct)
  case (buy s m v a b k x i n d g g' left y ys)
  show ?case
    using gold_after_sum [OF buy(11)] by (intro sum_upd2_le [where F = carried]) (simp_all add: buy(1-3))
next
  case (sell s m v a b k x n j d g g' y)
  show ?case
    using gold_after_sum [OF sell(10)] by (intro sum_upd2_le [where F = carried]) (simp_all add: sell(1-3) not_sym [OF sell(1)])
qed (rule sum_upd_le [where F = carried], simp add: closed_sale_def closed_purchase_def)+

lemma shop_step_bags:
  assumes "shop_step v v'" "shop_bags_ok v" "j \<noteq> 0"
  shows "(\<Sum>t\<in>UNIV. in_bag j (v' t)) \<le> (\<Sum>t\<in>UNIV. in_bag j (v t)) \<and> shop_bags_ok v'"
  using assms
proof (induction rule: shop_step.induct)
  case (buy s m v a b k x i n d g g' left y ys)
  have i: "i \<noteq> 0" and ok: "slots_ok (sv_bag a)" "slots_ok (sv_bag b)"
    using buy(2,3,9,14) by (auto simp: covers_def shop_bags_ok_def)
  have "tally j ys + (if j = i then unat n else 0) \<le> tally j (sv_bag b)" "slots_ok ys"
    using buy(13) sell_part_pieces [OF buy(9) buy(15)] sell_whole_pieces [OF buy(9) buy(15)] bags_kept(1,2) [OF ok(2)]
    by auto
  moreover note receive_goods_pieces [OF ok(1) buy(15) i buy(10), of n x] bags_kept(3) [OF ok(1) i]
  ultimately show ?case
    using buy(1-3,14)
    by (intro conjI sum_upd2_le [where F = "in_bag j"]) (simp_all add: shop_bags_ok_def)
next
  case (sell s m v a b k x n l d g g' y)
  have ok: "slots_ok (sv_bag a)" "slots_ok (sv_bag b)" and i: "m_item_id x \<noteq> 0"
    and n: "n \<le> ITEMCOUNT_MAX"
    using sell(2,3,8,12) slots_ok_nth [of "sv_bag a" l] by (auto simp: covers_def shop_bags_ok_def)
  note up = stock_up_pieces [OF ok(2) sell(9) i sell(13) n, of "sv_bag a ! l"]
  show ?case
    using sell(1-3,12) up give_away_pieces [OF sell(8) sell(13)] bags_kept(4) [OF ok(1) sell(8)]
    by (intro conjI sum_upd2_le [where F = "in_bag j"]) (simp_all add: shop_bags_ok_def)
qed (rule conjI, rule sum_upd_le [where F = "in_bag j"], simp add: closed_sale_def closed_purchase_def,
    simp add: closed_sale_def closed_purchase_def shop_bags_ok_def slots_ok_flag)+

lemma shop_step_stalls: "shop_step v v' \<Longrightarrow> shops_ok v \<Longrightarrow> shops_ok v'"
  by (induction rule: shop_step.induct) (auto simp: shops_ok_def stall_ok_def closed_sale_def closed_purchase_def)

lemma shop_steps_keep:
  assumes "shop_step\<^sup>*\<^sup>* v v'"
  shows "(\<Sum>t\<in>UNIV. carried (v' t)) \<le> (\<Sum>t\<in>UNIV. carried (v t))"
    and "shops_ok v \<Longrightarrow> shops_ok v'"
    and "shop_bags_ok v \<Longrightarrow> j \<noteq> 0 \<Longrightarrow>
      (\<Sum>t\<in>UNIV. in_bag j (v' t)) \<le> (\<Sum>t\<in>UNIV. in_bag j (v t)) \<and> shop_bags_ok v'"
  using assms
proof (induction rule: rtranclp_induct)
  case (step u v')
  show "(\<Sum>t\<in>UNIV. carried (v' t)) \<le> (\<Sum>t\<in>UNIV. carried (v t))"
    using step.IH(1) shop_step_gold [OF step.hyps(2)] by linarith
  show "shops_ok v'" if "shops_ok v"
    using shop_step_stalls [OF step.hyps(2) step.IH(2) [OF that]] .
  show "(\<Sum>t\<in>UNIV. in_bag j (v' t)) \<le> (\<Sum>t\<in>UNIV. in_bag j (v t)) \<and> shop_bags_ok v'"
    if "shop_bags_ok v" "j \<noteq> 0"
    using step.IH(3) [OF that] shop_step_bags [OF step.hyps(2) _ that(2)] by (meson le_trans)
qed simp_all

end
