(* ===== verification/Merchant_Refine.thy ===== *)
theory Merchant_Refine
  imports Merchant_Machine
begin

text \<open>
  The handler of \<^verbatim>\<open>WIZ_MERCHANT\<close> refines the steps of theory \<open>Merchant_Machine\<close>: what every packet does to
  the bags, the gold and the shops of the players is a sequence of steps. An operation acts on the views of
  the sessions by \<open>upd\<close>; what sends packets or remembers who looks at a shop leaves them alone.
\<close>

definition upd :: "sid \<Rightarrow> (shop_view \<Rightarrow> shop_view) \<Rightarrow> shops \<Rightarrow> shops" where
  "upd s f v = v(s := map_option f (v s))"

abbreviation moves :: "world \<Rightarrow> world \<Rightarrow> bool" where
  "moves w w' \<equiv> shop_step\<^sup>*\<^sup>* (shops_of w) (shops_of w')"

lemma upd_simps [simp]:
  "v s = Some a \<Longrightarrow> upd s f v = v(s \<mapsto> f a)" "v s = None \<Longrightarrow> upd s f v = v"
  by (auto simp: upd_def)

subsection \<open>Views of changed worlds\<close>

lemma shop_view_sels [simp]:
  "sv_bag (shop_view_of h) = inventory h" "sv_gold (shop_view_of h) = map_option gold (character h)"
  "sv_state (shop_view_of h) = merchant_state h" "sv_selling (shop_view_of h) = selling_merchant_preparing h"
  "sv_buying (shop_view_of h) = buying_merchant_preparing h" "sv_items (shop_view_of h) = merchant_items h"
  by (simp_all add: shop_view_of_def)

lemma shops_of_Some [simp]: "wsessions w s = Some h \<Longrightarrow> shops_of w s = Some (shop_view_of h)"
  and shops_of_None [simp]: "wsessions w s = None \<Longrightarrow> shops_of w s = None"
  by (simp_all add: shops_of_def observe_def)

lemma shops_of_cong: "wsessions w' = wsessions w \<Longrightarrow> shops_of w' = shops_of w"
  by (simp add: shops_of_def observe_def fun_eq_iff)

lemma shops_modify:
  assumes "\<And>h. shop_view_of (g h) = f (shop_view_of h)"
  shows "shops_of (modify_session s g w) = upd s f (shops_of w)"
  by (cases "wsessions w s") (auto simp: shops_of_def observe_def upd_def fun_eq_iff assms)

lemma shops_modify_same:
  assumes "\<And>h. shop_view_of (g h) = shop_view_of h"
  shows "shops_of (modify_session s g w) = shops_of w"
  unfolding shops_of_def by (rule observe_modify_same) (rule assms)

lemma shops_send [simp]:
  "shops_of (send_to_session s p w) = shops_of w" "shops_of (snd (session_send s p w)) = shops_of w"
  by (simp_all add: shops_of_def session_send_def)

lemma shops_fold: "(\<And>x w. shops_of (g x w) = shops_of w) \<Longrightarrow> shops_of (fold g xs w) = shops_of w"
  by (induction xs arbitrary: w) simp_all

lemma shops_broadcast [simp]:
  "shops_of (broadcast_to_3x3 z rx rz p x room w) = shops_of w"
  "shops_of (broadcast_around s p w) = shops_of w"
  "shops_of (broadcast_to_zone z p x w) = shops_of w"
  "shops_of (announce_sold_slot s k w) = shops_of w"
  "shops_of (notify_seller s m i y w) = shops_of w"
  "shops_of (report_to_shop s m k n d y sl w) = shops_of w"
  by (auto simp: broadcast_around_def broadcast_to_3x3_def broadcast_to_zone_def announce_sold_slot_def notify_seller_def
      report_to_shop_def Let_def intro!: shops_fold split: option.splits)

lemma shops_looks [simp]:
  "shops_of (set_merchant_looker s l w) = shops_of w" "shops_of (set_browsing_merchant s l w) = shops_of w"
  "shops_of (remove_from_merchant_lookers s w) = shops_of w" "shops_of (look_at s m w) = shops_of w"
  "shops_of (dismiss_looker s w) = shops_of w"
  by (auto simp: set_merchant_looker_def set_browsing_merchant_def remove_from_merchant_lookers_def look_at_def
      dismiss_looker_def shop_view_of_def intro!: shops_modify_same trans [OF shops_modify_same] split: option.splits)

lemma shops_cash [simp]:
  "shops_of (cash_set s kc w) = shops_of w" "shops_of (snd (cash_lose s n w)) = shops_of w"
  "shops_of (cash_gain s n w) = shops_of w"
  by (simp_all add: cash_set_def cash_lose_def cash_gain_def set_kc_balance_def Let_def shops_modify_same shop_view_of_def)

lemma shops_inventory:
  "shops_of (snd (update_inventory s d f w)) = upd s (\<lambda>a. a\<lparr>sv_bag := snd (f (sv_bag a))\<rparr>) (shops_of w)"
proof (cases "wsessions w s")
  case (Some h)
  have "shops_of (modify_session s (\<lambda>h. h\<lparr>inventory := snd (f (inventory h))\<rparr>) w) =
      upd s (\<lambda>a. a\<lparr>sv_bag := snd (f (sv_bag a))\<rparr>) (shops_of w)"
    by (rule shops_modify) (simp add: shop_view_of_def)
  then show ?thesis using Some by (simp add: update_inventory_def)
qed (simp add: update_inventory_def)

lemma shops_item:
  "shops_of (set_merchant_item s k x w) =
     upd s (\<lambda>a. if k < MAX_MERCH_ITEMS then a\<lparr>sv_items := (sv_items a)[k := x]\<rparr> else a) (shops_of w)"
  unfolding set_merchant_item_def by (rule shops_modify) (simp add: shop_view_of_def)

lemma shops_flag:
  "\<exists>f. shops_of (set_inventory_merchant_flag s k b w) =
     upd s (\<lambda>a. a\<lparr>sv_bag := (sv_bag a)[k := (sv_bag a ! k)\<lparr>item_flag := f\<rparr>]\<rparr>) (shops_of w)"
proof (cases "wsessions w s")
  case (Some h)
  then show ?thesis
    by (auto simp: set_inventory_merchant_flag_def shops_of_def observe_def upd_def fun_eq_iff shop_view_of_def slice_get_def
        list_update_beyond split: option.splits)
qed (simp add: set_inventory_merchant_flag_def modify_session_def)

lemma shops_gold_gain:
  "shops_of (gold_gain s n w) = upd s (\<lambda>a. a\<lparr>sv_gold := map_option (\<lambda>g. add_gold g n) (sv_gold a)\<rparr>) (shops_of w)"
  unfolding gold_gain_def update_character_stats_def Let_def shops_send
  by (rule shops_modify) (simp add: shop_view_of_def option.map_comp o_def)

lemma shops_gold_lose:
  assumes "get_character_info s w = Some c" "n \<le> gold c"
  shows "shops_of (snd (gold_lose s n w)) = upd s (\<lambda>a. a\<lparr>sv_gold := map_option (\<lambda>g. g - n) (sv_gold a)\<rparr>) (shops_of w)"
  using assms unfolding gold_lose_def update_character_stats_def
  by (auto simp: shop_view_of_def option.map_comp o_def intro!: shops_modify)

lemma shops_stalls:
  "shops_of (set_selling_merchant_preparing s b w) = upd s (\<lambda>a. a\<lparr>sv_selling := b\<rparr>) (shops_of w)"
  "shops_of (set_buying_merchant_preparing s b w) = upd s (\<lambda>a. a\<lparr>sv_buying := b\<rparr>) (shops_of w)"
  "shops_of (activate_selling_merchant s w) =
     upd s (\<lambda>a. a\<lparr>sv_state := MERCHANT_STATE_SELLING, sv_selling := False\<rparr>) (shops_of w)"
  "shops_of (activate_buying_merchant s w) =
     upd s (\<lambda>a. a\<lparr>sv_state := MERCHANT_STATE_BUYING, sv_buying := False\<rparr>) (shops_of w)"
  "shops_of (close_merchant s w) = upd s closed_sale (shops_of w)"
  "shops_of (close_buying_merchant s w) = upd s closed_purchase (shops_of w)"
  unfolding set_selling_merchant_preparing_def set_buying_merchant_preparing_def activate_selling_merchant_def
    activate_buying_merchant_def close_merchant_def close_buying_merchant_def
  by (rule shops_modify, simp add: shop_view_of_def closed_sale_def closed_purchase_def unflagged_def)+

subsection \<open>Opening, setting up and closing\<close>

lemma one_step: "shop_step v v' \<Longrightarrow> shop_step\<^sup>*\<^sup>* v v'"
  by (rule r_into_rtranclp)

lemma is_merchanting_view: "wsessions w s = Some h \<Longrightarrow> is_merchanting s w \<longleftrightarrow> merchant_state h \<noteq> MERCHANT_STATE_NONE"
  by (simp add: is_merchanting_def)

lemmas stall_reads = is_selling_merchant_preparing_def is_buying_merchant_preparing_def is_selling_merchant_def
  is_buying_merchant_def is_merchanting_def

lemma open_code: "merchant_open_code s w = MERCHANT_OPEN_SUCCESS \<Longrightarrow> \<not> is_merchanting s w"
  by (auto simp: merchant_open_code_def Let_def MERCHANT_OPEN_SUCCESS_def MERCHANT_OPEN_DEAD_def MERCHANT_OPEN_SHOPPING_def
      MERCHANT_OPEN_TRADING_def MERCHANT_OPEN_UNDERLEVELED_def MERCHANT_OPEN_MERCHANTING_def split: if_splits)

lemma merchant_close_moves: "moves w (snd (merchant_close s w))"
proof (cases "wsessions w s")
  case (Some h)
  then show ?thesis
    by (auto simp: merchant_close_def Let_def shops_stalls intro!: one_step close_sale)
qed (simp add: merchant_close_def stall_reads)

lemma snd_session_send: "session_send s p w = (ok, w') \<Longrightarrow> w' = send_to_session s p w"
  by (simp add: session_send_def)

lemma merchant_open_moves:
  assumes "wsessions w s = Some h"
  shows "moves w (snd (merchant_open s w))"
proof -
  have close: "moves w (snd (merchant_close s (send_to_session s p w)))" for p
    using merchant_close_moves [of "send_to_session s p w" s] by simp
  have opened: "moves w (set_selling_merchant_preparing s True (send_to_session s p w))"
    if "merchant_open_code s w = MERCHANT_OPEN_SUCCESS" "\<not> is_buying_merchant_preparing s w" for p
    using open_code [OF that(1)] that(2) assms
    by (auto simp: shops_stalls stall_reads intro!: one_step open_sale)
  show ?thesis
    using close opened by (auto simp: merchant_open_def session_send_def Let_def)
qed

lemma listable_covers:
  assumes "listable s i n cost src dst kc w = Some (it, sl)" "wsessions w s = Some h"
  shows "covers (inventory h) (SLOT_MAX + unat src) i n" "inventory h ! (SLOT_MAX + unat src) = sl"
    "unat dst < MAX_MERCH_ITEMS" "unat src < HAVE_MAX"
  using assms
  by (auto simp: listable_def covers_def get_inventory_slot_def slice_get_def Let_def split: if_splits option.splits)

lemma src_slot: "unat src < HAVE_MAX \<Longrightarrow> src + of_nat SLOT_MAX = of_nat (SLOT_MAX + unat src)" for src :: u8
  by (simp add: add.commute)

lemma merchant_item_add_moves:
  assumes h: "wsessions w s = Some h"
  shows "moves w (snd (merchant_item_add s rd w))"
proof (cases "is_selling_merchant_preparing s w \<and> \<not> is_buying_merchant_preparing s w")
  case True
  have "moves w (list_item s i units cost src dst kc sl w)"
    if l: "listable s i n cost src dst kc w = Some (it, sl)" "units = 1 \<or> units = n" for i n units cost src dst kc it sl
  proof -
    note c = listable_covers [OF l(1) h]
    have u: "covers (inventory h) (SLOT_MAX + unat src) i units"
      using c(1) l(2) by (auto simp: covers_def word_le_nat_alt simp flip: unat_gt_0)
    obtain f where f: "shops_of (set_inventory_merchant_flag s (SLOT_MAX + unat src) True w) =
        upd s (\<lambda>a. a\<lparr>sv_bag := (sv_bag a)[SLOT_MAX + unat src := (sv_bag a ! (SLOT_MAX + unat src))\<lparr>item_flag := f\<rparr>]\<rparr>) (shops_of w)"
      using shops_flag by blast
    define x where "x = \<lparr>m_item_id = i, m_durability = durability sl, sell_count = units, original_count = item_count sl,
      m_serial_num = serial_num sl, price = cost, original_slot = src + of_nat SLOT_MAX, sold_out = False, is_kc = (kc \<noteq> 0)\<rparr>"
    have "shop_step (shops_of w) ((shops_of w)(s \<mapsto> (shop_view_of h)\<lparr>
        sv_bag := (sv_bag (shop_view_of h))[SLOT_MAX + unat src :=
          (sv_bag (shop_view_of h) ! (SLOT_MAX + unat src))\<lparr>item_flag := f\<rparr>],
        sv_items := (sv_items (shop_view_of h))[unat dst := x]\<rparr>))"
      using h u True src_slot [OF c(4)] by (intro set_out) (simp_all add: stall_reads x_def)
    then show ?thesis
      unfolding list_item_def shops_item f x_def using h c(3) by (intro one_step) simp
  qed
  then show ?thesis
    by (auto simp: merchant_item_add_def send_merch_add_fail_def Let_def split: prod.splits option.splits)
qed (auto simp: merchant_item_add_def)

lemma merchant_item_cancel_moves:
  assumes h: "wsessions w s = Some h"
  shows "moves w (snd (merchant_item_cancel s rd w))"
proof (cases "is_selling_merchant_preparing s w \<and> \<not> is_buying_merchant_preparing s w")
  case True
  have "moves w (set_merchant_item s k empty_merch (set_inventory_merchant_flag s j False w))"
    if "k < MAX_MERCH_ITEMS" for k j
  proof -
    obtain f where f: "shops_of (set_inventory_merchant_flag s j False w) =
        upd s (\<lambda>a. a\<lparr>sv_bag := (sv_bag a)[j := (sv_bag a ! j)\<lparr>item_flag := f\<rparr>]\<rparr>) (shops_of w)"
      using shops_flag by blast
    have "shop_step (shops_of w) ((shops_of w)(s \<mapsto> (shop_view_of h)\<lparr>
        sv_bag := (sv_bag (shop_view_of h))[j := (sv_bag (shop_view_of h) ! j)\<lparr>item_flag := f\<rparr>],
        sv_items := (sv_items (shop_view_of h))[k := empty_merch]\<rparr>))"
      using h True by (intro take_back) (simp_all add: stall_reads)
    then show ?thesis unfolding shops_item f using h that by (intro one_step) simp
  qed
  then show ?thesis
    by (auto simp: merchant_item_cancel_def Let_def not_le split: option.splits)
qed (auto simp: merchant_item_cancel_def)

lemma merchant_insert_moves:
  assumes h: "wsessions w s = Some h"
  shows "moves w (snd (merchant_insert s rd w))"
proof -
  have "moves w (activate_selling_merchant s w)"
    if "is_selling_merchant_preparing s w" "\<not> is_buying_merchant_preparing s w"
      "filter (\<lambda>m. m_item_id m > 0) (get_merchant_items s w) \<noteq> []"
    using that h
    by (auto simp: shops_stalls stall_reads get_merchant_items_def filter_empty_conv word_gt_0
        intro!: one_step start_selling)
  then show ?thesis
    by (auto simp: merchant_insert_def Let_def)
qed

lemma lookers_move [simp]:
  "moves w (snd (merchant_item_list e s rd w))" "moves w (snd (buying_merchant_list s rd w))"
  "moves w (snd (merchant_trade_cancel s w))" "moves w (snd (merchant_list_preview s rd sub w))"
  by (simp_all add: merchant_item_list_def buying_merchant_list_def merchant_trade_cancel_def merchant_list_preview_def
      Let_def split: option.splits)

lemma buying_merchant_close_moves: "moves w (snd (buying_merchant_close_internal s w))"
proof (cases "wsessions w s")
  case (Some h)
  have "closed_purchase (closed_purchase a) = closed_purchase a" for a by (simp add: closed_purchase_def)
  then show ?thesis
    using Some
    by (auto simp: buying_merchant_close_internal_def buying_merchant_close_broadcast_def Let_def shops_stalls
        intro!: one_step close_purchase)
qed (simp add: buying_merchant_close_internal_def stall_reads)

lemma shops_items:
  "\<forall>(k, x) \<in> set ks. k < MAX_MERCH_ITEMS \<Longrightarrow> shops_of w s = Some a \<Longrightarrow>
    \<exists>xs. shops_of (fold (\<lambda>(k, x). set_merchant_item s k (g x)) ks w) = (shops_of w)(s \<mapsto> a\<lparr>sv_items := xs\<rparr>)"
proof (induction ks arbitrary: w a)
  case Nil
  then show ?case by (intro exI [of _ "sv_items a"]) (simp add: fun_upd_idem)
next
  case (Cons kx ks)
  obtain k x where kx: "kx = (k, x)" by (cases kx)
  let ?w = "set_merchant_item s k (g x) w" and ?a = "a\<lparr>sv_items := (sv_items a)[k := g x]\<rparr>"
  have w: "shops_of ?w = (shops_of w)(s \<mapsto> ?a)" using Cons.prems by (simp add: shops_item kx)
  have ks: "\<forall>(k, x) \<in> set ks. k < MAX_MERCH_ITEMS" and a: "shops_of ?w s = Some ?a"
    using Cons.prems(1) by (simp_all add: w)
  from Cons.IH [OF ks a] obtain xs where
    "shops_of (fold (\<lambda>(k, x). set_merchant_item s k (g x)) ks ?w) = (shops_of ?w)(s \<mapsto> ?a\<lparr>sv_items := xs\<rparr>)"
    by blast
  then have "shops_of (fold (\<lambda>(k, x). set_merchant_item s k (g x)) (kx # ks) w) = (shops_of w)(s \<mapsto> a\<lparr>sv_items := xs\<rparr>)"
    unfolding w kx by simp
  then show ?case by blast
qed

lemma buying_merchant_open_moves:
  assumes h: "wsessions w s = Some h"
  shows "moves w (snd (buying_merchant_open s w))"
proof -
  have close: "moves w (snd (buying_merchant_close_internal s (send_to_session s p w)))" for p
    using buying_merchant_close_moves [of "send_to_session s p w" s] by simp
  have opened: "moves w (fold (\<lambda>k. set_merchant_item s k empty_merch) [0..<MAX_MERCH_ITEMS]
      (set_buying_merchant_preparing s True (send_to_session s p w)))"
    if "merchant_open_code s w = MERCHANT_OPEN_SUCCESS" "\<not> is_selling_merchant_preparing s w" for p
  proof -
    let ?w = "set_buying_merchant_preparing s True (send_to_session s p w)"
    have w: "shops_of ?w = (shops_of w)(s \<mapsto> (shop_view_of h)\<lparr>sv_buying := True\<rparr>)"
      using h by (simp add: shops_stalls)
    then have "shops_of ?w s = Some ((shop_view_of h)\<lparr>sv_buying := True\<rparr>)" by simp
    from shops_items [OF _ this, of "map (\<lambda>k. (k, ())) [0..<MAX_MERCH_ITEMS]" "\<lambda>_. empty_merch"] obtain xs where
      "shops_of (fold (\<lambda>k. set_merchant_item s k empty_merch) [0..<MAX_MERCH_ITEMS] ?w)
        = (shops_of w)(s \<mapsto> (shop_view_of h)\<lparr>sv_buying := True, sv_items := xs\<rparr>)"
      by (auto simp: fold_map o_def w simp del: upt_rec_numeral)
    then show ?thesis
      using open_code [OF that(1)] that(2) h by (auto simp: stall_reads intro!: one_step open_purchase)
  qed
  show ?thesis
    using close opened by (auto simp: buying_merchant_open_def session_send_def Let_def)
qed

lemma read_wanted_length: "read_wanted c rd w g = Some (g', xs) \<Longrightarrow> length xs = c"
  by (induction c arbitrary: rd g g' xs) (auto simp: Let_def split: prod.splits if_splits option.splits)

lemma buying_merchant_insert_moves:
  assumes h: "wsessions w s = Some h"
  shows "moves w (snd (buying_merchant_insert s rd w))"
proof -
  have "moves w (activate_buying_merchant s (fold (\<lambda>(k, x). set_merchant_item s k (wanted_entry x)) (enumerate 0 xs) w))"
    if "length xs \<le> MAX_MERCH_ITEMS" "is_buying_merchant_preparing s w" "\<not> is_selling_merchant_preparing s w" "\<not> is_merchanting s w"
    for xs
  proof -
    have "\<forall>(k, x) \<in> set (enumerate 0 xs). k < MAX_MERCH_ITEMS" using that(1) by (auto simp: in_set_enumerate_eq)
    from shops_items [OF this shops_of_Some [OF h]] obtain ys where
      "shops_of (fold (\<lambda>(k, x). set_merchant_item s k (wanted_entry x)) (enumerate 0 xs) w)
        = (shops_of w)(s \<mapsto> (shop_view_of h)\<lparr>sv_items := ys\<rparr>)"
      by blast
    moreover have "(shop_view_of h)\<lparr>sv_items := ys, sv_state := MERCHANT_STATE_BUYING, sv_buying := False\<rparr>
        = (shop_view_of h)\<lparr>sv_state := MERCHANT_STATE_BUYING, sv_buying := False, sv_items := ys\<rparr>"
      by simp
    ultimately show ?thesis
      using that(2-4) h start_buying [of "shops_of w" s "shop_view_of h" ys]
      by (intro one_step) (simp only: shops_stalls stall_reads upd_simps fun_upd_same fun_upd_upd session_or_Some
        shops_of_Some shop_view_sels not_not simp_thms)
  qed
  then show ?thesis
    by (auto simp: buying_merchant_insert_def buying_merchant_region_insert_def Let_def not_less dest: read_wanted_length
        split: prod.splits option.splits)
qed

subsection \<open>Buying and selling\<close>

lemma upd_other: "v s = Some a \<Longrightarrow> s \<noteq> m \<Longrightarrow> upd m f v s = Some a"
  by (simp add: upd_def)

lemma cash_lose_shops: "cash_lose s n w = (ok, w') \<Longrightarrow> shops_of w' = shops_of w"
  by (metis shops_cash(2) snd_conv)

lemma pay_shop_view:
  assumes "pay_shop kc s m req w = (True, w')" "s \<noteq> m" "shops_of w s = Some a" "shops_of w m = Some b"
  shows "\<exists>g g'. (if kc then g = sv_gold a \<and> g' = sv_gold b else gold_moved True req (sv_gold a, sv_gold b) (g, g'))
    \<and> shops_of w' = (shops_of w)(s \<mapsto> a\<lparr>sv_gold := g\<rparr>, m \<mapsto> b\<lparr>sv_gold := g'\<rparr>)"
proof (cases kc)
  case True
  then have "shops_of w' = shops_of w"
    using assms(1) by (auto simp: pay_shop_def Let_def dest: cash_lose_shops split: prod.splits if_splits)
  then show ?thesis
    using assms(3,4) True by (intro exI [of _ "sv_gold a"] exI [of _ "sv_gold b"]) (simp add: fun_upd_idem)
next
  case False
  then obtain c where c: "get_character_info s w = Some c" "req \<le> gold c"
    "\<not> (ucast (case get_character_info m w of None \<Rightarrow> 0 | Some c \<Rightarrow> gold c) :: u64) + ucast req > ucast COIN_MAX"
    "w' = gold_gain m req (snd (gold_lose s req w))"
    using assms(1) by (auto simp: pay_shop_def Let_def not_less split: option.splits if_splits)
  obtain ha hb where h: "wsessions w s = Some ha" "wsessions w m = Some hb" "a = shop_view_of ha" "b = shop_view_of hb"
    using assms(3,4) by (auto simp: shops_of_def observe_def)
  have cap: "unat y + unat req \<le> unat COIN_MAX" if "sv_gold b = Some y" for y
  proof -
    have "map_option gold (character hb) = Some y" using that h(4) by simp
    then obtain d where d: "character hb = Some d" "gold d = y" by blast
    have "unat y < 2 ^ 32" "unat req < 2 ^ 32" by (rule unat_less_wider, simp)+
    then have "unat ((ucast y :: u64) + ucast req) = unat y + unat req" by (simp add: unat_word_ariths(1))
    then show ?thesis
      using c(3) h(2) d by (simp add: get_character_info_def not_less word_le_nat_alt COIN_MAX_def)
  qed
  have g: "sv_gold a = Some (gold c)" using c(1) h(1,3) by (simp add: get_character_info_def)
  have "shops_of w' = upd m (\<lambda>a. a\<lparr>sv_gold := map_option (\<lambda>g. add_gold g req) (sv_gold a)\<rparr>)
      (upd s (\<lambda>a. a\<lparr>sv_gold := map_option (\<lambda>g. g - req) (sv_gold a)\<rparr>) (shops_of w))"
    unfolding c(4) shops_gold_gain shops_gold_lose [OF c(1,2)] ..
  then have "shops_of w' = (shops_of w)(s \<mapsto> a\<lparr>sv_gold := Some (gold c - req)\<rparr>,
      m \<mapsto> b\<lparr>sv_gold := map_option (\<lambda>g. add_gold g req) (sv_gold b)\<rparr>)"
    using assms(2-4) g by simp
  moreover have "gold_moved True req (sv_gold a, sv_gold b) (Some (gold c - req), map_option (\<lambda>g. add_gold g req) (sv_gold b))"
    using g c(2) cap by (simp add: gold_moved_def)
  ultimately show ?thesis using False by (simp only: if_False) blast
qed

lemma shops_try_buy:
  assumes "try_merchant_buy m k i n w = (Some x, w1)" "shops_of w m = Some b"
  shows "x = sv_items b ! k" "k < MAX_MERCH_ITEMS" "buyable i n x"
    "shops_of w1 = (shops_of w)(m \<mapsto> b\<lparr>sv_items := (sv_items b)[k := x\<lparr>sell_count := saturating_sub (sell_count x) n,
      sold_out := (if saturating_sub (sell_count x) n = 0 then True else sold_out x)\<rparr>]\<rparr>)"
proof -
  obtain h where h: "wsessions w m = Some h" "b = shop_view_of h"
    using assms(2) by (auto simp: shops_of_def observe_def)
  let ?y = "x\<lparr>sell_count := saturating_sub (sell_count x) n,
      sold_out := (if saturating_sub (sell_count x) n = 0 then True else sold_out x)\<rparr>"
  have x: "x = merchant_items h ! k \<and> k < MAX_MERCH_ITEMS \<and> buyable i n x
      \<and> w1 = modify_session m (\<lambda>h. h\<lparr>merchant_items := (merchant_items h)[k := ?y]\<rparr>) w"
    using assms(1) h(1) by (auto simp: try_merchant_buy_def Let_def not_le split: if_splits)
  have "shops_of (modify_session m (\<lambda>h. h\<lparr>merchant_items := (merchant_items h)[k := ?y]\<rparr>) w)
      = upd m (\<lambda>a. a\<lparr>sv_items := (sv_items a)[k := ?y]\<rparr>) (shops_of w)"
    by (rule shops_modify) (simp add: shop_view_of_def)
  then show "shops_of w1 = (shops_of w)(m \<mapsto> b\<lparr>sv_items := (sv_items b)[k := ?y]\<rparr>)"
    using x upd_simps(1) [where v = "shops_of w" and s = m, OF assms(2)] by simp
  show "x = sv_items b ! k" "k < MAX_MERCH_ITEMS" "buyable i n x"
    using x h(2) by auto
qed

lemma shops_hand_over:
  assumes "s \<noteq> m" "shops_of w s = Some a" "shops_of w m = Some b" "k < MAX_MERCH_ITEMS"
  shows "\<exists>ys zs. shops_of (hand_over s m k i n dst it x w) = (shops_of w)
      (s \<mapsto> a\<lparr>sv_bag := snd (receive_goods i n (SLOT_MAX + unat dst) x (sv_bag a))\<rparr>, m \<mapsto> b\<lparr>sv_bag := ys, sv_items := zs\<rparr>)
    \<and> (if sell_count x - n = 0 \<or> unwrap_or 0 (countable it) = 0 \<and> unwrap_or 0 (kind it) = ITEM_KIND_UNIQUE
       then ys = snd (sell_whole i (unat (original_slot x)) (sv_bag b)) \<and> zs = (sv_items b)[k := empty_merch\<lparr>sold_out := True\<rparr>]
       else ys = snd (sell_part i n (unat (original_slot x)) (sv_bag b)) \<and> zs = sv_items b)"
proof -
  define w1 where "w1 = modify_session m (\<lambda>h. h\<lparr>dr_gm_total_sold := dr_gm_total_sold h
      + ucast (saturating_mul (price x) (ucast n))\<rparr>) w"
  define w2 where "w2 = snd (update_inventory s False (receive_goods i n (SLOT_MAX + unat dst) x) w1)"
  define whole where "whole \<longleftrightarrow> sell_count x - n = 0 \<or> unwrap_or 0 (countable it) = 0 \<and> unwrap_or 0 (kind it) = ITEM_KIND_UNIQUE"
  let ?a = "a\<lparr>sv_bag := snd (receive_goods i n (SLOT_MAX + unat dst) x (sv_bag a))\<rparr>"
  have hand: "hand_over s m k i n dst it x w =
      (if whole then snd (update_inventory m False (sell_whole i (unat (original_slot x)))
         (set_merchant_item m k (empty_merch\<lparr>sold_out := True\<rparr>) w2))
       else snd (update_inventory m False (sell_part i n (unat (original_slot x))) w2))"
    by (simp add: hand_over_def Let_def whole_def w1_def w2_def)
  have "shops_of w1 = shops_of w" unfolding w1_def by (rule shops_modify_same) (simp add: shop_view_of_def)
  then have w2: "shops_of w2 = (shops_of w)(s \<mapsto> ?a)" using assms(2) by (simp add: w2_def shops_inventory)
  then have m: "shops_of w2 m = Some b" using assms(1,3) by simp
  show ?thesis
    unfolding hand whole_def [symmetric]
    by (cases whole)
      (use m assms(4) in \<open>auto simp: shops_inventory shops_item w2 intro!: exI\<close>)
qed

lemma shops_of_dom: "shops_of w s = Some a \<Longrightarrow> \<exists>h. wsessions w s = Some h"
  by (auto simp: shops_of_def observe_def)

lemma pay_shop_refused: "pay_shop kc s m req w = (False, w') \<Longrightarrow> w' = w"
  by (auto simp: pay_shop_def cash_lose_def Let_def split: if_splits option.splits prod.splits)

lemma shop_slot_restored:
  assumes "buyable i n x"
  shows "x\<lparr>m_item_id := i, sell_count := saturating_add (saturating_sub (sell_count x) n) n, sold_out := False\<rparr> = x"
proof -
  have "n \<le> sell_count x" "m_item_id x = i" "\<not> sold_out x" using assms by (auto simp: buyable_def)
  moreover from this(1) have "saturating_add (saturating_sub (sell_count x) n) n = sell_count x"
    using unsigned_less [of "sell_count x", where 'a = nat]
    by (simp add: saturating_add_def saturating_sub_def unat_sub word_le_nat_alt)
  ultimately show ?thesis by (cases x) simp
qed

lemma shops_restore:
  assumes "try_merchant_buy m k i n w = (Some x, w1)" "shops_of w m = Some b"
  shows "shops_of (restore_merchant_buy m k i n w1) = shops_of w"
proof -
  note t = shops_try_buy [OF assms]
  define undone where "undone xs = (if k < MAX_MERCH_ITEMS \<and> (m_item_id (xs ! k) = i \<or> sold_out (xs ! k) \<and> m_item_id (xs ! k) = 0)
    then xs[k := (xs ! k)\<lparr>m_item_id := (if m_item_id (xs ! k) = 0 then i else m_item_id (xs ! k)),
      sell_count := saturating_add (sell_count (xs ! k)) n, sold_out := False\<rparr>] else xs)" for xs :: "merch_data list"
  define y where "y = x\<lparr>sell_count := saturating_sub (sell_count x) n,
      sold_out := (if saturating_sub (sell_count x) n = 0 then True else sold_out x)\<rparr>"
  have "undone ((sv_items b)[k := y]) = sv_items b"
  proof (cases "k < length (sv_items b)")
    case True
    have "i \<noteq> 0" "m_item_id x = i" using t(3) by (auto simp: buyable_def)
    then have "undone ((sv_items b)[k := y]) = (sv_items b)[k := x\<lparr>m_item_id := i,
        sell_count := saturating_add (saturating_sub (sell_count x) n) n, sold_out := False\<rparr>]"
      using True t(2) by (simp add: undone_def y_def)
    also have "\<dots> = sv_items b" unfolding shop_slot_restored [OF t(3)] using t(1) by simp
    finally show ?thesis .
  qed (simp add: undone_def list_update_beyond)
  moreover have "shops_of (restore_merchant_buy m k i n w1) = upd m (\<lambda>a. a\<lparr>sv_items := undone (sv_items a)\<rparr>) (shops_of w1)"
    unfolding restore_merchant_buy_def undone_def by (rule shops_modify) (simp add: shop_view_of_def Let_def)
  moreover have "shops_of w1 = (shops_of w)(m \<mapsto> b\<lparr>sv_items := (sv_items b)[k := y]\<rparr>)"
    unfolding y_def by (rule t(4))
  ultimately show ?thesis
    using assms(2) by (simp add: fun_upd_idem)
qed

lemma seller_still_has_covers:
  assumes "seller_still_has m k i n w = Some kc" "wsessions w m = Some h" "k < MAX_MERCH_ITEMS" "n \<noteq> 0" "i \<noteq> 0"
  shows "covers (inventory h) (unat (original_slot (merchant_items h ! k))) i n"
  using assms
  by (auto simp: seller_still_has_def get_merchant_item_def get_inventory_slot_def slice_get_def covers_def
      split: if_splits option.splits)

lemma shop_in_reach_Some:
  assumes "shop_in_reach e s w = Some m"
  shows "s \<noteq> m" "is_selling_merchant m w" "\<not> is_merchanting s w" "get_browsing_merchant s w = Some m"
  using assms by (auto simp: shop_in_reach_def split: option.splits if_splits)

definition whole_sale :: "item_def \<Rightarrow> merch_data \<Rightarrow> u16 \<Rightarrow> bool" where
  \<comment> \<open>\<open>fully_sold\<close>: nothing is left, or the item is unique\<close>
  "whole_sale it x n \<longleftrightarrow> sell_count x - n = 0 \<or> unwrap_or 0 (countable it) = 0 \<and> unwrap_or 0 (kind it) = ITEM_KIND_UNIQUE"

lemma buy_from_shop_view:
  assumes buy: "buy_from_shop s m i n k dst it w = (Some x, w')" and sm: "s \<noteq> m"
    and s: "shops_of w s = Some a" and m: "wsessions w m = Some hb" and b: "b = shop_view_of hb"
  obtains g g' y ys where
    "seller_still_has m (unat k) i n w = Some (is_kc x)" "x = sv_items b ! unat k" "unat k < MAX_MERCH_ITEMS" "buyable i n x"
    "if is_kc x then g = sv_gold a \<and> g' = sv_gold b
      else gold_moved True (saturating_mul (price x) (ucast n)) (sv_gold a, sv_gold b) (g, g')"
    "if whole_sale it x n then y = empty_merch\<lparr>sold_out := True\<rparr> \<and> ys = snd (sell_whole i (unat (original_slot x)) (sv_bag b))
      else y = x\<lparr>sell_count := sell_count x - n\<rparr> \<and> ys = snd (sell_part i n (unat (original_slot x)) (sv_bag b))"
    "shops_of w' = (shops_of w)(s \<mapsto> a\<lparr>sv_bag := snd (receive_goods i n (SLOT_MAX + unat dst) x (sv_bag a)), sv_gold := g\<rparr>,
       m \<mapsto> b\<lparr>sv_bag := ys, sv_gold := g', sv_items := (sv_items b)[unat k := y]\<rparr>)"
proof -
  from buy obtain kc w1 w2 where still: "seller_still_has m (unat k) i n w = Some kc"
    and tried: "try_merchant_buy m (unat k) i n w = (Some x, w1)"
    and paid: "pay_shop kc s m (saturating_mul (price x) (ucast n)) w1 = (True, w2)"
    and w': "w' = hand_over s m (unat k) i n dst it x w2"
    by (auto simp: buy_from_shop_def Let_def split: option.splits if_splits prod.splits)
  have mb: "shops_of w m = Some b" using m b by simp
  note t = shops_try_buy [OF tried mb]
  have kc: "kc = is_kc x"
    using still t(1) m b
    by (auto simp: seller_still_has_def get_merchant_item_def split: option.splits if_splits)
  define left where "left = saturating_sub (sell_count x) n"
  define b1 where "b1 = b\<lparr>sv_items := (sv_items b)[unat k := x\<lparr>sell_count := left, sold_out := (if left = 0 then True else sold_out x)\<rparr>]\<rparr>"
  have w1: "shops_of w1 = (shops_of w)(m \<mapsto> b1)" using t(4) by (simp add: b1_def left_def)
  have "shops_of w1 s = Some a" "shops_of w1 m = Some b1" using w1 sm s by simp_all
  from pay_shop_view [OF paid sm this] obtain g g' where
    gold: "if kc then g = sv_gold a \<and> g' = sv_gold b1
      else gold_moved True (saturating_mul (price x) (ucast n)) (sv_gold a, sv_gold b1) (g, g')"
    and w2: "shops_of w2 = (shops_of w1)(s \<mapsto> a\<lparr>sv_gold := g\<rparr>, m \<mapsto> b1\<lparr>sv_gold := g'\<rparr>)"
    by blast
  have "shops_of w2 s = Some (a\<lparr>sv_gold := g\<rparr>)" "shops_of w2 m = Some (b1\<lparr>sv_gold := g'\<rparr>)"
    using w2 sm by simp_all
  from shops_hand_over [OF sm this t(2), of i n dst it x]
  obtain ys zs where handed: "shops_of w' = (shops_of w2)(s \<mapsto> (a\<lparr>sv_gold := g\<rparr>)
        \<lparr>sv_bag := snd (receive_goods i n (SLOT_MAX + unat dst) x (sv_bag (a\<lparr>sv_gold := g\<rparr>)))\<rparr>,
      m \<mapsto> (b1\<lparr>sv_gold := g'\<rparr>)\<lparr>sv_bag := ys, sv_items := zs\<rparr>)"
    and parts: "if whole_sale it x n
      then ys = snd (sell_whole i (unat (original_slot x)) (sv_bag (b1\<lparr>sv_gold := g'\<rparr>)))
        \<and> zs = (sv_items (b1\<lparr>sv_gold := g'\<rparr>))[unat k := empty_merch\<lparr>sold_out := True\<rparr>]
      else ys = snd (sell_part i n (unat (original_slot x)) (sv_bag (b1\<lparr>sv_gold := g'\<rparr>))) \<and> zs = sv_items (b1\<lparr>sv_gold := g'\<rparr>)"
    unfolding w' whole_sale_def by blast
  have bn: "n \<le> sell_count x" "\<not> sold_out x" using t(3) by (auto simp: buyable_def)
  have left: "left = sell_count x - n" using bn(1) by (simp add: left_def saturating_sub_def word_le_nat_alt)
  obtain y where zs: "zs = (sv_items b)[unat k := y]"
    and y: "if whole_sale it x n then y = empty_merch\<lparr>sold_out := True\<rparr> \<and> ys = snd (sell_whole i (unat (original_slot x)) (sv_bag b))
      else y = x\<lparr>sell_count := sell_count x - n\<rparr> \<and> ys = snd (sell_part i n (unat (original_slot x)) (sv_bag b))"
  proof (cases "whole_sale it x n")
    case True
    then show ?thesis using parts that by (simp add: b1_def)
  next
    case False
    then have "x\<lparr>sell_count := left, sold_out := (if left = 0 then True else sold_out x)\<rparr> = x\<lparr>sell_count := sell_count x - n\<rparr>"
      by (simp add: whole_sale_def left)
    then show ?thesis using parts that False by (simp add: b1_def)
  qed
  have "shops_of w' = (shops_of w)(s \<mapsto> a\<lparr>sv_bag := snd (receive_goods i n (SLOT_MAX + unat dst) x (sv_bag a)), sv_gold := g\<rparr>,
       m \<mapsto> b\<lparr>sv_bag := ys, sv_gold := g', sv_items := (sv_items b)[unat k := y]\<rparr>)"
    unfolding handed w2 w1 zs using sm by (auto simp: fun_eq_iff b1_def)
  moreover have "if is_kc x then g = sv_gold a \<and> g' = sv_gold b
      else gold_moved True (saturating_mul (price x) (ucast n)) (sv_gold a, sv_gold b) (g, g')"
  proof -
    have "sv_gold b1 = sv_gold b" by (simp add: b1_def)
    then show ?thesis using gold by (simp only: kc)
  qed
  ultimately show thesis by (intro that [OF still [unfolded kc] t(1-3) _ y])
qed

lemma buy_from_shop_refused:
  assumes "buy_from_shop s m i n k dst it w = (None, w')" "shops_of w m = Some b"
  shows "shops_of w' = shops_of w"
  using assms shops_restore [OF _ assms(2)] shops_of_dom [OF assms(2)]
  by (auto simp: buy_from_shop_def Let_def try_merchant_buy_def split: option.splits if_splits prod.splits
      dest!: pay_shop_refused)

lemma buy_from_shop_step:
  assumes buy: "buy_from_shop s m i n k dst it w = (r, w')"
    and reach: "shop_in_reach e s w = Some m" and room: "buyer_has_room s i n dst it w"
    and n: "n \<noteq> 0" and s: "wsessions w s = Some ha"
  shows "if r = None then shops_of w' = shops_of w else shop_step (shops_of w) (shops_of w')"
proof (cases r)
  case None
  then show ?thesis
    using buy_from_shop_refused buy shop_in_reach_Some(2) [OF reach]
    by (cases "wsessions w m") (auto simp: stall_reads)
next
  case (Some x)
  note reach' = shop_in_reach_Some [OF reach]
  obtain hb where m: "wsessions w m = Some hb"
    using reach'(2) by (cases "wsessions w m") (simp_all add: is_selling_merchant_def)
  let ?a = "shop_view_of ha" and ?b = "shop_view_of hb"
  from buy_from_shop_view [OF buy [unfolded Some] reach'(1) shops_of_Some [OF s] m refl] obtain g g' y ys where
    v: "seller_still_has m (unat k) i n w = Some (is_kc x)" "x = sv_items ?b ! unat k" "unat k < MAX_MERCH_ITEMS" "buyable i n x"
      "if is_kc x then g = sv_gold ?a \<and> g' = sv_gold ?b
        else gold_moved True (saturating_mul (price x) (ucast n)) (sv_gold ?a, sv_gold ?b) (g, g')"
      "if whole_sale it x n then y = empty_merch\<lparr>sold_out := True\<rparr> \<and> ys = snd (sell_whole i (unat (original_slot x)) (sv_bag ?b))
        else y = x\<lparr>sell_count := sell_count x - n\<rparr> \<and> ys = snd (sell_part i n (unat (original_slot x)) (sv_bag ?b))"
      "shops_of w' = (shops_of w)(s \<mapsto> ?a\<lparr>sv_bag := snd (receive_goods i n (SLOT_MAX + unat dst) x (sv_bag ?a)), sv_gold := g\<rparr>,
         m \<mapsto> ?b\<lparr>sv_bag := ys, sv_gold := g', sv_items := (sv_items ?b)[unat k := y]\<rparr>)"
    by blast
  have bn: "n \<le> sell_count x" "\<not> sold_out x" "i \<noteq> 0" using v(4) by (auto simp: buyable_def)
  have left: "saturating_sub (sell_count x) n = sell_count x - n"
    using bn(1) by (simp add: saturating_sub_def word_le_nat_alt)
  have "shop_step (shops_of w) (shops_of w')"
    unfolding v(7)
  proof (rule shop_step.buy [OF reach'(1) _ _ _ _ v(3,2,4)])
    show "covers (sv_bag ?b) (unat (original_slot x)) i n"
      using seller_still_has_covers [OF v(1) m v(3) n bn(3)] v(2) by simp
    show "item_id (sv_bag ?a ! (SLOT_MAX + unat dst)) = 0 \<or> item_id (sv_bag ?a ! (SLOT_MAX + unat dst)) = i"
      if "SLOT_MAX + unat dst < length (sv_bag ?a)"
      using room that s by (auto simp: buyer_has_room_def get_inventory_slot_def slice_get_def Let_def)
    show "gold_after True (saturating_mul (price x) (ucast n)) (sv_gold ?a, sv_gold ?b) (g, g')"
      using v(5) by (auto simp: gold_after_def split: if_splits)
    show "y = x\<lparr>sell_count := sell_count x - n, sold_out := (sell_count x - n = 0)\<rparr>
        \<and> ys = snd (sell_part i n (unat (original_slot x)) (sv_bag ?b)) \<and> sell_count x - n \<noteq> 0
      \<or> y = empty_merch\<lparr>sold_out := True\<rparr> \<and> ys = snd (sell_whole i (unat (original_slot x)) (sv_bag ?b))"
      using v(6) bn(2) by (cases x) (auto simp: whole_sale_def split: if_splits)
  qed (use reach' s m left in \<open>simp_all add: stall_reads\<close>)
  then show ?thesis using Some by simp
qed

subsection \<open>Closing after a deal\<close>

definition clan_keeps_shops :: "env \<Rightarrow> bool" where
  \<comment> \<open>a clan that loses a member touches no bag, no gold and no shop\<close>
  "clan_keeps_shops e \<longleftrightarrow> (\<forall>s w. shops_of (clan_member_leaves e s w) = shops_of w)"

lemma shops_tables [simp]:
  "shops_of (w\<lparr>parties := ps\<rparr>) = shops_of w" "shops_of (w\<lparr>party_invitations := is\<rparr>) = shops_of w"
  "shops_of (w\<lparr>zones := zs\<rparr>) = shops_of w" "shops_of (w\<lparr>zone_session_index := ix\<rparr>) = shops_of w"
  "shops_of (w\<lparr>name_to_session := ns\<rparr>) = shops_of w"
  by (rule shops_of_cong, simp)+

lemma shops_leave_party [simp]: "shops_of (leave_party s w) = shops_of w"
  unfolding leave_party_def set_party_id_def update_character_stats_def
  by (auto simp: shop_view_of_def option.map_comp o_def intro!: trans [OF shops_modify_same] shops_modify_same)

lemma shops_party [simp]:
  "shops_of (snd (promote_party_leader pid s w)) = shops_of w"
  "shops_of (snd (disband_party pid w)) = shops_of w"
  "shops_of (snd (remove_party_member pid s w)) = shops_of w"
  "shops_of (send_to_party pid p w) = shops_of w"
  by (auto simp: promote_party_leader_def disband_party_def remove_party_member_def send_to_party_def Let_def
      intro!: trans [OF shops_fold] shops_fold split: option.splits prod.splits)

lemma shops_cleanup_party [simp]: "shops_of (cleanup_party_on_disconnect s w) = shops_of w"
  by (simp add: cleanup_party_on_disconnect_def Let_def split: option.splits)

lemma shops_unregister: "shops_of (unregister_session e s w) = (shops_of w)(s := None)"
proof (cases "wsessions w s")
  case (Some h)
  have "shops_of (w\<lparr>wsessions := (wsessions w)(s := None)\<rparr>) = (shops_of w)(s := None)"
    by (simp add: shops_of_def observe_def fun_eq_iff)
  then show ?thesis using Some by (simp add: unregister_session_def Let_def split: option.splits)
next
  case None
  then show ?thesis by (simp add: unregister_session_def fun_upd_idem)
qed

lemma cleanup_offline_moves:
  assumes "clan_keeps_shops e"
  shows "moves w (cleanup_offline_session e s w)"
proof -
  define w1 where "w1 = deactivate_offline_status s w"
  define w2 where "w2 = (if is_selling_merchant s w1 \<or> is_buying_merchant s w1
    then let w' = close_merchant s w1 in
      if wsessions w' s = None then w' else broadcast_around s (write_u32 (ucast s) (merchant_packet 2)) w' else w1)"
  have w1: "shops_of w1 = shops_of w"
    unfolding w1_def deactivate_offline_status_def by (rule shops_modify_same) (simp add: shop_view_of_def)
  have "shops_of w2 = shops_of w1 \<or> (\<exists>h. wsessions w1 s = Some h \<and> shops_of w2 = shops_of (close_merchant s w1))"
    by (cases "wsessions w1 s") (simp_all add: w2_def stall_reads Let_def)
  then have w2: "moves w1 w2"
    using one_step [OF close_sale] by (auto simp: shops_stalls)
  define w3 where "w3 = cleanup_party_on_disconnect s w2"
  define w4 where "w4 = (case get_character_info s w3 of
    None \<Rightarrow> w3 | Some ch \<Rightarrow> if knights_id ch > 0 then clan_member_leaves e s w3 else w3)"
  define w5 where "w5 = (case (get_character_info s w4, get_zone_id s w4) of
      (Some ch, Some z) \<Rightarrow>
        broadcast_to_zone z (write_sbyte_string (ch_name ch) (write_u8 4 (packet_new (as_u8 WizUserInfo)))) (Some s) w4
    | _ \<Rightarrow> w4)"
  define w6 where "w6 = (case wsessions w5 s of
      None \<Rightarrow> w5
    | Some h \<Rightarrow>
        broadcast_to_3x3 (zone_id h) (region_x h) (region_z h)
          (write_u32 (ucast s) (write_u8 0 (write_u8 INOUT_OUT (packet_new (as_u8 WizUserInout)))))
          (Some s) (event_room h) (remove_user (zone_id h) (region_x h) (region_z h) s w5))"
  have "shops_of w4 = shops_of w2"
    using assms by (simp add: w3_def w4_def clan_keeps_shops_def split: option.split)
  moreover have "shops_of w5 = shops_of w4" by (simp add: w5_def split: option.split)
  moreover have "shops_of w6 = shops_of w5" by (simp add: w6_def remove_user_def split: option.split)
  moreover have "cleanup_offline_session e s w = unregister_session e s w6"
    unfolding cleanup_offline_session_def w1_def w2_def w3_def w4_def w5_def w6_def Let_def ..
  ultimately have "shops_of (cleanup_offline_session e s w) = (shops_of w2)(s := None)"
    by (simp add: shops_unregister)
  then have "moves w2 (cleanup_offline_session e s w)" by (auto intro!: one_step leave)
  then show ?thesis using w1 w2 by (metis rtranclp_trans)
qed

lemma close_if_sold_out_moves:
  assumes "clan_keeps_shops e"
  shows "moves w (close_if_sold_out e m w)"
proof -
  define w1 where "w1 = broadcast_around m (write_u32 (ucast m) (merchant_packet MERCHANT_CLOSE)) (close_merchant m w)"
  have "moves w w1" using one_step [OF close_sale] by (cases "wsessions w m") (simp_all add: w1_def shops_stalls)
  then show ?thesis
    using cleanup_offline_moves [OF assms, of w1 m]
    by (auto simp: close_if_sold_out_def Let_def w1_def intro: rtranclp_trans)
qed

lemma close_if_satisfied_moves:
  assumes "clan_keeps_shops e"
  shows "moves w (close_if_satisfied e m w)"
proof -
  define w1 where "w1 = buying_merchant_close_broadcast m w"
  have "moves w w1"
    using one_step [OF close_purchase]
    by (cases "wsessions w m") (simp_all add: w1_def buying_merchant_close_broadcast_def shops_stalls)
  then show ?thesis
    using cleanup_offline_moves [OF assms, of w1 m]
    by (auto simp: close_if_satisfied_def Let_def w1_def intro: rtranclp_trans)
qed

lemma merchant_item_buy_moves:
  assumes "clan_keeps_shops e" "wsessions w s = Some h"
  shows "moves w (snd (merchant_item_buy e s rd w))"
proof -
  have fail: "moves w (snd (send_merch_buy_fail s w'))" if "shops_of w' = shops_of w" for w'
    using that by (simp add: send_merch_buy_fail_def)
  have close: "moves w (close_if_sold_out e m w')" if "moves w w'" for m w'
    using that close_if_sold_out_moves [OF assms(1)] rtranclp_trans [of shop_step] by blast
  have bought: "if r = None then shops_of w' = shops_of w else moves w w'"
    if "buy_from_shop s m i n k dst it w = (r, w')" "shop_in_reach e s w = Some m" "buyer_has_room s i n dst it w" "n \<noteq> 0"
    for r w' m i n k dst it
    using buy_from_shop_step [OF that assms(2)] by auto
  show ?thesis
  proof (cases "shop_in_reach e s w")
    case (Some m)
    then show ?thesis
      using fail bought
      by (auto simp: merchant_item_buy_def Let_def session_send_def split: prod.splits option.splits intro!: close)
  qed (simp add: merchant_item_buy_def fail)
qed

subsection \<open>Selling to a shop\<close>

lemma shop_pays_view:
  assumes "shop_pays s m x c w = (True, w')" "shop_affords m x c w" "s \<noteq> m" "shops_of w s = Some a" "shops_of w m = Some b"
  shows "\<exists>g g'. gold_after False c (sv_gold b, sv_gold a) (g, g')
    \<and> shops_of w' = (shops_of w)(m \<mapsto> b\<lparr>sv_gold := g\<rparr>, s \<mapsto> a\<lparr>sv_gold := g'\<rparr>)"
proof (cases "is_kc x")
  case True
  then have "shops_of w' = shops_of w"
    using assms(1) by (auto simp: shop_pays_def Let_def dest: cash_lose_shops split: prod.splits if_splits)
  then show ?thesis
    using assms(4,5) by (intro exI [of _ "sv_gold b"] exI [of _ "sv_gold a"]) (simp add: gold_after_def fun_upd_idem)
next
  case False
  then obtain d where d: "get_character_info m w = Some d" "c \<le> gold d"
    and w': "w' = gold_gain s c (snd (gold_lose m c w))"
    using assms(1,2) by (auto simp: shop_affords_def shop_pays_def split: option.splits)
  have g: "sv_gold b = Some (gold d)"
    using d(1) assms(5) by (auto simp: shops_of_def observe_def get_character_info_def)
  have "shops_of w' = upd s (\<lambda>a. a\<lparr>sv_gold := map_option (\<lambda>g. add_gold g c) (sv_gold a)\<rparr>)
      (upd m (\<lambda>a. a\<lparr>sv_gold := map_option (\<lambda>g. g - c) (sv_gold a)\<rparr>) (shops_of w))"
    unfolding w' shops_gold_gain shops_gold_lose [OF d] ..
  then have "shops_of w' = (shops_of w)(m \<mapsto> b\<lparr>sv_gold := Some (gold d - c)\<rparr>,
      s \<mapsto> a\<lparr>sv_gold := map_option (\<lambda>g. add_gold g c) (sv_gold a)\<rparr>)"
    using assms(3-5) g by simp
  moreover have "gold_after False c (sv_gold b, sv_gold a) (Some (gold d - c), map_option (\<lambda>g. add_gold g c) (sv_gold a))"
    using g d(2) by (simp add: gold_after_def gold_moved_def)
  ultimately show ?thesis by blast
qed

lemma shops_deliver:
  assumes "s \<noteq> m" "shops_of w s = Some a" "shops_of w m = Some b" "unat k < MAX_MERCH_ITEMS"
  shows "\<exists>y. (y = empty_merch \<or> y = x\<lparr>sell_count := sell_count x - n\<rparr>)
    \<and> shops_of (deliver_wanted s m src k n dest x sl w) = (shops_of w)
      (m \<mapsto> b\<lparr>sv_bag := snd (stock_up (m_item_id x) n dest sl (sv_bag b)), sv_items := (sv_items b)[unat k := y]\<rparr>,
       s \<mapsto> a\<lparr>sv_bag := snd (give_away (item_count sl - n) (SLOT_MAX + unat src) (sv_bag a))\<rparr>)"
proof -
  define y where "y = (if sell_count x - n = 0 then empty_merch else x\<lparr>sell_count := sell_count x - n\<rparr>)"
  define w1 where "w1 = set_merchant_item m (unat k) y w"
  define w2 where "w2 = snd (update_inventory m False (stock_up (m_item_id x) n dest sl) w1)"
  have "shops_of w1 = (shops_of w)(m \<mapsto> b\<lparr>sv_items := (sv_items b)[unat k := y]\<rparr>)"
    using assms(3,4) by (simp add: w1_def shops_item)
  then have w2: "shops_of w2 = (shops_of w)(m \<mapsto> b\<lparr>sv_bag := snd (stock_up (m_item_id x) n dest sl (sv_bag b)),
      sv_items := (sv_items b)[unat k := y]\<rparr>)"
    by (auto simp: w2_def shops_inventory fun_eq_iff)
  have "deliver_wanted s m src k n dest x sl w = snd (update_inventory s False (give_away (item_count sl - n) (SLOT_MAX + unat src)) w2)"
    by (simp add: deliver_wanted_def Let_def w1_def w2_def y_def)
  then have "shops_of (deliver_wanted s m src k n dest x sl w) = (shops_of w)
      (m \<mapsto> b\<lparr>sv_bag := snd (stock_up (m_item_id x) n dest sl (sv_bag b)), sv_items := (sv_items b)[unat k := y]\<rparr>,
       s \<mapsto> a\<lparr>sv_bag := snd (give_away (item_count sl - n) (SLOT_MAX + unat src) (sv_bag a))\<rparr>)"
    using assms(1,2) by (simp add: shops_inventory w2)
  moreover have "y = empty_merch \<or> y = x\<lparr>sell_count := sell_count x - n\<rparr>" by (simp add: y_def)
  ultimately show ?thesis by blast
qed

lemma wanted_from_covers:
  assumes "wanted_from s m src k n w = Some (x, sl)" "wsessions w s = Some ha" "wsessions w m = Some hb"
  shows "covers (inventory ha) (SLOT_MAX + unat src) (m_item_id x) n" "sl = inventory ha ! (SLOT_MAX + unat src)"
    "unat k < MAX_MERCH_ITEMS" "x = merchant_items hb ! unat k" "n \<le> sell_count x"
  using assms
  by (auto simp: wanted_from_def get_merchant_item_def get_inventory_slot_def slice_get_def covers_def
      split: if_splits option.splits)

lemma sell_to_shop_step:
  assumes "wanted_from s m src k n w = Some (x, sl)" "shop_affords m x c w" "c = saturating_mul (price x) (ucast n)"
    and "find_slot_for_item m (m_item_id x) n w = Some dest" "shop_pays s m x c w = (True, w1)"
    and "s \<noteq> m" "is_buying_merchant m w" "wsessions w s = Some ha"
  shows "shop_step (shops_of w) (shops_of (deliver_wanted s m src k n dest x sl w1))"
proof -
  obtain hb where m: "wsessions w m = Some hb"
    using assms(7) by (cases "wsessions w m") (simp_all add: stall_reads)
  let ?a = "shop_view_of ha" and ?b = "shop_view_of hb"
  note c = wanted_from_covers [OF assms(1,8) m]
  from shop_pays_view [OF assms(5,2,6) shops_of_Some [OF assms(8)] shops_of_Some [OF m]] obtain g g' where
    gold: "gold_after False c (sv_gold ?b, sv_gold ?a) (g, g')"
    and w1: "shops_of w1 = (shops_of w)(m \<mapsto> ?b\<lparr>sv_gold := g\<rparr>, s \<mapsto> ?a\<lparr>sv_gold := g'\<rparr>)"
    by blast
  have "shops_of w1 s = Some (?a\<lparr>sv_gold := g'\<rparr>)" "shops_of w1 m = Some (?b\<lparr>sv_gold := g\<rparr>)"
    using w1 assms(6) by simp_all
  from shops_deliver [OF assms(6) this c(3), of x n src dest sl] obtain y where
    y: "y = empty_merch \<or> y = x\<lparr>sell_count := sell_count x - n\<rparr>"
    and given: "shops_of (deliver_wanted s m src k n dest x sl w1) = (shops_of w1)
      (m \<mapsto> ?b\<lparr>sv_gold := g, sv_bag := snd (stock_up (m_item_id x) n dest sl (sv_bag (?b\<lparr>sv_gold := g\<rparr>))),
          sv_items := (sv_items (?b\<lparr>sv_gold := g\<rparr>))[unat k := y]\<rparr>,
       s \<mapsto> ?a\<lparr>sv_gold := g', sv_bag := snd (give_away (item_count sl - n) (SLOT_MAX + unat src) (sv_bag (?a\<lparr>sv_gold := g'\<rparr>)))\<rparr>)"
    by blast
  have "takes (inventory hb) dest (m_item_id x) n"
    using find_slot_for_item_Some [OF assms(4)] m by (auto simp: takes_def)
  then have "shop_step (shops_of w) ((shops_of w)
      (m \<mapsto> ?b\<lparr>sv_bag := snd (stock_up (m_item_id x) n dest (sv_bag ?a ! (SLOT_MAX + unat src)) (sv_bag ?b)), sv_gold := g,
          sv_items := (sv_items ?b)[unat k := y]\<rparr>,
       s \<mapsto> ?a\<lparr>sv_bag := snd (give_away (item_count (sv_bag ?a ! (SLOT_MAX + unat src)) - n) (SLOT_MAX + unat src) (sv_bag ?a)),
          sv_gold := g'\<rparr>))"
    using gold c y assms(3,6-8) m by (intro shop_step.sell) (simp_all add: stall_reads)
  moreover have "shops_of (deliver_wanted s m src k n dest x sl w1) = \<dots>"
    unfolding given w1 using assms(6) c(2) by (auto simp: fun_eq_iff)
  ultimately show ?thesis by simp
qed

lemma report_sale_moves:
  assumes "clan_keeps_shops e"
  shows "moves w (snd (report_sale e s m src k n dest x sl w))"
proof -
  have close: "moves w (close_if_satisfied e m w')" if "shops_of w' = shops_of w" for w'
    using close_if_satisfied_moves [OF assms, of w' m] that by simp
  show ?thesis by (auto simp: report_sale_def Let_def session_send_def intro!: close)
qed

lemma buying_merchant_buy_moves:
  assumes "clan_keeps_shops e" "wsessions w s = Some h"
  shows "moves w (snd (buying_merchant_buy e s rd w))"
proof -
  have "moves w (snd (report_sale e s m src k n dest x sl (deliver_wanted s m src k n dest x sl w1)))"
    if "wanted_from s m src k n w = Some (x, sl)" "shop_affords m x (saturating_mul (price x) (ucast n)) w"
      "find_slot_for_item m (m_item_id x) n w = Some dest" "shop_pays s m x (saturating_mul (price x) (ucast n)) w = (True, w1)"
      "s \<noteq> m" "is_buying_merchant m w" for m src k n x sl dest w1
    using one_step [OF sell_to_shop_step [OF that(1,2) refl that(3-6) assms(2)]] report_sale_moves [OF assms(1)]
    by (metis rtranclp_trans)
  moreover have "shops_of w' = shops_of w" if "shop_pays s m x c w = (False, w')" for m x c w'
    using that by (auto simp: shop_pays_def Let_def dest: cash_lose_shops split: prod.splits if_splits)
  ultimately show ?thesis
    by (auto simp: buying_merchant_buy_def Let_def split: prod.splits option.splits)
qed

lemma handle_merchant_moves:
  assumes "clan_keeps_shops e"
  shows "moves w (snd (handle_merchant e st s pkt w))"
proof (cases "wsessions w s")
  case None
  then show ?thesis by (simp add: handle_merchant_def get_character_info_def)
next
  case (Some h)
  show ?thesis
    using merchant_open_moves [OF Some] merchant_close_moves merchant_item_add_moves [OF Some] merchant_item_cancel_moves [OF Some]
      merchant_insert_moves [OF Some] merchant_item_buy_moves [OF assms Some] buying_merchant_open_moves [OF Some]
      buying_merchant_insert_moves [OF Some] buying_merchant_buy_moves [OF assms Some] buying_merchant_close_moves
    by (simp add: handle_merchant_def Let_def split: prod.split)
qed

end
