(* ===== verification/Merchant_Claims.thy ===== *)
theory Merchant_Claims
  imports Merchant_Refine
begin

text \<open>
  What the shop handlers promise: they refine the steps of theory \<open>Merchant_Machine\<close>, make neither gold nor
  pieces, keep one kind of shop at a time, and a purchase is exact or does nothing. And what they do not: the
  last sale of a listed part destroys the rest of the stack, the gold a shop pays above the cap is lost, and
  looking at a second shop blocks the first.
\<close>

lemma views_read:
  "carried (shops_of w t) = gold_of t w" "in_bag j (shops_of w t) = tally j (bag_of t w)"
  "shop_bags_ok (shops_of w) \<longleftrightarrow> bags_ok w"
proof -
  show "carried (shops_of w t) = gold_of t w"
    by (cases "wsessions w t") (auto simp: gold_of_def get_character_info_def split: option.splits)
  show "in_bag j (shops_of w t) = tally j (bag_of t w)"
    by (cases "wsessions w t") (simp_all add: bag_of_def)
  show "shop_bags_ok (shops_of w) \<longleftrightarrow> bags_ok w"
  proof -
    have "(\<forall>a. shops_of w t = Some a \<longrightarrow> slots_ok (sv_bag a)) \<longleftrightarrow> slots_ok (bag_of t w)" for t
      by (cases "wsessions w t") (simp_all add: bag_of_def slots_ok_def [of "[]"])
    then show ?thesis by (simp add: shop_bags_ok_def bags_ok_def)
  qed
qed

subsection \<open>A market\<close>

definition market :: world where
  \<comment> \<open>player 1 carries ten potions and sells four at 100 coins; player 2 looks at the shop\<close>
  "market = modify_session 1 (\<lambda>h. h\<lparr>merchant_state := MERCHANT_STATE_SELLING,
       inventory := (inventory h)[14 := empty_slot\<lparr>item_id := 389010000, item_count := 10\<rparr>],
       merchant_items := empty_merch\<lparr>m_item_id := 389010000, sell_count := 4, price := 100, original_slot := 14\<rparr>
         # replicate 11 empty_merch\<rparr>)
     (modify_session 2 (\<lambda>h. h\<lparr>browsing_merchant := Some 1, equipped := (equipped h)\<lparr>max_weight := 1000\<rparr>\<rparr>) demo_world)"

definition buy_packet :: packet where
  \<comment> \<open>four potions out of the first slot of the shop, to the first place of the bag\<close>
  "buy_packet = write_u8 0 (write_u8 0 (write_u16 4 (write_u32 389010000 (merchant_packet MERCHANT_ITEM_BUY))))"

lemma market_sessions [simp]:
  "wsessions market 1 = Some (demo_handle\<lparr>merchant_state := MERCHANT_STATE_SELLING,
     inventory := (replicate 96 empty_slot)[14 := empty_slot\<lparr>item_id := 389010000, item_count := 10\<rparr>],
     merchant_items := empty_merch\<lparr>m_item_id := 389010000, sell_count := 4, price := 100, original_slot := 14\<rparr>
         # replicate 11 empty_merch\<rparr>)"
  "wsessions market 2 = Some (demo_handle\<lparr>browsing_merchant := Some 1, equipped := default_stats\<lparr>max_weight := 1000\<rparr>\<rparr>)"
  "witems market = witems demo_world"
  by (simp_all add: market_def) (simp_all add: demo_handle_def)

lemma market_bags: "bags_ok market"
proof -
  have "bags_ok demo_world" by (rule demo_bags_ok)
  then show ?thesis
    unfolding bags_ok_def
    by (auto simp: bag_of_def market_def session_or_modify slots_ok_empty demo_handle_def ITEMCOUNT_MAX_def
        intro!: slots_ok_update)
qed

lemma demo_clan: "clan_keeps_shops demo_env"
  by (simp add: clan_keeps_shops_def demo_env_def)

subsection \<open>Every packet\<close>

text \<open>C8: whatever packet a player sends to the shop handler, what it does to the players' bags, gold and shops
  is a sequence of steps of the shop machine: setting out and taking back, opening and closing, one purchase or
  one sale, and the departure of an owner who was offline.\<close>

theorem handle_merchant_refines:
  assumes "clan_keeps_shops e"
  shows "shop_step\<^sup>*\<^sup>* (shops_of w) (shops_of (snd (handle_merchant e st s pkt w)))"
  by (rule handle_merchant_moves [OF assms])

theorem handle_merchant_refines_witness:
  "shop_step\<^sup>*\<^sup>* (shops_of market) (shops_of (snd (handle_merchant demo_env InGame 2 buy_packet market)))"
  by (rule handle_merchant_refines [OF demo_clan])

text \<open>C9: no packet to the shop handler makes gold: what all players carry together is afterwards at most what it
  was.\<close>

theorem shops_make_no_gold:
  assumes "clan_keeps_shops e"
  shows "(\<Sum>t\<in>UNIV. gold_of t (snd (handle_merchant e st s pkt w))) \<le> (\<Sum>t\<in>UNIV. gold_of t w)"
  using shop_steps_keep(1) [OF handle_merchant_moves [OF assms, of w st s pkt]] by (simp add: views_read)

theorem shops_make_no_gold_witness:
  "(\<Sum>t\<in>UNIV. gold_of t (snd (handle_merchant demo_env InGame 2 buy_packet market))) \<le> (\<Sum>t\<in>UNIV. gold_of t market)"
  by (rule shops_make_no_gold [OF demo_clan])

text \<open>C10: no packet to the shop handler makes pieces: of every item, all bags together hold afterwards at most as
  many pieces as before, and every bag stays well formed.\<close>

theorem shops_make_no_pieces:
  assumes "clan_keeps_shops e" "bags_ok w" "i \<noteq> 0"
  shows "(\<Sum>t\<in>UNIV. tally i (bag_of t (snd (handle_merchant e st s pkt w)))) \<le> (\<Sum>t\<in>UNIV. tally i (bag_of t w))
    \<and> bags_ok (snd (handle_merchant e st s pkt w))"
  using shop_steps_keep(3) [OF handle_merchant_moves [OF assms(1), of w st s pkt], of i] assms(2,3)
  by (simp add: views_read)

theorem shops_make_no_pieces_witness:
  "(\<Sum>t\<in>UNIV. tally 389010000 (bag_of t (snd (handle_merchant demo_env InGame 2 buy_packet market))))
    \<le> (\<Sum>t\<in>UNIV. tally 389010000 (bag_of t market))"
  using shops_make_no_pieces [OF demo_clan market_bags, of 389010000 InGame 2 buy_packet] by simp

definition one_shop :: "session_handle \<Rightarrow> bool" where
  "one_shop h \<longleftrightarrow> \<not> (selling_merchant_preparing h \<and> buying_merchant_preparing h)
     \<and> (selling_merchant_preparing h \<or> buying_merchant_preparing h \<longrightarrow> merchant_state h = MERCHANT_STATE_NONE)"

lemma one_shop_views: "shops_ok (shops_of w) \<longleftrightarrow> (\<forall>t. session_or True t one_shop w)"
proof -
  have "(\<forall>a. shops_of w t = Some a \<longrightarrow> stall_ok a) \<longleftrightarrow> session_or True t one_shop w" for t
    by (cases "wsessions w t") (simp_all add: one_shop_def stall_ok_def)
  then show ?thesis by (simp add: shops_ok_def)
qed

text \<open>A player never sets up a shop that sells and one that buys at the same time, and sets up neither while
  a shop of the own is open: no packet to the shop handler breaks this for anybody.\<close>

theorem one_shop_at_a_time:
  assumes "clan_keeps_shops e" "\<forall>t. session_or True t one_shop w"
  shows "\<forall>t. session_or True t one_shop (snd (handle_merchant e st s pkt w))"
  using shop_steps_keep(2) [OF handle_merchant_moves [OF assms(1)]] assms(2) by (simp add: one_shop_views)

theorem one_shop_at_a_time_witness:
  "\<forall>t. session_or True t one_shop (snd (handle_merchant demo_env InGame 1 (merchant_packet MERCHANT_OPEN) demo_world))"
  by (rule one_shop_at_a_time [OF demo_clan]) (auto simp: session_or_def demo_world_def one_shop_def demo_handle_def)

subsection \<open>A purchase\<close>

lemma views_gold_bag: "shops_of w' t = shops_of w t \<Longrightarrow> gold_of t w' = gold_of t w \<and> bag_of t w' = bag_of t w
    \<and> get_merchant_items t w' = get_merchant_items t w"
  by (cases "wsessions w t"; cases "wsessions w' t")
    (auto simp: gold_of_def get_character_info_def bag_of_def get_merchant_items_def shop_view_of_def shops_of_def observe_def
      split: option.splits)

lemma purchase_cases:
  assumes "buy_from_shop s m i n k dst it w = (Some x, w')" "s \<noteq> m" "in_game s w" "in_game m w" "n \<noteq> 0"
  obtains g g' y ys a b where
    "wsessions w s = Some a" "wsessions w m = Some b"
    "shops_of w' s = Some ((shop_view_of a)\<lparr>sv_bag := snd (receive_goods i n (SLOT_MAX + unat dst) x (bag_of s w)), sv_gold := g\<rparr>)"
    "shops_of w' m = Some ((shop_view_of b)\<lparr>sv_bag := ys, sv_gold := g', sv_items := (merchant_items b)[unat k := y]\<rparr>)"
    "\<forall>t. t \<noteq> s \<and> t \<noteq> m \<longrightarrow> shops_of w' t = shops_of w t"
    "if is_kc x then g = map_option gold (character a) \<and> g' = map_option gold (character b)
      else gold_moved True (saturating_mul (price x) (ucast n)) (map_option gold (character a), map_option gold (character b)) (g, g')"
    "if whole_sale it x n then ys = snd (sell_whole i (unat (original_slot x)) (bag_of m w))
      else ys = snd (sell_part i n (unat (original_slot x)) (bag_of m w))"
    "covers (bag_of m w) (unat (original_slot x)) i n"
proof -
  obtain a b where s: "wsessions w s = Some a" and m: "wsessions w m = Some b"
    using assms(3,4) by (auto simp: in_game_def get_character_info_def bind_eq_Some_conv)
  from buy_from_shop_view [OF assms(1,2) shops_of_Some [OF s] m refl] obtain g g' y ys where
    v: "seller_still_has m (unat k) i n w = Some (is_kc x)" "x = sv_items (shop_view_of b) ! unat k" "unat k < MAX_MERCH_ITEMS"
      "buyable i n x"
      "if is_kc x then g = sv_gold (shop_view_of a) \<and> g' = sv_gold (shop_view_of b)
        else gold_moved True (saturating_mul (price x) (ucast n)) (sv_gold (shop_view_of a), sv_gold (shop_view_of b)) (g, g')"
      "if whole_sale it x n then y = empty_merch\<lparr>sold_out := True\<rparr>
          \<and> ys = snd (sell_whole i (unat (original_slot x)) (sv_bag (shop_view_of b)))
        else y = x\<lparr>sell_count := sell_count x - n\<rparr> \<and> ys = snd (sell_part i n (unat (original_slot x)) (sv_bag (shop_view_of b)))"
      "shops_of w' = (shops_of w)(s \<mapsto> (shop_view_of a)\<lparr>sv_bag := snd (receive_goods i n (SLOT_MAX + unat dst) x
          (sv_bag (shop_view_of a))), sv_gold := g\<rparr>,
        m \<mapsto> (shop_view_of b)\<lparr>sv_bag := ys, sv_gold := g', sv_items := (sv_items (shop_view_of b))[unat k := y]\<rparr>)"
    by blast
  have "i \<noteq> 0" using v(4) by (auto simp: buyable_def)
  from seller_still_has_covers [OF v(1) m v(3) assms(5) this] have "covers (bag_of m w) (unat (original_slot x)) i n"
    using v(2) m by (simp add: bag_of_def)
  moreover have "shops_of w' s = Some ((shop_view_of a)\<lparr>sv_bag := snd (receive_goods i n (SLOT_MAX + unat dst) x (bag_of s w)), sv_gold := g\<rparr>)"
    "shops_of w' m = Some ((shop_view_of b)\<lparr>sv_bag := ys, sv_gold := g', sv_items := (merchant_items b)[unat k := y]\<rparr>)"
    "\<forall>t. t \<noteq> s \<and> t \<noteq> m \<longrightarrow> shops_of w' t = shops_of w t"
    using s v(7) assms(2) by (simp_all add: bag_of_def)
  moreover have "if is_kc x then g = map_option gold (character a) \<and> g' = map_option gold (character b)
      else gold_moved True (saturating_mul (price x) (ucast n)) (map_option gold (character a), map_option gold (character b)) (g, g')"
    using v(5) by (simp only: shop_view_sels)
  moreover have "if whole_sale it x n then ys = snd (sell_whole i (unat (original_slot x)) (bag_of m w))
      else ys = snd (sell_part i n (unat (original_slot x)) (bag_of m w))"
    using v(6) m by (auto simp: bag_of_def split: if_splits)
  ultimately show thesis using that [OF s m] by blast
qed

lemma gold_moved_exact:
  assumes "gold_moved True (saturating_mul p (ucast n)) (a, Some y) (g, g')"
  shows "(case g of None \<Rightarrow> 0 | Some g \<Rightarrow> unat g) + unat p * unat (n :: u16) = (case a of None \<Rightarrow> 0 | Some g \<Rightarrow> unat g)"
    "(case g' of None \<Rightarrow> 0 | Some g \<Rightarrow> unat g) = unat y + unat p * unat n"
proof -
  let ?c = "saturating_mul p (ucast n) :: u32"
  have "unat (ucast n :: u32) = unat n" by simp
  then have c: "unat ?c = min (unat p * unat n) (2 ^ 32 - 1)" by (simp add: unat_saturating_mul)
  obtain x where x: "a = Some x" "?c \<le> x" "g = Some (x - ?c)" "g' = Some (add_gold y ?c)" "unat y + unat ?c \<le> 2100000000"
    using assms by (auto simp: gold_moved_def COIN_MAX_def)
  then have "unat ?c = unat p * unat n" using c by (auto simp: min_def split: if_splits)
  then show "(case g of None \<Rightarrow> 0 | Some g \<Rightarrow> unat g) + unat p * unat n = (case a of None \<Rightarrow> 0 | Some g \<Rightarrow> unat g)"
    "(case g' of None \<Rightarrow> 0 | Some g \<Rightarrow> unat g) = unat y + unat p * unat n"
    using x by (simp_all add: unat_add_gold COIN_MAX_def word_le_nat_alt unat_sub)
qed

lemma receive_goods_exact:
  assumes "slots_ok xs" "i \<noteq> 0" "k < length xs" "n \<le> ITEMCOUNT_MAX"
    and "item_id (xs ! k) = 0 \<or> item_id (xs ! k) = i \<and> item_count (xs ! k) + n \<le> ITEMCOUNT_MAX"
  shows "tally i (snd (receive_goods i n k x xs)) = tally i xs + unat n"
proof -
  obtain z where z: "snd (receive_goods i n k x xs) = xs[k := z]" "item_id z = i"
    "item_count z = min (item_count (xs ! k) + n) ITEMCOUNT_MAX"
    using receive_goods_slot [OF assms(3)] .
  have ok: "item_count (xs ! k) \<le> ITEMCOUNT_MAX" "item_id (xs ! k) = 0 \<Longrightarrow> item_count (xs ! k) = 0"
    using slots_ok_nth [OF assms(1,3)] by simp_all
  have "at_slot i z = at_slot i (xs ! k) + unat n"
    using assms(2,4,5) ok z(2,3) no_wrap [OF ok(1) assms(4)] by (auto simp: at_slot_def min_def)
  then show ?thesis using tally_update [OF assms(3), of i z] by (simp add: z(1))
qed

lemma purchase_gain:
  assumes "buy_from_shop s m i n k dst it w = (Some x, w')" "s \<noteq> m" "in_game s w" "in_game m w" "bags_ok w" "n \<noteq> 0"
    and "buyer_has_room s i n dst it w" "unwrap_or 0 (countable it) \<in> {0, 1}" "SLOT_MAX + unat dst < length (bag_of s w)"
  shows "tally i (bag_of s w') = tally i (bag_of s w) + unat n"
proof -
  obtain g a where v: "wsessions w s = Some a"
    "shops_of w' s = Some ((shop_view_of a)\<lparr>sv_bag := snd (receive_goods i n (SLOT_MAX + unat dst) x (bag_of s w)), sv_gold := g\<rparr>)"
    and c: "covers (bag_of m w) (unat (original_slot x)) i n"
    by (rule purchase_cases [OF assms(1-4,6)])
  have "slots_ok (bag_of s w)" "slots_ok (bag_of m w)" using assms(5) by (simp_all add: bags_ok_def)
  moreover have "n \<le> ITEMCOUNT_MAX" "i \<noteq> 0"
    using c slots_ok_nth [OF \<open>slots_ok (bag_of m w)\<close>] by (auto simp: covers_def intro: order_trans)
  moreover have "item_id (bag_of s w ! (SLOT_MAX + unat dst)) = 0 \<or> item_id (bag_of s w ! (SLOT_MAX + unat dst)) = i
      \<and> item_count (bag_of s w ! (SLOT_MAX + unat dst)) + n \<le> ITEMCOUNT_MAX"
    using assms(7-9) v(1) by (auto simp: buyer_has_room_def get_inventory_slot_def slice_get_def bag_of_def Let_def)
  ultimately have "tally i (snd (receive_goods i n (SLOT_MAX + unat dst) x (bag_of s w))) = tally i (bag_of s w) + unat n"
    using assms(9) by (intro receive_goods_exact)
  then show ?thesis using v(2) views_read(2) [of i w' s] by simp
qed

text \<open>C7: a purchase from a player's shop is all or nothing. A refused one changes nobody's gold, bag or shop.
  One that goes through in gold moves exactly the price times the amount from the buyer to the seller, gives the
  buyer exactly the amount, and touches no third player; no bound cuts anything off.\<close>

theorem purchase_is_exact:
  assumes "buy_from_shop s m i n k dst it w = (r, w')" "s \<noteq> m" "in_game s w" "in_game m w" "bags_ok w" "n \<noteq> 0"
    and "buyer_has_room s i n dst it w" "unwrap_or 0 (countable it) \<in> {0, 1}" "SLOT_MAX + unat dst < length (bag_of s w)"
  shows "case r of
      None \<Rightarrow> \<forall>t. gold_of t w' = gold_of t w \<and> bag_of t w' = bag_of t w \<and> get_merchant_items t w' = get_merchant_items t w
    | Some x \<Rightarrow>
        (\<not> is_kc x \<longrightarrow> gold_of s w' + unat (price x) * unat n = gold_of s w
           \<and> gold_of m w' = gold_of m w + unat (price x) * unat n)
        \<and> tally i (bag_of s w') = tally i (bag_of s w) + unat n
        \<and> (\<forall>t. t \<noteq> s \<and> t \<noteq> m \<longrightarrow> gold_of t w' = gold_of t w \<and> bag_of t w' = bag_of t w)"
proof (cases r)
  case None
  obtain h where "wsessions w m = Some h"
    using assms(4) by (auto simp: in_game_def get_character_info_def bind_eq_Some_conv)
  then have "shops_of w' = shops_of w" using buy_from_shop_refused assms(1) None by auto
  then show ?thesis using views_gold_bag [of w' _ w] None by simp
next
  case (Some x)
  obtain g g' ys a b y where v: "wsessions w s = Some a" "wsessions w m = Some b"
    "shops_of w' s = Some ((shop_view_of a)\<lparr>sv_bag := snd (receive_goods i n (SLOT_MAX + unat dst) x (bag_of s w)), sv_gold := g\<rparr>)"
    "shops_of w' m = Some ((shop_view_of b)\<lparr>sv_bag := ys, sv_gold := g', sv_items := (merchant_items b)[unat k := y]\<rparr>)"
    "\<forall>t. t \<noteq> s \<and> t \<noteq> m \<longrightarrow> shops_of w' t = shops_of w t"
    and pay: "if is_kc x then g = map_option gold (character a) \<and> g' = map_option gold (character b)
      else gold_moved True (saturating_mul (price x) (ucast n)) (map_option gold (character a), map_option gold (character b)) (g, g')"
    by (rule purchase_cases [OF assms(1) [unfolded Some] assms(2-4,6)])
  have "gold_of s w' = (case g of None \<Rightarrow> 0 | Some g \<Rightarrow> unat g)" "gold_of m w' = (case g' of None \<Rightarrow> 0 | Some g \<Rightarrow> unat g)"
    using v(3,4) views_read(1) [of w' s] views_read(1) [of w' m] by simp_all
  moreover have "gold_of s w = (case map_option gold (character a) of None \<Rightarrow> 0 | Some g \<Rightarrow> unat g)"
    "gold_of m w = (case map_option gold (character b) of None \<Rightarrow> 0 | Some g \<Rightarrow> unat g)"
    using v(1,2) views_read(1) [of w s] views_read(1) [of w m] by simp_all
  moreover have "\<exists>g. map_option gold (character b) = Some g"
    using assms(4) v(2) by (auto simp: in_game_def get_character_info_def)
  ultimately have 1: "\<not> is_kc x \<longrightarrow> gold_of s w' + unat (price x) * unat n = gold_of s w
      \<and> gold_of m w' = gold_of m w + unat (price x) * unat n"
    using pay gold_moved_exact by auto
  have 2: "tally i (bag_of s w') = tally i (bag_of s w) + unat n"
    by (rule purchase_gain [OF assms(1) [unfolded Some] assms(2-9)])
  have 3: "gold_of t w' = gold_of t w \<and> bag_of t w' = bag_of t w" if "t \<noteq> s" "t \<noteq> m" for t
    using that v(5) views_gold_bag [of w' t w] by simp
  show ?thesis using Some 1 2 3 by simp
qed

definition market_entry :: merch_data where
  "market_entry = empty_merch\<lparr>m_item_id := 389010000, sell_count := 4, price := 100, original_slot := 14\<rparr>"

lemma market_gold: "gold_of 1 market = 1000" "gold_of 2 market = 1000" "in_game 1 market" "in_game 2 market"
  by (simp_all add: gold_of_def in_game_def get_character_info_def demo_handle_def demo_char_def)

lemma market_tally: "tally 389010000 (bag_of 2 market) = 0" "tally 389010000 (bag_of 1 market) = 10"
proof -
  have "at_slot 389010000 (empty_slot\<lparr>item_id := 389010000, item_count := 10\<rparr>) = 10" by (simp add: at_slot_def)
  then show "tally 389010000 (bag_of 1 market) = 10"
    using tally_update [of 14 "replicate 96 empty_slot" 389010000 "empty_slot\<lparr>item_id := 389010000, item_count := 10\<rparr>"]
    by (simp add: bag_of_def demo_handle_def tally_replicate)
qed (simp add: bag_of_def demo_handle_def tally_replicate)

lemma market_buy:
  obtains w' where "buy_from_shop 2 1 389010000 4 0 0 potion market = (Some market_entry, w')"
proof -
  have still: "seller_still_has 1 0 389010000 4 market = Some False"
    by (simp add: seller_still_has_def get_merchant_item_def MAX_MERCH_ITEMS_def empty_merch_def get_inventory_slot_def
        slice_get_def demo_handle_def)
  obtain w1 where tried: "try_merchant_buy 1 0 389010000 4 market = (Some market_entry, w1)"
    "wsessions w1 2 = wsessions market 2" "get_character_info 1 w1 = get_character_info 1 market"
    by (simp add: try_merchant_buy_def MAX_MERCH_ITEMS_def Let_def buyable_def empty_merch_def market_entry_def
        get_character_info_modify get_character_info_def)
  obtain w2 where "pay_shop False 2 1 400 w1 = (True, w2)"
    using tried(2,3) by (simp add: pay_shop_def get_character_info_def demo_handle_def demo_char_def COIN_MAX_def)
  moreover have "saturating_mul (price market_entry) (ucast (4 :: u16)) = (400 :: u32)"
    by (simp add: saturating_mul_def market_entry_def)
  ultimately show thesis
    using that still tried(1) by (simp add: buy_from_shop_def)
qed

lemma market_room: "buyer_has_room 2 389010000 4 0 potion market"
  by (simp add: buyer_has_room_def get_equipped_stats_def default_stats_def potion_def get_inventory_slot_def slice_get_def
      demo_handle_def Let_def empty_slot_def saturating_add_def saturating_mul_def)

lemma market_dest: "SLOT_MAX + unat (0 :: u8) < length (bag_of 2 market)"
  by (simp add: bag_of_def demo_handle_def SLOT_MAX_def)

theorem purchase_is_exact_witness:
  "\<exists>w'. buy_from_shop 2 1 389010000 4 0 0 potion market = (Some market_entry, w')
    \<and> gold_of 2 w' = 600 \<and> gold_of 1 w' = 1400 \<and> tally 389010000 (bag_of 2 w') = 4"
proof -
  obtain w' where w': "buy_from_shop 2 1 389010000 4 0 0 potion market = (Some market_entry, w')" by (rule market_buy)
  have "unwrap_or 0 (countable potion) \<in> {0, 1}" by (simp add: potion_def)
  from purchase_is_exact [OF w' _ market_gold(4,3) market_bags _ market_room this market_dest] w' show ?thesis
    by (simp add: market_gold market_tally market_entry_def empty_merch_def)
qed

text \<open>C11: when the last of the listed pieces is sold, the seller's whole bag slot is cleared, whatever it held
  besides. An owner who lists a part of a stack is paid for the part and loses the rest: seller and buyer
  together hold the difference less than before.\<close>

theorem last_sale_destroys_rest:
  assumes "buy_from_shop s m i n k dst it w = (Some x, w')" "s \<noteq> m" "in_game s w" "in_game m w" "bags_ok w" "n \<noteq> 0"
    and "buyer_has_room s i n dst it w" "unwrap_or 0 (countable it) \<in> {0, 1}" "SLOT_MAX + unat dst < length (bag_of s w)"
    and "sell_count x = n"
  shows "bag_of m w' ! unat (original_slot x) = empty_slot
    \<and> tally i (bag_of s w') + tally i (bag_of m w')
        + (unat (item_count (bag_of m w ! unat (original_slot x))) - unat n)
      = tally i (bag_of s w) + tally i (bag_of m w)"
proof -
  obtain g g' ys a b y where v: "shops_of w' m = Some ((shop_view_of b)\<lparr>sv_bag := ys, sv_gold := g', sv_items := (merchant_items b)[unat k := y]\<rparr>)"
    and part: "if whole_sale it x n then ys = snd (sell_whole i (unat (original_slot x)) (bag_of m w))
      else ys = snd (sell_part i n (unat (original_slot x)) (bag_of m w))"
    and c: "covers (bag_of m w) (unat (original_slot x)) i n"
    by (rule purchase_cases [OF assms(1-4,6)])
  let ?p = "unat (original_slot x)"
  have p: "?p < length (bag_of m w)" "item_id (bag_of m w ! ?p) = i" "i \<noteq> 0" "unat n \<le> unat (item_count (bag_of m w ! ?p))"
    using c by (auto simp: covers_def word_le_nat_alt)
  have "bag_of m w' = ys" using v by (auto simp: shops_of_def observe_def bag_of_def shop_view_of_def)
  moreover have "ys = (bag_of m w)[?p := empty_slot]"
    using part assms(10) p(1,2) by (simp add: whole_sale_def sell_whole_def)
  moreover have "tally i ((bag_of m w)[?p := empty_slot]) + unat (item_count (bag_of m w ! ?p)) = tally i (bag_of m w)"
    using tally_update [OF p(1), of i empty_slot] p(2,3) by (simp add: at_slot_def empty_slot_def)
  moreover have "tally i (bag_of s w') = tally i (bag_of s w) + unat n"
    by (rule purchase_gain [OF assms(1-9)])
  ultimately show ?thesis using p(1,4) by simp
qed

theorem last_sale_destroys_rest_witness:
  "\<exists>w'. buy_from_shop 2 1 389010000 4 0 0 potion market = (Some market_entry, w')
    \<and> bag_of 1 w' ! 14 = empty_slot \<and> tally 389010000 (bag_of 2 w') + tally 389010000 (bag_of 1 w') + 6 = 10"
proof -
  obtain w' where w': "buy_from_shop 2 1 389010000 4 0 0 potion market = (Some market_entry, w')" by (rule market_buy)
  have "unwrap_or 0 (countable potion) \<in> {0, 1}" "sell_count market_entry = 4"
    by (simp_all add: potion_def market_entry_def)
  from last_sale_destroys_rest [OF w' _ market_gold(4,3) market_bags _ market_room this(1) market_dest this(2)]
  have "bag_of 1 w' ! 14 = empty_slot" "tally 389010000 (bag_of 2 w') + tally 389010000 (bag_of 1 w')
      + (unat (item_count (bag_of 1 market ! 14)) - 4) = 10"
    by (simp_all add: market_entry_def market_tally)
  moreover have "unat (item_count (bag_of 1 market ! 14)) = 10" by (simp add: bag_of_def demo_handle_def)
  ultimately show ?thesis using w' by simp
qed

subsection \<open>A sale to a shop\<close>

text \<open>A shop that buys pays the whole price, but the seller receives only what fits under the cap of
  2,100,000,000 coins: unlike a shop that sells, it does not ask whether the receiver has room, and the rest is gone.\<close>

theorem sale_above_cap_is_lost:
  assumes "shop_affords m x c w" "\<not> is_kc x" "s \<noteq> m" "in_game s w"
  shows "fst (shop_pays s m x c w)
    \<and> gold_of m (snd (shop_pays s m x c w)) + unat c = gold_of m w
    \<and> gold_of s (snd (shop_pays s m x c w)) = min 2100000000 (gold_of s w + unat c)"
proof -
  obtain d where "get_character_info m w = Some d" "c \<le> gold d"
    using assms(1,2) by (auto simp: shop_affords_def split: option.splits)
  then have paid: "fst (gold_lose m c w)" "unat c \<le> gold_of m w"
    by (simp_all add: gold_lose_def gold_of_def word_le_nat_alt)
  then show ?thesis
    using assms(2-4) gold.pay_balance [OF paid(1), of m] gold.pay_balance [OF paid(1), of s]
    by (simp add: shop_pays_def gold.gain_balance gold.owner_kept COIN_MAX_def)
qed

definition rich_market :: world where
  \<comment> \<open>player 1 carries as many coins as anybody may\<close>
  "rich_market = update_character_stats 1 (\<lambda>c. c\<lparr>gold := 2100000000\<rparr>) market"

theorem sale_above_cap_is_lost_witness:
  "gold_of 2 (snd (shop_pays 1 2 (empty_merch\<lparr>m_item_id := 389010000, price := 600\<rparr>) 600 rich_market)) = 400
    \<and> gold_of 1 (snd (shop_pays 1 2 (empty_merch\<lparr>m_item_id := 389010000, price := 600\<rparr>) 600 rich_market)) = 2100000000"
proof -
  let ?x = "empty_merch\<lparr>m_item_id := 389010000, price := 600\<rparr>"
  have g: "gold_of 2 rich_market = 1000" "gold_of 1 rich_market = 2100000000" "in_game 1 rich_market" "in_game 2 rich_market"
    using market_gold by (simp_all add: rich_market_def gold_of_update in_game_def split: option.splits)
  have "shop_affords 2 ?x 600 rich_market" "\<not> is_kc ?x"
    by (simp_all add: shop_affords_def empty_merch_def rich_market_def get_character_info_def demo_handle_def demo_char_def
        update_character_stats_def)
  from sale_above_cap_is_lost [OF this _ g(3)] g show ?thesis by simp
qed

subsection \<open>Two shops\<close>

lemma sid_u32 [simp]: "ucast (ucast m :: u32) = (m :: sid)"
  by (rule bit_word_eqI) (auto simp: bit_ucast_iff)

lemma merchant_item_list_looks:
  assumes "fst (read_u32 rd) = Some (ucast m)" "is_selling_merchant m w" "\<not> is_selling_merchant_preparing m w"
    and "busy_looker s m w = None"
  obtains p where "snd (merchant_item_list e s rd w) = send_to_session s p (look_at s m w)"
  using assms by (simp add: merchant_item_list_def session_send_def Let_def)

lemma stalls_views:
  assumes "shops_of w' = shops_of w"
  shows "is_selling_merchant t w' = is_selling_merchant t w"
    "is_selling_merchant_preparing t w' = is_selling_merchant_preparing t w"
  using fun_cong [OF assms, of t]
  by (cases "wsessions w t"; cases "wsessions w' t"; simp add: stall_reads shops_of_def observe_def shop_view_of_def)+

lemma character_of_lookers:
  "get_character_info t (set_merchant_looker m l w) = get_character_info t w"
  "get_character_info t (set_browsing_merchant m l w) = get_character_info t w"
  "get_character_info t (look_at s m w) = get_character_info t w"
  "get_character_info t (remove_from_merchant_lookers s w) = get_character_info t w"
proof -
  have keep: "get_character_info t (modify_session m g w) = get_character_info t w"
    if "\<And>h. character (g h) = character h" for m g w
    using that by (cases "wsessions w m") (simp_all add: get_character_info_def)
  show looker: "get_character_info t (set_merchant_looker m l w) = get_character_info t w" for m l w
    by (simp add: set_merchant_looker_def keep)
  show browsing: "get_character_info t (set_browsing_merchant m l w) = get_character_info t w" for m l w
    by (simp add: set_browsing_merchant_def keep)
  show "get_character_info t (look_at s m w) = get_character_info t w"
    by (simp add: look_at_def looker browsing)
  show "get_character_info t (remove_from_merchant_lookers s w) = get_character_info t w"
    by (simp add: remove_from_merchant_lookers_def browsing keep split: option.split)
qed

lemma looker_of:
  "get_merchant_looker t (look_at s m w) = (if t = m \<and> wsessions w t \<noteq> None then Some s else get_merchant_looker t w)"
  "get_browsing_merchant s (look_at s m w) = (if wsessions w s \<noteq> None then Some m else None)"
  "get_browsing_merchant s w = Some m \<Longrightarrow> t \<noteq> m \<Longrightarrow>
    get_merchant_looker t (remove_from_merchant_lookers s w) = get_merchant_looker t w"
  "get_browsing_merchant s (remove_from_merchant_lookers s w) = None"
  by (auto simp: look_at_def remove_from_merchant_lookers_def set_browsing_merchant_def set_merchant_looker_def
      get_merchant_looker_def get_browsing_merchant_def session_or_def split: option.splits)

lemma looker_send [simp]:
  "get_merchant_looker t (send_to_session s p w) = get_merchant_looker t w"
  "get_browsing_merchant t (send_to_session s p w) = get_browsing_merchant t w"
  by (simp_all add: get_merchant_looker_def get_browsing_merchant_def)

text \<open>A player who looks at a shop and then at another goes on blocking the first: only the second is released
  when the player stops looking, so everybody else who asks for the first is told that the player is still there,
  although the player looks at no shop any more.\<close>

theorem second_shop_blocks_first:
  assumes "fst (read_u32 ra) = Some (ucast a)" "fst (read_u32 rb) = Some (ucast b)"
    and "is_selling_merchant a w" "\<not> is_selling_merchant_preparing a w" "busy_looker s a w = None"
    and "is_selling_merchant b w" "\<not> is_selling_merchant_preparing b w" "busy_looker s b w = None"
    and "a \<noteq> b" "s \<noteq> t" "get_character_info s w = Some ch"
    and w': "w' = snd (merchant_trade_cancel s (snd (merchant_item_list e s rb (snd (merchant_item_list e s ra w)))))"
  shows "get_browsing_merchant s w' = None
    \<and> merchant_item_list e t ra w' =
        session_send t (write_sbyte_string (ch_name ch) (write_i16 (-7) (merchant_packet MERCHANT_ITEM_LIST))) w'"
proof -
  obtain p where p: "snd (merchant_item_list e s ra w) = send_to_session s p (look_at s a w)"
    by (rule merchant_item_list_looks [OF assms(1,3-5)])
  define w1 where "w1 = send_to_session s p (look_at s a w)"
  have w1: "shops_of w1 = shops_of w" "\<And>u. get_character_info u w1 = get_character_info u w"
    by (simp_all add: w1_def character_of_lookers)
  have "wsessions w a \<noteq> None" using assms(3) by (auto simp: stall_reads session_or_def split: option.splits)
  then have a: "get_merchant_looker a w1 = Some s" by (simp add: w1_def looker_of(1))
  have b: "get_merchant_looker b w1 = get_merchant_looker b w" using assms(9) by (simp add: w1_def looker_of(1))
  have s: "wsessions w1 s \<noteq> None" using w1(2) [of s] assms(11) by (cases "wsessions w1 s") (auto simp: get_character_info_def)
  have "busy_looker s b w1 = None" using assms(8) by (simp add: busy_looker_def w1(2) b split: option.splits if_splits)
  then obtain q where q: "snd (merchant_item_list e s rb w1) = send_to_session s q (look_at s b w1)"
    by (rule merchant_item_list_looks [OF assms(2) assms(6,7) [folded stalls_views [OF w1(1)]]])
  define w2 where "w2 = send_to_session s q (look_at s b w1)"
  have w2: "shops_of w2 = shops_of w" "\<And>u. get_character_info u w2 = get_character_info u w"
    "get_browsing_merchant s w2 = Some b" "get_merchant_looker a w2 = Some s"
    using w1 a s assms(9) by (simp_all add: w2_def character_of_lookers looker_of(1,2))
  obtain r where r: "w' = send_to_session s r (remove_from_merchant_lookers s w2)"
    using w' p q by (simp add: w1_def w2_def merchant_trade_cancel_def session_send_def)
  have w3: "shops_of w' = shops_of w" "\<And>u. get_character_info u w' = get_character_info u w"
    "get_merchant_looker a w' = Some s" "get_browsing_merchant s w' = None"
    using w2 looker_of(3) [OF w2(3) assms(9)] by (simp_all add: r character_of_lookers looker_of(4))
  have "busy_looker t a w' = Some ch" using assms(10,11) by (simp add: busy_looker_def w3)
  then show ?thesis
    using assms(1,3,4) stalls_views [OF w3(1), of a] w3(4) by (simp add: merchant_item_list_def Let_def)
qed

definition bazaar :: world where
  \<comment> \<open>a second shop, player 3's\<close>
  "bazaar = market\<lparr>wsessions := (wsessions market)(3 := wsessions market 1)\<rparr>"

theorem second_shop_blocks_first_witness:
  "let w' = snd (merchant_trade_cancel 2 (snd (merchant_item_list demo_env 2 (reader_new [3, 0, 0, 0])
      (snd (merchant_item_list demo_env 2 (reader_new [1, 0, 0, 0]) bazaar)))))
   in get_browsing_merchant 2 w' = None
    \<and> merchant_item_list demo_env 3 (reader_new [1, 0, 0, 0]) w' =
        session_send 3 (write_sbyte_string [65] (write_i16 (-7) (merchant_packet MERCHANT_ITEM_LIST))) w'"
proof -
  have r: "fst (read_u32 (reader_new [1, 0, 0, 0])) = Some (ucast (1 :: sid))"
    "fst (read_u32 (reader_new [3, 0, 0, 0])) = Some (ucast (3 :: sid))"
    by code_simp+
  have "get_character_info 2 bazaar = Some demo_char"
    by (simp add: bazaar_def get_character_info_def demo_handle_def)
  from second_shop_blocks_first [OF r, of bazaar 2 3 demo_char _ demo_env, OF _ _ _ _ _ _ _ _ this refl] show ?thesis
    by (simp add: bazaar_def stall_reads busy_looker_def get_merchant_looker_def demo_handle_def demo_char_def Let_def)
qed

subsection \<open>Shops without their owner\<close>

abbreviation offline_step :: "session_handle \<Rightarrow> nat \<Rightarrow> bool \<times> session_handle" where
  "offline_step h now \<equiv> tick_offline now h"

text \<open>C12: a shop whose owner is offline is closed in time: with \<open>m\<close> minutes left and ticks at least sixty seconds
  apart, the first of them when the next check is due, exactly the \<open>m\<close>-th tick finds the time expired, and none
  before.\<close>

theorem offline_shop_expires:
  assumes "is_offline h" "offline_next_check h = Some due" "0 < unat (offline_remaining_minutes h)"
    and "length nows = unat (offline_remaining_minutes h)" "due \<le> hd nows"
    and "successively (\<lambda>a b. a + OFFLINE_CHECK_INTERVAL_SECS \<le> b) nows"
  shows "fst (run offline_step h nows) = replicate (length nows - 1) False @ [True]"
  using assms
proof (induction nows arbitrary: h due)
  case (Cons now nows)
  let ?left = "saturating_sub (offline_remaining_minutes h) 1"
  have left: "unat ?left = length nows"
    using Cons.prems(3,4) by (simp add: unat_saturating_sub)
  show ?case
  proof (cases nows)
    case Nil
    then show ?thesis
      using Cons.prems left by (auto simp: tick_offline_def Let_def simp flip: unat_eq_zero)
  next
    case (Cons u us)
    let ?h = "h\<lparr>offline_remaining_minutes := ?left, offline_next_check := Some (now + OFFLINE_CHECK_INTERVAL_SECS)\<rparr>"
    have "?left \<noteq> 0" using left Cons by auto
    then have step: "tick_offline now h = (False, ?h)"
      using Cons.prems(1-3,5) by (auto simp: tick_offline_def Let_def)
    have "fst (run offline_step ?h nows) = replicate (length nows - 1) False @ [True]"
      using Cons.prems(1,6) left Cons by (intro Cons.IH [where due = "now + OFFLINE_CHECK_INTERVAL_SECS"]) auto
    then show ?thesis using step Cons by simp
  qed
qed simp

theorem offline_shop_expires_witness:
  "let h = demo_handle\<lparr>is_offline := True, offline_remaining_minutes := 2, offline_next_check := Some 60\<rparr>
   in fst (run offline_step h [60, 120]) = [False, True]"
  using offline_shop_expires [of "demo_handle\<lparr>is_offline := True, offline_remaining_minutes := 2,
    offline_next_check := Some 60\<rparr>" 60 "[60, 120]"]
  by (simp add: OFFLINE_CHECK_INTERVAL_SECS_def)

end
