(* ===== verification/Level.thy ===== *)
theory Level
  imports Party_Handler Npc_Trade Item_Move_Handler
begin

text \<open>
  Experience and levels (\<^verbatim>\<open>crates/ko-game/src/handler/level.rs\<close>, lines 26 to 616), with the look-ups of bonuses of
  \<^verbatim>\<open>world/tables.rs\<close> and the gain under an experience seal (\<^verbatim>\<open>handler/exp_seal.rs\<close>, lines 245 to 305). All
  arithmetic is at the width of the code, as in a release build. The audit log and the database writes are left
  out; \<^verbatim>\<open>on_death_lost_exp_calc\<close> is modelled where it computes in integers, with the premium rate \<open>0\<close>
  \<open>exp_change_inner\<close> passes.
\<close>

definition MAX_BONUS_PERCENT :: u64 where "MAX_BONUS_PERCENT = 10000"
definition EXP_FLAG_NORMAL :: u8 where "EXP_FLAG_NORMAL = 4"
definition PARTY_LEVELCHANGE :: u8 where "PARTY_LEVELCHANGE = 7"
definition MAX_SEALED_EXP :: u32 where "MAX_SEALED_EXP = 1000000000"
definition EXT_SUB_RESET :: u8 where "EXT_SUB_RESET = 0xAD"

subsection \<open>Bonuses\<close>

definition premium_exp_for_type :: "u8 \<Rightarrow> u8 \<Rightarrow> world \<Rightarrow> u16" where
  "premium_exp_for_type t lvl w =
     (case find (\<lambda>r. pe_type r = ucast t \<and> lvl \<ge> ucast (pe_min_level r) \<and> lvl \<le> ucast (pe_max_level r))
             (premium_item_exp w) of
        None \<Rightarrow> 0
      | Some r \<Rightarrow> ucast (pe_percent r))"

definition get_premium_exp_percent :: "sid \<Rightarrow> u8 \<Rightarrow> world \<Rightarrow> u16" where
  "get_premium_exp_percent s lvl w =
     (let t = session_or 0 s premium_in_use w in if t = 0 then 0 else premium_exp_for_type t lvl w)"

definition get_clan_premium_exp_percent :: "sid \<Rightarrow> u8 \<Rightarrow> world \<Rightarrow> u16" where
  "get_clan_premium_exp_percent s lvl w =
     (let t = session_or 0 s clan_premium_in_use w in if t = 0 then 0 else premium_exp_for_type t lvl w)"

definition exp_rate :: "u16 \<Rightarrow> world \<Rightarrow> u8 option" where
  \<comment> \<open>\<open>get_burning_feature(flame_level)\<close>, of which only the experience rate is used\<close>
  "exp_rate flame w =
     (if flame = 0 \<or> flame > 3 then None else Some (burning_exp_rates w ! unat (flame - 1)))"

definition get_king_exp_event :: "u8 \<Rightarrow> world \<Rightarrow> u8" where
  "get_king_exp_event n w = (case get_king_system n w of None \<Rightarrow> 0 | Some ks \<Rightarrow> exp_event ks)"

definition get_clan_leader_online_bonus :: "env \<Rightarrow> character_info \<Rightarrow> world \<Rightarrow> u8" where
  "get_clan_leader_online_bonus e ch w =
     (if knights_id ch = 0 then 0
      else case knights w (knights_id ch) of
        None \<Rightarrow> 0
      | Some clan \<Rightarrow>
          if kn_chief clan = [] then 0
          else if find_session_by_name e (kn_chief clan) w \<noteq> None then 5 else 0)"

definition exp_bonuses :: "env \<Rightarrow> sid \<Rightarrow> character_info \<Rightarrow> world \<Rightarrow> u64 list" where
  \<comment> \<open>the percentages of \<open>apply_exp_bonuses\<close>, in its order; one that does not apply is \<open>0\<close>\<close>
  "exp_bonuses e s ch w =
     (let dead = is_player_dead s w; flame = session_or 0 s flame_level w;
          perk = session_or 0 s (\<lambda>h. compute_perk_bonus (perk_levels h) 5 False w) w in
      [ucast (get_king_exp_event (nation ch) w),
       ucast (get_clan_leader_online_bonus e ch w),
       if dead then 0 else ucast (get_premium_exp_percent s (level ch) w),
       if dead then 0 else ucast (get_clan_premium_exp_percent s (level ch) w),
       ucast (item_exp_bonus (get_equipped_stats s w)),
       ucast (unwrap_or 0 (exp_rate flame w)),
       ucast (session_or 0 s flash_exp_bonus w),
       ucast (session_or 0 s exp_gain_buff11 w),
       ucast (session_or 0 s exp_gain_buff33 w),
       if sint perk > 0 then scast perk else 0])"

definition apply_exp_bonuses :: "env \<Rightarrow> sid \<Rightarrow> i64 \<Rightarrow> character_info \<Rightarrow> world \<Rightarrow> i64" where
  "apply_exp_bonuses e s base ch w =
     (let temp = ucast base :: u64;
          final = fold (\<lambda>p f. if p > 0 then f + temp * p div 100 else f) (exp_bonuses e s ch w) temp in
      ucast (if final > temp * MAX_BONUS_PERCENT then temp * MAX_BONUS_PERCENT else final))"

subsection \<open>Points\<close>

definition get_stat_total :: "character_info \<Rightarrow> u16" where
  "get_stat_total ch = ucast (ch_str ch) + ucast (ch_sta ch) + ucast (ch_dex ch) + ucast (ch_intel ch) + ucast (ch_cha ch)"

definition get_total_skill_points :: "character_info \<Rightarrow> u16" where
  "get_total_skill_points ch = ucast (skill_points ch ! 5) + ucast (skill_points ch ! 6)
     + ucast (skill_points ch ! 7) + ucast (skill_points ch ! 8)"

definition expected_stat_total :: "u8 \<Rightarrow> u16" where
  "expected_stat_total lvl =
     (let t = 300 + ucast (saturating_sub lvl 1) * 3 in if lvl > 60 then t + 2 * (ucast lvl - 60) else t)"

definition expected_skill_total :: "u8 \<Rightarrow> u16" where
  "expected_skill_total lvl = (if lvl \<ge> 10 then (ucast lvl - 9) * 2 else 0)"

definition points_of_jump :: "u8 \<Rightarrow> i64 \<Rightarrow> character_info \<Rightarrow> character_info" where
  \<comment> \<open>a jump over several levels; the expected totals are those of \<open>expected_stat_total\<close>, computed in place\<close>
  "points_of_jump lvl new_max ch =
     (let stats = (let t = 300 + (ucast lvl - 1) * 3 :: i32 in ucast (if lvl > 60 then t + 2 * (ucast lvl - 60) else t)) :: u16;
          skills = (if lvl \<ge> 10 then (ucast lvl - 9) * 2 else 0) :: u16;
          c1 = (if stats > get_stat_total ch
                then ch\<lparr>free_points := free_points ch + (stats - get_stat_total ch)\<rparr> else ch);
          c2 = (if skills > get_total_skill_points c1
                then c1\<lparr>skill_points := (skill_points c1)
                  [0 := skill_points c1 ! 0 + ucast (skills - get_total_skill_points c1)]\<rparr> else c1) in
      c2\<lparr>level := lvl, max_exp := new_max\<rparr>)"

definition points_of_level :: "u8 \<Rightarrow> i64 \<Rightarrow> character_info \<Rightarrow> character_info" where
  \<comment> \<open>one level up\<close>
  "points_of_level lvl new_max ch =
     (let after60 = (if lvl > 60 then ucast lvl - 60 else 0) :: u16;
          stat_pts = (if after60 = 0 then 3 else 5); skill_pts = (if lvl \<ge> 10 then 2 else 0);
          c1 = (if free_points ch + get_stat_total ch < 297 + 3 * ucast lvl + 2 * after60
                then ch\<lparr>free_points := free_points ch + stat_pts\<rparr> else ch);
          c2 = (if lvl \<ge> 10 \<and> get_total_skill_points c1 < 2 * (ucast lvl - 9)
                then c1\<lparr>skill_points := (skill_points c1)[0 := skill_points c1 ! 0 + skill_pts]\<rparr> else c1) in
      c2\<lparr>max_exp := new_max\<rparr>)"

subsection \<open>A change of level\<close>

definition is_discount_active :: "u8 \<Rightarrow> world \<Rightarrow> bool" where
  "is_discount_active n w \<longleftrightarrow> discount w = 2 \<or> discount w = 1 \<and> old_victory w = n"

definition build_preset_req_money :: "env \<Rightarrow> u8 \<Rightarrow> u8 \<Rightarrow> bool \<Rightarrow> packet" where
  "build_preset_req_money e lvl premium disc =
     (let cost = money_req e lvl premium; cost' = (if disc then cost div 2 else cost) in
      write_u32 cost' (write_u8 EXT_SUB_RESET (packet_new (as_u8 WizExtHook))))"

definition accept_skill_quest :: "sid \<Rightarrow> world \<Rightarrow> world" where
  \<comment> \<open>event 71, the quest of the first skill, unless the player has it\<close>
  "accept_skill_quest s w =
     (if session_or False s (\<lambda>h. case quest_states h 71 of None \<Rightarrow> True | Some q \<Rightarrow> q = 0) w
      then send_to_session s (write_u8 1 (write_u16 71 (write_u8 2 (packet_new (as_u8 WizQuest)))))
             (modify_session s (\<lambda>h. h\<lparr>quest_states := (quest_states h)(71 \<mapsto> 1)\<rparr>) w)
      else w)"

definition level_packet :: "sid \<Rightarrow> character_info \<Rightarrow> equipped_stats \<Rightarrow> packet" where
  "level_packet s ch st =
     (let p = write_u8 (level ch) (write_u32 (ucast s) (packet_new (as_u8 WizLevelChange)));
          p1 = write_i64 (max_exp ch) (write_u8 (skill_points ch ! 0) (write_i16 (ucast (free_points ch)) p));
          p2 = write_i16 (hp ch) (write_i16 (max_hp ch) (write_i64 (ucast (ch_exp ch)) p1)) in
      write_u32 (item_weight st) (write_u32 (max_weight st) (write_i16 (mp ch) (write_i16 (max_mp ch) p2))))"

definition announce_level :: "env \<Rightarrow> sid \<Rightarrow> character_info \<Rightarrow> world \<Rightarrow> world" where
  \<comment> \<open>to the region, to the party, and the new price of a reset to the player\<close>
  "announce_level e s ch w =
     (let pkt = level_packet s ch (get_equipped_stats s w);
          w1 = (case wsessions w s of
                  None \<Rightarrow> w
                | Some h \<Rightarrow> broadcast_to_3x3 (zone_id h) (region_x h) (region_z h) pkt None (event_room h) w);
          w2 = (case party_id ch of
                  None \<Rightarrow> w1
                | Some p \<Rightarrow> send_to_party p
                    (write_u8 (level ch) (write_u32 (ucast s) (write_u8 PARTY_LEVELCHANGE (packet_new (as_u8 WizParty))))) w1);
          premium = session_or 0 s premium_in_use w2 in
      send_to_session s (build_preset_req_money e (level ch) premium (is_discount_active (nation ch) w2)) w2)"

definition level_change :: "env \<Rightarrow> sid \<Rightarrow> u8 \<Rightarrow> bool \<Rightarrow> world \<Rightarrow> world" where
  "level_change e s lvl is_level_up w =
     (if lvl < 1 \<or> ucast lvl > MAX_LEVEL then w
      else case get_character_info s w of
        None \<Rightarrow> if is_level_up then w else set_user_ability e s w
      | Some ch \<Rightarrow>
          let new_max = get_exp_by_level lvl 0 w;
              f = (if is_level_up
                   then if lvl > saturating_add (level ch) 1 then points_of_jump lvl new_max else points_of_level lvl new_max
                   else (\<lambda>c. c\<lparr>max_exp := new_max\<rparr>));
              w1 = set_user_ability e s (update_character_stats s f w);
              w2 = update_character_stats s (\<lambda>c. c\<lparr>hp := max_hp c, mp := max_mp c\<rparr>) w1;
              w3 = (if is_level_up \<and> lvl \<ge> 10 then accept_skill_quest s w2 else w2) in
          case get_character_info s w3 of
            None \<Rightarrow> w3
          | Some c \<Rightarrow> announce_level e s c w3)"

subsection \<open>Experience\<close>

definition send_exp_change :: "sid \<Rightarrow> world \<Rightarrow> world" where
  "send_exp_change s w =
     (case get_character_info s w of
        None \<Rightarrow> w
      | Some ch \<Rightarrow> send_to_session s (write_i64 (ucast (ch_exp ch)) (write_u8 EXP_FLAG_NORMAL (packet_new (as_u8 WizExpChange)))) w)"

definition on_death_lost_exp :: "i64 \<Rightarrow> i64" where
  \<comment> \<open>\<open>on_death_lost_exp_calc(max_exp, 0.0)\<close>\<close>
  "on_death_lost_exp m = word_of_int (sint m sdiv 20)"

definition send_sealed_exp_update :: "sid \<Rightarrow> world \<Rightarrow> world" where
  "send_sealed_exp_update s w =
     (let sealed = (case get_character_info s w of None \<Rightarrow> 0 | Some ch \<Rightarrow> sealed_exp ch) in
      send_to_session s (write_u32 0 (write_u32 sealed (write_u8 4 (packet_new (as_u8 WizExpSeal))))) w)"

definition exp_seal_change_exp :: "sid \<Rightarrow> u64 \<Rightarrow> world \<Rightarrow> bool \<times> world" where
  \<comment> \<open>\<open>True\<close>: the pool is full, the seal is off, and the amount goes on to \<open>exp_change\<close>\<close>
  "exp_seal_change_exp s amount w =
     (case get_character_info s w of
        None \<Rightarrow> (False, w)
      | Some ch \<Rightarrow>
          if sealed_exp ch \<ge> MAX_SEALED_EXP \<and> amount > 0 then
            (True, send_to_session s (write_u8 1 (write_u8 2 (packet_new (as_u8 WizExpSeal))))
               (update_character_stats s (\<lambda>c. c\<lparr>exp_seal_status := False\<rparr>) w))
          else
            let sealed = min (saturating_add (sealed_exp ch) (ucast amount)) MAX_SEALED_EXP;
                w1 = send_sealed_exp_update s (update_character_stats s (\<lambda>c. c\<lparr>sealed_exp := sealed\<rparr>) w) in
            (False,
             case get_character_info s w1 of
               None \<Rightarrow> w1
             | Some c \<Rightarrow> send_to_session s (write_i64 (ucast (ch_exp c)) (write_u8 1 (packet_new (as_u8 WizExpChange)))) w1))"

definition in_war_zone :: "sid \<Rightarrow> world \<Rightarrow> bool" where
  "in_war_zone s w =
     (case get_zone_id s w of
        None \<Rightarrow> False
      | Some z \<Rightarrow> (case zones w z of None \<Rightarrow> False | Some zone \<Rightarrow> unwrap_or False (war_zone zone)))"

definition set_exp :: "u64 \<Rightarrow> sid \<Rightarrow> world \<Rightarrow> world" where
  "set_exp x s w = send_exp_change s (update_character_stats s (\<lambda>c. c\<lparr>ch_exp := x\<rparr>) w)"

definition gain_exp :: "env \<Rightarrow> sid \<Rightarrow> character_info \<Rightarrow> i64 \<Rightarrow> world \<Rightarrow> world" where
  \<comment> \<open>the new amount is not negative: level up, stop at the cap, or only the new amount\<close>
  "gain_exp e s ch new_exp w =
     (if sint (max_exp ch) > 0 \<and> sint new_exp \<ge> sint (max_exp ch)
      then if (ucast (level ch) :: u16) < MAX_LEVEL
        then level_change e s (level ch + 1) True
               (update_character_stats s (\<lambda>c. c\<lparr>ch_exp := ucast (new_exp - max_exp ch), level := level ch + 1\<rparr>) w)
        else set_exp (ucast (max_exp ch)) s w
      else set_exp (ucast new_exp) s w)"

definition lose_level :: "env \<Rightarrow> sid \<Rightarrow> character_info \<Rightarrow> world \<Rightarrow> i64 \<times> world" where
  \<comment> \<open>one level down; what is still to be lost\<close>
  "lose_level e s ch w =
     (let lvl = level ch - 1; level_max = get_exp_by_level lvl 0 w in
      (ucast (ch_exp ch) + on_death_lost_exp level_max,
       level_change e s lvl False (update_character_stats s (\<lambda>c. c\<lparr>ch_exp := ucast level_max, level := lvl\<rparr>) w)))"

end
