(* ===== verification/Experience.thy ===== *)
theory Experience
  imports Level
begin

text \<open>
  The change of experience, \<^verbatim>\<open>exp_change_inner\<close> of \<^verbatim>\<open>crates/ko-game/src/handler/level.rs\<close> (lines 43 to 179): it calls
  itself while a loss takes levels, and through the experience seal. The recursion ends because each call finds the
  player a level lower, or its seal switched off. Below it, what a change of level does to the character
  apart from HP and MP (\<open>alike\<close>), and the rules for the three ways \<open>exp_change\<close> can go.
\<close>

subsection \<open>What a change of level leaves alone\<close>

definition alike :: "character_info \<Rightarrow> character_info \<Rightarrow> bool" where
  \<comment> \<open>equal but for HP and MP\<close>
  "alike c c' \<longleftrightarrow> c' = c\<lparr>hp := hp c', max_hp := max_hp c', mp := mp c', max_mp := max_mp c'\<rparr>"

lemma alike_fields:
  assumes "alike c c'"
  shows "level c' = level c" "ch_exp c' = ch_exp c" "max_exp c' = max_exp c" "exp_seal_status c' = exp_seal_status c"
    "sealed_exp c' = sealed_exp c" "free_points c' = free_points c" "skill_points c' = skill_points c"
    "get_stat_total c' = get_stat_total c" "nation c' = nation c" "ch_class c' = ch_class c"
  by (use assms in \<open>simp add: alike_def, (cases c, cases c', simp add: get_stat_total_def)\<close>)+

lemma alike_refl [simp]: "alike c c"
  by (simp add: alike_def)

lemma alike_trans [trans]: "alike a b \<Longrightarrow> alike b c \<Longrightarrow> alike a c"
  by (cases a, cases b, cases c) (simp add: alike_def)

definition player :: "world \<Rightarrow> sid \<Rightarrow> character_info option" where
  "player w s = get_character_info s w"

definition keeps_chars :: "world \<Rightarrow> world \<Rightarrow> bool" where
  \<comment> \<open>no character changes, no level table, and nobody enters or leaves a war zone\<close>
  "keeps_chars w w' \<longleftrightarrow> player w' = player w \<and> level_up_table w' = level_up_table w
     \<and> (\<forall>t. in_war_zone t w' = in_war_zone t w)"

lemma keeps_chars_refl [simp]: "keeps_chars w w"
  and keeps_chars_trans: "keeps_chars a b \<Longrightarrow> keeps_chars b c \<Longrightarrow> keeps_chars a c"
  by (simp_all add: keeps_chars_def)

lemma keeps_send [simp]: "keeps_chars w (send_to_session s p w)"
  by (auto simp: keeps_chars_def player_def fun_eq_iff send_to_session_def get_character_info_def in_war_zone_def
      get_zone_id_def with_session_def split: option.split)

lemma keeps_fold: "(\<And>x w. keeps_chars w (f x w)) \<Longrightarrow> keeps_chars w (fold f xs w)"
proof (induction xs arbitrary: w)
  case (Cons x xs)
  then show ?case using keeps_chars_trans [OF Cons.prems [of w x] Cons.IH] by simp
qed simp

lemma keeps_broadcast: "keeps_chars w (broadcast_to_3x3 z rx rz p ex room w)"
  by (auto simp: broadcast_to_3x3_def intro!: keeps_fold split: option.split)

lemma keeps_party: "keeps_chars w (send_to_party pid p w)"
  by (auto simp: send_to_party_def intro!: keeps_fold split: option.split)

lemma keeps_announce: "keeps_chars w (announce_level e s ch w)"
proof -
  have "keeps_chars w (case wsessions w s of None \<Rightarrow> w | Some h \<Rightarrow> broadcast_to_3x3 (z h) (x h) (y h) pkt None (r h) w)" for z x y r pkt
    using keeps_broadcast by (simp split: option.split)
  moreover have "keeps_chars v (case party_id ch of None \<Rightarrow> v | Some p \<Rightarrow> send_to_party p pkt v)" for v pkt
    using keeps_party by (simp split: option.split)
  ultimately show ?thesis
    unfolding announce_level_def Let_def by (blast intro: keeps_chars_trans keeps_send)
qed

lemma keeps_quest: "keeps_chars w (accept_skill_quest s w)"
  by (auto simp: accept_skill_quest_def keeps_chars_def player_def fun_eq_iff modify_session_def send_to_session_def
      get_character_info_def in_war_zone_def get_zone_id_def with_session_def split: option.split)

lemma keeps_exp_change: "keeps_chars w (send_exp_change s w)"
  by (simp add: send_exp_change_def split: option.split)

lemma player_update: "player (update_character_stats s f w) t = (if t = s then map_option f (player w s) else player w t)"
  by (auto simp: player_def)

lemma war_zone_update [simp]:
  "in_war_zone t (update_character_stats s f w) = in_war_zone t w"
  "in_war_zone t (set_user_ability e s w) = in_war_zone t w"
proof -
  have "zones (update_character_stats s f w) = zones w" by (simp add: update_character_stats_def)
  moreover have "get_zone_id t (update_character_stats s f w) = get_zone_id t w"
    by (cases "wsessions w s") (auto simp: get_zone_id_def with_session_def update_character_stats_def)
  ultimately show "in_war_zone t (update_character_stats s f w) = in_war_zone t w" by (auto simp: in_war_zone_def split: option.split)
  have "zones (set_user_ability e s w) = zones w" using same_tables_ability [of w e s] by (simp add: same_tables_def)
  moreover have "get_zone_id t (set_user_ability e s w) = get_zone_id t w"
    by (cases "wsessions w s") (auto simp: get_zone_id_def with_session_def set_user_ability_session split: option.split)
  ultimately show "in_war_zone t (set_user_ability e s w) = in_war_zone t w" by (auto simp: in_war_zone_def split: option.split)
qed

lemma table_update [simp]: "level_up_table (update_character_stats s f w) = level_up_table w"
  "level_up_table (set_user_ability e s w) = level_up_table w"
  using same_tables_ability [of w e s]
  by (simp_all add: update_character_stats_def same_tables_def modify_session_def split: option.split)

lemma player_ability:
  "player (set_user_ability e s w) t = (if t = s then map_option (\<lambda>c. c\<lparr>
     max_hp := fst (snd (ability e w s)), max_mp := snd (snd (ability e w s)),
     hp := (if sint (hp c) > sint (fst (snd (ability e w s))) then fst (snd (ability e w s)) else hp c),
     mp := (if sint (mp c) > sint (snd (snd (ability e w s))) then snd (snd (ability e w s)) else mp c)\<rparr>) (player w s)
     else player w t)"
  by (auto simp: player_def get_character_info_def set_user_ability_session split: option.split)
    (auto simp: get_character_info_def split: option.splits bind_splits)

text \<open>What a change of level does to the own character.\<close>

definition level_effect :: "u8 \<Rightarrow> bool \<Rightarrow> i64 \<Rightarrow> character_info \<Rightarrow> character_info" where
  "level_effect lvl up new_max ch =
     (if up then if lvl > saturating_add (level ch) 1 then points_of_jump lvl new_max ch else points_of_level lvl new_max ch
      else ch\<lparr>max_exp := new_max\<rparr>)"

lemma level_change_char:
  assumes ch: "player w s = Some ch" and lvl: "1 \<le> lvl" "ucast lvl \<le> MAX_LEVEL"
  obtains c where "player (level_change e s lvl up w) = (player w)(s \<mapsto> c)"
    "alike (level_effect lvl up (get_exp_by_level lvl 0 w) ch) c" "hp c = max_hp c"
    "level_up_table (level_change e s lvl up w) = level_up_table w"
    "\<And>t. in_war_zone t (level_change e s lvl up w) = in_war_zone t w"
proof -
  let ?max = "get_exp_by_level lvl 0 w"
  define f where "f = (if up then if lvl > saturating_add (level ch) 1 then points_of_jump lvl ?max else points_of_level lvl ?max
    else (\<lambda>c. c\<lparr>max_exp := ?max\<rparr>))"
  let ?w1 = "set_user_ability e s (update_character_stats s f w)"
  let ?w2 = "update_character_stats s (\<lambda>c. c\<lparr>hp := max_hp c, mp := max_mp c\<rparr>) ?w1"
  let ?w3 = "if up \<and> lvl \<ge> 10 then accept_skill_quest s ?w2 else ?w2"
  have f: "f ch = level_effect lvl up ?max ch" by (simp add: level_effect_def f_def)
  obtain c1 where c1: "player ?w1 s = Some c1" "alike (f ch) c1"
    using ch by (simp add: player_update player_ability alike_def)
  define c where "c = c1\<lparr>hp := max_hp c1, mp := max_mp c1\<rparr>"
  have c: "player ?w2 = (player w)(s \<mapsto> c)"
    unfolding fun_eq_iff player_update [of _ _ ?w1] c1(1) by (simp add: c_def player_update player_ability)
  have like: "alike (f ch) c" "hp c = max_hp c"
    using c1(2) by (cases c1; cases "f ch"; simp add: c_def alike_def)+
  have three: "keeps_chars ?w2 ?w3" using keeps_quest by simp
  then have char3: "player ?w3 s = Some c" using c by (simp add: keeps_chars_def)
  have low: "(lvl < 1 \<or> ucast lvl > MAX_LEVEL) = False" using lvl by (auto simp: not_less word_le_nat_alt)
  have "level_change e s lvl up w =
      (case get_character_info s ?w3 of None \<Rightarrow> ?w3 | Some c \<Rightarrow> announce_level e s c ?w3)"
    unfolding level_change_def low if_False ch [unfolded player_def] option.case Let_def f_def by (rule refl)
  then have "level_change e s lvl up w = announce_level e s c ?w3"
    using char3 by (simp only: player_def option.case)
  then have all: "keeps_chars ?w2 (level_change e s lvl up w)"
    using keeps_chars_trans [OF three keeps_announce] by (simp only:)
  have "level_up_table (level_change e s lvl up w) = level_up_table w"
    "\<And>t. in_war_zone t (level_change e s lvl up w) = in_war_zone t w"
    using all by (simp_all add: keeps_chars_def)
  then show thesis using that all c like f by (simp add: keeps_chars_def)
qed

subsection \<open>Losing and gaining\<close>

lemma saturating_next: "(l :: u8) + 1 > saturating_add (l + 1) 1 \<longleftrightarrow> False"
proof -
  have "unat (l + 1) < 256" by (rule unat_u8_less)
  then have "\<not> min (unat (l + 1) + 1) 255 < unat (l + 1)" by linarith
  then show ?thesis by (simp add: word_less_nat_alt unat_saturating_add)
qed

lemma next_level: "ucast (l :: u8) < MAX_LEVEL \<Longrightarrow> unat (l + 1) = Suc (unat l)"
  by (simp add: word_less_nat_alt MAX_LEVEL_def unat_word_ariths(1))

lemma level_up_player:
  assumes ch: "player w s = Some ch" and low: "ucast (level ch) < MAX_LEVEL"
  obtains c where "player (level_change e s (level ch + 1) True
      (update_character_stats s (\<lambda>c. c\<lparr>ch_exp := x, level := level ch + 1\<rparr>) w)) = (player w)(s \<mapsto> c)"
    "alike (points_of_level (level ch + 1) (get_exp_by_level (level ch + 1) 0 w) (ch\<lparr>ch_exp := x, level := level ch + 1\<rparr>)) c"
proof -
  let ?c = "ch\<lparr>ch_exp := x, level := level ch + 1\<rparr>" and ?l = "level ch + 1"
  let ?w = "update_character_stats s (\<lambda>c. c\<lparr>ch_exp := x, level := ?l\<rparr>) w"
  have c: "player ?w = (player w)(s \<mapsto> ?c)" using ch by (auto simp: player_update fun_eq_iff)
  have "unat (level ch) < 83" using low by (simp add: word_less_nat_alt MAX_LEVEL_def)
  then have l: "1 \<le> ?l" "ucast ?l \<le> MAX_LEVEL"
    using next_level [OF low] by (simp_all add: word_le_nat_alt MAX_LEVEL_def)
  have "level_effect ?l True m ?c = points_of_level ?l m ?c" for m
    using saturating_next [of "level ch"] by (simp add: level_effect_def)
  with level_change_char [of ?w s ?c ?l e True, OF _ l] c show thesis
    using that by (auto simp: get_exp_by_level_def)
qed

lemma set_exp_player: "player w s = Some ch \<Longrightarrow> player (set_exp x s w) = (player w)(s \<mapsto> ch\<lparr>ch_exp := x\<rparr>)"
  using keeps_exp_change [of "update_character_stats s (\<lambda>c. c\<lparr>ch_exp := x\<rparr>) w" s]
  by (auto simp: set_exp_def keeps_chars_def player_update fun_eq_iff)

lemma lose_level_player:
  assumes ch: "player w s = Some ch" and up: "1 < level ch"
  defines "lvl \<equiv> level ch - 1"
  obtains c where "player (snd (lose_level e s ch w)) s = Some c" "level c = lvl" "ch_exp c = ucast (get_exp_by_level lvl 0 w)"
    "exp_seal_status c = exp_seal_status ch" "sealed_exp c = sealed_exp ch" "free_points c = free_points ch"
    "skill_points c = skill_points ch" "get_stat_total c = get_stat_total ch"
    "\<And>t. t \<noteq> s \<Longrightarrow> player (snd (lose_level e s ch w)) t = player w t"
    "level_up_table (snd (lose_level e s ch w)) = level_up_table w"
    "\<And>t. in_war_zone t (snd (lose_level e s ch w)) = in_war_zone t w"
    "ucast lvl \<le> MAX_LEVEL \<Longrightarrow> max_exp c = get_exp_by_level lvl 0 w"
proof -
  let ?x = "ucast (get_exp_by_level lvl 0 w)"
  let ?c = "ch\<lparr>ch_exp := ?x, level := lvl\<rparr>"
  let ?w = "update_character_stats s (\<lambda>c. c\<lparr>ch_exp := ?x, level := lvl\<rparr>) w"
  have c: "player ?w = (player w)(s \<mapsto> ?c)" using ch by (auto simp: player_update fun_eq_iff)
  have run: "snd (lose_level e s ch w) = level_change e s lvl False ?w"
    by (simp add: lose_level_def Let_def lvl_def)
  have pos: "1 \<le> lvl" using up using unat_minus_one [of "level ch"] by (cases "level ch = 0") (auto simp: lvl_def word_le_nat_alt word_less_nat_alt)
  show thesis
  proof (cases "ucast lvl \<le> MAX_LEVEL")
    case True
    obtain c' where c': "player (level_change e s lvl False ?w) = (player ?w)(s \<mapsto> c')"
      "alike (level_effect lvl False (get_exp_by_level lvl 0 ?w) ?c) c'" "hp c' = max_hp c'"
      "level_up_table (level_change e s lvl False ?w) = level_up_table ?w"
      "\<And>t. in_war_zone t (level_change e s lvl False ?w) = in_war_zone t ?w"
      using level_change_char [of ?w s ?c lvl e False] c pos True by auto
    have eff: "alike (?c\<lparr>max_exp := get_exp_by_level lvl 0 w\<rparr>) c'"
      using c'(2) by (simp add: level_effect_def get_exp_by_level_def)
    show thesis using that [of c'] c' c run alike_fields [OF eff] by (simp add: get_stat_total_def)
  next
    case False
    then have "level_change e s lvl False ?w = ?w" by (simp add: level_change_def not_le)
    then show thesis using that [of ?c] c run False by (simp add: get_stat_total_def)
  qed
qed

subsection \<open>The change of experience\<close>

definition exp_fuel :: "world \<Rightarrow> sid \<Rightarrow> nat" where
  \<comment> \<open>what bounds the recursion: the level, and whether the seal is on\<close>
  "exp_fuel w s = (case get_character_info s w of None \<Rightarrow> 0 | Some ch \<Rightarrow> 2 * unat (level ch) + of_bool (exp_seal_status ch))"

function exp_change_inner :: "env \<Rightarrow> sid \<Rightarrow> i64 \<Rightarrow> bool \<Rightarrow> world \<Rightarrow> world" where
  "exp_change_inner e s i is_bonus w =
     (case get_character_info s w of
        None \<Rightarrow> w
      | Some ch \<Rightarrow>
          if sint i < 0 \<and> (level ch < 6 \<or> in_war_zone s w) then w
          else if sint (ucast (ch_exp ch) :: i64) < 0 then w
          else
            let i_exp = (if sint i > 0 \<and> \<not> is_bonus then apply_exp_bonuses e s i ch w else i) in
            if exp_seal_status ch \<and> sint i_exp > 0 then
              (case exp_seal_change_exp s (ucast i_exp) w of
                 (True, w1) \<Rightarrow> exp_change_inner e s i_exp False w1
               | (False, w1) \<Rightarrow> w1)
            else
              let new_exp = ucast (ch_exp ch) + i_exp in
              if sint new_exp < 0 then
                if saturating_sub (level ch) 1 < 1 then set_exp 0 s w
                else
                  (case lose_level e s ch w of
                     (diff, w1) \<Rightarrow> if sint diff > 0 then exp_change_inner e s (- diff) False w1 else w1)
              else gain_exp e s ch new_exp w)"
  by pat_completeness auto

lemma level_above_one: "saturating_sub (l :: u8) 1 \<noteq> 0 \<longleftrightarrow> 1 < l"
proof -
  have "saturating_sub l 1 \<noteq> 0 \<longleftrightarrow> unat (saturating_sub l 1) \<noteq> 0" by (simp only: unat_eq_zero)
  also have "\<dots> \<longleftrightarrow> 1 < l" by (auto simp: unat_saturating_sub word_less_nat_alt)
  finally show ?thesis .
qed

lemma lose_level_fuel:
  assumes "get_character_info s w = Some ch" "1 < level ch"
  shows "exp_fuel (snd (lose_level e s ch w)) s + 2 = exp_fuel w s"
proof -
  obtain c where c: "player (snd (lose_level e s ch w)) s = Some c" "level c = level ch - 1"
    "exp_seal_status c = exp_seal_status ch"
    by (rule lose_level_player [of w s ch e]) (use assms in \<open>auto simp: player_def\<close>)
  have "unat (level ch - 1) + 1 = unat (level ch)"
    using assms(2) unat_minus_one [of "level ch"] by (cases "level ch = 0") (auto simp: word_less_nat_alt)
  then show ?thesis using c assms by (simp add: exp_fuel_def player_def)
qed

termination exp_change_inner
proof (relation "measure (\<lambda>(e, s, i, b, w). exp_fuel w s)", goal_cases)
  case (2 e s i b w ch)
  then show ?case by (auto simp: exp_fuel_def exp_seal_change_exp_def Let_def split: if_splits)
next
  case (3 e s i b w ch)
  then show ?case using lose_level_fuel [of s w ch e] by (cases "lose_level e s ch w") (auto simp: level_above_one)
qed simp

declare exp_change_inner.simps [simp del]

lemma exp_change_cases:
  fixes i :: i64 and b :: bool and e :: env
  assumes ch: "get_character_info s w = Some ch"
  defines "early \<equiv> sint i < 0 \<and> (level ch < 6 \<or> in_war_zone s w)"
    and "amount \<equiv> if sint i > 0 \<and> \<not> b then apply_exp_bonuses e s i ch w else i"
  obtains (still) "early \<or> sint (ucast (ch_exp ch) :: i64) < 0" "exp_change_inner e s i b w = w"
  | (sealed) pass w1 where "\<not> early" "\<not> sint (ucast (ch_exp ch) :: i64) < 0" "exp_seal_status ch \<and> sint amount > 0"
      "exp_seal_change_exp s (ucast amount) w = (pass, w1)"
      "exp_change_inner e s i b w = (if pass then exp_change_inner e s amount False w1 else w1)"
  | (floor) "\<not> early" "\<not> sint (ucast (ch_exp ch) :: i64) < 0" "\<not> (exp_seal_status ch \<and> sint amount > 0)"
      "sint (ucast (ch_exp ch) + amount) < 0" "level ch \<le> 1" "exp_change_inner e s i b w = set_exp 0 s w"
  | (fell) d w1 where "\<not> early" "\<not> sint (ucast (ch_exp ch) :: i64) < 0" "\<not> (exp_seal_status ch \<and> sint amount > 0)"
      "sint (ucast (ch_exp ch) + amount) < 0" "\<not> saturating_sub (level ch) 1 < 1" "1 < level ch"
      "lose_level e s ch w = (d, w1)"
      "exp_change_inner e s i b w = (if sint d > 0 then exp_change_inner e s (- d) False w1 else w1)"
  | (rose) "\<not> early" "\<not> sint (ucast (ch_exp ch) :: i64) < 0" "\<not> (exp_seal_status ch \<and> sint amount > 0)"
      "\<not> sint (ucast (ch_exp ch) + amount) < 0"
      "exp_change_inner e s i b w = gain_exp e s ch (ucast (ch_exp ch) + amount) w"
proof -
  let ?new = "ucast (ch_exp ch) + amount"
  have unfold: "exp_change_inner e s i b w =
    (if early then w else if sint (ucast (ch_exp ch) :: i64) < 0 then w
     else if exp_seal_status ch \<and> sint amount > 0
       then (case exp_seal_change_exp s (ucast amount) w of (True, w1) \<Rightarrow> exp_change_inner e s amount False w1 | (False, w1) \<Rightarrow> w1)
     else if sint ?new < 0 then if saturating_sub (level ch) 1 < 1 then set_exp 0 s w
       else (case lose_level e s ch w of (diff, w1) \<Rightarrow> if sint diff > 0 then exp_change_inner e s (- diff) False w1 else w1)
     else gain_exp e s ch ?new w)"
    unfolding exp_change_inner.simps [of e s i b w] ch option.case early_def amount_def Let_def by (rule refl)
  consider "early \<or> sint (ucast (ch_exp ch) :: i64) < 0"
    | "\<not> early" "\<not> sint (ucast (ch_exp ch) :: i64) < 0" "exp_seal_status ch \<and> sint amount > 0"
    | "\<not> early" "\<not> sint (ucast (ch_exp ch) :: i64) < 0" "\<not> (exp_seal_status ch \<and> sint amount > 0)" "sint ?new < 0"
    | "\<not> early" "\<not> sint (ucast (ch_exp ch) :: i64) < 0" "\<not> (exp_seal_status ch \<and> sint amount > 0)" "\<not> sint ?new < 0" by blast
  then show thesis
  proof cases
    case 1
    then have "exp_change_inner e s i b w = w" unfolding unfold by auto
    then show thesis using still 1 by blast
  next
    case 2
    obtain pass w1 where r: "exp_seal_change_exp s (ucast amount) w = (pass, w1)" by fastforce
    have "exp_change_inner e s i b w = (if pass then exp_change_inner e s amount False w1 else w1)"
      unfolding unfold if_not_P [OF 2(1)] if_not_P [OF 2(2)] if_P [OF 2(3)] r by (cases pass) simp_all
    then show thesis using sealed 2 r by blast
  next
    case 3
    note run = unfold [unfolded if_not_P [OF 3(1)] if_not_P [OF 3(2)] if_not_P [OF 3(3)] if_P [OF 3(4)]]
    obtain d w1 where r: "lose_level e s ch w = (d, w1)" by fastforce
    show thesis
    proof (cases "saturating_sub (level ch) 1 < 1")
      case True
      then have "level ch \<le> 1" using level_above_one [of "level ch"] by (auto simp: not_less)
      then show thesis using floor 3 run True by simp
    next
      case False
      then have "1 < level ch" using level_above_one [of "level ch"] by auto
      moreover have "exp_change_inner e s i b w = (if sint d > 0 then exp_change_inner e s (- d) False w1 else w1)"
        using run False by (simp add: r)
      ultimately show thesis using fell [OF 3 False _ r] by blast
    qed
  next
    case 4
    then have "exp_change_inner e s i b w = gain_exp e s ch ?new w"
      unfolding unfold by (simp only: if_False if_not_P simp_thms)
    then show thesis using rose 4 by blast
  qed
qed

definition exp_change :: "env \<Rightarrow> sid \<Rightarrow> i64 \<Rightarrow> world \<Rightarrow> world" where
  "exp_change e s i w = exp_change_inner e s i False w"

definition exp_change_with_bonus :: "env \<Rightarrow> sid \<Rightarrow> i64 \<Rightarrow> bool \<Rightarrow> world \<Rightarrow> world" where
  "exp_change_with_bonus e s i is_bonus w = exp_change_inner e s i is_bonus w"

end
