(* ===== verification/Stat_Points.thy ===== *)
theory Stat_Points
  imports Experience
begin

text \<open>
  Spending points: the handlers of \<^verbatim>\<open>WIZ_POINT_CHANGE\<close> and \<^verbatim>\<open>WIZ_SKILLPT_CHANGE\<close>
  (\<^verbatim>\<open>crates/ko-game/src/handler/stats.rs\<close>, lines 28 to 260), with the packet that refreshes the client's panel
  (\<^verbatim>\<open>send_item_move_refresh\<close>, \<^verbatim>\<open>handler/durability.rs\<close>, lines 252 to 361), and the handler of
  \<^verbatim>\<open>WIZ_EXP_SEAL\<close> (\<^verbatim>\<open>handler/exp_seal.rs\<close>, lines 31 to 239). The answer is \<open>False\<close> when
  sending to the own client failed. The database writes are left out.
\<close>

subsection \<open>The client's panel\<close>

definition sum_over :: "(active_buff \<Rightarrow> i32 option) \<Rightarrow> session_handle \<Rightarrow> i32" where
  \<comment> \<open>a plain sum over the buffs that count\<close>
  "sum_over f h = fold (\<lambda>b a. case f b of None \<Rightarrow> a | Some x \<Rightarrow> a + x) (buffs h) 0"

definition saturating_over :: "(active_buff \<Rightarrow> i32 option) \<Rightarrow> session_handle \<Rightarrow> i32" where
  "saturating_over f h = fold (\<lambda>b a. case f b of None \<Rightarrow> a | Some x \<Rightarrow> saturating_add_i32 a x) (buffs h) 0"

definition buffed_res :: "session_handle \<Rightarrow> nat \<Rightarrow> i16 \<Rightarrow> u16" where
  \<comment> \<open>\<open>compute_res\<close>\<close>
  "buffed_res h k base =
     (let add = saturating_over (\<lambda>b. Some (buff_resists b ! k)) h;
          pct = ucast (pct_resists h ! k) :: i32;
          v = (scast base + add + scast (resistance_bonus (equipped h))) * pct in
      ucast (word_of_int (max 0 (sint v sdiv 100)) :: i32))"

definition move_refresh_packet :: "session_handle \<Rightarrow> character_info \<Rightarrow> packet" where
  "move_refresh_packet h ch =
     (let st = equipped h;
          attack_amount = word_of_int (max 1 (sint (100 + sum_over (\<lambda>b. if buff_type b \<noteq> 19 \<and> buff_attack b \<noteq> 0
            then Some (buff_attack b - 100) else None) h))) :: i32;
          ac_amount = saturating_over (\<lambda>b. if buff_type b \<noteq> 14 then Some (buff_ac b) else None) h;
          ac_pct = 100 + sum_over (\<lambda>b. if buff_ac_pct b \<noteq> 0 \<and> buff_type b \<noteq> 14 then Some (buff_ac_pct b - 100) else None) h;
          ac_sour = saturating_over (\<lambda>b. Some (buff_ac_sour b)) h;
          ac_part = word_of_int (sint ((scast (total_ac st) :: i32) * ac_pct) sdiv 100) :: i32;
          ac = ucast (word_of_int (max 0 (sint (ac_part + ac_amount - ac_sour))) :: i32) :: u16;
          hit = ucast ((ucast (total_hit st) :: u32) * ucast attack_amount div 100) :: u16;
          p = write_u16 ac (write_u16 hit (write_u8 2 (write_u8 1 (packet_new (as_u8 WizItemMove)))));
          p1 = write_u8 0 (write_u8 0 (write_u32 (max_weight st) p));
          p2 = fold write_i16 (take 5 (stat_bonuses st)) (write_u16 (ucast (max_mp ch)) (write_u16 (ucast (max_hp ch)) p1)) in
      write_u16 (buffed_res h 5 (poison_r st)) (write_u16 (buffed_res h 4 (disease_r st))
        (write_u16 (buffed_res h 3 (magic_r st)) (write_u16 (buffed_res h 2 (lightning_r st))
          (write_u16 (buffed_res h 1 (cold_r st)) (write_u16 (buffed_res h 0 (fire_r st)) p2))))))"

definition send_item_move_refresh :: "sid \<Rightarrow> world \<Rightarrow> world" where
  "send_item_move_refresh s w =
     (case wsessions w s of
        None \<Rightarrow> w
      | Some h \<Rightarrow>
          (case character h of
             None \<Rightarrow> w
           | Some ch \<Rightarrow> send_to_session s (move_refresh_packet h ch) w))"

subsection \<open>Statistics\<close>

definition STAT_MAX :: u8 where "STAT_MAX = 255"
definition SKILLPT_CAT1 :: u8 where "SKILLPT_CAT1 = 5"
definition SKILLPT_MASTER :: u8 where "SKILLPT_MASTER = 8"

definition get_stat_by_type :: "character_info \<Rightarrow> u8 \<Rightarrow> u8" where
  "get_stat_by_type ch t =
     (if t = 1 then ch_str ch else if t = 2 then ch_sta ch else if t = 3 then ch_dex ch
      else if t = 4 then ch_intel ch else if t = 5 then ch_cha ch else 0)"

definition set_stat_by_type :: "u8 \<Rightarrow> u8 \<Rightarrow> character_info \<Rightarrow> character_info" where
  "set_stat_by_type t v ch =
     (if t = 1 then ch\<lparr>ch_str := v\<rparr> else if t = 2 then ch\<lparr>ch_sta := v\<rparr> else if t = 3 then ch\<lparr>ch_dex := v\<rparr>
      else if t = 4 then ch\<lparr>ch_intel := v\<rparr> else if t = 5 then ch\<lparr>ch_cha := v\<rparr> else ch)"

definition spend_stat :: "u8 \<Rightarrow> u8 \<Rightarrow> character_info \<Rightarrow> character_info" where
  "spend_stat t v ch = (let c = set_stat_by_type t v ch in c\<lparr>free_points := free_points c - 1\<rparr>)"

definition handle_point_change :: "env \<Rightarrow> session_state \<Rightarrow> sid \<Rightarrow> packet \<Rightarrow> world \<Rightarrow> bool \<times> world" where
  "handle_point_change e st s pkt w =
     (if st \<noteq> InGame \<or> is_player_dead s w then (True, w)
      else
        let t = unwrap_or 0 (fst (read_u8 (reader_new (pdata pkt)))) in
        if \<not> (1 \<le> t \<and> t \<le> 5) then (True, w)
        else case get_character_info s w of
          None \<Rightarrow> (True, w)
        | Some ch \<Rightarrow>
            if free_points ch < 1 \<or> get_stat_by_type ch t = STAT_MAX then (True, w)
            else
              let v = get_stat_by_type ch t + 1;
                  w1 = set_user_ability e s (update_character_stats s (spend_stat t v) w) in
              case get_character_info s w1 of
                None \<Rightarrow> (True, w1)
              | Some c \<Rightarrow>
                  let p = write_u16 (ucast v) (write_u8 t (packet_new (as_u8 WizPointChange)));
                      p1 = write_u16 (ucast (max_mp c)) (write_u16 (ucast (hp c)) (write_u16 (ucast (max_hp c)) p));
                      (ok, w2) = session_send s (write_u32 (max_weight (get_equipped_stats s w1)) p1) w1 in
                  if \<not> ok then (False, w2) else (True, send_item_move_refresh s w2))"

subsection \<open>Skills\<close>

definition send_skillpt_fail :: "sid \<Rightarrow> u8 \<Rightarrow> character_info \<Rightarrow> world \<Rightarrow> bool \<times> world" where
  "send_skillpt_fail s t ch w =
     (let current = (case slice_get (skill_points ch) (unat t) of None \<Rightarrow> 0 | Some v \<Rightarrow> v) in
      session_send s (write_u8 current (write_u8 t (packet_new (as_u8 WizSkillptChange)))) w)"

definition master_refused :: "character_info \<Rightarrow> bool" where
  \<comment> \<open>the extra constraints of the master category\<close>
  "master_refused ch =
     (\<not> List.member [6, 8, 10, 12, 15] (ch_class ch mod 100)
      \<or> skill_points ch ! 8 \<ge> saturating_sub 83 60 \<or> skill_points ch ! 8 \<ge> saturating_sub (level ch) 60)"

definition skill_refused :: "character_info \<Rightarrow> u8 \<Rightarrow> bool" where
  "skill_refused ch t =
     (\<not> (SKILLPT_CAT1 \<le> t \<and> t \<le> SKILLPT_MASTER) \<or> skill_points ch ! 0 < 1
      \<or> unat t \<ge> length (skill_points ch)
      \<or> (ucast (skill_points ch ! unat t) :: u16) + 1 > ucast (level ch)
      \<or> ch_class ch mod 100 \<le> 4
      \<or> t = SKILLPT_MASTER \<and> master_refused ch)"

definition spend_skill :: "u8 \<Rightarrow> character_info \<Rightarrow> character_info" where
  "spend_skill t ch =
     (let xs = (skill_points ch)[0 := saturating_sub (skill_points ch ! 0) 1] in
      ch\<lparr>skill_points := xs[unat t := saturating_add (xs ! unat t) 1]\<rparr>)"

definition handle_skillpt_change :: "env \<Rightarrow> session_state \<Rightarrow> sid \<Rightarrow> packet \<Rightarrow> world \<Rightarrow> bool \<times> world" where
  "handle_skillpt_change e st s pkt w =
     (if st \<noteq> InGame \<or> is_player_dead s w then (True, w)
      else
        let t = unwrap_or 0 (fst (read_u8 (reader_new (pdata pkt)))) in
        case get_character_info s w of
          None \<Rightarrow> (True, w)
        | Some ch \<Rightarrow>
            if skill_refused ch t then send_skillpt_fail s t ch w
            else (True, set_user_ability e s (update_character_stats s (spend_skill t) w)))"

subsection \<open>The experience seal\<close>

definition SEALED_JAR :: u32 where "SEALED_JAR = 810354000"
definition SEALED_JAR_100M :: u32 where "SEALED_JAR_100M = 810357000"
definition SEALED_JAR_500M :: u32 where "SEALED_JAR_500M = 810355000"
definition SEALED_JAR_1B :: u32 where "SEALED_JAR_1B = 810356000"

definition exp_seal_update_status :: "sid \<Rightarrow> bool \<Rightarrow> world \<Rightarrow> bool \<times> world" where
  "exp_seal_update_status s enable w =
     session_send s (write_u8 1 (write_u8 (if enable then 1 else 2) (packet_new (as_u8 WizExpSeal))))
       (update_character_stats s (\<lambda>c. c\<lparr>exp_seal_status := enable\<rparr>) w)"

definition send_potion_fail :: "sid \<Rightarrow> world \<Rightarrow> bool \<times> world" where
  "send_potion_fail s w = session_send s (write_u8 3 (packet_new (as_u8 WizExpSeal))) w"

definition jar_for :: "u64 \<Rightarrow> u32 option" where
  "jar_for x = (if x = 100000000 then Some SEALED_JAR_100M else if x = 500000000 then Some SEALED_JAR_500M
     else if x = 1000000000 then Some SEALED_JAR_1B else None)"

definition fillable :: "sid \<Rightarrow> u32 \<Rightarrow> u8 \<Rightarrow> u64 \<Rightarrow> world \<Rightarrow> u32 option" where
  \<comment> \<open>the guards of \<open>exp_seal_sealed_potion\<close>: the jar to give\<close>
  "fillable s jar pos x w =
     (if jar \<noteq> SEALED_JAR then None
      else if (case slice_get (bag_of s w) (SLOT_MAX + unat pos) of None \<Rightarrow> True | Some sl \<Rightarrow> item_id sl \<noteq> SEALED_JAR)
      then None
      else if x > ucast (case get_character_info s w of None \<Rightarrow> 0 | Some ch \<Rightarrow> sealed_exp ch) then None
      else case jar_for x of
        None \<Rightarrow> None
      | Some j \<Rightarrow> if get_item j w = None then None else Some j)"

definition exp_seal_sealed_potion :: "env \<Rightarrow> sid \<Rightarrow> reader \<Rightarrow> world \<Rightarrow> bool \<times> world" where
  "exp_seal_sealed_potion e s rd w =
     (let (j, rd1) = read_u32 rd; (p, rd2) = read_u8 rd1; (x, _) = read_u64 rd2;
          pos = unwrap_or 0 p; sealed = unwrap_or 0 x in
      case fillable s (unwrap_or 0 j) pos sealed w of
        None \<Rightarrow> send_potion_fail s w
      | Some jar \<Rightarrow>
          let w1 = snd (update_inventory s False (\<lambda>xs. (True, xs[SLOT_MAX + unat pos := empty_slot])) w);
              (gave, w2) = give_item e s jar 1 w1 in
          if \<not> gave then send_potion_fail s w2
          else
            let w3 = send_sealed_exp_update s (update_character_stats s
                       (\<lambda>c. c\<lparr>sealed_exp := saturating_sub (sealed_exp c) (ucast sealed)\<rparr>) w2);
                new_pos = (case find (\<lambda>k. item_id (bag_of s w3 ! k) = jar) [SLOT_MAX ..< length (bag_of s w3)] of
                             None \<Rightarrow> 0 | Some k \<Rightarrow> of_nat (k - SLOT_MAX)) :: u8 in
            session_send s (write_u32 0 (write_u32 (ucast sealed) (write_u8 new_pos (write_u32 jar
              (write_u8 3 (packet_new (as_u8 WizExpSeal))))))) w3)"

definition handle_exp_seal :: "env \<Rightarrow> session_state \<Rightarrow> sid \<Rightarrow> packet \<Rightarrow> world \<Rightarrow> bool \<times> world" where
  "handle_exp_seal e st s pkt w =
     (if st \<noteq> InGame \<or> is_player_dead s w then (True, w)
      else
        let (r, rd) = read_u8 (reader_new (pdata pkt)); sub = unwrap_or 0 r in
        if sub = 1 then exp_seal_update_status s True w
        else if sub = 2 then exp_seal_update_status s False w
        else if sub = 3 then exp_seal_sealed_potion e s rd w
        else (True, w))"

end
