(* ===== verification/Growth.thy ===== *)
theory Growth
  imports Stat_Points Trade_State
begin

text \<open>
  The abstract machine behind levels and statistics: a player spends points, rises by a level and may fall by one.
  \<open>g_peak\<close> is the highest level reached, which the code does not keep. The invariant \<open>growth_inv\<close> says that the
  free points and the statistics together are what that level gives. Every operation on experience and points is a
  sequence of these steps (\<open>growth_op_refines\<close>).
\<close>

subsection \<open>The machine\<close>

record growth =
  g_level :: nat
  g_peak :: nat
  g_free :: nat
  g_spent :: nat

definition points :: "nat \<Rightarrow> nat" where
  \<comment> \<open>\<open>expected_stat_total\<close> in natural numbers\<close>
  "points l = 297 + 3 * l + 2 * (l - 60)"

inductive grows :: "growth \<Rightarrow> growth \<Rightarrow> bool" where
  spend: "0 < g_free g \<Longrightarrow> grows g (g\<lparr>g_free := g_free g - 1, g_spent := g_spent g + 1\<rparr>)"
| rise: "g_level g < 83 \<Longrightarrow> grows g (g\<lparr>g_level := Suc (g_level g), g_peak := max (g_peak g) (Suc (g_level g)),
    g_free := g_free g + (if g_free g + g_spent g < points (Suc (g_level g)) then if g_level g < 60 then 3 else 5 else 0)\<rparr>)"
| fall: "1 < g_level g \<Longrightarrow> grows g (g\<lparr>g_level := g_level g - 1\<rparr>)"

inductive_cases growsE: "grows g g'"

definition growth_inv :: "growth \<Rightarrow> bool" where
  "growth_inv g \<longleftrightarrow> 1 \<le> g_level g \<and> g_level g \<le> g_peak g \<and> g_peak g \<le> 83 \<and> g_free g + g_spent g = points (g_peak g)"

lemma points_mono: "k < l \<Longrightarrow> points k < points l"
  by (simp add: points_def)

lemma points_Suc: "points (Suc l) = points l + (if l < 60 then 3 else 5)"
  by (auto simp: points_def)

lemma grows_inv: "grows g g' \<Longrightarrow> growth_inv g \<Longrightarrow> growth_inv g'"
proof (induction rule: grows.induct)
  case (rise g)
  consider "Suc (g_level g) \<le> g_peak g" | "g_level g = g_peak g" using rise by (fastforce simp: growth_inv_def)
  then show ?case
  proof cases
    case 1
    have "points (Suc (g_level g)) \<le> points (g_peak g)"
      using 1 points_mono [of "Suc (g_level g)" "g_peak g"] by (cases "Suc (g_level g) = g_peak g") auto
    then show ?thesis using rise 1 by (auto simp: growth_inv_def)
  next
    case 2
    then show ?thesis using rise points_Suc [of "g_level g"] by (auto simp: growth_inv_def)
  qed
qed (auto simp: growth_inv_def)

lemma grows_steps_inv: "grows\<^sup>*\<^sup>* g g' \<Longrightarrow> growth_inv g \<Longrightarrow> growth_inv g'"
  by (induction rule: rtranclp_induct) (auto intro: grows_inv)

lemma grows_peak: "grows\<^sup>*\<^sup>* g g' \<Longrightarrow> g_peak g \<le> g_peak g'"
  by (induction rule: rtranclp_induct) (auto elim!: growsE)

subsection \<open>The view of a character\<close>

definition growth_of :: "nat \<Rightarrow> character_info \<Rightarrow> growth" where
  "growth_of p ch = \<lparr>g_level = unat (level ch), g_peak = p, g_free = unat (free_points ch), g_spent = unat (get_stat_total ch)\<rparr>"

lemma growth_of_sel [simp]:
  "g_level (growth_of p ch) = unat (level ch)" "g_peak (growth_of p ch) = p"
  "g_free (growth_of p ch) = unat (free_points ch)" "g_spent (growth_of p ch) = unat (get_stat_total ch)"
  by (simp_all add: growth_of_def)

lemma growth_of_alike: "alike c c' \<Longrightarrow> growth_of p c' = growth_of p c"
  by (simp add: growth_of_def alike_fields)

definition grown :: "character_info \<Rightarrow> bool" where
  \<comment> \<open>some level explains the points\<close>
  "grown ch \<longleftrightarrow> (\<exists>p. growth_inv (growth_of p ch))"

definition develops :: "character_info \<Rightarrow> character_info \<Rightarrow> bool" where
  \<comment> \<open>steps of the machine lead from one character to the other\<close>
  "develops c c' \<longleftrightarrow> (\<forall>p. growth_inv (growth_of p c) \<longrightarrow> (\<exists>p'. grows\<^sup>*\<^sup>* (growth_of p c) (growth_of p' c')))"

lemma develops_alike: "alike c c' \<Longrightarrow> develops c c'"
  unfolding develops_def by (metis growth_of_alike rtranclp.rtrancl_refl)

lemma develops_refl [simp]: "develops c c"
  by (simp add: develops_alike)

lemma develops_trans: "develops a b \<Longrightarrow> develops b c \<Longrightarrow> develops a c"
  unfolding develops_def by (meson grows_steps_inv rtranclp_trans)

lemma developsI:
  assumes "\<And>p. growth_inv (growth_of p c) \<Longrightarrow> grows (growth_of p c) (growth_of (p' p) c')"
  shows "develops c c'"
  using assms unfolding develops_def by blast

lemma develops_grown: "develops c c' \<Longrightarrow> grown c \<Longrightarrow> grown c'"
  unfolding develops_def grown_def using grows_steps_inv by blast

definition all_develop :: "world \<Rightarrow> world \<Rightarrow> bool" where
  "all_develop w w' \<longleftrightarrow> (\<forall>t. rel_option develops (player w t) (player w' t))"

lemma all_develop_refl [simp]: "all_develop w w"
  by (simp add: all_develop_def option.rel_refl)

lemma all_develop_trans: "all_develop w w1 \<Longrightarrow> all_develop w1 w2 \<Longrightarrow> all_develop w w2"
  unfolding all_develop_def by (metis option.rel_transp [OF transpI] develops_trans transpD)

lemma all_develop_same: "player w' = player w \<Longrightarrow> all_develop w w'"
  by (simp add: all_develop_def option.rel_refl)

lemma all_develop_keeps: "keeps_chars w w' \<Longrightarrow> all_develop w w'"
  by (simp add: all_develop_same keeps_chars_def)

lemma all_develop_send [simp]: "all_develop w (send_to_session s p w)"
  by (intro all_develop_keeps keeps_send)

lemma all_develop_ability [simp]: "all_develop w (set_user_ability e s w)"
  unfolding all_develop_def
  by (auto simp: player_ability option.rel_map intro!: option.rel_refl_strong develops_alike simp: alike_def)

lemma all_develop_update: "(\<And>c. player w s = Some c \<Longrightarrow> develops c (f c)) \<Longrightarrow> all_develop w (update_character_stats s f w)"
  unfolding all_develop_def
  by (auto simp: player_update option.rel_map option.rel_refl intro!: option.rel_refl_strong)

subsection \<open>Points and levels\<close>

lemma develops_same: "level c' = level c \<Longrightarrow> free_points c' = free_points c \<Longrightarrow> get_stat_total c' = get_stat_total c
    \<Longrightarrow> develops c c'"
  unfolding develops_def growth_of_def by auto

lemma unat_stat_total: "unat (get_stat_total ch) =
    unat (ch_str ch) + unat (ch_sta ch) + unat (ch_dex ch) + unat (ch_intel ch) + unat (ch_cha ch)"
proof -
  have "unat (ch_str ch) + unat (ch_sta ch) + unat (ch_dex ch) + unat (ch_intel ch) + unat (ch_cha ch) < 65536"
    using unat_u8_less [of "ch_str ch"] unat_u8_less [of "ch_sta ch"] unat_u8_less [of "ch_dex ch"]
      unat_u8_less [of "ch_intel ch"] unat_u8_less [of "ch_cha ch"] by linarith
  then show ?thesis by (simp add: get_stat_total_def unat_word_ariths(1) mod_simps)
qed

lemma growth_bound: "growth_inv (growth_of p ch) \<Longrightarrow> unat (free_points ch) + unat (get_stat_total ch) \<le> 592"
  by (auto simp: growth_inv_def points_def)

lemma unat_level_bound: "growth_inv (growth_of p ch) \<Longrightarrow> unat (level ch) \<le> 83"
  by (simp add: growth_inv_def)

lemma expected_points:
  fixes lvl :: u8
  assumes "1 \<le> unat lvl" "unat lvl \<le> 83"
  defines "after60 \<equiv> (if lvl > 60 then ucast lvl - 60 else 0) :: u16"
  shows "unat (297 + 3 * ucast lvl + 2 * after60) = points (unat lvl)"
proof -
  have "unat after60 = unat lvl - 60"
    by (auto simp: after60_def word_less_nat_alt unat_sub word_le_nat_alt unat_widen)
  then show ?thesis using assms(1,2) by (simp add: points_def unat_word_ariths(1,2) unat_widen)
qed

lemma develops_level_up:
  assumes low: "ucast (level ch) < MAX_LEVEL"
  shows "develops ch (points_of_level (level ch + 1) m (ch\<lparr>ch_exp := x, level := level ch + 1\<rparr>))"
proof (rule developsI)
  fix p assume inv: "growth_inv (growth_of p ch)"
  let ?l = "level ch + 1"
  let ?c = "points_of_level ?l m (ch\<lparr>ch_exp := x, level := ?l\<rparr>)"
  let ?after = "(if ?l > 60 then ucast ?l - 60 else 0) :: u16"
  have lt: "unat (level ch) < 83" using low by (simp add: word_less_nat_alt MAX_LEVEL_def unat_widen)
  then have l: "unat ?l = Suc (unat (level ch))" by (simp add: unat_word_ariths(1))
  have sum: "unat (free_points ch + get_stat_total ch) = unat (free_points ch) + unat (get_stat_total ch)"
    using growth_bound [OF inv] by (simp add: unat_word_ariths(1))
  have e: "unat (297 + 3 * ucast ?l + 2 * ?after) = points (Suc (unat (level ch)))"
    using expected_points [of ?l] lt by (simp add: l)
  have more: "unat (free_points ch + n) = unat (free_points ch) + unat n" if "unat n \<le> 5" for n
    using growth_bound [OF inv] that by (simp add: unat_word_ariths(1))
  have after: "?after = 0 \<longleftrightarrow> unat (level ch) < 60"
    using l lt by (auto simp: word_less_nat_alt unat_sub word_le_nat_alt unat_widen simp flip: unat_eq_zero)
  have tot: "get_stat_total (c\<lparr>free_points := f\<rparr>) = get_stat_total c" "get_stat_total (c\<lparr>skill_points := k\<rparr>) = get_stat_total c"
    "get_stat_total (c\<lparr>max_exp := k2\<rparr>) = get_stat_total c" "get_stat_total (c\<lparr>ch_exp := y, level := v\<rparr>) = get_stat_total c" for c f k k2 y v
    by (simp_all add: get_stat_total_def)
  have free: "free_points ?c = (if free_points ch + get_stat_total ch < 297 + 3 * ucast ?l + 2 * ?after
      then free_points ch + (if ?after = 0 then 3 else 5) else free_points ch)"
    and rest: "get_stat_total ?c = get_stat_total ch" "level ?c = ?l"
    unfolding points_of_level_def Let_def by (simp_all add: tot)
  have "unat (free_points ?c) = unat (free_points ch) + (if unat (free_points ch) + unat (get_stat_total ch) < points (Suc (unat (level ch)))
      then if unat (level ch) < 60 then 3 else 5 else 0)"
    unfolding free word_less_nat_alt [of "free_points ch + _"] sum e after using more [of 3] more [of 5] by simp
  then have "growth_of (max p (Suc (unat (level ch)))) ?c = (growth_of p ch)\<lparr>g_level := Suc (g_level (growth_of p ch)),
      g_peak := max (g_peak (growth_of p ch)) (Suc (g_level (growth_of p ch))),
      g_free := g_free (growth_of p ch) + (if g_free (growth_of p ch) + g_spent (growth_of p ch) < points (Suc (g_level (growth_of p ch)))
        then if g_level (growth_of p ch) < 60 then 3 else 5 else 0)\<rparr>"
    using rest l by (simp add: growth_of_def)
  then show "grows (growth_of p ch) (growth_of (max p (Suc (unat (level ch)))) ?c)"
    using grows.rise [of "growth_of p ch"] lt by simp
qed

lemma develops_level_down:
  assumes "1 < level ch"
  shows "develops ch (ch\<lparr>ch_exp := x, level := level ch - 1\<rparr>)"
proof (rule developsI)
  fix p
  have "unat (level ch - 1) = unat (level ch) - 1"
    using assms unat_minus_one [of "level ch"] by (cases "level ch = 0") auto
  then have "growth_of p (ch\<lparr>ch_exp := x, level := level ch - 1\<rparr>) = (growth_of p ch)\<lparr>g_level := g_level (growth_of p ch) - 1\<rparr>"
    by (simp add: growth_of_def get_stat_total_def)
  then show "grows (growth_of p ch) (growth_of p (ch\<lparr>ch_exp := x, level := level ch - 1\<rparr>))"
    using grows.fall [of "growth_of p ch"] assms by (simp add: word_less_nat_alt)
qed

lemma develops_spend:
  assumes t: "1 \<le> t" "t \<le> 5" and free: "\<not> free_points ch < 1" and v: "get_stat_by_type ch t \<noteq> STAT_MAX"
  shows "develops ch (spend_stat t (get_stat_by_type ch t + 1) ch)"
proof (rule developsI)
  fix p assume inv: "growth_inv (growth_of p ch)"
  let ?v = "get_stat_by_type ch t" and ?c = "spend_stat t (get_stat_by_type ch t + 1) ch"
  have v1: "unat (?v + 1) = unat ?v + 1"
    using v unat_word_ariths(1) [of ?v 1] unat_u8_less [of ?v] by (auto simp: STAT_MAX_def word_unat_eq_iff)
  have five: "t = 1 \<or> t = 2 \<or> t = 3 \<or> t = 4 \<or> t = 5"
    using t by (auto simp: word_le_nat_alt word_unat_eq_iff)
  have "unat (get_stat_total ?c) = unat (get_stat_total ch) + 1"
    using five v1 by (elim disjE) (simp_all add: unat_stat_total spend_stat_def set_stat_by_type_def get_stat_by_type_def Let_def)
  moreover have "unat (free_points ?c) = unat (free_points ch) - 1" "0 < unat (free_points ch)" "level ?c = level ch"
    using free five unat_minus_one [of "free_points ch"]
    by (auto simp: spend_stat_def set_stat_by_type_def Let_def unat_gt_0)
  ultimately have "growth_of p ?c = (growth_of p ch)\<lparr>g_free := g_free (growth_of p ch) - 1, g_spent := g_spent (growth_of p ch) + 1\<rparr>"
    "0 < g_free (growth_of p ch)"
    by (simp_all add: growth_of_def)
  then show "grows (growth_of p ch) (growth_of p ?c)" using grows.spend [of "growth_of p ch"] by simp
qed

end
