(* ===== verification/Growth_Safe.thy ===== *)
theory Growth_Safe
  imports Growth
begin

text \<open>
  Every operation on experience and points is a sequence of steps of the machine of theory \<open>Growth\<close>, for the player who
  performs it and for everybody else (\<open>all_develop\<close>).
\<close>

lemma all_develop_player:
  "player w s = Some c \<Longrightarrow> player w' = (player w)(s \<mapsto> c') \<Longrightarrow> develops c c' \<Longrightarrow> all_develop w w'"
  by (simp add: all_develop_def option.rel_refl)

subsection \<open>Experience\<close>

lemma all_develop_set_exp: "all_develop w (set_exp x s w)"
  unfolding set_exp_def
  by (rule all_develop_trans [OF all_develop_update all_develop_keeps [OF keeps_exp_change]])
    (simp add: develops_same get_stat_total_def)

lemma all_develop_sealed: "all_develop w (snd (exp_seal_change_exp s a w))"
proof -
  have u: "all_develop w (update_character_stats s (\<lambda>c. c\<lparr>exp_seal_status := False\<rparr>) w)"
    "all_develop w (update_character_stats s (\<lambda>c. c\<lparr>sealed_exp := x\<rparr>) w)" for x
    by (auto intro!: all_develop_update simp: develops_same get_stat_total_def)
  have rest: "all_develop w (send_to_session s p (send_to_session s q (update_character_stats s (\<lambda>c. c\<lparr>sealed_exp := x\<rparr>) w)))" for p q x
    by (rule all_develop_trans [OF u(2) all_develop_trans [OF all_develop_send all_develop_send]])
  show ?thesis
  proof (cases "get_character_info s w")
    case (Some ch)
    show ?thesis
    proof (cases "sealed_exp ch \<ge> MAX_SEALED_EXP \<and> a > 0")
      case True
      then show ?thesis using Some all_develop_trans [OF u(1) all_develop_send] by (simp add: exp_seal_change_exp_def)
    next
      case False
      then show ?thesis
        using Some rest by (auto simp: exp_seal_change_exp_def send_sealed_exp_update_def Let_def)
    qed
  qed (simp add: exp_seal_change_exp_def)
qed

lemma all_develop_level_up:
  assumes ch: "player w s = Some ch" and low: "ucast (level ch) < MAX_LEVEL"
  shows "all_develop w (level_change e s (level ch + 1) True
    (update_character_stats s (\<lambda>c. c\<lparr>ch_exp := x, level := level ch + 1\<rparr>) w))"
proof -
  obtain c' where c': "player (level_change e s (level ch + 1) True
      (update_character_stats s (\<lambda>c. c\<lparr>ch_exp := x, level := level ch + 1\<rparr>) w)) = (player w)(s \<mapsto> c')"
    "alike (points_of_level (level ch + 1) (get_exp_by_level (level ch + 1) 0 w) (ch\<lparr>ch_exp := x, level := level ch + 1\<rparr>)) c'"
    using level_up_player [OF assms] .
  have "develops ch c'" using develops_trans [OF develops_level_up [OF low] develops_alike] c'(2) by simp
  then show ?thesis using all_develop_player [OF ch] c'(1) by simp
qed

lemma all_develop_gain:
  assumes "player w s = Some ch"
  shows "all_develop w (gain_exp e s ch x w)"
  using all_develop_level_up [OF assms] all_develop_set_exp by (simp add: gain_exp_def)

lemma all_develop_lose:
  assumes ch: "player w s = Some ch" and "1 < level ch"
  shows "all_develop w (snd (lose_level e s ch w))"
proof -
  obtain c where c: "player (snd (lose_level e s ch w)) s = Some c" "level c = level ch - 1"
    "free_points c = free_points ch" "get_stat_total c = get_stat_total ch"
    "\<And>t. t \<noteq> s \<Longrightarrow> player (snd (lose_level e s ch w)) t = player w t"
    using lose_level_player [OF assms, of e] by metis
  have "develops (ch\<lparr>ch_exp := 0, level := level ch - 1\<rparr>) c"
    by (rule develops_same) (use c in \<open>simp_all add: get_stat_total_def\<close>)
  then have "develops ch c" using develops_trans [OF develops_level_down [OF assms(2)]] by blast
  then show ?thesis using all_develop_player [OF ch, of _ c] c by (auto simp: fun_eq_iff)
qed

lemma all_develop_exp: "all_develop w (exp_change_inner e s i b w)"
proof (induction e s i b w rule: exp_change_inner.induct)
  case (1 e s i is_bonus w)
  show ?case
  proof (cases "get_character_info s w")
    case None
    then show ?thesis by (simp add: exp_change_inner.simps)
  next
    case (Some ch)
    then have ch: "player w s = Some ch" by (simp add: player_def)
    from Some show ?thesis
    proof (cases rule: exp_change_cases [where i = i and b = is_bonus and e = e])
      case (sealed pass w1)
      have one: "all_develop w w1" using all_develop_sealed [of w s "ucast (if sint i > 0 \<and> \<not> is_bonus then apply_exp_bonuses e s i ch w else i)"] sealed(4) by simp
      show ?thesis
      proof (cases pass)
        case True
        then show ?thesis
          using sealed(5) all_develop_trans [OF one "1.IH"(1) [OF Some sealed(1,2) refl sealed(3) sealed(4) [symmetric]]] by simp
      qed (use sealed(5) one in simp)
    next
      case (fell d w1)
      have one: "all_develop w w1" using all_develop_lose [OF ch fell(6), of e] fell(7) by simp
      show ?thesis
      proof (cases "sint d > 0")
        case True
        then show ?thesis
          using fell(8) all_develop_trans [OF one "1.IH"(2) [OF Some fell(1,2) refl fell(3) refl fell(4,5) fell(7) [symmetric] True]] by simp
      qed (use fell(8) one in simp)
    qed (simp_all add: all_develop_set_exp all_develop_gain [OF ch])
  qed
qed

subsection \<open>The other operations\<close>

lemma all_develop_modify:
  "(\<And>h. character (f h) = character h) \<Longrightarrow> all_develop w (modify_session s f w)"
  by (intro all_develop_same)
    (auto simp: player_def fun_eq_iff get_character_info_def modify_session_def split: option.split)

lemma all_develop_inventory: "all_develop w (snd (update_inventory s d f w))"
  by (auto simp: update_inventory_def intro!: all_develop_modify split: option.split)

lemma all_develop_give: "all_develop w (snd (give_item e s i n w))"
proof -
  obtain b w' where r: "give_item e s i n w = (b, w')" by (cases "give_item e s i n w")
  from r show ?thesis
  proof (cases rule: give_item_cases)
    case (given h it k)
    have serial: "all_develop w (snd (generate_item_serial w))"
      by (intro all_develop_same)
        (simp add: player_def fun_eq_iff get_character_info_def generate_item_serial_def)
    let ?f = "\<lambda>h. h\<lparr>inventory := snd (place_item it i n (next_item_serial w) 0 k (inventory h))\<rparr>"
    obtain p where p: "give_item e s i n w = (True, set_user_ability e s (send_to_session s p
        (modify_session s ?f (snd (generate_item_serial w)))))"
      by (rule give_item_place [OF given(3,4,5,2,8), where e = e]) (rule that)
    have placed: "all_develop v (modify_session s ?f v)" for v by (rule all_develop_modify) simp
    show ?thesis
      unfolding p snd_conv
      by (rule all_develop_trans [OF serial all_develop_trans [OF placed all_develop_trans [OF all_develop_send all_develop_ability]]])
  qed (use r in simp)
qed

lemma all_develop_point_change: "all_develop w (snd (handle_point_change e st s pkt w))"
proof (cases "st \<noteq> InGame \<or> is_player_dead s w")
  case False
  define t where "t = unwrap_or 0 (fst (read_u8 (reader_new (pdata pkt))))"
  show ?thesis
  proof (cases "\<exists>ch. get_character_info s w = Some ch \<and> 1 \<le> t \<and> t \<le> 5 \<and> \<not> free_points ch < 1 \<and> get_stat_by_type ch t \<noteq> STAT_MAX")
    case True
    then obtain ch where ch: "get_character_info s w = Some ch" "1 \<le> t" "t \<le> 5" "\<not> free_points ch < 1"
      "get_stat_by_type ch t \<noteq> STAT_MAX" by blast
    let ?w = "set_user_ability e s (update_character_stats s (spend_stat t (get_stat_by_type ch t + 1)) w)"
    have step: "all_develop w ?w"
      using develops_spend [OF ch(2-5)] ch(1)
      by (intro all_develop_trans [OF all_develop_update all_develop_ability]) (auto simp: player_def)
    have refresh: "all_develop v (send_item_move_refresh s v)" for v
      by (auto simp: send_item_move_refresh_def split: option.split)
    have send: "all_develop ?w (snd (session_send s p ?w))" for p by (simp add: session_send_def)
    have "all_develop ?w (snd (handle_point_change e st s pkt w))"
      using False ch all_develop_trans [OF send refresh] send
      by (auto simp: handle_point_change_def t_def [symmetric] Let_def split_def split: option.split)
    then show ?thesis using all_develop_trans [OF step] by blast
  next
    case none: False
    then have "handle_point_change e st s pkt w = (True, w)"
      using False by (auto simp: handle_point_change_def t_def [symmetric] Let_def split: option.split)
    then show ?thesis by simp
  qed
qed (simp add: handle_point_change_def)

lemma all_develop_skillpt_change: "all_develop w (snd (handle_skillpt_change e st s pkt w))"
proof -
  have "all_develop w (set_user_ability e s (update_character_stats s (spend_skill t) w))" for t
    by (intro all_develop_trans [OF all_develop_update all_develop_ability])
      (simp add: develops_same spend_skill_def get_stat_total_def Let_def)
  then show ?thesis
    by (auto simp: handle_skillpt_change_def send_skillpt_fail_def session_send_def Let_def split: option.split)
qed

lemma all_develop_seal: "all_develop w (snd (handle_exp_seal e st s pkt w))"
proof -
  have u: "all_develop v (update_character_stats s (\<lambda>c. c\<lparr>exp_seal_status := b\<rparr>) v)"
    "all_develop v (update_character_stats s (\<lambda>c. c\<lparr>sealed_exp := f c\<rparr>) v)" for v b f
    by (auto intro!: all_develop_update simp: develops_same get_stat_total_def)
  have status: "all_develop w (snd (exp_seal_update_status s b w))" for b
    using all_develop_trans [OF u(1) all_develop_send] by (simp add: exp_seal_update_status_def session_send_def)
  have fail: "all_develop v (snd (send_potion_fail s v))" for v by (simp add: send_potion_fail_def session_send_def)
  have "all_develop w (snd (exp_seal_sealed_potion e s rd w))" for rd
  proof -
    have done_: "all_develop w (snd (session_send s p (send_sealed_exp_update s (update_character_stats s (\<lambda>c. c\<lparr>sealed_exp := f c\<rparr>) v))))"
      if "all_develop w v" for p f v
      using all_develop_trans [OF that all_develop_trans [OF u(2) all_develop_trans [OF all_develop_send all_develop_send]]]
      by (simp add: session_send_def send_sealed_exp_update_def)
    have give: "all_develop w (snd (give_item e s j n (snd (update_inventory s False f w))))" for j n f
      by (rule all_develop_trans [OF all_develop_inventory all_develop_give])
    show ?thesis
      using fail all_develop_trans [OF give fail] done_ [OF give]
      by (auto simp: exp_seal_sealed_potion_def Let_def split_def split: option.split)
  qed
  then show ?thesis using status by (auto simp: handle_exp_seal_def Let_def split_def)
qed

end
