(* ===== verification/Growth_Claims.thy ===== *)
theory Growth_Claims
  imports Growth_Safe
begin

text \<open>
  What the code promises of levels and points: every operation refines the machine of theory \<open>Growth\<close>; nobody has more
  points for statistics than the levels reached give; a loss never takes a player below level 5; a gain is exact. And
  what it does not: losing a level and regaining it gives skill points once more.
\<close>

subsection \<open>Operations\<close>

datatype growth_op =
  Exp_Change i64 bool
| Point_Change session_state packet
| Skillpt_Change session_state packet
| Exp_Seal session_state packet

primrec growth_do :: "env \<Rightarrow> sid \<Rightarrow> world \<Rightarrow> growth_op \<Rightarrow> bool \<times> world" where
  "growth_do e s w (Exp_Change i b) = (True, exp_change_with_bonus e s i b w)"
| "growth_do e s w (Point_Change st pkt) = handle_point_change e st s pkt w"
| "growth_do e s w (Skillpt_Change st pkt) = handle_skillpt_change e st s pkt w"
| "growth_do e s w (Exp_Seal st pkt) = handle_exp_seal e st s pkt w"

definition growth_step :: "env \<Rightarrow> world \<Rightarrow> sid \<times> growth_op \<Rightarrow> bool \<times> world" where
  "growth_step e w a = growth_do e (fst a) w (snd a)"

lemma all_develop_op: "all_develop w (snd (growth_do e s w a))"
  by (cases a) (simp_all add: exp_change_with_bonus_def all_develop_exp all_develop_point_change
      all_develop_skillpt_change all_develop_seal)

lemma all_developD:
  assumes "all_develop w w'" "get_character_info t w = Some ch"
  obtains ch' where "get_character_info t w' = Some ch'" "develops ch ch'"
  using assms unfolding all_develop_def player_def by (metis option_rel_Some1)

definition all_grown :: "world \<Rightarrow> bool" where
  "all_grown w \<longleftrightarrow> (\<forall>t ch. get_character_info t w = Some ch \<longrightarrow> grown ch)"

lemma all_grown_develop: "all_develop w w' \<Longrightarrow> all_grown w \<Longrightarrow> all_grown w'"
  unfolding all_develop_def all_grown_def player_def by (metis develops_grown option_rel_Some2)

interpretation growing: stable "growth_step e" "\<lambda>_ _. True" all_grown for e
  by unfold_locales (simp add: growth_step_def all_grown_develop [OF all_develop_op])

text \<open>C13: the operations refine the machine: a change of experience, a point spent and a packet of the
  experience seal, of whatever player, take every player along a sequence of its steps.\<close>

theorem growth_op_refines:
  assumes "get_character_info t w = Some ch" "growth_inv (growth_of p ch)"
  shows "\<exists>p' ch'. get_character_info t (snd (growth_step e w (s, op))) = Some ch'
    \<and> grows\<^sup>*\<^sup>* (growth_of p ch) (growth_of p' ch')"
proof -
  obtain ch' where "get_character_info t (snd (growth_do e s w op)) = Some ch'" "develops ch ch'"
    by (rule all_developD [OF all_develop_op assms(1)])
  then show ?thesis using assms(2) unfolding develops_def growth_step_def by auto
qed

definition novice :: character_info where
  \<comment> \<open>a level 60 character with the 477 points of its level, 117 of them not spent\<close>
  "novice = demo_char\<lparr>free_points := 117\<rparr>"

definition school :: world where
  "school = demo_world\<lparr>wsessions := (wsessions demo_world)(1 \<mapsto> demo_handle\<lparr>character := Some novice\<rparr>,
     2 \<mapsto> demo_handle\<lparr>character := Some novice\<rparr>)\<rparr>"

lemma novice_info [simp]: "get_character_info 1 school = Some novice" "get_character_info 2 school = Some novice"
  by (simp_all add: school_def get_character_info_def)

lemma novice_inv: "growth_inv (growth_of 60 novice)"
  by (simp add: growth_inv_def growth_of_def novice_def demo_char_def unat_stat_total points_def)

theorem growth_op_refines_witness:
  "\<exists>p' ch'. get_character_info 1 (snd (growth_step demo_env school (2, Exp_Change 500 False))) = Some ch'
    \<and> grows\<^sup>*\<^sup>* (growth_of 60 novice) (growth_of p' ch')"
  by (rule growth_op_refines [OF novice_info(1) novice_inv])

lemma grown_expected:
  assumes "grown ch"
  shows "\<exists>l :: u8. level ch \<le> l \<and> l \<le> 83 \<and> unat (free_points ch) + unat (get_stat_total ch) = unat (expected_stat_total l)"
proof -
  obtain p where p: "growth_inv (growth_of p ch)" using assms by (auto simp: grown_def)
  then have b: "1 \<le> p" "p \<le> 83" "unat (level ch) \<le> p" by (auto simp: growth_inv_def)
  define l :: u8 where "l = of_nat p"
  have l: "unat l = p" using b(2) by (simp add: l_def unat_of_nat)
  have "unat (saturating_sub l 1) = p - 1" using l by (simp add: unat_saturating_sub)
  then have "unat (expected_stat_total l) = points p"
    using b l by (auto simp: expected_stat_total_def Let_def points_def unat_word_ariths unat_sub word_le_nat_alt word_less_nat_alt)
  then show ?thesis using p b l by (intro exI [of _ l]) (simp add: growth_inv_def word_le_nat_alt)
qed


lemma school_grown: "all_grown school"
  using novice_inv by (auto simp: all_grown_def grown_def school_def demo_world_def get_character_info_def split: if_splits)


subsection \<open>Losses\<close>

lemma neg_loss: "sint (d :: i64) > 0 \<Longrightarrow> sint (- d) < 0"
proof -
  assume d: "sint d > 0"
  have "sint d < 2 ^ 63" using sint_lt [of d] by simp
  then have "sint (- d) = - sint d"
    using d by (subst sint_word_ariths) (simp add: signed_take_bit_int_eq_self)
  then show ?thesis using d by simp
qed

lemma gain_exp_level:
  assumes ch: "player w s = Some ch"
  obtains c where "player (gain_exp e s ch x w) s = Some c" "level c = level ch \<or> unat (level c) = Suc (unat (level ch))"
proof (cases "sint (max_exp ch) > 0 \<and> sint x \<ge> sint (max_exp ch) \<and> ucast (level ch) < MAX_LEVEL")
  case True
  then obtain c where
    "player (gain_exp e s ch x w) = (player w)(s \<mapsto> c)" "alike (points_of_level (level ch + 1) (get_exp_by_level (level ch + 1) 0 w)
      (ch\<lparr>ch_exp := ucast (x - max_exp ch), level := level ch + 1\<rparr>)) c"
    using level_up_player [OF ch, where x = "x - max_exp ch" and e = e] by (auto simp: gain_exp_def)
  moreover have "level (points_of_level l m d) = level d" for l m d by (simp add: points_of_level_def Let_def)
  ultimately show thesis using that [of c] alike_fields(1) next_level [of "level ch"] True by fastforce
next
  case False
  then have "gain_exp e s ch x w = set_exp (max_exp ch) s w \<or> gain_exp e s ch x w = set_exp x s w" by (auto simp: gain_exp_def)
  then obtain y where "gain_exp e s ch x w = set_exp y s w" by blast
  then show thesis using that set_exp_player [OF ch, of y] by simp
qed

text \<open>C15: dying costs levels only down to level 5: a loss leaves a player below level 6 untouched, and takes no other
  below level 5.\<close>

theorem exp_loss_floor:
  assumes "sint i < 0" "get_character_info s w = Some ch"
  shows "if level ch < 6 then exp_change_inner e s i b w = w
    else \<exists>ch'. get_character_info s (exp_change_inner e s i b w) = Some ch'
      \<and> 5 \<le> level ch' \<and> unat (level ch') \<le> unat (level ch) + 1"
  using assms
proof (induction e s i b w arbitrary: ch rule: exp_change_inner.induct)
  case (1 e s i b w)
  note loss = \<open>sint i < 0\<close>
  have ch: "player w s = Some ch" using 1(4) by (simp add: player_def)
  show ?case
  proof (cases "level ch < 6")
    case True
    then have "exp_change_inner e s i b w = w" using 1(3,4) by (subst exp_change_inner.simps) simp
    then show ?thesis using True by simp
  next
    case high: False
    have top: "unat (level ch - 1) = unat (level ch) - 1" "6 \<le> unat (level ch)"
      using high unat_minus_one [of "level ch"] by (cases "level ch = 0"; auto simp: not_less word_le_nat_alt)+
    have "\<exists>ch'. get_character_info s (exp_change_inner e s i b w) = Some ch' \<and> 5 \<le> level ch'
        \<and> unat (level ch') \<le> unat (level ch) + 1"
      using 1(4)
    proof (cases rule: exp_change_cases [where i = i and b = b and e = e])
      case still
      then show ?thesis using 1(4) top by (simp add: word_le_nat_alt)
    next
      case (sealed pass w1)
      then show ?thesis using loss by simp
    next
      case floor
      then show ?thesis using top by (simp add: word_le_nat_alt)
    next
      case (fell d w1)
      obtain c where c: "player w1 s = Some c" "level c = level ch - 1"
        using lose_level_player [OF ch fell(6), of e] fell(7) by (metis snd_conv)
      have five: "5 \<le> level c" "unat (level c) + 1 = unat (level ch)" using c(2) top by (simp_all add: word_le_nat_alt)
      show ?thesis
      proof (cases "sint d > 0")
        case True
        have "exp_change_inner e s i b w = exp_change_inner e s (- d) False w1" using fell(8) True by simp
        moreover have "if level c < 6 then exp_change_inner e s (- d) False w1 = w1
          else \<exists>ch'. get_character_info s (exp_change_inner e s (- d) False w1) = Some ch'
            \<and> 5 \<le> level ch' \<and> unat (level ch') \<le> unat (level c) + 1"
          using 1(2) [OF 1(4) fell(1,2) refl fell(3) refl fell(4,5) fell(7) [symmetric] True neg_loss [OF True]] c(1)
          by (simp add: player_def)
        ultimately show ?thesis using c(1) five by (auto simp: player_def split: if_splits)
      next
        case False
        then show ?thesis using fell(8) c(1) five by (auto simp: player_def)
      qed
    next
      case rose
      obtain c where c: "player (exp_change_inner e s i b w) s = Some c"
        "level c = level ch \<or> unat (level c) = Suc (unat (level ch))"
        unfolding rose(5) by (rule gain_exp_level [OF ch])
      then show ?thesis using top by (auto simp: player_def word_le_nat_alt)
    qed
    then show ?thesis using high by simp
  qed
qed

theorem exp_loss_floor_witness:
  "\<exists>ch'. get_character_info 1 (exp_change_inner demo_env 1 (- 5000) False school) = Some ch'
      \<and> 5 \<le> level ch' \<and> unat (level ch') \<le> 61"
  using exp_loss_floor [of "- 5000" 1 school novice demo_env False]
  by (simp add: novice_def demo_char_def)

subsection \<open>Gains\<close>

lemma sint_small_i64:
  assumes "unat (x :: i64) < 2 ^ 63"
  shows "sint x = int (unat x)"
proof -
  have "uint x < 2 ^ 63" using assms unfolding unat_eq_nat_uint by (subst (asm) nat_less_iff) simp_all
  moreover have "- (2 ^ 63) \<le> uint x" by (rule order_trans [OF _ uint_ge_0]) simp
  ultimately show ?thesis using signed_take_bit_int_eq_self [of 63 "uint x"] by (simp add: sint_uint)
qed

lemma unat_of_pos:
  assumes "0 \<le> sint (x :: i64)"
  shows "int (unat x) = sint x"
proof -
  have "sint x < 2 ^ 64" using sint_lt [of x] by simp
  then have "take_bit 64 (sint x) = sint x" using assms by (simp add: take_bit_int_eq_self)
  then show ?thesis using uint_sint [of x] by simp
qed

lemma unat_plus_small: "unat (x :: i64) + unat y < 2 ^ 63 \<Longrightarrow> unat (x + y) = unat x + unat y"
  by (simp add: unat_word_ariths(1))

definition gained :: "i64 \<Rightarrow> i64 \<Rightarrow> character_info \<Rightarrow> character_info" where
  \<comment> \<open>the character after \<open>gain_exp\<close>, but for HP and MP\<close>
  "gained x m ch =
     (if sint (max_exp ch) > 0 \<and> sint x \<ge> sint (max_exp ch)
      then if ucast (level ch) < MAX_LEVEL
        then points_of_level (level ch + 1) m (ch\<lparr>ch_exp := x - max_exp ch, level := level ch + 1\<rparr>)
        else ch\<lparr>ch_exp := max_exp ch\<rparr>
      else ch\<lparr>ch_exp := x\<rparr>)"

lemma gain_exp_player:
  assumes ch: "player w s = Some ch"
  obtains c where "player (gain_exp e s ch x w) = (player w)(s \<mapsto> c)"
    "alike (gained x (get_exp_by_level (level ch + 1) 0 w) ch) c"
proof -
  let ?full = "sint (max_exp ch) > 0 \<and> sint x \<ge> sint (max_exp ch)" and ?low = "ucast (level ch) < MAX_LEVEL"
  consider "?full" "?low" | "?full" "\<not> ?low" | "\<not> ?full" by blast
  then show thesis
  proof cases
    case 1
    obtain c where "player (level_change e s (level ch + 1) True
        (update_character_stats s (\<lambda>c. c\<lparr>ch_exp := x - max_exp ch, level := level ch + 1\<rparr>) w)) = (player w)(s \<mapsto> c)"
      "alike (points_of_level (level ch + 1) (get_exp_by_level (level ch + 1) 0 w) (ch\<lparr>ch_exp := x - max_exp ch, level := level ch + 1\<rparr>)) c"
      using level_up_player [OF ch 1(2)] .
    then show thesis using that 1 by (simp add: gain_exp_def gained_def)
  next
    case 2
    then show thesis using that [of "ch\<lparr>ch_exp := max_exp ch\<rparr>"] set_exp_player [OF ch] by (simp add: gain_exp_def gained_def)
  next
    case 3
    then show thesis using that [of "ch\<lparr>ch_exp := x\<rparr>"] set_exp_player [OF ch] by (auto simp: gain_exp_def gained_def)
  qed
qed

lemma points_of_level_fields:
  "level (points_of_level l m c) = level c" "ch_exp (points_of_level l m c) = ch_exp c" "max_exp (points_of_level l m c) = m"
  by (simp_all add: points_of_level_def Let_def)

text \<open>C16: a gain is exact: with the experience seal off, the amount after the bonuses is added; what reaches
  the maximum is taken off for one level more, or, at level 83, dropped; nobody else's character changes.\<close>

theorem exp_gain_exact:
  fixes b :: bool and e :: env and i :: i64
  assumes ch: "get_character_info s w = Some ch"
  defines "amount \<equiv> if b then i else apply_exp_bonuses e s i ch w"
  assumes gain: "0 < sint i" "0 < unat amount" "unat (ch_exp ch) + unat amount < 2 ^ 63" and off: "\<not> exp_seal_status ch"
  shows "\<exists>c. get_character_info s (exp_change_inner e s i b w) = Some c
    \<and> (\<forall>t. t \<noteq> s \<longrightarrow> get_character_info t (exp_change_inner e s i b w) = get_character_info t w)
    \<and> (let n = unat (ch_exp ch) + unat amount; m = sint (max_exp ch) in
       if 0 < m \<and> m \<le> int n then
         if unat (level ch) < 83
         then unat (level c) = unat (level ch) + 1 \<and> int (unat (ch_exp c)) = int n - m
           \<and> max_exp c = get_exp_by_level (level c) 0 w
         else level c = level ch \<and> ch_exp c = max_exp ch
       else level c = level ch \<and> unat (ch_exp c) = n)"
proof -
  have amount: "(if sint i > 0 \<and> \<not> b then apply_exp_bonuses e s i ch w else i) = amount" using gain(1) by (simp add: amount_def)
  have sum: "unat (ch_exp ch + amount) = unat (ch_exp ch) + unat amount" using gain(3) by (rule unat_plus_small)
  have x: "sint (ch_exp ch + amount) = int (unat (ch_exp ch) + unat amount)"
    using sint_small_i64 [of "ch_exp ch + amount"] gain(3) unfolding sum by (simp only:)
  have run: "exp_change_inner e s i b w = gain_exp e s ch (ch_exp ch + amount) w"
    using ch
  proof (cases rule: exp_change_cases [where i = i and b = b and e = e])
    case still
    then show ?thesis using gain sint_small_i64 [of "ch_exp ch"] by simp
  qed (use off x uint_ge_0 [of "ch_exp ch"] uint_ge_0 [of amount] in \<open>simp_all add: amount\<close>)
  have lvl: "ucast (level ch) < MAX_LEVEL \<longleftrightarrow> unat (level ch) < 83" by (simp add: word_less_nat_alt MAX_LEVEL_def)
  obtain c where c: "player (gain_exp e s ch (ch_exp ch + amount) w) = (player w)(s \<mapsto> c)"
    "alike (gained (ch_exp ch + amount) (get_exp_by_level (level ch + 1) 0 w) ch) c"
    by (rule gain_exp_player [OF ch [folded player_def]])
  have less: "int (unat (ch_exp ch + amount - max_exp ch)) = int (unat (ch_exp ch) + unat amount) - sint (max_exp ch)"
    if "0 < sint (max_exp ch)" "sint (max_exp ch) \<le> int (unat (ch_exp ch) + unat amount)"
  proof -
    have m: "int (unat (max_exp ch)) = sint (max_exp ch)" using that(1) by (intro unat_of_pos) simp
    then have le: "unat (max_exp ch) \<le> unat (ch_exp ch + amount)" using that(2) sum by linarith
    then have "int (unat (ch_exp ch + amount - max_exp ch)) = int (unat (ch_exp ch + amount)) - int (unat (max_exp ch))"
      by (simp only: unat_sub word_le_nat_alt of_nat_diff)
    then show ?thesis unfolding sum m .
  qed
  note f = alike_fields(1-3) [OF c(2)]
  show ?thesis
    unfolding run Let_def
    by (rule exI [of _ c]) (use c(1) f lvl x sum less next_level [of "level ch"] in
      \<open>auto simp: gained_def points_of_level_fields player_def [symmetric] of_nat_diff\<close>)
qed

theorem exp_gain_exact_witness:
  "\<exists>c. get_character_info 1 (exp_change_inner demo_env 1 1500 True school) = Some c
    \<and> level c = 61 \<and> ch_exp c = 500 \<and> max_exp c = get_exp_by_level 61 0 school"
proof -
  have n: "level novice = 60" "ch_exp novice = 0" "max_exp novice = 1000" "\<not> exp_seal_status novice"
    by (simp_all add: novice_def demo_char_def)
  obtain c where c: "get_character_info 1 (exp_change_inner demo_env 1 1500 True school) = Some c"
    "unat (level c) = 61" "int (unat (ch_exp c)) = 500" "max_exp c = get_exp_by_level (level c) 0 school"
    using exp_gain_exact [OF novice_info(1), of 1500 True demo_env] n by (auto simp: Let_def)
  have "unat (ch_exp c) = 500" using c(3) by linarith
  then have "level c = 61" "ch_exp c = 500" using c(2) by (simp_all add: word_unat_eq_iff)
  then show ?thesis using c by simp
qed

subsection \<open>Falling and rising again\<close>

lemma skills_of_level:
  assumes "level c = l" "10 \<le> l" "unat (get_total_skill_points c) < 2 * (unat l - 9)" "skill_points c \<noteq> []"
  shows "skill_points (points_of_level l m c) = (skill_points c)[0 := skill_points c ! 0 + 2]"
proof -
  have l: "10 \<le> unat l" "unat l < 256" using assms(2) unat_u8_less [of l] by (simp_all add: word_le_nat_alt)
  then have "unat (ucast l - 9 :: u16) = unat l - 9" by (simp add: unat_sub word_le_nat_alt)
  moreover have bound: "2 * (unat l - 9) < 65536" using l(2) by linarith
  ultimately have "unat (2 * (ucast l - 9) :: u16) = 2 * (unat l - 9)" using bound by (subst unat_word_ariths(2)) simp
  then have "get_total_skill_points c < 2 * (ucast l - 9)" using assms(3) by (simp add: word_less_nat_alt)
  moreover have "get_total_skill_points (c\<lparr>free_points := f\<rparr>) = get_total_skill_points c" for f
    by (simp add: get_total_skill_points_def)
  ultimately show ?thesis using assms(2) by (simp add: points_of_level_def Let_def)
qed

lemma unat_lost_exp:
  assumes "unat m < 2 ^ 63"
  shows "unat (on_death_lost_exp m) = unat m div 20"
proof -
  have "sint m sdiv 20 = int (unat m div 20)"
    unfolding sint_small_i64 [OF assms] by (simp add: signed_divide_int_def zdiv_int sgn_if)
  then have "on_death_lost_exp m = of_nat (unat m div 20)" by (simp add: on_death_lost_exp_def)
  then show ?thesis using assms by (simp add: unat_of_nat)
qed

lemma sint_diff:
  assumes "unat (a :: i64) < 2 ^ 63" "unat b < 2 ^ 63"
  shows "sint (a + - b) = int (unat a) - int (unat b)"
proof -
  have "sint (a - b) = signed_take_bit 63 (int (unat a) - int (unat b))"
    using sint_word_ariths(2) [of a b] unfolding sint_small_i64 [OF assms(1)] sint_small_i64 [OF assms(2)] by simp
  also have "\<dots> = int (unat a) - int (unat b)"
  proof (rule signed_take_bit_int_eq_self)
    have "int (unat a) < 2 ^ 63" "int (unat b) < 2 ^ 63"
      using assms [THEN of_nat_less_iff [where 'a = int, THEN iffD2]] by (simp_all only: of_nat_power of_nat_numeral)
    then show "- (2 ^ 63) \<le> int (unat a) - int (unat b)" "int (unat a) - int (unat b) < 2 ^ 63" by linarith+
  qed
  finally show ?thesis by simp
qed

text \<open>A loss that costs one level.\<close>

lemma fall_one_level:
  fixes w :: world and ch :: character_info
  defines "m \<equiv> get_exp_by_level (level ch - 1) 0 w"
  assumes ch: "get_character_info s w = Some ch" and lvl: "11 \<le> level ch" "level ch \<le> 83"
    and safe: "\<not> in_war_zone s w" "\<not> exp_seal_status ch"
    and m: "20 \<le> unat m" "unat m < 2 ^ 63" "unat (ch_exp ch) + unat m div 20 \<le> unat m"
    and loss: "unat (ch_exp ch) < unat loss" "unat loss < 2 ^ 63"
  defines "lost \<equiv> ch_exp ch + on_death_lost_exp m"
  obtains c where "get_character_info s (exp_change_inner e s (- loss) b w) = Some c" "level c = level ch - 1"
    "ch_exp c = m - lost" "max_exp c = m" "skill_points c = skill_points ch" "free_points c = free_points ch"
    "get_stat_total c = get_stat_total ch" "\<not> exp_seal_status c"
    "level_up_table (exp_change_inner e s (- loss) b w) = level_up_table w"
proof -
  have l: "11 \<le> unat (level ch)" "unat (level ch) \<le> 83" using lvl by (simp_all add: word_le_nat_alt)
  have down: "unat (level ch - 1) = unat (level ch) - 1"
    using l unat_minus_one [of "level ch"] by (cases "level ch = 0") auto
  have high: "\<not> level ch < 6" "\<not> level ch \<le> 1" "1 < level ch" using l by (simp_all add: word_less_nat_alt word_le_nat_alt)
  have exp: "unat (ch_exp ch) < 2 ^ 63" using m by linarith
  have "unat (ch_exp ch) + unat (on_death_lost_exp m) < 2 ^ 63" using m by (simp add: unat_lost_exp)
  then have lost: "unat lost = unat (ch_exp ch) + unat m div 20" unfolding lost_def using m(2) by (simp add: unat_plus_small unat_lost_exp)
  then have lost63: "unat lost < 2 ^ 63" "0 < unat lost" "unat lost \<le> unat m" using m div_greater_zero_iff [of "unat m" 20] by auto
  have neg: "sint (- x) = - int (unat x)" "sint (ch_exp ch + - x) = int (unat (ch_exp ch)) - int (unat x)"
    "sint (m + - x) = int (unat m) - int (unat x)" if "unat x < 2 ^ 63" for x
    using sint_diff [of 0 x] sint_diff [OF exp that] sint_diff [OF m(2) that] that by simp_all
  obtain w1 where r: "lose_level e s ch w = (lost, w1)"
    by (simp add: lose_level_def Let_def lost_def m_def)
  obtain c where c: "player w1 s = Some c" "level c = level ch - 1" "ch_exp c = m" "exp_seal_status c = exp_seal_status ch"
    "free_points c = free_points ch" "skill_points c = skill_points ch" "get_stat_total c = get_stat_total ch"
    "level_up_table w1 = level_up_table w" "in_war_zone s w1 = in_war_zone s w" "max_exp c = m"
    by (rule lose_level_player [of w s ch e]) (use ch high down l r in \<open>auto simp: player_def m_def word_le_nat_alt MAX_LEVEL_def\<close>)
  have falls: "sint (- loss) < 0" "sint (ch_exp ch + - loss) < 0"
    using neg(1,2) [OF loss(2)] loss(1) by linarith+
  have one: "exp_change_inner e s (- loss) b w = exp_change_inner e s (- lost) False w1"
    using ch
  proof (cases rule: exp_change_cases [where i = "- loss" and b = b and e = e])
    case (fell d v)
    moreover have "0 < sint lost" using sint_small_i64 [OF lost63(1)] lost63(2) by linarith
    ultimately show ?thesis using r by simp
  qed (use high safe falls sint_small_i64 [OF exp] in simp_all)
  have ch1: "get_character_info s w1 = Some c" using c(1) by (simp add: player_def)
  have low: "\<not> level c < 6" "\<not> level c \<le> 1" "1 < level c" using down l c(2) by (simp_all add: word_less_nat_alt word_le_nat_alt)
  have stays: "\<not> sint (m + - lost) < 0" "sint (- lost) < 0" "sint (m + - lost) < sint m" "\<not> sint m < 0"
    using neg(1,3) [OF lost63(1)] lost63 sint_small_i64 [OF m(2)] by linarith+
  have "exp_change_inner e s (- lost) False w1 = gain_exp e s c (m + - lost) w1"
    using ch1
  proof (cases rule: exp_change_cases [where i = "- lost" and b = False and e = e])
    case rose
    then show ?thesis using stays c(3) by simp
  qed (use low safe c stays in simp_all)
  also have "\<dots> = set_exp (m + - lost) s w1"
    using c(10) stays by (simp add: gain_exp_def)
  finally have run: "exp_change_inner e s (- loss) b w = set_exp (m - lost) s w1" using one by simp
  have "keeps_chars (update_character_stats s (\<lambda>c. c\<lparr>ch_exp := m - lost\<rparr>) w1) (set_exp (m - lost) s w1)"
    unfolding set_exp_def by (rule keeps_exp_change)
  then have "level_up_table (set_exp (m - lost) s w1) = level_up_table w" using c(8) by (simp add: keeps_chars_def)
  then show thesis
    using that [of "c\<lparr>ch_exp := m - lost\<rparr>"] c safe set_exp_player [OF c(1), of "m - lost"]
    by (simp add: run player_def get_stat_total_def fun_eq_iff)
qed

text \<open>C17: losing a level and winning it back pays the skill points of the level once more: unlike the statistics,
  the points not yet spent are not counted when the code looks whether they were already given.\<close>

theorem relevel_duplicates_skill_points:
  fixes w :: world and ch :: character_info
  defines "m \<equiv> get_exp_by_level (level ch - 1) 0 w"
  assumes ch: "get_character_info s w = Some ch" and lvl: "11 \<le> level ch" "level ch \<le> 83"
    and safe: "\<not> in_war_zone s w" "\<not> exp_seal_status ch"
    and m: "20 \<le> unat m" "unat m < 2 ^ 63" "unat (ch_exp ch) + unat m div 20 \<le> unat m"
    and loss: "unat (ch_exp ch) < unat loss" "unat loss < 2 ^ 63"
    and skills: "skill_points ch \<noteq> []" "unat (get_total_skill_points ch) < 2 * (unat (level ch) - 9)"
  shows "\<exists>c. get_character_info s (exp_change_inner e s (ch_exp ch + on_death_lost_exp m) True (exp_change_inner e s (- loss) b w)) = Some c
    \<and> level c = level ch \<and> skill_points c = (skill_points ch)[0 := skill_points ch ! 0 + 2]"
proof -
  let ?lost = "ch_exp ch + on_death_lost_exp m" and ?w = "exp_change_inner e s (- loss) b w"
  obtain c where c: "get_character_info s ?w = Some c" "level c = level ch - 1" "ch_exp c = m - ?lost" "max_exp c = m"
    "skill_points c = skill_points ch" "\<not> exp_seal_status c"
    unfolding m_def by (rule fall_one_level [OF ch lvl safe m [unfolded m_def] loss, of e b])
  have "unat (ch_exp ch) + unat (on_death_lost_exp m) < 2 ^ 63" using m by (simp add: unat_lost_exp)
  then have lost: "unat ?lost = unat (ch_exp ch) + unat m div 20" using m(2) by (simp add: unat_plus_small unat_lost_exp)
  then have le: "unat ?lost \<le> unat m" "unat ?lost < 2 ^ 63" "0 < unat ?lost" using m div_greater_zero_iff [of "unat m" 20] by auto
  then have pos: "0 < sint ?lost" "0 < sint m" using sint_small_i64 [of ?lost] sint_small_i64 [OF m(2)] m(1) by linarith+
  have "unat (m - ?lost) < 2 ^ 63" using le(1) m(2) by (simp add: unat_sub word_le_nat_alt)
  then have rest: "0 \<le> sint (m - ?lost)" using sint_small_i64 [of "m - ?lost"] by linarith
  have run: "exp_change_inner e s ?lost True ?w = gain_exp e s c m ?w"
    using c(1)
  proof (cases rule: exp_change_cases [where i = ?lost and b = True and e = e])
    case still
    then show ?thesis using pos rest c(3) by simp
  qed (use pos c in simp_all)
  have low: "ucast (level c) < MAX_LEVEL" and next_l: "level c + 1 = level ch" and l: "10 \<le> level ch"
    using lvl c(2) unat_minus_one [of "level ch"] by (cases "level ch = 0"; auto simp: word_less_nat_alt word_le_nat_alt MAX_LEVEL_def)+
  obtain c' where c': "player (gain_exp e s c m ?w) = (player ?w)(s \<mapsto> c')"
    "alike (gained m (get_exp_by_level (level c + 1) 0 ?w) c) c'"
    by (rule gain_exp_player [OF c(1) [folded player_def]])
  let ?c = "c\<lparr>ch_exp := 0, level := level ch\<rparr>"
  have up: "gained m M c = points_of_level (level ch) M ?c" for M
    using low pos c(4) next_l by (simp add: gained_def)
  have "get_total_skill_points ?c = get_total_skill_points ch" by (simp add: get_total_skill_points_def c(5))
  then have "skill_points (points_of_level (level ch) M ?c) = (skill_points ch)[0 := skill_points ch ! 0 + 2]" for M
    using skills_of_level [of ?c "level ch" M] l skills c(5) by simp
  moreover have "get_character_info s (gain_exp e s c m ?w) = Some c'" using c'(1) by (simp flip: player_def)
  ultimately show ?thesis
    using alike_fields(1,7) [OF c'(2)] by (intro exI [of _ c']) (simp add: run up points_of_level_fields)
qed

definition veteran :: character_info where
  \<comment> \<open>level 12, half way to level 13; the six skill points of its level were given and are not spent\<close>
  "veteran = demo_char\<lparr>level := 12, free_points := 0, skill_points := (replicate 10 0)[0 := 6], ch_exp := 500\<rparr>"

definition academy :: world where
  "academy = demo_world\<lparr>wsessions := (wsessions demo_world)(1 \<mapsto> demo_handle\<lparr>character := Some veteran\<rparr>),
     level_up_table := [(11, 0) \<mapsto> 2000, (12, 0) \<mapsto> 3000]\<rparr>"

theorem relevel_duplicates_skill_points_witness:
  "\<exists>c. get_character_info 1 (exp_change_inner demo_env 1 600 True (exp_change_inner demo_env 1 (- 900) False academy)) = Some c
    \<and> level c = 12 \<and> skill_points c ! 0 = 8"
proof -
  have v: "level veteran = 12" "ch_exp veteran = 500" "\<not> exp_seal_status veteran" "skill_points veteran = (replicate 10 0)[0 := 6]"
    by (simp_all add: veteran_def demo_char_def)
  have m: "get_exp_by_level (level veteran - 1) 0 academy = 2000"
    by (simp add: v get_exp_by_level_def academy_def)
  have "get_character_info 1 academy = Some veteran" "\<not> in_war_zone 1 academy"
    by (simp_all add: academy_def get_character_info_def in_war_zone_def get_zone_id_def with_session_def demo_world_def demo_handle_def)
  from relevel_duplicates_skill_points [OF this(1) _ _ this(2), of 900 demo_env False] show ?thesis
    unfolding m by (simp add: v get_total_skill_points_def on_death_lost_exp_def)
      (auto simp: v numeral_nat)
qed

subsection \<open>Skill points\<close>

lemma skill_accepted:
  assumes "\<not> skill_refused ch t"
  shows "5 \<le> unat t" "unat t \<le> 8" "0 < unat (skill_points ch ! 0)" "unat t < length (skill_points ch)"
    "unat (skill_points ch ! unat t) + 1 \<le> unat (level ch)" "t = 8 \<Longrightarrow> unat (skill_points ch ! 8) < 23"
    "t = 8 \<Longrightarrow> unat (skill_points ch ! 8) < unat (level ch) - 60"
proof -
  have r: "5 \<le> unat t \<and> unat t \<le> 8" "0 < unat (skill_points ch ! 0)" "unat t < length (skill_points ch)"
    "\<not> (ucast (skill_points ch ! unat t) :: u16) + 1 > ucast (level ch)" "t = 8 \<longrightarrow> \<not> master_refused ch"
    using assms by (auto simp: skill_refused_def SKILLPT_CAT1_def SKILLPT_MASTER_def word_le_nat_alt unat_gt_0 not_le)
  show "5 \<le> unat t" "unat t \<le> 8" "0 < unat (skill_points ch ! 0)" "unat t < length (skill_points ch)" using r by simp_all
  have "Suc (unat (skill_points ch ! unat t)) < 65536" using unat_u8_less [of "skill_points ch ! unat t"] by linarith
  then have "unat ((ucast (skill_points ch ! unat t) :: u16) + 1) = unat (skill_points ch ! unat t) + 1"
    by (simp add: unat_word_ariths(1))
  then show "unat (skill_points ch ! unat t) + 1 \<le> unat (level ch)" using r(4) by (simp add: word_less_nat_alt not_less)
  show "unat (skill_points ch ! 8) < 23" "unat (skill_points ch ! 8) < unat (level ch) - 60" if "t = 8"
    using r(5) that by (auto simp: master_refused_def word_le_nat_alt unat_saturating_sub not_le)
qed

lemma unat_skill_total: "unat (get_total_skill_points ch) = unat (skill_points ch ! 5) + unat (skill_points ch ! 6)
    + unat (skill_points ch ! 7) + unat (skill_points ch ! 8)"
proof -
  have "unat (skill_points ch ! 5) + unat (skill_points ch ! 6) + unat (skill_points ch ! 7) + unat (skill_points ch ! 8) < 65536"
    using unat_u8_less [of "skill_points ch ! 5"] unat_u8_less [of "skill_points ch ! 6"]
      unat_u8_less [of "skill_points ch ! 7"] unat_u8_less [of "skill_points ch ! 8"] by linarith
  then show ?thesis by (simp add: get_total_skill_points_def unat_word_ariths(1) mod_simps)
qed

lemma spend_skill_points:
  assumes "\<not> skill_refused ch t" "length (skill_points ch) = 10"
  shows "skill_points (spend_skill t ch) = (skill_points ch)[0 := skill_points ch ! 0 - 1, unat t := skill_points ch ! unat t + 1]"
    and "unat (skill_points ch ! 0 - 1) = unat (skill_points ch ! 0) - 1"
    and "unat (skill_points ch ! unat t + 1) = unat (skill_points ch ! unat t) + 1"
proof -
  note a = skill_accepted [OF assms(1)]
  have "unat (level ch) < 256" by (rule unat_u8_less)
  then have small: "unat (skill_points ch ! unat t) + 1 < 256" using a(5) by linarith
  have "skill_points ch ! 0 \<noteq> 0" using a(3) by auto
  then show down: "unat (skill_points ch ! 0 - 1) = unat (skill_points ch ! 0) - 1" by (rule unat_minus_one)
  show up: "unat (skill_points ch ! unat t + 1) = unat (skill_points ch ! unat t) + 1"
    using small by (simp add: unat_word_ariths(1))
  have "saturating_sub (skill_points ch ! 0) 1 = skill_points ch ! 0 - 1"
    "saturating_add (skill_points ch ! unat t) 1 = skill_points ch ! unat t + 1"
    using a(3) small by (simp_all add: word_unat_eq_iff unat_saturating_sub unat_saturating_add down up)
  then show "skill_points (spend_skill t ch) = (skill_points ch)[0 := skill_points ch ! 0 - 1, unat t := skill_points ch ! unat t + 1]"
    using a(1) by (simp add: spend_skill_def Let_def)
qed

text \<open>C18: a packet for a skill point moves one free point to the category it names, which then stays within the level,
  and the master category within 23 and the levels above 60, or it changes nothing of the character but HP and MP; no
  point is lost.\<close>

theorem skill_point_exact:
  assumes "get_character_info s w = Some ch" "length (skill_points ch) = 10"
  shows "let t = unat (unwrap_or 0 (fst (read_u8 (reader_new (pdata pkt))))) in
    \<exists>c. get_character_info s (snd (handle_skillpt_change e st s pkt w)) = Some c
      \<and> (alike ch c
        \<or> t \<in> {5, 6, 7, 8} \<and> unat (skill_points c ! 0) + 1 = unat (skill_points ch ! 0)
          \<and> unat (skill_points c ! t) = unat (skill_points ch ! t) + 1
          \<and> (\<forall>k. k \<noteq> 0 \<and> k \<noteq> t \<longrightarrow> skill_points c ! k = skill_points ch ! k)
          \<and> skill_points c ! t \<le> level c \<and> (t = 8 \<longrightarrow> unat (skill_points c ! 8) \<le> min 23 (unat (level c) - 60))
          \<and> unat (skill_points c ! 0) + unat (get_total_skill_points c) = unat (skill_points ch ! 0) + unat (get_total_skill_points ch))"
proof -
  define t where "t = unwrap_or 0 (fst (read_u8 (reader_new (pdata pkt))))"
  show ?thesis
  proof (cases "st \<noteq> InGame \<or> is_player_dead s w \<or> skill_refused ch t")
    case True
    then have "get_character_info s (snd (handle_skillpt_change e st s pkt w)) = Some ch"
      using assms(1) by (auto simp: handle_skillpt_change_def send_skillpt_fail_def session_send_def t_def Let_def)
    then show ?thesis by (auto simp: Let_def)
  next
    case False
    then have ok: "\<not> skill_refused ch t" by simp
    have "player (update_character_stats s (spend_skill t) w) s = Some (spend_skill t ch)"
      using assms(1) by (simp add: player_def)
    then obtain c where c: "player (set_user_ability e s (update_character_stats s (spend_skill t) w)) s = Some c" "alike (spend_skill t ch) c"
      by (simp add: player_ability alike_def)
    have run: "get_character_info s (snd (handle_skillpt_change e st s pkt w)) = Some c"
      using False assms(1) c(1) by (simp add: handle_skillpt_change_def t_def [symmetric] Let_def player_def)
    note a = skill_accepted [OF ok] and p = spend_skill_points [OF ok assms(2)]
    have sk: "skill_points c = (skill_points ch)[0 := skill_points ch ! 0 - 1, unat t := skill_points ch ! unat t + 1]"
      "level c = level ch"
      using alike_fields(1,7) [OF c(2)] p(1) by (simp_all add: spend_skill_def Let_def)
    have kinds: "unat t \<in> {5, 6, 7, 8}" using a(1,2) by auto
    have tot: "unat (skill_points c ! 0) + unat (get_total_skill_points c) = unat (skill_points ch ! 0) + unat (get_total_skill_points ch)"
      using kinds a(3) p(2,3) assms(2) by (elim insertE) (simp_all add: unat_skill_total sk)
    have top: "unat t = 8 \<longrightarrow> unat (skill_points c ! 8) \<le> min 23 (unat (level c) - 60)"
      using a(6,7) p(3) assms(2) by (auto simp: sk word_unat_eq_iff)
    show ?thesis
      unfolding t_def [symmetric] Let_def
      by (rule exI [of _ c]) (use run kinds tot top a(3,5) p(2,3) assms(2) in
        \<open>auto simp: sk(1) sk(2) word_le_nat_alt\<close>)
  qed
qed

definition scholar :: character_info where
  "scholar = demo_char\<lparr>ch_class := 105, skill_points := (replicate 10 0)[0 := 3]\<rparr>"

theorem skill_point_exact_witness:
  "\<exists>c. get_character_info 1 (snd (handle_skillpt_change demo_env InGame 1 (write_u8 5 (packet_new 0x32))
      (demo_world\<lparr>wsessions := [1 \<mapsto> demo_handle\<lparr>character := Some scholar\<rparr>]\<rparr>))) = Some c
    \<and> (alike scholar c \<or> unat (skill_points c ! 0) = 2 \<and> unat (skill_points c ! 5) = 1)"
proof -
  have t: "fst (read_u8 (reader_new (pdata (write_u8 5 (packet_new 0x32))))) = Some 5" by code_simp
  have "get_character_info 1 (demo_world\<lparr>wsessions := [1 \<mapsto> demo_handle\<lparr>character := Some scholar\<rparr>]\<rparr>) = Some scholar"
    "length (skill_points scholar) = 10" by (simp_all add: get_character_info_def scholar_def)
  note result = skill_point_exact [OF this, of "write_u8 5 (packet_new 0x32)" demo_env InGame, unfolded t unwrap_or_simps]
  have "skill_points scholar ! 0 = 3" "skill_points scholar ! 5 = 0" by (simp_all add: scholar_def)
  then show ?thesis using result by (auto simp: Let_def)
qed

end
