(* ===== verification/Spec2Isabelle.thy ===== *)
theory Spec2Isabelle
  imports Packet_Io Opcode Rate_Limiter Party_Items Exchange_Items Npc_Trade_Safe Pathfind_Safe Party_Claims Item_Move_Claims Merchant_Claims Growth_Claims
begin

text \<open>
  A verification development of the core of \<^verbatim>\<open>RST26\<close>, a game server in Rust. It models the wire
  protocol (\<^verbatim>\<open>crates/ko-protocol\<close>) and, of the game server (\<^verbatim>\<open>crates/ko-game\<close>), the state of
  the world with the code that moves items and gold between players, NPCs and stores, levels and points, the parties, the maps
  with the path search of the NPCs, and the flood protection. Paths below are relative to \<^verbatim>\<open>src/\<close>.

  \<^bold>\<open>How the parts interact.\<close> A client's bytes are framed and decrypted (\<open>Packet_Io\<close>, on \<open>Jv_Cryption\<close> and
  \<open>Packet\<close>), counted by the flood protection (\<open>Rate_Limiter\<close>), named by their opcode (\<open>Opcode\<close>) and
  handed to a handler. A handler reads fields from the packet with the cursor of \<open>Packet\<close>, guards against
  the state of the world (\<open>World\<close>), changes it through the operations of \<open>Inventory\<close>, \<open>Gold\<close>, \<open>Storage\<close>,
  \<open>Trade_State\<close> and \<open>Party\<close>, and answers by packets. The handlers modelled in whole are those of
  \<^verbatim>\<open>WIZ_EXCHANGE\<close>, \<^verbatim>\<open>WIZ_WAREHOUSE\<close>, \<^verbatim>\<open>WIZ_ITEM_TRADE\<close>, \<^verbatim>\<open>WIZ_PARTY\<close>,
  \<^verbatim>\<open>WIZ_ITEM_MOVE\<close>, \<^verbatim>\<open>WIZ_MERCHANT\<close>, \<^verbatim>\<open>WIZ_POINT_CHANGE\<close>, \<^verbatim>\<open>WIZ_SKILLPT_CHANGE\<close>
  and \<^verbatim>\<open>WIZ_EXP_SEAL\<close>, and the clean-ups of trade and party when a player leaves.

  \<^bold>\<open>Conventions.\<close> An integer of the code is a word of its width (\<open>u8\<close>, \<open>i16\<close> and so on are type synonyms of
  \<open>Prelude\<close>); Rust's wrapping, saturating and checked operations are written out. A function that can fail
  returns an option or a sum; where indexing out of range panics, the result is \<open>None\<close>. The world is one
  record, threaded through every operation; a session's closed channel makes a send fail, packets sent are
  appended to the receiver's \<open>outbox\<close>, so that ordering is visible. Operations run one at a time: the model
  is that of the handlers served in some order, not of the interleaving of two handlers between two locks.
  What the source takes from elsewhere is an argument: the clock, the rows of the database, the block cipher
  and the compressor (crates of their own), the results of floating-point code (in the record \<open>env\<close>, with
  the statistics of \<open>set_user_ability\<close>). Log lines are left out.

  \<^bold>\<open>Wire protocol.\<close>
  \<^item> \<open>Rust_Str\<close>: UTF-8 and Windows-1254 of \<^verbatim>\<open>packet.rs\<close>; encoding then decoding gives back exactly the
    strings whose characters the table has.
  \<^item> \<open>Packet\<close>: the writers and the reading cursor of \<^verbatim>\<open>packet.rs\<close>. The locales \<open>cursor_read\<close> and
    \<open>field_codec\<close> state what a reader and a pair of writer and reader promise, and are interpreted for each of the
    twelve kinds of field; the round trip of whole packets follows from them.
  \<^item> \<open>Jv_Cryption\<close>: \<^verbatim>\<open>crypto.rs\<close>; locales for a stream cipher, a checksum and both together. The key
    generator draws until it finds a key that is accepted, so it is a partial function that may not return.
  \<^item> \<open>Packet_Io\<close>: \<^verbatim>\<open>packet_io.rs\<close> and the state of \<^verbatim>\<open>aes_crypt.rs\<close>. The locale \<open>packet_channel\<close> is
    interpreted for the plain and for the sealed stream. \<open>Opcode\<close>: the enum of \<^verbatim>\<open>opcode.rs\<close>.

  \<^bold>\<open>Flood protection.\<close> \<open>Rate_Limiter\<close>: \<^verbatim>\<open>rate_limiter.rs\<close>. \<open>Steps\<close> has the runs of operations and the
  locales \<open>stable\<close> (an invariant kept by every operation) and \<open>budget\<close> (at most so many successes within a
  window), interpreted for the sessions' checks, the connection counts and, in \<open>Trade_State\<close>, the shops.

  \<^bold>\<open>World, items and gold.\<close>
  \<^item> \<open>World\<close>, \<open>Item_Info\<close>: the records of \<^verbatim>\<open>world/types.rs\<close>, \<^verbatim>\<open>world/session.rs\<close> and
    \<^verbatim>\<open>world/tables.rs\<close> with the fields the modelled code uses; the pet and seal field of an item.
  \<^item> \<open>Inventory\<close>, \<open>Party_Items\<close>, \<open>Storage\<close>: \<^verbatim>\<open>world/inventory.rs\<close>. The locale \<open>item_store\<close>
    states that a success changes exactly the holding asked for; it is interpreted on \<open>give_item\<close> and
    \<open>rob_item\<close>. \<open>Gold\<close>: the same for the purse, with its cap (locale \<open>purse\<close>).
  \<^item> \<open>Trade_State\<close>, \<open>Exchange\<close>: \<^verbatim>\<open>world/trade.rs\<close> and \<^verbatim>\<open>handler/trade.rs\<close>. \<open>Trade_Machine\<close> is the
    abstract state machine of a trade with its invariant; \<open>Exchange_Refine\<close> shows that every packet is at most
    one of its steps, \<open>Exchange_Gold\<close> that trades conserve gold and what leaving destroys, \<open>Exchange_Items\<close>
    what the offers do to the bags.
  \<^item> \<open>Warehouse\<close>, \<open>Warehouse_Safe\<close>: \<^verbatim>\<open>handler/warehouse.rs\<close>; no packet makes pieces or coins.
  \<^item> \<open>Npc_Trade\<close>, \<open>Npc_Trade_Safe\<close>: \<^verbatim>\<open>handler/npc_trade.rs\<close>; purchases are all or nothing, and two ways
    of selling pay for nothing.
  \<^item> \<open>Item_Move\<close>, \<open>Item_Move_Handler\<close>, \<open>Item_Move_Safe\<close>, \<open>Item_Move_Claims\<close>: \<^verbatim>\<open>handler/item_move.rs\<close>. A move
    is a pure function of the slots first (\<open>Item_Move\<close>), then the whole packet with its checks and answers. The
    relations \<open>shift\<close> and \<open>move_effect\<close> say what a move may do to the slots; the equipment stays well typed
    (an item lies only in an equipment slot of its kind) and no piece is made.

  \<^item> \<open>Merchant\<close>, \<open>Merchant_Buying\<close>: the shops of the players, \<^verbatim>\<open>handler/merchant.rs\<close>, with Knight Cash
    (\<^verbatim>\<open>handler/knight_cash.rs\<close>) and the shops whose owner is offline (\<^verbatim>\<open>systems/offline_merchant.rs\<close>).
    \<open>Merchant_Machine\<close> is the abstract view (bags, purses, kind of shop) with its step relation;
    \<open>Merchant_Refine\<close> shows that every packet is a sequence of its steps. \<open>Merchant_Claims\<close> concludes that
    the shops make neither gold nor pieces and that a purchase is exact, shows two defects, and that a shop without
    its owner is closed in time.

  \<^bold>\<open>Levels and points.\<close> \<open>Level\<close>: bonuses, points and the change of a level of \<^verbatim>\<open>handler/level.rs\<close>.
  \<open>Experience\<close>: the recursive change of experience, which ends because each call finds the player a level lower or
  the experience seal off. \<open>Stat_Points\<close>: \<^verbatim>\<open>handler/stats.rs\<close> and \<^verbatim>\<open>handler/exp_seal.rs\<close>. \<open>Growth\<close>
  is the abstract machine of levels and points with its invariant, \<open>Growth_Safe\<close> shows that every operation is a
  sequence of its steps. \<open>Growth_Claims\<close>: the points are those of a level reached, a loss stops at level 5,
  gains and skill points are exact, and a lost level won back pays its skill points again.

  \<^bold>\<open>Parties.\<close> \<open>Party\<close> and \<open>Party_Handler\<close>: \<^verbatim>\<open>handler/party.rs\<close> and the party table of
  \<^verbatim>\<open>world/social.rs\<close>. \<open>Party_Machine\<close> is the abstract view (who is in which party, who is invited) with its
  step relation and invariant; \<open>Party_Safe\<close> shows that each packet and each leaving player is a sequence of its
  steps; \<open>Party_Claims\<close> has the promises and two behaviours that break what the code means to do.

  \<^bold>\<open>Maps.\<close> \<open>Smd\<close>, \<open>Smd_Parse\<close>: \<^verbatim>\<open>smd.rs\<close> and the queries of \<^verbatim>\<open>zone.rs\<close>; a parsed map never
  panics, and every map laid out as the format says is read back. \<open>Pathfind\<close>, \<open>Pathfind_Search\<close>,
  \<open>Pathfind_Safe\<close>: the A* search of \<^verbatim>\<open>systems/pathfind.rs\<close>, optimal over the walks of the grid. Its open
  set meets the locale \<open>priority_queue\<close>.

  \<^bold>\<open>Bounds and fuel.\<close> The search recurses on the code's own iteration budget (at least 500, at most 50,000),
  so no fuel is added; spending it is a result of its own. The walk back along the parents and the generation
  of a key are partial functions in the option monad; the walk is proved to return on every state the search
  reaches. The parser's loops recurse on counts read from the file. Amounts of items and gold are compared
  as natural numbers (\<open>unat\<close>) and their bounds are those of the code: 9,999 pieces a stack, 2,100,000,000
  coins.

  \<^bold>\<open>Not modelled.\<close> Combat, magic, regeneration, movement and the behaviour of NPCs and bots compute in
  floating point with random numbers. The database, the sockets, the login flow and the configuration are
  input and output around fixed packets. Quests run Lua scripts. Clans, wars, events, chat, letters, the
  auction of the king, game-master commands and the small client features keep most of their state in the database or
  relay messages. Item upgrades, drops, repair and the VIP warehouse depend on random numbers and database rows.
  Of the shops, the search over all shops of the server, the rankings and the audit log are left
  out. Two handlers that interleave between their locks are
  outside of the model, and so are the wake-ups of the asynchronous runtime.
\<close>

end
